(* ===== verification/Lasr_Prelude.thy ===== *)
theory Lasr_Prelude
  imports Main "HOL-Library.Word" "HOL-Library.AList"
begin

text \<open>
  What the component theories share: the machine integers of the crates, the outcome type
  for Rust's \<open>Result\<close> and for panics, sequencing of fallible mutators, hash maps with their
  unspecified iteration order, and the generic lemmas and theorem collections of the
  development.
\<close>

section \<open>Collections\<close>

text \<open>
  \<open>outcome_simps\<close>: rewriting of sequenced outcomes.
  \<open>frame\<close>: which fields an operation leaves alone.
  \<open>wf_intros\<close>: an operation keeps the well-formedness of its component.
\<close>

named_theorems outcome_simps
named_theorems frame
named_theorems wf_intros

section \<open>Machine integers\<close>

type_synonym u8 = "8 word"
type_synonym u64 = "64 word"
type_synonym i32 = "32 word"
type_synonym u256 = "256 word"

text \<open>
  \<open>construct_uint!\<close> (crates/types/src/token.rs) declares U256 as a 256-bit unsigned integer
  whose operators are checked: \<open>+\<close> and \<open>-\<close> abort the thread where the exact result does not
  fit. The model returns None there; the callers turn it into a panic.
\<close>

definition u256_add :: "u256 \<Rightarrow> u256 \<Rightarrow> u256 option" where
  "u256_add a b = (if unat a + unat b < 2 ^ 256 then Some (a + b) else None)"

definition u256_sub :: "u256 \<Rightarrow> u256 \<Rightarrow> u256 option" where
  "u256_sub a b = (if b \<le> a then Some (a - b) else None)"

lemma unat_add_u256: "unat a + unat b < 2 ^ 256 \<Longrightarrow> unat (a + b :: u256) = unat a + unat b"
  by (simp add: unat_word_ariths)

lemma unat_sub_u256: "b \<le> a \<Longrightarrow> unat (a - b :: u256) = unat a - unat b"
  by (rule unat_sub)

lemma u256_add_SomeD: "u256_add a b = Some c \<Longrightarrow> unat c = unat a + unat b"
  by (auto simp: u256_add_def unat_add_u256 split: if_splits)

lemma u256_sub_SomeD: "u256_sub a b = Some c \<Longrightarrow> unat c = unat a - unat b \<and> unat b \<le> unat a"
  by (auto simp: u256_sub_def unat_sub_u256 word_le_nat_alt split: if_splits)

lemma u256_add_None_iff: "u256_add a b = None \<longleftrightarrow> 2 ^ 256 \<le> unat a + unat b"
  by (auto simp: u256_add_def)

lemma u256_sub_None_iff: "u256_sub a b = None \<longleftrightarrow> a < b"
  by (auto simp: u256_sub_def not_le)

lemma u256_sub_add:
  assumes "u256_sub a v = Some a'" and "u256_add b v = Some b'"
  shows "unat a' + unat b' = unat a + unat b"
  using u256_sub_SomeD [OF assms(1)] u256_add_SomeD [OF assms(2)] by arith

lemma unat_u8_bound: "unat (b :: u8) < 256"
  using unsigned_less [of b] by simp

section \<open>Outcomes\<close>

text \<open>
  A call returns a value (\<open>Ok\<close>), returns an error value (\<open>Err\<close>) or panics. An error can be
  caught, mapped or ignored by the caller; a panic unwinds the thread and is never turned
  back into a value.
\<close>

datatype ('e, 'a) outcome = Ok 'a | Err 'e | Panic string

fun obind :: "('e, 'a) outcome \<Rightarrow> ('a \<Rightarrow> ('e, 'b) outcome) \<Rightarrow> ('e, 'b) outcome" where
  "obind (Ok a) f = f a"
| "obind (Err e) f = Err e"
| "obind (Panic p) f = Panic p"

fun map_err :: "('e \<Rightarrow> 'f) \<Rightarrow> ('e, 'a) outcome \<Rightarrow> ('f, 'a) outcome" where
  "map_err h (Ok a) = Ok a"
| "map_err h (Err e) = Err (h e)"
| "map_err h (Panic p) = Panic p"

fun ok_or :: "'a option \<Rightarrow> 'e \<Rightarrow> ('e, 'a) outcome" where
  "ok_or None e = Err e"
| "ok_or (Some a) e = Ok a"

fun or_panic :: "string \<Rightarrow> 'a option \<Rightarrow> ('e, 'a) outcome" where
  "or_panic p None = Panic p"
| "or_panic p (Some a) = Ok a"

fun is_Ok :: "('e, 'a) outcome \<Rightarrow> bool" where
  "is_Ok (Ok a) = True"
| "is_Ok (Err e) = False"
| "is_Ok (Panic p) = False"

fun is_Err :: "('e, 'a) outcome \<Rightarrow> bool" where
  "is_Err (Ok a) = False"
| "is_Err (Err e) = True"
| "is_Err (Panic p) = False"

text \<open>\<open>safe P r\<close>: the call does not panic, and a value it returns satisfies \<open>P\<close>.\<close>

fun safe :: "('a \<Rightarrow> bool) \<Rightarrow> ('e, 'a) outcome \<Rightarrow> bool" where
  "safe P (Ok a) = P a"
| "safe P (Err e) = True"
| "safe P (Panic p) = False"

lemma safe_obind:
  "safe Q r \<Longrightarrow> (\<And>a. Q a \<Longrightarrow> safe P (f a)) \<Longrightarrow> safe P (obind r f)"
  by (cases r) auto

lemma safe_map_err [simp]: "safe P (map_err h r) = safe P r"
  by (cases r) auto

lemma safe_True_iff: "safe (\<lambda>_. True) r \<longleftrightarrow> (\<forall>p. r \<noteq> Panic p)"
  by (cases r) auto

lemma safe_mono: "safe P r \<Longrightarrow> (\<And>a. P a \<Longrightarrow> Q a) \<Longrightarrow> safe Q r"
  by (cases r) auto

text \<open>
  A mutator on \<open>&mut self\<close> returns the new \<open>self\<close> beside its outcome: what was changed before an
  early return stays changed. \<open>and_then\<close> is the \<open>?\<close> operator between two such calls.
\<close>

type_synonym ('s, 'e, 'a) mutres = "'s \<times> ('e, 'a) outcome"

fun and_then :: "('s, 'e, 'a) mutres \<Rightarrow> ('s \<Rightarrow> 'a \<Rightarrow> ('s, 'e, 'b) mutres) \<Rightarrow> ('s, 'e, 'b) mutres" where
  "and_then (s, Ok a) f = f s a"
| "and_then (s, Err e) f = (s, Err e)"
| "and_then (s, Panic p) f = (s, Panic p)"

lemma obind_Ok_iff [outcome_simps]: "obind r f = Ok b \<longleftrightarrow> (\<exists>a. r = Ok a \<and> f a = Ok b)"
  by (cases r) auto

lemma map_err_Ok_iff [outcome_simps]: "map_err h r = Ok a \<longleftrightarrow> r = Ok a"
  by (cases r) auto

lemma map_err_Panic_iff [outcome_simps]: "map_err h r = Panic p \<longleftrightarrow> r = Panic p"
  by (cases r) auto

lemma ok_or_Ok_iff [outcome_simps]: "ok_or x e = Ok a \<longleftrightarrow> x = Some a"
  by (cases x) auto

lemma or_panic_Ok_iff [outcome_simps]: "or_panic p x = Ok a \<longleftrightarrow> x = Some a"
  by (cases x) auto

lemma is_Ok_iff [outcome_simps]: "is_Ok r \<longleftrightarrow> (\<exists>a. r = Ok a)"
  by (cases r) auto

lemma is_Err_iff [outcome_simps]: "is_Err r \<longleftrightarrow> (\<exists>e. r = Err e)"
  by (cases r) auto

lemma and_then_Ok_iff [outcome_simps]:
  "and_then m f = (t, Ok b) \<longleftrightarrow> (\<exists>s a. m = (s, Ok a) \<and> f s a = (t, Ok b))"
  by (cases m; cases "snd m") auto

text \<open>A property of the state that every step keeps is kept by a sequence, also on errors.\<close>

lemma and_then_inv:
  assumes "P (fst m)" and "\<And>s a. P s \<Longrightarrow> P (fst (f s a))"
  shows "P (fst (and_then m f))"
  using assms by (cases m; cases "snd m") auto

lemma and_then_frame:
  assumes "g (fst m) = x" and "\<And>s a. g s = x \<Longrightarrow> g (fst (f s a)) = x"
  shows "g (fst (and_then m f)) = x"
  by (rule and_then_inv [where P = "\<lambda>s. g s = x"]) (use assms in auto)

section \<open>Hash maps\<close>

text \<open>
  A \<open>HashMap\<close> is an association list with distinct keys. Its iteration order is unspecified:
  a function that iterates takes the order as an argument \<open>it\<close>, any function that returns a
  permutation of the entries.
\<close>

type_synonym ('k, 'v) hashmap = "('k \<times> 'v) list"

abbreviation hm_get :: "('k, 'v) hashmap \<Rightarrow> 'k \<rightharpoonup> 'v" where
  "hm_get \<equiv> map_of"

abbreviation hm_insert :: "'k \<Rightarrow> 'v \<Rightarrow> ('k, 'v) hashmap \<Rightarrow> ('k, 'v) hashmap" where
  "hm_insert \<equiv> AList.update"

abbreviation hm_remove :: "'k \<Rightarrow> ('k, 'v) hashmap \<Rightarrow> ('k, 'v) hashmap" where
  "hm_remove \<equiv> AList.delete"

definition hm_wf :: "('k, 'v) hashmap \<Rightarrow> bool" where
  "hm_wf m \<longleftrightarrow> distinct (map fst m)"

definition iter_order :: "(('k \<times> 'v) list \<Rightarrow> ('k \<times> 'v) list) \<Rightarrow> bool" where
  "iter_order it \<longleftrightarrow> (\<forall>m. distinct (map fst m) \<longrightarrow> set (it m) = set m \<and> distinct (map fst (it m)))"

lemma hm_wf_empty [simp, wf_intros]: "hm_wf []"
  by (simp add: hm_wf_def)

lemma hm_wf_insert [wf_intros]: "hm_wf m \<Longrightarrow> hm_wf (hm_insert k v m)"
  by (simp add: hm_wf_def distinct_update)

lemma hm_wf_remove [wf_intros]: "hm_wf m \<Longrightarrow> hm_wf (hm_remove k m)"
  by (simp add: hm_wf_def distinct_delete)

lemma hm_get_insert: "hm_get (hm_insert k v m) j = (if j = k then Some v else hm_get m j)"
  by (simp add: update_conv')

lemma hm_get_remove: "hm_get (hm_remove k m) j = (if j = k then None else hm_get m j)"
  by (simp add: delete_conv')

lemma iter_order_map_of:
  assumes "iter_order it" and "hm_wf m"
  shows "map_of (it m) = map_of m"
  using assms by (metis hm_wf_def iter_order_def map_of_inject_set)

lemma iter_order_set: "iter_order it \<Longrightarrow> hm_wf m \<Longrightarrow> set (it m) = set m"
  by (simp add: iter_order_def hm_wf_def)

lemma iter_order_id: "iter_order (\<lambda>m. m)"
  by (simp add: iter_order_def)

section \<open>Strings and lists\<close>

fun strip_prefix :: "string \<Rightarrow> string \<Rightarrow> string option" where
  "strip_prefix [] s = Some s"
| "strip_prefix (p # ps) [] = None"
| "strip_prefix (p # ps) (c # cs) = (if p = c then strip_prefix ps cs else None)"

lemma strip_prefix_append [simp]: "strip_prefix p (p @ s) = Some s"
  by (induction p) auto

text \<open>\<open>iter().position(..)\<close>: the index of the first element that satisfies the predicate.\<close>

fun position :: "('a \<Rightarrow> bool) \<Rightarrow> 'a list \<Rightarrow> nat option" where
  "position p [] = None"
| "position p (x # xs) = (if p x then Some 0 else map_option Suc (position p xs))"

lemma position_None_iff: "position p xs = None \<longleftrightarrow> (\<forall>x\<in>set xs. \<not> p x)"
  by (induction xs) auto

lemma position_Some: "position p xs = Some i \<Longrightarrow> i < length xs \<and> p (xs ! i)"
  by (induction xs arbitrary: i) (auto split: if_splits)

text \<open>\<open>Vec::remove(i)\<close> for an index in range.\<close>

definition remove_at :: "nat \<Rightarrow> 'a list \<Rightarrow> 'a list" where
  "remove_at i xs = take i xs @ drop (Suc i) xs"

lemma set_remove_at: "set (remove_at i xs) \<subseteq> set xs"
  by (auto simp: remove_at_def dest: in_set_takeD in_set_dropD)

lemma remove_at_Nil [simp]: "remove_at i [] = []"
  by (simp add: remove_at_def)

text \<open>A loop over a list with an early return threads the state and stops at the first failure.\<close>

fun for_each :: "('x \<Rightarrow> 's \<Rightarrow> ('s, 'e, unit) mutres) \<Rightarrow> 'x list \<Rightarrow> 's \<Rightarrow> ('s, 'e, unit) mutres" where
  "for_each f [] s = (s, Ok ())"
| "for_each f (x # xs) s = and_then (f x s) (\<lambda>s' _. for_each f xs s')"

lemma for_each_inv:
  assumes "\<And>x s. x \<in> set xs \<Longrightarrow> P s \<Longrightarrow> P (fst (f x s))" and "P s"
  shows "P (fst (for_each f xs s))"
  using assms
proof (induction xs arbitrary: s)
  case Nil
  then show ?case by simp
next
  case (Cons x xs)
  have "P (fst (f x s))" using Cons.prems by simp
  moreover have "P (fst (for_each f xs s'))" if "P s'" for s'
    using Cons.IH [of s'] Cons.prems(1) that by simp
  ultimately show ?case by (simp add: and_then_inv)
qed

lemma for_each_append:
  "for_each f (xs @ ys) s = and_then (for_each f xs s) (\<lambda>s' _. for_each f ys s')"
proof (induction xs arbitrary: s)
  case Nil
  then show ?case by simp
next
  case (Cons x xs)
  then show ?case
    by (cases "f x s"; cases "snd (f x s)") auto
qed

end
