(* ===== verification/Address_Model.thy ===== *)
theory Address_Model
  imports Lasr_Prelude
begin

text \<open>
  Addresses and their textual forms (crates/types/src/account.rs): the 20-byte \<open>Address\<close>, the
  full and the abbreviated hexadecimal rendering, the three parsers (\<open>from_hex\<close>, \<open>from_str\<close> and
  the serde visitor), derivation of an address from a public key, and namespaces. The \<open>hex\<close>
  crate is a parameter (record \<open>hex_crate\<close>); number formatting and parsing, \<open>split\<close> and
  \<open>trim\<close> of the standard library are defined here. Strings are ASCII.
\<close>

section \<open>Numbers as text\<close>

definition digit_char :: "nat \<Rightarrow> char" where
  "digit_char d = ''0123456789abcdef'' ! d"

text \<open>\<open>{}\<close> and \<open>{:x}\<close> of an unsigned integer: no leading zeros, a single zero for zero.\<close>

fun show_radix :: "nat \<Rightarrow> nat \<Rightarrow> string" where
  "show_radix r n =
     (if r < 2 \<or> n < r then [digit_char n] else show_radix r (n div r) @ [digit_char (n mod r)])"

declare show_radix.simps [simp del]

definition show_nat :: "nat \<Rightarrow> string" where
  "show_nat n = show_radix 10 n"

definition show_hex :: "nat \<Rightarrow> string" where
  "show_hex n = show_radix 16 n"

text \<open>\<open>{:02x}\<close> of a byte, and of every byte of a slice in order.\<close>

definition byte_hex :: "u8 \<Rightarrow> string" where
  "byte_hex b = [digit_char (unat b div 16), digit_char (unat b mod 16)]"

definition bytes_hex :: "u8 list \<Rightarrow> string" where
  "bytes_hex bs = concat (map byte_hex bs)"

text \<open>\<open>str::parse\<close> of an unsigned integer below \<open>bound\<close>: an optional plus sign, then decimal
  digits, at least one; anything else, and a value that does not fit, is an error.\<close>

definition dec_val :: "char \<Rightarrow> nat option" where
  "dec_val c = (let n = of_char c in if 48 \<le> n \<and> n \<le> 57 then Some (n - 48) else None)"

fun dec_digits :: "nat \<Rightarrow> string \<Rightarrow> nat option" where
  "dec_digits acc [] = Some acc"
| "dec_digits acc (c # cs) =
     (case dec_val c of None \<Rightarrow> None | Some d \<Rightarrow> dec_digits (acc * 10 + d) cs)"

definition strip_plus :: "string \<Rightarrow> string" where
  "strip_plus s = (case s of c # cs \<Rightarrow> if c = CHR ''+'' then cs else s | [] \<Rightarrow> s)"

definition parse_uint :: "nat \<Rightarrow> string \<Rightarrow> nat option" where
  "parse_uint bound s =
     (let ds = strip_plus s in
      if ds = [] then None
      else case dec_digits 0 ds of
             None \<Rightarrow> None
           | Some n \<Rightarrow> if n < bound then Some n else None)"

text \<open>\<open>str::split\<close> at a character (never empty: an empty string splits into one empty part).\<close>

fun str_split :: "char \<Rightarrow> string \<Rightarrow> string list" where
  "str_split sep [] = [[]]"
| "str_split sep (c # cs) =
     (if c = sep then [] # str_split sep cs
      else case str_split sep cs of [] \<Rightarrow> [[c]] | p # ps \<Rightarrow> (c # p) # ps)"

definition is_white :: "char \<Rightarrow> bool" where
  "is_white c = ((of_char c :: nat) \<in> {9, 10, 11, 12, 13, 32})"

definition str_trim :: "string \<Rightarrow> string" where
  "str_trim s = rev (dropWhile is_white (rev (dropWhile is_white s)))"

definition starts_with :: "char \<Rightarrow> string \<Rightarrow> bool" where
  "starts_with c s = (case s of [] \<Rightarrow> False | d # ds \<Rightarrow> d = c)"

definition ends_with :: "char \<Rightarrow> string \<Rightarrow> bool" where
  "ends_with c s = starts_with c (rev s)"

section \<open>The hex crate\<close>

datatype from_hex_error = InvalidHexCharacter char nat | OddLength | InvalidStringLength

record hex_crate =
  hex_encode :: "u8 list \<Rightarrow> string"
  hex_decode :: "string \<Rightarrow> (from_hex_error, u8 list) outcome"

text \<open>Documented behaviour: lower-case encoding, two digits a byte, and decoding inverts it.\<close>

definition hex_laws :: "hex_crate \<Rightarrow> bool" where
  "hex_laws hx \<longleftrightarrow>
     (\<forall>bs. hex_encode hx bs = bytes_hex bs) \<and> (\<forall>bs. hex_decode hx (bytes_hex bs) = Ok bs)"

section \<open>Addresses\<close>

datatype address = Address (addr_inner: "u8 list")

definition wf_address :: "address \<Rightarrow> bool" where
  "wf_address a \<longleftrightarrow> length (addr_inner a) = 20"

text \<open>Errors of the serde visitors: a wrapped decoder error, a wrapped number error or a message.\<close>

datatype de_error = De_Hex from_hex_error | De_ParseInt string | De_Custom string

definition verse_addr :: address where
  "verse_addr = Address ((replicate 20 0)[19 := 1])"

definition eth_addr :: address where
  "eth_addr = Address (replicate 20 0)"

definition lower_hex :: "address \<Rightarrow> string" where
  "lower_hex a = bytes_hex (addr_inner a)"

definition to_full_string :: "address \<Rightarrow> string" where
  "to_full_string a = ''0x'' @ lower_hex a"

definition serialize_address :: "hex_crate \<Rightarrow> address \<Rightarrow> string" where
  "serialize_address hx a = ''0x'' @ hex_encode hx (addr_inner a)"

text \<open>\<open>Display\<close> abbreviates to the first and the last four digits; slicing panics out of range.\<close>

definition display_address :: "hex_crate \<Rightarrow> address \<Rightarrow> (unit, string) outcome" where
  "display_address hx a =
     (let hex_str = hex_encode hx (addr_inner a) in
      if length hex_str < 4 then Panic ''slice index out of range''
      else Ok (''0x'' @ take 4 hex_str @ ''...'' @ drop (length hex_str - 4) hex_str))"

definition from_hex :: "hex_crate \<Rightarrow> string \<Rightarrow> (from_hex_error, address) outcome" where
  "from_hex hx s =
     (let hex_str = (case strip_prefix ''0x'' s of Some v \<Rightarrow> v | None \<Rightarrow> s) in
      obind (hex_decode hx hex_str) (\<lambda>bytes.
      if length bytes \<noteq> 20 then Err OddLength else Ok (Address bytes)))"

definition from_str :: "hex_crate \<Rightarrow> string \<Rightarrow> (from_hex_error, address) outcome" where
  "from_str hx s =
     (let hex_str = (case strip_prefix ''0x'' s of Some v \<Rightarrow> v | None \<Rightarrow> s) in
      if hex_str = ''0'' then Ok (Address (replicate 20 0))
      else if hex_str = ''1'' then Ok (Address ((replicate 20 0)[19 := 1]))
      else obind (hex_decode hx hex_str) (\<lambda>decoded.
           if length decoded \<noteq> 20 then Err InvalidStringLength else Ok (Address decoded)))"

text \<open>The bracketed list of numbers both visitors accept; \<open>collect\<close> stops at the first error.\<close>

fun collect_results :: "('a \<Rightarrow> ('e, 'b) outcome) \<Rightarrow> 'a list \<Rightarrow> ('e, 'b list) outcome" where
  "collect_results f [] = Ok []"
| "collect_results f (x # xs) =
     obind (f x) (\<lambda>y. obind (collect_results f xs) (\<lambda>ys. Ok (y # ys)))"

definition parse_u8_part :: "string \<Rightarrow> (de_error, u8) outcome" where
  "parse_u8_part s =
     (case parse_uint 256 (str_trim s) of
        None \<Rightarrow> Err (De_ParseInt (str_trim s)) | Some n \<Rightarrow> Ok (of_nat n))"

definition parse_byte_list :: "string \<Rightarrow> (de_error, u8 list) outcome" where
  "parse_byte_list v =
     collect_results parse_u8_part (str_split (CHR '','') (butlast (tl v)))"

definition address_visit_str :: "hex_crate \<Rightarrow> string \<Rightarrow> (de_error, address) outcome" where
  "address_visit_str hx value =
     (case strip_prefix ''0x'' value of
        Some v \<Rightarrow>
          obind (map_err De_Hex (hex_decode hx v)) (\<lambda>bytes.
          if length bytes = 20 then Ok (Address bytes)
          else Err (De_Custom ''Hex string does not represent a valid Address''))
      | None \<Rightarrow>
          if starts_with (CHR ''['') value \<and> ends_with (CHR '']'') value then
            obind (parse_byte_list value) (\<lambda>bytes.
            if length bytes = 20 then Ok (Address bytes)
            else Err (De_Custom ''invalid length for address''))
          else Err (De_Custom ''Invalid address format''))"

text \<open>
  \<open>From<PublicKey>\<close>: Keccak-256 of the uncompressed key without its leading tag byte, last 20
  bytes. \<open>From<[u8; 32]>\<close> hashes the 32 bytes the same way. \<open>keccak\<close> is the sha3 crate's hash.
\<close>

definition last_20 :: "u8 list \<Rightarrow> u8 list" where
  "last_20 result = drop (length result - 20) result"

definition address_from_pubkey :: "(u8 list \<Rightarrow> u8 list) \<Rightarrow> u8 list \<Rightarrow> address" where
  "address_from_pubkey keccak serialized_pk =
     (if length serialized_pk = 65 then Address (last_20 (keccak (tl serialized_pk)))
      else Address (last_20 (keccak serialized_pk)))"

definition address_from_32 :: "(u8 list \<Rightarrow> u8 list) \<Rightarrow> u8 list \<Rightarrow> address" where
  "address_from_32 keccak value = Address (last_20 (keccak value))"

section \<open>Namespaces\<close>

datatype namespace = Namespace string

datatype address_or_namespace = AON_Address address | AON_Namespace namespace | This

section \<open>Lemmas\<close>

lemma digit_char_nat:
  assumes "d < 10"
  shows "dec_val (digit_char d) = Some d"
proof -
  have "d \<in> {0, 1, 2, 3, 4, 5, 6, 7, 8, 9}" using assms by auto
  then show ?thesis by (auto simp: dec_val_def digit_char_def)
qed

lemma dec_digits_append:
  "dec_digits a (xs @ ys) = (case dec_digits a xs of None \<Rightarrow> None | Some b \<Rightarrow> dec_digits b ys)"
  by (induction xs arbitrary: a) (auto split: option.splits)

lemma dec_digits_show: "dec_digits 0 (show_radix 10 n) = Some n"
proof (induction n rule: less_induct)
  case (less n)
  show ?case
  proof (cases "n < 10")
    case True
    then show ?thesis by (subst show_radix.simps) (simp add: digit_char_nat)
  next
    case False
    then have "dec_digits 0 (show_radix 10 (n div 10)) = Some (n div 10)"
      by (intro less) simp
    then show ?thesis using False
      by (subst show_radix.simps) (simp add: dec_digits_append digit_char_nat)
  qed
qed

lemma digit_char_bounds:
  assumes "d < 10"
  shows "(48::nat) \<le> of_char (digit_char d) \<and> (of_char (digit_char d) :: nat) \<le> 57"
proof -
  have "d \<in> {0, 1, 2, 3, 4, 5, 6, 7, 8, 9}" using assms by auto
  then show ?thesis by (auto simp: digit_char_def)
qed

lemma show_radix_chars:
  "c \<in> set (show_radix 10 n) \<Longrightarrow> (48::nat) \<le> of_char c \<and> (of_char c :: nat) \<le> 57"
proof (induction n rule: less_induct)
  case (less n)
  show ?case
  proof (cases "n < 10")
    case True
    then show ?thesis using less.prems digit_char_bounds
      by (subst (asm) show_radix.simps) simp
  next
    case False
    then have "c \<in> set (show_radix 10 (n div 10)) \<or> c = digit_char (n mod 10)"
      using less.prems by (subst (asm) show_radix.simps) auto
    then show ?thesis using less.IH [of "n div 10"] False digit_char_bounds [of "n mod 10"] by auto
  qed
qed

lemma show_radix_not_Nil [simp]: "show_radix r n \<noteq> []"
  by (subst show_radix.simps) simp

lemma parse_uint_show: "n < bound \<Longrightarrow> parse_uint bound (show_nat n) = Some n"
proof -
  assume "n < bound"
  have "strip_plus (show_nat n) = show_nat n"
    using show_radix_chars [of "CHR ''+''" n]
    by (auto simp: strip_plus_def show_nat_def split: list.splits)
  then show ?thesis using \<open>n < bound\<close>
    by (simp add: parse_uint_def Let_def dec_digits_show show_nat_def)
qed

lemma str_trim_id: "(\<And>c. c \<in> set s \<Longrightarrow> \<not> is_white c) \<Longrightarrow> str_trim s = s"
proof -
  assume *: "\<And>c. c \<in> set s \<Longrightarrow> \<not> is_white c"
  have drop_id: "dropWhile is_white t = t" if "\<And>c. c \<in> set t \<Longrightarrow> \<not> is_white c" for t
    using that by (cases t) auto
  have "dropWhile is_white (rev s) = rev s" "dropWhile is_white s = s"
    using drop_id [of "rev s"] drop_id [of s] * by simp_all
  then show ?thesis by (simp add: str_trim_def)
qed

lemma str_trim_show: "str_trim (show_nat n) = show_nat n"
  by (rule str_trim_id) (use show_radix_chars in \<open>fastforce simp: is_white_def show_nat_def\<close>)

lemma parse_u8_part_show: "parse_u8_part (show_nat (unat b)) = Ok b"
proof -
  have "unat b < 256" by (rule unat_u8_bound)
  then show ?thesis by (simp add: parse_u8_part_def str_trim_show parse_uint_show)
qed

fun join_with :: "char \<Rightarrow> string list \<Rightarrow> string" where
  "join_with sep [] = []"
| "join_with sep [p] = p"
| "join_with sep (p # q # ps) = p @ sep # join_with sep (q # ps)"

lemma str_split_no_sep: "sep \<notin> set p \<Longrightarrow> str_split sep p = [p]"
  by (induction p) auto

lemma str_split_append: "sep \<notin> set p \<Longrightarrow> str_split sep (p @ sep # s) = p # str_split sep s"
  by (induction p) auto

lemma str_split_join:
  assumes "ps \<noteq> []" and "\<And>p. p \<in> set ps \<Longrightarrow> sep \<notin> set p"
  shows "str_split sep (join_with sep ps) = ps"
  using assms by (induction sep ps rule: join_with.induct) (auto simp: str_split_no_sep str_split_append)

lemma collect_results_map:
  "(\<And>x. x \<in> set xs \<Longrightarrow> f (g x) = Ok x) \<Longrightarrow> collect_results f (map g xs) = Ok xs"
  by (induction xs) auto

text \<open>The bracketed decimal list of some bytes, and that the visitors read it back.\<close>

definition byte_list_literal :: "u8 list \<Rightarrow> string" where
  "byte_list_literal bs =
     CHR ''['' # join_with (CHR '','') (map (\<lambda>b. show_nat (unat b)) bs) @ [CHR '']'']"

lemma parse_byte_list_literal:
  assumes "bs \<noteq> []"
  shows "parse_byte_list (byte_list_literal bs) = Ok bs"
proof -
  have no_comma: "CHR '','' \<notin> set (show_nat n)" for n
    using show_radix_chars [of "CHR '',''" n] by (auto simp: show_nat_def)
  have "str_split (CHR '','') (join_with (CHR '','') (map (\<lambda>b. show_nat (unat b)) bs))
        = map (\<lambda>b. show_nat (unat b)) bs"
    by (rule str_split_join) (use assms no_comma in auto)
  then show ?thesis
    by (simp add: parse_byte_list_def byte_list_literal_def butlast_append collect_results_map
        parse_u8_part_show)
qed

lemma byte_hex_length [simp]: "length (byte_hex b) = 2"
  by (simp add: byte_hex_def)

lemma bytes_hex_length [simp]: "length (bytes_hex bs) = 2 * length bs"
  by (induction bs) (auto simp: bytes_hex_def)

lemma hex_decode_bytes_hex: "hex_laws hx \<Longrightarrow> hex_decode hx (bytes_hex bs) = Ok bs"
  by (simp add: hex_laws_def)

lemma hex_encode_bytes_hex: "hex_laws hx \<Longrightarrow> hex_encode hx bs = bytes_hex bs"
  by (simp add: hex_laws_def)

lemma bytes_hex_not_short: "length bs = 20 \<Longrightarrow> bytes_hex bs \<noteq> [c]"
proof
  assume "length bs = 20" and "bytes_hex bs = [c]"
  then show False using bytes_hex_length [of bs] by (simp del: bytes_hex_length)
qed

section \<open>A concrete hex crate\<close>

text \<open>A decoder for lower-case digits that satisfies the laws; the witnesses evaluate with it.\<close>

definition nibble_val :: "char \<Rightarrow> nat option" where
  "nibble_val c =
     (let n = of_char c in
      if 48 \<le> n \<and> n \<le> 57 then Some (n - 48)
      else if 97 \<le> n \<and> n \<le> 102 then Some (n - 87) else None)"

fun ref_hex_decode :: "string \<Rightarrow> (from_hex_error, u8 list) outcome" where
  "ref_hex_decode [] = Ok []"
| "ref_hex_decode [c] = Err OddLength"
| "ref_hex_decode (c # d # cs) =
     (case nibble_val c of
        None \<Rightarrow> Err (InvalidHexCharacter c 0)
      | Some h \<Rightarrow> (case nibble_val d of
            None \<Rightarrow> Err (InvalidHexCharacter d 1)
          | Some l \<Rightarrow> obind (ref_hex_decode cs) (\<lambda>bs. Ok (of_nat (16 * h + l) # bs))))"

definition hex_ref :: hex_crate where
  "hex_ref = \<lparr>hex_encode = bytes_hex, hex_decode = (\<lambda>s. if odd (length s) then Err OddLength else ref_hex_decode s)\<rparr>"

lemma nibble_digit:
  assumes "d < 16"
  shows "nibble_val (digit_char d) = Some d"
proof -
  have "list_all (\<lambda>d. nibble_val (digit_char d) = Some d) [0..<16]" by code_simp
  then show ?thesis using assms by (simp add: list_all_iff)
qed

lemma ref_hex_decode_bytes_hex: "ref_hex_decode (bytes_hex bs) = Ok bs"
proof (induction bs)
  case Nil
  then show ?case by (simp add: bytes_hex_def)
next
  case (Cons b bs)
  have "unat b < 256" by (rule unat_u8_bound)
  then have "unat b div 16 < 16" by auto
  then show ?case using Cons
    by (simp add: bytes_hex_def byte_hex_def nibble_digit flip: of_nat_mult of_nat_add)
qed

lemma hex_laws_ref: "hex_laws hex_ref"
  by (simp add: hex_laws_def hex_ref_def ref_hex_decode_bytes_hex)

lemma bytes_hex_inj: "bytes_hex bs = bytes_hex cs \<longleftrightarrow> bs = cs"
  using ref_hex_decode_bytes_hex by (metis outcome.inject(1))

lemma to_full_string_inj [simp]: "to_full_string a = to_full_string b \<longleftrightarrow> a = b"
  by (cases a; cases b) (simp add: to_full_string_def lower_hex_def bytes_hex_inj)

text \<open>Digits are neither the letter of the prefix nor a bracket.\<close>

lemma digit_char_plain:
  assumes "d < 16"
  shows "digit_char d \<noteq> CHR ''x'' \<and> digit_char d \<noteq> CHR ''[''"
proof -
  have "list_all (\<lambda>d. digit_char d \<noteq> CHR ''x'' \<and> digit_char d \<noteq> CHR ''['') [0..<16]" by code_simp
  then show ?thesis using assms by (simp add: list_all_iff)
qed

lemma bytes_hex_two:
  assumes "bs \<noteq> []"
  obtains h l cs where "bytes_hex bs = digit_char h # digit_char l # cs" and "h < 16" and "l < 16"
proof -
  obtain b cs where "bs = b # cs" using assms by (cases bs) auto
  moreover have "unat b div 16 < 16" using unat_u8_bound [of b] by auto
  ultimately show thesis
    by (intro that [of "unat b div 16" "unat b mod 16" "bytes_hex cs"]) (simp_all add: bytes_hex_def byte_hex_def)
qed

lemma bytes_hex_no_prefix: "bs \<noteq> [] \<Longrightarrow> strip_prefix ''0x'' (bytes_hex bs) = None"
  by (erule bytes_hex_two) (auto dest!: digit_char_plain)

lemma bytes_hex_no_bracket: "bs \<noteq> [] \<Longrightarrow> \<not> starts_with (CHR ''['') (bytes_hex bs)"
  by (erule bytes_hex_two) (use digit_char_plain in \<open>auto simp: starts_with_def\<close>)

lemma hex_ref_odd: "odd (length s) \<Longrightarrow> hex_decode hex_ref s = Err OddLength"
  by (simp add: hex_ref_def)

section \<open>Properties\<close>

text \<open>
  C37: which texts of an address are read back. The system writes an address as its full string, as
  bare lower-case digits, in the serialised form and in the abbreviated form of \<open>Display\<close>. The full
  string is read back to the same address by all three parsers, the bare digits by \<open>from_hex\<close> and
  \<open>from_str\<close> (the serde visitor asks for a prefix or a bracket), and the serialised form by the
  serde visitor. The abbreviated form is written for every address and read back by none of them:
  it has an odd number of digits, which the hex crate refuses.
\<close>

theorem address_text_roundtrip:
  assumes "hex_laws hx" and "wf_address a" and "\<And>s. odd (length s) \<Longrightarrow> hex_decode hx s = Err OddLength"
  shows "from_hex hx (to_full_string a) = Ok a \<and> from_str hx (to_full_string a) = Ok a \<and>
         address_visit_str hx (to_full_string a) = Ok a \<and>
         from_hex hx (lower_hex a) = Ok a \<and> from_str hx (lower_hex a) = Ok a \<and>
         address_visit_str hx (lower_hex a) = Err (De_Custom ''Invalid address format'') \<and>
         address_visit_str hx (serialize_address hx a) = Ok a \<and>
         (\<exists>t. display_address hx a = Ok t \<and> from_hex hx t = Err OddLength \<and> from_str hx t = Err OddLength \<and>
            address_visit_str hx t = Err (De_Hex OddLength))"
proof -
  obtain bs where a: "a = Address bs" and len: "length bs = 20"
    using assms(2) by (cases a) (auto simp: wf_address_def)
  have ne: "bytes_hex bs \<noteq> ''0''" "bytes_hex bs \<noteq> ''1''" "bs \<noteq> []"
    using bytes_hex_not_short [OF len] len by auto
  define t where "t = take 4 (bytes_hex bs) @ ''...'' @ drop 36 (bytes_hex bs)"
  have t: "length t = 11" by (simp add: t_def len)
  then have "hex_decode hx t = Err OddLength" "t \<noteq> ''0''" "t \<noteq> ''1''" using assms(3) by auto
  then have short: "from_hex hx (''0x'' @ t) = Err OddLength \<and> from_str hx (''0x'' @ t) = Err OddLength \<and>
      address_visit_str hx (''0x'' @ t) = Err (De_Hex OddLength)"
    by (simp add: from_hex_def from_str_def address_visit_str_def)
  have "display_address hx a = Ok (''0x'' @ t)"
    using assms(1) len by (simp add: a t_def display_address_def hex_encode_bytes_hex Let_def)
  then show ?thesis
    using ne len short assms(1) bytes_hex_no_prefix [OF ne(3)] bytes_hex_no_bracket [OF ne(3)]
    by (simp add: a from_hex_def from_str_def address_visit_str_def to_full_string_def
        lower_hex_def serialize_address_def hex_decode_bytes_hex hex_encode_bytes_hex)
qed

theorem address_text_roundtrip_witness:
  "from_hex hex_ref (to_full_string verse_addr) = Ok verse_addr \<and>
   address_visit_str hex_ref (serialize_address hex_ref verse_addr) = Ok verse_addr \<and>
   (\<exists>t. display_address hex_ref verse_addr = Ok t \<and> from_str hex_ref t = Err OddLength)"
  using address_text_roundtrip [OF hex_laws_ref _ hex_ref_odd, of verse_addr]
  by (simp add: wf_address_def verse_addr_def) blast

text \<open>A bracketed list of the bytes, which nothing here writes, is read by the serde visitor as well.\<close>

lemma byte_list_read:
  assumes "wf_address a"
  shows "address_visit_str hx (byte_list_literal (addr_inner a)) = Ok a"
proof -
  obtain bs where a: "a = Address bs" and len: "length bs = 20"
    using assms by (cases a) (auto simp: wf_address_def)
  have "bs \<noteq> []" using len by auto
  moreover have "starts_with (CHR ''['') (byte_list_literal bs)" "ends_with (CHR '']'') (byte_list_literal bs)"
    by (simp_all add: byte_list_literal_def starts_with_def ends_with_def)
  ultimately show ?thesis
    using parse_byte_list_literal [of bs] len
    by (simp add: a address_visit_str_def byte_list_literal_def [of bs])
qed

text \<open>
  No parser returns a malformed address or panics: whatever the text and whatever the
  decoder answers (it does not panic itself), a parser returns an address of 20 bytes or an
  error.
\<close>

theorem address_parsers_wf:
  assumes "\<And>t p. hex_decode hx t \<noteq> Panic p"
  shows "safe wf_address (from_hex hx s) \<and> safe wf_address (from_str hx s) \<and>
         safe wf_address (address_visit_str hx s)"
proof -
  have dec: "safe (\<lambda>_. True) (hex_decode hx t)" for t
    using assms by (simp add: safe_True_iff)
  have lst: "safe (\<lambda>_. True) (collect_results parse_u8_part ps)" for ps
  proof (induction ps)
    case (Cons p ps)
    have "safe (\<lambda>_. True) (parse_u8_part p)"
      by (simp add: parse_u8_part_def split: option.split)
    then show ?case using Cons by (auto intro!: safe_obind)
  qed simp
  note step = safe_obind [where Q = "\<lambda>_. True"]
  have "safe wf_address (from_hex hx s)"
    unfolding from_hex_def Let_def by (rule step) (simp_all add: dec wf_address_def)
  moreover have "safe wf_address (from_str hx s)"
    unfolding from_str_def Let_def if_split [of "safe wf_address"]
    by (intro conjI impI step) (simp_all add: dec wf_address_def)
  moreover have "safe wf_address (address_visit_str hx s)"
    unfolding address_visit_str_def parse_byte_list_def option.split [of "safe wf_address"]
      if_split [of "safe wf_address"]
    by (intro conjI impI allI step) (simp_all add: dec lst wf_address_def)
  ultimately show ?thesis by simp
qed

theorem address_parsers_wf_witness:
  "safe wf_address (from_hex hex_ref ''0x12'') \<and> safe wf_address (from_str hex_ref ''0x12'') \<and>
   safe wf_address (address_visit_str hex_ref ''0x12'')"
proof (rule address_parsers_wf)
  fix t p
  have "ref_hex_decode t \<noteq> Panic p"
    by (induction t arbitrary: p rule: ref_hex_decode.induct) (auto split: option.splits elim!: obind.elims)
  then show "hex_decode hex_ref t \<noteq> Panic p" by (simp add: hex_ref_def)
qed

end
