(* ===== verification/Token_Model.thy ===== *)
theory Token_Model
  imports Address_Model
begin

text \<open>
  Tokens (crates/types/src/token.rs): the textual form of U256, the \<open>ArbitraryData\<close> and
  \<open>Metadata\<close> maps, the \<open>Token\<close> record with its balance operations, its token ids and its field
  updates. A \<open>BTreeMap\<close> that is only looked up, inserted into, removed from and extended is a
  map; its ordering is not observed by this code.
\<close>

section \<open>U256 as text\<close>

fun be_bytes :: "nat \<Rightarrow> nat \<Rightarrow> u8 list" where
  "be_bytes 0 n = []"
| "be_bytes (Suc k) n = be_bytes k (n div 256) @ [of_nat (n mod 256)]"

definition u256_from_be :: "u8 list \<Rightarrow> u256" where
  "u256_from_be bs = foldl (\<lambda>acc b. acc * 256 + of_nat (unat b)) 0 bs"

definition show_hex_pad :: "nat \<Rightarrow> nat \<Rightarrow> string" where
  "show_hex_pad w n = (let s = show_hex n in replicate (w - length s) (CHR ''0'') @ s)"

definition serialize_u256 :: "u256 \<Rightarrow> string" where
  "serialize_u256 x = ''0x'' @ show_hex_pad 64 (unat x)"

definition parse_u64_part :: "string \<Rightarrow> (de_error, u64) outcome" where
  "parse_u64_part s =
     (case parse_uint (2 ^ 64) (str_trim s) of
        None \<Rightarrow> Err (De_ParseInt (str_trim s)) | Some n \<Rightarrow> Ok (of_nat n))"

text \<open>\<open>U256([u64; 4])\<close>: the limbs in little-endian order.\<close>

definition u256_from_limbs :: "u64 list \<Rightarrow> u256" where
  "u256_from_limbs ns = foldr (\<lambda>n acc. of_nat (unat n) + 2 ^ 64 * acc) ns 0"

definition u256_visit_str :: "hex_crate \<Rightarrow> string \<Rightarrow> (de_error, u256) outcome" where
  "u256_visit_str hx v =
     (let value = (case strip_prefix ''0x'' v of Some w \<Rightarrow> w | None \<Rightarrow> v) in
      if starts_with (CHR ''['') value \<and> ends_with (CHR '']'') v then
        obind (collect_results parse_u64_part (str_split (CHR '','') (butlast (tl v)))) (\<lambda>nums.
        if length nums = 4 then Ok (u256_from_limbs nums)
        else Err (De_Custom ''Array does not have 4 elements''))
      else if length value = 64 then
        obind (map_err De_Hex (hex_decode hx value)) (\<lambda>decoded.
        if length decoded = 32 then Ok (u256_from_be decoded)
        else Err (De_Custom ''decoded result is improper length''))
      else Err (De_Custom ''Invalid format for U256''))"

section \<open>Arbitrary data and metadata\<close>

type_synonym arbitrary_data = "string \<rightharpoonup> string"
type_synonym metadata = "string \<rightharpoonup> string"

definition kv_insert :: "string \<Rightarrow> string \<Rightarrow> (string \<rightharpoonup> string) \<Rightarrow> (string \<rightharpoonup> string)" where
  "kv_insert k v m = m(k \<mapsto> v)"

definition kv_remove :: "string \<Rightarrow> (string \<rightharpoonup> string) \<Rightarrow> (string \<rightharpoonup> string)" where
  "kv_remove k m = m(k := None)"

definition kv_extend :: "(string \<rightharpoonup> string) \<Rightarrow> (string \<rightharpoonup> string) \<Rightarrow> (string \<rightharpoonup> string)" where
  "kv_extend iter m = m ++ iter"

section \<open>Errors\<close>

datatype secp_error =
  IncorrectSignature | InvalidMessage | InvalidSignature | InvalidRecoveryId | SecpOther string

type_synonym actor_name = string

text \<open>\<open>Box<dyn Error + Send>\<close>, by the concrete errors the crates put in it.\<close>

datatype boxed_error =
  IoError string | ToTokenError string | Secp secp_error | Ethers string
| ValidatorCustom string | FailedProgramUpdate address_or_namespace string
| BatcherCustom string | MessagingErr actor_name

section \<open>Tokens\<close>

datatype status = Locked | Free

record token =
  tok_program_id :: address
  tok_owner_id :: address
  tok_balance :: u256
  tok_metadata :: metadata
  tok_token_ids :: "u256 list"
  tok_allowance :: "address \<rightharpoonup> u256"
  tok_approvals :: "address \<rightharpoonup> u256 list"
  tok_data :: arbitrary_data
  tok_status :: status

datatype metadata_value = MD_Insert string string | MD_Extend "string \<rightharpoonup> string" | MD_Remove string
datatype data_value = D_Insert string string | D_Extend "string \<rightharpoonup> string" | D_Remove string
datatype allowance_value =
  AL_Insert address u256 | AL_Extend "(address \<times> u256) list" | AL_Remove address u256
| AL_Revoke address
datatype approvals_value =
  AP_Insert address "u256 list" | AP_Extend "(address \<times> u256 list) list"
| AP_Remove address "u256 list" | AP_Revoke address
datatype status_value = Reverse | Lock | Unlock

datatype token_field =
  TF_ProgramId | TF_OwnerId | TF_Balance | TF_Metadata | TF_TokenIds | TF_Allowance
| TF_Approvals | TF_Data | TF_Status

datatype token_field_value =
  TV_Metadata metadata_value | TV_Allowance allowance_value | TV_Approvals approvals_value
| TV_Data data_value | TV_Status status_value

type_synonym token_result = "(token, boxed_error, unit) mutres"

definition set_metadata :: "metadata \<Rightarrow> token \<Rightarrow> token" where
  "set_metadata m t = t\<lparr>tok_metadata := m\<rparr>"

definition set_data :: "arbitrary_data \<Rightarrow> token \<Rightarrow> token" where
  "set_data d t = t\<lparr>tok_data := d\<rparr>"

definition overflow :: string where
  "overflow = ''arithmetic operation overflow''"

text \<open>\<open>self.balance += amount\<close> and \<open>self.balance -= amount\<close>, which abort where they do not fit.\<close>

definition balance_add_assign :: "u256 \<Rightarrow> token \<Rightarrow> token_result" where
  "balance_add_assign amount t =
     (case u256_add (tok_balance t) amount of
        None \<Rightarrow> (t, Panic overflow) | Some b \<Rightarrow> (t\<lparr>tok_balance := b\<rparr>, Ok ()))"

definition balance_sub_assign :: "u256 \<Rightarrow> token \<Rightarrow> token_result" where
  "balance_sub_assign amount t =
     (case u256_sub (tok_balance t) amount of
        None \<Rightarrow> (t, Panic overflow) | Some b \<Rightarrow> (t\<lparr>tok_balance := b\<rparr>, Ok ()))"

definition debit :: "u256 \<Rightarrow> token \<Rightarrow> token_result" where
  "debit amount t =
     (if amount > tok_balance t then (t, Err (IoError ''transfer amount exceeds balance''))
      else balance_sub_assign amount t)"

definition credit :: "u256 \<Rightarrow> token \<Rightarrow> token_result" where
  "credit amount t = balance_add_assign amount t"

definition remove_token_ids :: "u256 list \<Rightarrow> token \<Rightarrow> token_result" where
  "remove_token_ids ids t =
     (let positions = List.map_filter (\<lambda>nft. position (\<lambda>i. i = nft) (tok_token_ids t)) ids in
      if length positions \<noteq> length ids
      then (t, Err (IoError ''one or more of the token ids is not owned by the from account''))
      else (t\<lparr>tok_token_ids := filter (\<lambda>i. i \<notin> set ids) (tok_token_ids t)\<rparr>, Ok ()))"

definition add_token_ids :: "u256 list \<Rightarrow> token \<Rightarrow> token_result" where
  "add_token_ids ids t = (t\<lparr>tok_token_ids := tok_token_ids t @ ids\<rparr>, Ok ())"

fun apply_data_update :: "data_value \<Rightarrow> token \<Rightarrow> token_result" where
  "apply_data_update (D_Insert k v) t = (t\<lparr>tok_data := kv_insert k v (tok_data t)\<rparr>, Ok ())"
| "apply_data_update (D_Extend iter) t = (t\<lparr>tok_data := kv_extend iter (tok_data t)\<rparr>, Ok ())"
| "apply_data_update (D_Remove k) t = (t\<lparr>tok_data := kv_remove k (tok_data t)\<rparr>, Ok ())"

fun apply_metadata_update :: "metadata_value \<Rightarrow> token \<Rightarrow> token_result" where
  "apply_metadata_update (MD_Insert k v) t =
     (t\<lparr>tok_metadata := kv_insert k v (tok_metadata t)\<rparr>, Ok ())"
| "apply_metadata_update (MD_Extend iter) t =
     (t\<lparr>tok_metadata := kv_extend iter (tok_metadata t)\<rparr>, Ok ())"
| "apply_metadata_update (MD_Remove k) t =
     (t\<lparr>tok_metadata := kv_remove k (tok_metadata t)\<rparr>, Ok ())"

text \<open>\<open>Extend\<close> inserts the pairs in order, so the last pair of a key wins.\<close>

definition extend_pairs :: "('k \<times> 'v) list \<Rightarrow> ('k \<rightharpoonup> 'v) \<Rightarrow> ('k \<rightharpoonup> 'v)" where
  "extend_pairs kvs m = foldl (\<lambda>m kv. m(fst kv \<mapsto> snd kv)) m kvs"

fun apply_approvals_update :: "approvals_value \<Rightarrow> token \<Rightarrow> token_result" where
  "apply_approvals_update (AP_Insert key value) t =
     (case tok_approvals t key of
        Some entry \<Rightarrow> (t\<lparr>tok_approvals := (tok_approvals t)(key \<mapsto> entry @ value)\<rparr>, Ok ())
      | None \<Rightarrow> (t\<lparr>tok_approvals := (tok_approvals t)(key \<mapsto> value)\<rparr>, Ok ()))"
| "apply_approvals_update (AP_Extend vals) t =
     (t\<lparr>tok_approvals := extend_pairs vals (tok_approvals t)\<rparr>, Ok ())"
| "apply_approvals_update (AP_Remove key vals) t =
     (case tok_approvals t key of
        Some entry \<Rightarrow>
          (let entry' = filter (\<lambda>v. v \<notin> set vals) entry in
           if entry' = [] then (t\<lparr>tok_approvals := (tok_approvals t)(key := None)\<rparr>, Ok ())
           else (t\<lparr>tok_approvals := (tok_approvals t)(key \<mapsto> entry')\<rparr>, Ok ()))
      | None \<Rightarrow> (t, Ok ()))"
| "apply_approvals_update (AP_Revoke key) t =
     (t\<lparr>tok_approvals := (tok_approvals t)(key := None)\<rparr>, Ok ())"

text \<open>
  On \<open>Remove\<close> an allowance that reaches zero stays in \<open>allowance\<close>, and the entry of the same
  address in \<open>approvals\<close> is the one that is dropped.
\<close>

fun apply_allowance_update :: "allowance_value \<Rightarrow> token \<Rightarrow> token_result" where
  "apply_allowance_update (AL_Insert key value) t =
     (case tok_allowance t key of
        Some entry \<Rightarrow>
          (case u256_add entry value of
             None \<Rightarrow> (t, Panic overflow)
           | Some e \<Rightarrow> (t\<lparr>tok_allowance := (tok_allowance t)(key \<mapsto> e)\<rparr>, Ok ()))
      | None \<Rightarrow> (t\<lparr>tok_allowance := (tok_allowance t)(key \<mapsto> value)\<rparr>, Ok ()))"
| "apply_allowance_update (AL_Extend vals) t =
     (t\<lparr>tok_allowance := extend_pairs vals (tok_allowance t)\<rparr>, Ok ())"
| "apply_allowance_update (AL_Remove key value) t =
     (case tok_allowance t key of
        Some entry \<Rightarrow>
          (case u256_sub entry value of
             None \<Rightarrow> (t, Panic overflow)
           | Some e \<Rightarrow>
               (let t' = t\<lparr>tok_allowance := (tok_allowance t)(key \<mapsto> e)\<rparr> in
                if e = 0 then (t'\<lparr>tok_approvals := (tok_approvals t')(key := None)\<rparr>, Ok ())
                else (t', Ok ())))
      | None \<Rightarrow> (t, Ok ()))"
| "apply_allowance_update (AL_Revoke key) t =
     (t\<lparr>tok_allowance := (tok_allowance t)(key := None)\<rparr>, Ok ())"

fun apply_status_update :: "status_value \<Rightarrow> token \<Rightarrow> token_result" where
  "apply_status_update Lock t = (t\<lparr>tok_status := Locked\<rparr>, Ok ())"
| "apply_status_update Unlock t = (t\<lparr>tok_status := Free\<rparr>, Ok ())"
| "apply_status_update Reverse t =
     (case tok_status t of
        Locked \<Rightarrow> (t\<lparr>tok_status := Free\<rparr>, Ok ()) | Free \<Rightarrow> (t\<lparr>tok_status := Locked\<rparr>, Ok ()))"

fun apply_token_update_field_values :: "token_field_value \<Rightarrow> token \<Rightarrow> token_result" where
  "apply_token_update_field_values (TV_Data u) t = apply_data_update u t"
| "apply_token_update_field_values (TV_Metadata u) t = apply_metadata_update u t"
| "apply_token_update_field_values (TV_Approvals u) t = apply_approvals_update u t"
| "apply_token_update_field_values (TV_Allowance u) t = apply_allowance_update u t"
| "apply_token_update_field_values (TV_Status u) t = apply_status_update u t"

definition update_balance :: "u256 \<Rightarrow> u256 \<Rightarrow> token \<Rightarrow> token_result" where
  "update_balance receive send t =
     and_then (balance_add_assign receive t) (\<lambda>t' _. balance_sub_assign send t')"

text \<open>\<open>AddAssign\<close> and \<open>SubAssign\<close> of tokens: only the balance of the right operand counts.\<close>

definition token_add_assign :: "token \<Rightarrow> token \<Rightarrow> token_result" where
  "token_add_assign rhs t = balance_add_assign (tok_balance rhs) t"

definition token_sub_assign :: "token \<Rightarrow> token \<Rightarrow> token_result" where
  "token_sub_assign rhs t = balance_sub_assign (tok_balance rhs) t"

section \<open>Lemmas\<close>

lemma show_hex_pad_Suc:
  assumes "n < 16 ^ Suc k"
  shows "show_hex_pad (Suc k) n = show_hex_pad k (n div 16) @ [digit_char (n mod 16)] \<or>
         (k = 0 \<and> show_hex_pad (Suc k) n = [digit_char n])"
proof (cases "n < 16")
  case True
  have zero: "show_radix 16 0 = ''0''"
    by (subst show_radix.simps) (simp add: digit_char_def)
  have "show_radix 16 n = [digit_char n]"
    using True by (subst show_radix.simps) simp
  moreover have "replicate k (CHR ''0'') = replicate (k - 1) (CHR ''0'') @ ''0''" if "k \<noteq> 0"
    using that by (metis Suc_diff_1 bot_nat_0.not_eq_extremum replicate_Suc replicate_append_same)
  ultimately show ?thesis using True by (auto simp: show_hex_pad_def show_hex_def zero)
next
  case False
  then show ?thesis
    by (subst show_hex_pad_def, subst show_hex_def, subst show_radix.simps)
      (simp add: show_hex_pad_def show_hex_def Let_def)
qed

fun hex_digits :: "nat \<Rightarrow> nat \<Rightarrow> string" where
  "hex_digits 0 n = []"
| "hex_digits (Suc k) n = hex_digits k (n div 16) @ [digit_char (n mod 16)]"

lemma show_hex_pad_digits: "n < 16 ^ Suc k \<Longrightarrow> show_hex_pad (Suc k) n = hex_digits (Suc k) n"
proof (induction k arbitrary: n)
  case 0
  then show ?case
    by (subst show_hex_pad_def, subst show_hex_def, subst show_radix.simps) simp
next
  case (Suc k)
  then have "n div 16 < 16 ^ Suc k" by (simp add: less_mult_imp_div_less mult.commute)
  then show ?case using Suc.IH [of "n div 16"] show_hex_pad_Suc [OF Suc.prems] by simp
qed

lemma hex_digits_bytes: "hex_digits (2 * k) n = bytes_hex (be_bytes k n)"
proof (induction k arbitrary: n)
  case 0
  then show ?case by (simp add: bytes_hex_def)
next
  case (Suc k)
  have "hex_digits (2 * Suc k) n =
        hex_digits (2 * k) (n div 16 div 16) @ [digit_char (n div 16 mod 16), digit_char (n mod 16)]"
    by simp
  moreover have "n div 16 div 16 = n div 256" by (simp add: div_mult2_eq [symmetric])
  moreover have "byte_hex (of_nat (n mod 256)) = [digit_char (n div 16 mod 16), digit_char (n mod 16)]"
  proof -
    have "unat (of_nat (n mod 256) :: u8) = n mod 256"
      by (simp add: unsigned_of_nat take_bit_eq_mod)
    moreover have "n mod 256 div 16 = n div 16 mod 16" "n mod 256 mod 16 = n mod 16"
      using mod_mult2_eq [of n 16 16] by (auto simp: mod_mod_cancel)
    ultimately show ?thesis by (simp add: byte_hex_def)
  qed
  ultimately show ?case using Suc by (simp add: bytes_hex_def)
qed

lemma be_bytes_length [simp]: "length (be_bytes k n) = k"
  by (induction k arbitrary: n) auto

lemma u256_from_be_snoc: "u256_from_be (bs @ [b]) = u256_from_be bs * 256 + of_nat (unat b)"
  by (simp add: u256_from_be_def)

lemma u256_from_be_bytes: "n < 256 ^ k \<Longrightarrow> u256_from_be (be_bytes k n) = of_nat n"
proof (induction k arbitrary: n)
  case 0
  then show ?case by (simp add: u256_from_be_def)
next
  case (Suc k)
  then have "n div 256 < 256 ^ k" by (simp add: less_mult_imp_div_less mult.commute)
  moreover have "unat (of_nat (n mod 256) :: u8) = n mod 256"
    by (simp add: unsigned_of_nat take_bit_eq_mod)
  ultimately have "u256_from_be (be_bytes (Suc k) n) = of_nat (n div 256 * 256 + n mod 256)"
    using Suc.IH [of "n div 256"]
    by (simp only: be_bytes.simps u256_from_be_snoc of_nat_add of_nat_mult of_nat_numeral)
  then show ?case by (simp only: div_mult_mod_eq)
qed

lemma serialize_u256_bytes: "serialize_u256 x = ''0x'' @ bytes_hex (be_bytes 32 (unat x))"
proof -
  have "unat x < 2 ^ 256" using unsigned_less [of x] by simp
  then have "unat x < 16 ^ Suc 63" by simp
  then have "show_hex_pad 64 (unat x) = hex_digits 64 (unat x)"
    using show_hex_pad_digits [of "unat x" 63] by simp
  then show ?thesis using hex_digits_bytes [of 32 "unat x"] by (simp add: serialize_u256_def)
qed

lemma digit_char_not_bracket:
  assumes "d < 16"
  shows "digit_char d \<noteq> CHR ''[''"
proof -
  have "list_all (\<lambda>d. digit_char d \<noteq> CHR ''['') [0..<16]" by code_simp
  then show ?thesis using assms by (simp add: list_all_iff)
qed

lemma bytes_hex_not_bracket: "\<not> starts_with (CHR ''['') (bytes_hex bs)"
proof (cases bs)
  case Nil
  then show ?thesis by (simp add: bytes_hex_def starts_with_def)
next
  case (Cons b bs')
  have "unat b div 16 < 16" using unat_u8_bound [of b] by auto
  then show ?thesis
    using Cons digit_char_not_bracket by (simp add: bytes_hex_def byte_hex_def starts_with_def)
qed

lemma u256_fits: "unat (x :: u256) < 2 ^ 256"
  using unsigned_less [of x] by simp

lemma balance_add_assign_spec:
  "balance_add_assign v t =
     (if unat (tok_balance t) + unat v < 2 ^ 256 then (t\<lparr>tok_balance := tok_balance t + v\<rparr>, Ok ())
      else (t, Panic overflow))"
  by (simp add: balance_add_assign_def u256_add_def)

lemma balance_sub_assign_spec:
  "balance_sub_assign v t =
     (if v \<le> tok_balance t then (t\<lparr>tok_balance := tok_balance t - v\<rparr>, Ok ()) else (t, Panic overflow))"
  by (simp add: balance_sub_assign_def u256_sub_def)

lemma debit_spec:
  "debit v t =
     (if v \<le> tok_balance t then (t\<lparr>tok_balance := tok_balance t - v\<rparr>, Ok ())
      else (t, Err (IoError ''transfer amount exceeds balance'')))"
  by (simp add: debit_def balance_sub_assign_spec not_le)

lemma credit_spec:
  "credit v t =
     (if unat (tok_balance t) + unat v < 2 ^ 256 then (t\<lparr>tok_balance := tok_balance t + v\<rparr>, Ok ())
      else (t, Panic overflow))"
  by (simp add: credit_def balance_add_assign_spec)

lemma map_filter_length_le: "length (List.map_filter f xs) \<le> length xs"
  by (induction xs) (auto simp: List.map_filter_simps split: option.split)

lemma map_filter_length_iff:
  "length (List.map_filter f xs) = length xs \<longleftrightarrow> (\<forall>x\<in>set xs. f x \<noteq> None)"
proof (induction xs)
  case Nil
  then show ?case by (simp add: List.map_filter_simps)
next
  case (Cons x xs)
  then show ?case using map_filter_length_le [of f xs]
    by (auto simp: List.map_filter_simps split: option.split)
qed

lemma remove_token_ids_spec:
  "remove_token_ids ids t =
     (if set ids \<subseteq> set (tok_token_ids t)
      then (t\<lparr>tok_token_ids := filter (\<lambda>i. i \<notin> set ids) (tok_token_ids t)\<rparr>, Ok ())
      else (t, Err (IoError ''one or more of the token ids is not owned by the from account'')))"
  by (auto simp: remove_token_ids_def Let_def map_filter_length_iff position_None_iff)

text \<open>No field update touches who owns the token, of which program, its balance or its ids.\<close>

definition same_holding :: "token \<Rightarrow> token \<Rightarrow> bool" where
  "same_holding t t' \<longleftrightarrow>
     tok_program_id t' = tok_program_id t \<and> tok_owner_id t' = tok_owner_id t \<and>
     tok_balance t' = tok_balance t \<and> tok_token_ids t' = tok_token_ids t"

lemma same_holding_refl [simp]: "same_holding t t"
  by (simp add: same_holding_def)

lemma same_holding_trans: "same_holding a b \<Longrightarrow> same_holding b c \<Longrightarrow> same_holding a c"
  by (simp add: same_holding_def)

lemma data_update_holding: "same_holding t (fst (apply_data_update u t))"
  by (cases u) (auto simp: same_holding_def)

lemma metadata_update_holding: "same_holding t (fst (apply_metadata_update u t))"
  by (cases u) (auto simp: same_holding_def)

lemma approvals_update_holding: "same_holding t (fst (apply_approvals_update u t))"
  by (cases u) (auto simp: same_holding_def Let_def split: option.split)

lemma allowance_update_holding: "same_holding t (fst (apply_allowance_update u t))"
  by (cases u) (auto simp: same_holding_def Let_def split: option.split)

lemma status_update_holding: "same_holding t (fst (apply_status_update u t))"
  by (cases u) (auto simp: same_holding_def split: status.split)

lemmas update_holding = data_update_holding metadata_update_holding approvals_update_holding
  allowance_update_holding status_update_holding

lemma field_update_holding: "same_holding t (fst (apply_token_update_field_values u t))"
  by (cases u) (auto simp: update_holding)

lemma field_update_no_Err: "snd (apply_token_update_field_values u t) \<noteq> Err e"
proof (cases u)
  case (TV_Metadata m)
  then show ?thesis by (cases m) auto
next
  case (TV_Allowance a)
  then show ?thesis by (cases a) (auto simp: Let_def split: option.split)
next
  case (TV_Approvals a)
  then show ?thesis by (cases a) (auto simp: Let_def split: option.split)
next
  case (TV_Data d)
  then show ?thesis by (cases d) auto
next
  case (TV_Status s)
  then show ?thesis by (cases s) (auto split: status.split)
qed

section \<open>Properties\<close>

text \<open>
  A U256 written by the serialiser is read back by the visitor to the same number.
\<close>

theorem u256_text_roundtrip:
  assumes "hex_laws hx"
  shows "u256_visit_str hx (serialize_u256 x) = Ok x"
proof -
  let ?bs = "be_bytes 32 (unat x)"
  have "u256_from_be ?bs = x"
    using u256_from_be_bytes [of "unat x" 32] u256_fits [of x] by simp
  then show ?thesis
    using assms bytes_hex_not_bracket [of ?bs]
    by (simp add: u256_visit_str_def serialize_u256_bytes hex_decode_bytes_hex)
qed

theorem u256_text_roundtrip_witness: "u256_visit_str hex_ref (serialize_u256 4660) = Ok 4660"
  by (rule u256_text_roundtrip [OF hex_laws_ref])

text \<open>
  C35: moving an amount from one token to another. The debit is refused, leaving the token as it
  was, exactly when the amount exceeds the balance, and otherwise takes exactly the amount off; the
  credit aborts, leaving the token as it was, exactly when the sum needs more than 256 bits, and
  otherwise adds exactly the amount; both over the exact integers, so that the two balances add up to
  what they were. Nothing but the balances changes.
\<close>

theorem debit_credit_conservation:
  "(case debit v t of
      (t', Ok _) \<Rightarrow>
        unat v \<le> unat (tok_balance t) \<and> t' = t\<lparr>tok_balance := tok_balance t'\<rparr> \<and>
        unat (tok_balance t') = unat (tok_balance t) - unat v
    | (t', Err e) \<Rightarrow>
        t' = t \<and> unat (tok_balance t) < unat v \<and> e = IoError ''transfer amount exceeds balance''
    | (t', Panic _) \<Rightarrow> False) \<and>
   (case credit v u of
      (u', Ok _) \<Rightarrow>
        unat (tok_balance u) + unat v < 2 ^ 256 \<and> u' = u\<lparr>tok_balance := tok_balance u'\<rparr> \<and>
        unat (tok_balance u') = unat (tok_balance u) + unat v
    | (u', Err _) \<Rightarrow> False
    | (u', Panic _) \<Rightarrow> u' = u \<and> 2 ^ 256 \<le> unat (tok_balance u) + unat v) \<and>
   (case (debit v t, credit v u) of
      ((t', Ok _), (u', Ok _)) \<Rightarrow>
        unat (tok_balance t') + unat (tok_balance u') = unat (tok_balance t) + unat (tok_balance u)
    | _ \<Rightarrow> True)"
  by (auto simp: debit_spec credit_spec word_le_nat_alt unat_sub unat_add_u256)

text \<open>
  \<open>remove_token_ids\<close> succeeds exactly when every id is held, whatever repetitions the
  argument has; it then drops every copy of these ids and keeps the others in order, and when it
  fails nothing changes. Ids that were not held before come off again after \<open>add_token_ids\<close>,
  restoring the token.
\<close>

theorem token_ids_exact:
  "(snd (remove_token_ids ids t) = Ok () \<longleftrightarrow> set ids \<subseteq> set (tok_token_ids t)) \<and>
   (if set ids \<subseteq> set (tok_token_ids t)
    then fst (remove_token_ids ids t) =
           t\<lparr>tok_token_ids := [i \<leftarrow> tok_token_ids t. i \<notin> set ids]\<rparr>
    else fst (remove_token_ids ids t) = t) \<and>
   (if set ids \<inter> set (tok_token_ids t) = {}
    then and_then (add_token_ids ids t) (\<lambda>t' _. remove_token_ids ids t') = (t, Ok ())
    else snd (remove_token_ids ids (fst (add_token_ids ids t))) = Ok ())"
proof -
  have "[i \<leftarrow> tok_token_ids t. i \<notin> set ids] = tok_token_ids t" if "set ids \<inter> set (tok_token_ids t) = {}"
    using that by (auto simp: filter_id_conv)
  then show ?thesis by (simp add: remove_token_ids_spec add_token_ids_def)
qed

text \<open>
  No token field update, on any branch, changes the program, the owner, the balance or the
  ids of a token; none returns an error, and the only abort is an allowance that leaves the
  256-bit range, which leaves the token as it was.
\<close>

theorem field_update_keeps_holding:
  "same_holding t (fst (apply_token_update_field_values u t)) \<and>
   (case snd (apply_token_update_field_values u t) of
      Ok _ \<Rightarrow> True
    | Err _ \<Rightarrow> False
    | Panic _ \<Rightarrow> fst (apply_token_update_field_values u t) = t \<and>
        (case u of TV_Allowance (AL_Insert k v) \<Rightarrow>
                     2 ^ 256 \<le> unat (the (tok_allowance t k)) + unat v
                 | TV_Allowance (AL_Remove k v) \<Rightarrow>
                     unat (the (tok_allowance t k)) < unat v
                 | _ \<Rightarrow> False))"
proof -
  have "case snd (apply_token_update_field_values u t) of
      Ok _ \<Rightarrow> True
    | Err _ \<Rightarrow> False
    | Panic _ \<Rightarrow> fst (apply_token_update_field_values u t) = t \<and>
        (case u of TV_Allowance (AL_Insert k v) \<Rightarrow>
                     2 ^ 256 \<le> unat (the (tok_allowance t k)) + unat v
                 | TV_Allowance (AL_Remove k v) \<Rightarrow>
                     unat (the (tok_allowance t k)) < unat v
                 | _ \<Rightarrow> False)"
  proof (cases u)
    case (TV_Metadata m)
    then show ?thesis by (cases m) auto
  next
    case (TV_Allowance a)
    then show ?thesis
      by (cases a) (auto simp: Let_def u256_add_def u256_sub_def word_le_nat_alt
          split: option.split)
  next
    case (TV_Approvals a)
    then show ?thesis by (cases a) (auto simp: Let_def split: option.split)
  next
    case (TV_Data d)
    then show ?thesis by (cases d) auto
  next
    case (TV_Status s)
    then show ?thesis by (cases s) (auto split: status.split)
  qed
  then show ?thesis by (simp add: field_update_holding)
qed

text \<open>
  Removing approved ids leaves exactly the other ids approved for that spender, never leaves
  an empty entry behind (an empty entry stands for an unlimited approval in
  \<open>validate_approved_spend\<close>), and touches no other spender.
\<close>

theorem approvals_remove_exact:
  "(case apply_approvals_update (AP_Remove key ids) t of (t', r) \<Rightarrow>
      r = Ok () \<and>
      tok_approvals t' key =
        (case tok_approvals t key of
           None \<Rightarrow> None
         | Some entry \<Rightarrow> (if set entry \<subseteq> set ids then None else Some [i \<leftarrow> entry. i \<notin> set ids])) \<and>
      tok_approvals t' key \<noteq> Some [] \<and>
      (\<forall>k. k = key \<or> tok_approvals t' k = tok_approvals t k))"
  by (auto simp: Let_def filter_empty_conv split: option.split)

text \<open>
  Reducing an allowance to exactly zero keeps a zero allowance recorded for the spender and
  revokes the spender's entry among the approvals, a different map; a reduction that leaves
  something touches only the allowance.
\<close>

theorem allowance_remove_to_zero:
  assumes "tok_allowance t key = Some a" and "unat v \<le> unat a"
  shows "apply_allowance_update (AL_Remove key v) t =
           (if v = a
            then (t\<lparr>tok_allowance := (tok_allowance t)(key \<mapsto> 0),
                    tok_approvals := (tok_approvals t)(key := None)\<rparr>, Ok ())
            else (t\<lparr>tok_allowance := (tok_allowance t)(key \<mapsto> a - v)\<rparr>, Ok ()))"
proof -
  have "v \<le> a" using assms(2) by (simp add: word_le_nat_alt)
  moreover have "a - v = 0 \<longleftrightarrow> v = a" by auto
  ultimately show ?thesis using assms(1) by (simp add: u256_sub_def Let_def)
qed

definition sample_token :: "address \<Rightarrow> address \<Rightarrow> u256 \<Rightarrow> token" where
  "sample_token prog own bal =
     \<lparr>tok_program_id = prog, tok_owner_id = own, tok_balance = bal, tok_metadata = Map.empty,
      tok_token_ids = [], tok_allowance = Map.empty, tok_approvals = Map.empty,
      tok_data = Map.empty, tok_status = Free\<rparr>"

theorem allowance_remove_to_zero_witness:
  "apply_allowance_update (AL_Remove eth_addr 7)
     (sample_token eth_addr verse_addr 0
        \<lparr>tok_allowance := [eth_addr \<mapsto> 7], tok_approvals := [eth_addr \<mapsto> [1]]\<rparr>) =
   (sample_token eth_addr verse_addr 0
      \<lparr>tok_allowance := [eth_addr \<mapsto> 0], tok_approvals := Map.empty\<rparr>, Ok ())"
  using allowance_remove_to_zero
    [of "sample_token eth_addr verse_addr 0
        \<lparr>tok_allowance := [eth_addr \<mapsto> 7], tok_approvals := [eth_addr \<mapsto> [1]]\<rparr>" eth_addr 7 7]
  by simp

end
