(* ===== verification/Transaction_Model.thy ===== *)
theory Transaction_Model
  imports Token_Model
begin

text \<open>
  Transactions, payloads and signatures (crates/types/src/transaction.rs and signing.rs):
  hashing, signature recovery and verification, the conversions between payload, transaction and
  token, and the serde helpers for byte arrays. Keccak-256, the JSON printer, ethers' and
  secp256k1's recovery are parameters (record \<open>crypto\<close>). A \<open>[u8; 20]\<close> field that the getters
  turn into an \<open>Address\<close> is stored as an address.
\<close>

section \<open>The crates the code calls\<close>

datatype json = J_Str string | J_Obj "(string \<times> json) list"

record crypto =
  keccak256 :: "u8 list \<Rightarrow> u8 list"
  json_to_string :: "json \<Rightarrow> string"
  ethers_recover :: "u256 \<Rightarrow> u256 \<Rightarrow> u64 \<Rightarrow> u8 list \<Rightarrow> (string, u8 list) outcome"
  secp_message :: "u8 list \<Rightarrow> (secp_error, u8 list) outcome"
  secp_recovery_id :: "i32 \<Rightarrow> (secp_error, i32) outcome"
  secp_from_compact :: "u8 list \<Rightarrow> i32 \<Rightarrow> (secp_error, u8 list) outcome"
  secp_recover_ecdsa :: "u8 list \<Rightarrow> u8 list \<Rightarrow> (secp_error, u8 list) outcome"

section \<open>Signatures\<close>

record recoverable_signature =
  sig_r :: "u8 list"
  sig_s :: "u8 list"
  sig_v :: i32

definition in_range :: "int \<Rightarrow> int \<Rightarrow> i32 \<Rightarrow> bool" where
  "in_range lo hi v \<longleftrightarrow> lo \<le> sint v \<and> sint v \<le> hi"

text \<open>\<open>TryFrom<&RecoverableSignature>\<close>: Ethereum's and EIP-155's offsets are taken off \<open>v\<close>.\<close>

definition signature_try_from :: "crypto \<Rightarrow> recoverable_signature \<Rightarrow> (secp_error, u8 list) outcome" where
  "signature_try_from cr value =
     (let recovery_id = sig_v value; data = sig_r value @ sig_s value in
      if in_range 0 3 recovery_id then
        obind (secp_recovery_id cr recovery_id) (\<lambda>i. secp_from_compact cr data i)
      else if in_range 27 30 recovery_id then
        obind (secp_recovery_id cr (recovery_id - 27)) (\<lambda>i. secp_from_compact cr data i)
      else if in_range 35 38 recovery_id then
        obind (secp_recovery_id cr (recovery_id - 35)) (\<lambda>i. secp_from_compact cr data i)
      else
        obind (secp_recovery_id cr recovery_id) (\<lambda>i. secp_from_compact cr data i))"

definition sig_recover :: "crypto \<Rightarrow> recoverable_signature \<Rightarrow> u8 list \<Rightarrow> (secp_error, address) outcome" where
  "sig_recover cr sg message_bytes =
     (if in_range 27 28 (sig_v sg) then
        obind (map_err (\<lambda>_. InvalidSignature)
                 (ethers_recover cr (u256_from_be (sig_r sg)) (u256_from_be (sig_s sg))
                    (of_int (sint (sig_v sg))) message_bytes))
              (\<lambda>eaddr. Ok (Address eaddr))
      else
        obind (secp_message cr message_bytes) (\<lambda>message.
        obind (signature_try_from cr sg) (\<lambda>recoverable_sig.
        obind (secp_recover_ecdsa cr message recoverable_sig) (\<lambda>pk.
        Ok (address_from_pubkey (keccak256 cr) pk)))))"

definition i32_to_le_bytes :: "i32 \<Rightarrow> u8 list" where
  "i32_to_le_bytes v = rev (be_bytes 4 (unat v))"

definition sig_to_vec :: "recoverable_signature \<Rightarrow> u8 list" where
  "sig_to_vec sg = sig_r sg @ sig_s sg @ i32_to_le_bytes (sig_v sg)"

text \<open>\<open>From<Signature>\<close>: the compact 64 bytes split into halves.\<close>

definition sig_from_compact :: "i32 \<Rightarrow> u8 list \<Rightarrow> (unit, recoverable_signature) outcome" where
  "sig_from_compact v rs =
     (if length rs \<noteq> 64 then Panic ''copy_from_slice: length mismatch''
      else Ok \<lparr>sig_r = take 32 rs, sig_s = drop 32 rs, sig_v = v\<rparr>)"

section \<open>Transactions\<close>

datatype transaction_type =
  BridgeIn u256 | Send u256 | Call u256 | BridgeOut u256 | RegisterProgram u256

fun is_send :: "transaction_type \<Rightarrow> bool" where
  "is_send (Send _) = True" | "is_send _ = False"

fun is_bridge_in :: "transaction_type \<Rightarrow> bool" where
  "is_bridge_in (BridgeIn _) = True" | "is_bridge_in _ = False"

fun is_call :: "transaction_type \<Rightarrow> bool" where
  "is_call (Call _) = True" | "is_call _ = False"

fun is_bridge_out :: "transaction_type \<Rightarrow> bool" where
  "is_bridge_out (BridgeOut _) = True" | "is_bridge_out _ = False"

fun is_register_program :: "transaction_type \<Rightarrow> bool" where
  "is_register_program (RegisterProgram _) = True" | "is_register_program _ = False"

definition hex_064 :: "u256 \<Rightarrow> string" where
  "hex_064 n = ''0x'' @ show_hex_pad 64 (unat n)"

fun transaction_type_to_json :: "transaction_type \<Rightarrow> json" where
  "transaction_type_to_json (BridgeIn n) = J_Obj [(''bridgeIn'', J_Str (hex_064 n))]"
| "transaction_type_to_json (Send n) = J_Obj [(''send'', J_Str (hex_064 n))]"
| "transaction_type_to_json (Call n) = J_Obj [(''call'', J_Str (hex_064 n))]"
| "transaction_type_to_json (RegisterProgram n) = J_Obj [(''registerProgram'', J_Str (hex_064 n))]"
| "transaction_type_to_json (BridgeOut n) = J_Obj [(''bridgeOut'', J_Str (hex_064 n))]"

fun display_transaction_type :: "transaction_type \<Rightarrow> string" where
  "display_transaction_type (BridgeIn n) = ''bridgeIn'' @ show_nat (unat n)"
| "display_transaction_type (Send n) = ''send'' @ show_nat (unat n)"
| "display_transaction_type (Call n) = ''call'' @ show_nat (unat n)"
| "display_transaction_type (BridgeOut n) = ''bridgeOut'' @ show_nat (unat n)"
| "display_transaction_type (RegisterProgram n) = ''deploy'' @ show_nat (unat n)"

record payload =
  pl_transaction_type :: transaction_type
  pl_from :: address
  pl_to :: address
  pl_program_id :: address
  pl_op :: string
  pl_inputs :: string
  pl_value :: u256
  pl_nonce :: u256

record transaction =
  tx_transaction_type :: transaction_type
  tx_from :: address
  tx_to :: address
  tx_program_id :: address
  tx_op :: string
  tx_inputs :: string
  tx_value :: u256
  tx_nonce :: u256
  tx_v :: i32
  tx_r :: "u8 list"
  tx_s :: "u8 list"

text \<open>The JSON object both \<open>as_bytes\<close> functions build, and the bytes of its text.\<close>

definition str_bytes :: "string \<Rightarrow> u8 list" where
  "str_bytes s = map of_char s"

definition payload_as_bytes :: "crypto \<Rightarrow> payload \<Rightarrow> u8 list" where
  "payload_as_bytes cr p = str_bytes (json_to_string cr (J_Obj
     [(''transactionType'', transaction_type_to_json (pl_transaction_type p)),
      (''from'', J_Str (to_full_string (pl_from p))),
      (''to'', J_Str (to_full_string (pl_to p))),
      (''programId'', J_Str (to_full_string (pl_program_id p))),
      (''op'', J_Str (pl_op p)),
      (''transactionInputs'', J_Str (pl_inputs p)),
      (''value'', J_Str (hex_064 (pl_value p))),
      (''nonce'', J_Str (hex_064 (pl_nonce p)))]))"

definition payload_hash :: "crypto \<Rightarrow> payload \<Rightarrow> u8 list" where
  "payload_hash cr p = keccak256 cr (payload_as_bytes cr p)"

definition payload_hash_string :: "crypto \<Rightarrow> payload \<Rightarrow> string" where
  "payload_hash_string cr p = ''0x'' @ bytes_hex (keccak256 cr (payload_as_bytes cr p))"

definition as_bytes :: "crypto \<Rightarrow> transaction \<Rightarrow> u8 list" where
  "as_bytes cr t = str_bytes (json_to_string cr (J_Obj
     [(''transactionType'', transaction_type_to_json (tx_transaction_type t)),
      (''from'', J_Str (to_full_string (tx_from t))),
      (''to'', J_Str (to_full_string (tx_to t))),
      (''programId'', J_Str (to_full_string (tx_program_id t))),
      (''op'', J_Str (tx_op t)),
      (''transactionInputs'', J_Str (tx_inputs t)),
      (''value'', J_Str (hex_064 (tx_value t))),
      (''nonce'', J_Str (hex_064 (tx_nonce t)))]))"

definition tx_hash :: "crypto \<Rightarrow> transaction \<Rightarrow> u8 list" where
  "tx_hash cr t = keccak256 cr (as_bytes cr t)"

definition hash_string :: "crypto \<Rightarrow> transaction \<Rightarrow> string" where
  "hash_string cr t = ''0x'' @ bytes_hex (keccak256 cr (as_bytes cr t))"

definition tx_message :: "crypto \<Rightarrow> transaction \<Rightarrow> string" where
  "tx_message cr t = bytes_hex (as_bytes cr t)"

text \<open>All three fields of the signature builder are set, so its \<open>build\<close> does not fail.\<close>

definition tx_sig :: "transaction \<Rightarrow> (boxed_error, recoverable_signature) outcome" where
  "tx_sig t = Ok \<lparr>sig_r = tx_r t, sig_s = tx_s t, sig_v = tx_v t\<rparr>"

definition tx_recover :: "crypto \<Rightarrow> transaction \<Rightarrow> (boxed_error, address) outcome" where
  "tx_recover cr t =
     (if in_range 27 28 (tx_v t) then
        obind (map_err Ethers
                 (ethers_recover cr (u256_from_be (tx_r t)) (u256_from_be (tx_s t))
                    (of_int (sint (tx_v t))) (tx_hash cr t)))
              (\<lambda>addr. Ok (Address addr))
      else
        obind (tx_sig t) (\<lambda>sg. map_err Secp (sig_recover cr sg (tx_hash cr t))))"

definition verify_signature :: "crypto \<Rightarrow> transaction \<Rightarrow> (secp_error, unit) outcome" where
  "verify_signature cr t =
     obind (map_err (\<lambda>_. InvalidMessage) (tx_sig t)) (\<lambda>sg.
     obind (sig_recover cr sg (tx_hash cr t)) (\<lambda>addr.
     if tx_from t \<noteq> addr then Err InvalidSignature else Ok ()))"

definition tx_get_accounts_involved :: "transaction \<Rightarrow> address list" where
  "tx_get_accounts_involved t = [tx_from t, tx_to t]"

definition default_transaction :: transaction where
  "default_transaction =
     \<lparr>tx_transaction_type = Send 0, tx_from = Address (replicate 20 0),
      tx_to = Address (replicate 20 0), tx_program_id = Address (replicate 20 0),
      tx_op = '''', tx_inputs = '''', tx_value = 0, tx_nonce = 0, tx_v = 0,
      tx_r = replicate 32 0, tx_s = replicate 32 0\<rparr>"

definition transaction_from_payload_sig :: "payload \<Rightarrow> recoverable_signature \<Rightarrow> transaction" where
  "transaction_from_payload_sig p sg =
     \<lparr>tx_transaction_type = pl_transaction_type p, tx_from = pl_from p, tx_to = pl_to p,
      tx_program_id = pl_program_id p, tx_op = pl_op p, tx_inputs = pl_inputs p,
      tx_value = pl_value p, tx_nonce = pl_nonce p,
      tx_v = sig_v sg, tx_r = sig_r sg, tx_s = sig_s sg\<rparr>"

definition transaction_from_payload :: "payload \<Rightarrow> transaction" where
  "transaction_from_payload p =
     default_transaction
      \<lparr>tx_transaction_type := pl_transaction_type p, tx_from := pl_from p, tx_to := pl_to p,
       tx_program_id := pl_program_id p, tx_op := pl_op p, tx_inputs := pl_inputs p,
       tx_value := pl_value p, tx_nonce := pl_nonce p\<rparr>"

section \<open>Byte arrays in JSON\<close>

datatype hex_or_bytes = Hex_Str string | Bytes "u8 list"

definition try_into :: "nat \<Rightarrow> string \<Rightarrow> u8 list \<Rightarrow> (de_error, u8 list) outcome" where
  "try_into n msg bs = (if length bs = n then Ok bs else Err (De_Custom msg))"

fun deserialize_address_bytes_or_string :: "hex_crate \<Rightarrow> hex_or_bytes \<Rightarrow> (de_error, u8 list) outcome" where
  "deserialize_address_bytes_or_string hx (Hex_Str value) =
     (case strip_prefix ''0x'' value of
        Some v \<Rightarrow>
          obind (map_err De_Hex (hex_decode hx v))
            (try_into 20 ''Hex string does not represent valid 20-byte array'')
      | None \<Rightarrow>
          if starts_with (CHR ''['') value \<and> ends_with (CHR '']'') value then
            obind (parse_byte_list value)
              (try_into 20 ''Bytes string does not represent a value 20-byte array'')
          else
            obind (map_err De_Hex (hex_decode hx value))
              (try_into 20 ''Hex string does not represent valid 20 byte array''))"
| "deserialize_address_bytes_or_string hx (Bytes v) = Ok v"

fun deserialize_sig_bytes_or_string :: "hex_crate \<Rightarrow> hex_or_bytes \<Rightarrow> (de_error, u8 list) outcome" where
  "deserialize_sig_bytes_or_string hx (Hex_Str value) =
     (case strip_prefix ''0x'' value of
        Some v \<Rightarrow>
          obind (map_err De_Hex (hex_decode hx v))
            (try_into 32 ''Hex string does not represent valid 20-byte array'')
      | None \<Rightarrow>
          if starts_with (CHR ''['') value \<and> ends_with (CHR '']'') value then
            obind (parse_byte_list value)
              (try_into 32 ''Bytes string does not represent a value 20-byte array'')
          else Err (De_Custom ''unable to deserialize as a string''))"
| "deserialize_sig_bytes_or_string hx (Bytes v) = Ok v"

definition serialize_as_hex :: "hex_crate \<Rightarrow> u8 list \<Rightarrow> string" where
  "serialize_as_hex hx bytes = ''0x'' @ hex_encode hx bytes"

section \<open>Transactions as tokens\<close>

definition token_from_transaction :: "transaction \<Rightarrow> token" where
  "token_from_transaction t =
     \<lparr>tok_program_id = tx_program_id t, tok_owner_id = tx_to t, tok_balance = tx_value t,
      tok_metadata = Map.empty, tok_token_ids = [], tok_allowance = Map.empty,
      tok_approvals = Map.empty, tok_data = Map.empty, tok_status = Free\<rparr>"

text \<open>\<open>TryFrom<(Token, Transaction)>\<close>: the balance operators abort where they do not fit.\<close>

definition token_try_from :: "token \<Rightarrow> transaction \<Rightarrow> (boxed_error, token) outcome" where
  "token_try_from tok txn =
     (if tx_from txn = tok_owner_id tok then
        if is_bridge_in (tx_transaction_type txn) then
          obind (or_panic overflow (u256_add (tok_balance tok) (tx_value txn)))
            (\<lambda>b. Ok (tok\<lparr>tok_balance := b\<rparr>))
        else
          obind (or_panic overflow (u256_sub (tok_balance tok) (tx_value txn)))
            (\<lambda>b. Ok (tok\<lparr>tok_balance := b\<rparr>))
      else if tx_to txn = tok_owner_id tok then
        obind (or_panic overflow (u256_add (tok_balance tok) (tx_value txn)))
          (\<lambda>b. Ok (tok\<lparr>tok_balance := b\<rparr>))
      else Err (ToTokenError
        ''cannot convert into token, token owner_id does not match sender or receiver''))"

section \<open>Lemmas\<close>

lemma token_try_from_sender:
  assumes "tx_from txn = tok_owner_id tok" and "\<not> is_bridge_in (tx_transaction_type txn)"
  shows "token_try_from tok txn =
           (if tx_value txn \<le> tok_balance tok
            then Ok (tok\<lparr>tok_balance := tok_balance tok - tx_value txn\<rparr>) else Panic overflow)"
  using assms by (simp add: token_try_from_def u256_sub_def)

lemma token_try_from_receiver:
  assumes "tx_to txn = tok_owner_id tok"
    and "tx_from txn = tok_owner_id tok \<Longrightarrow> is_bridge_in (tx_transaction_type txn)"
  shows "token_try_from tok txn =
           (if unat (tok_balance tok) + unat (tx_value txn) < 2 ^ 256
            then Ok (tok\<lparr>tok_balance := tok_balance tok + tx_value txn\<rparr>) else Panic overflow)"
  using assms by (auto simp: token_try_from_def u256_add_def)

lemma token_try_from_Ok_frame:
  "token_try_from tok txn = Ok t \<Longrightarrow> t = tok\<lparr>tok_balance := tok_balance t\<rparr>"
  by (auto simp: token_try_from_def outcome_simps split: if_splits)

lemma token_try_from_stranger:
  "tx_from txn \<noteq> tok_owner_id tok \<Longrightarrow> tx_to txn \<noteq> tok_owner_id tok \<Longrightarrow>
   token_try_from tok txn = Err (ToTokenError
     ''cannot convert into token, token owner_id does not match sender or receiver'')"
  by (simp add: token_try_from_def)

lemma verify_signature_iff_recover':
  "verify_signature cr t = Ok () \<longleftrightarrow> tx_recover cr t = Ok (tx_from t)"
  by (auto simp: verify_signature_def tx_recover_def sig_recover_def tx_sig_def outcome_simps
      split: if_splits)

lemma sint_plus_27:
  assumes "0 \<le> sint (v :: i32)" and "sint v \<le> 3"
  shows "sint (v + 27) = sint v + 27 \<and> sint (v + 35) = sint v + 35"
proof -
  have "sint (v + k) = sint v + sint k" if "0 \<le> sint k" "sint k < 100" for k :: i32
    using assms that by (subst sint_word_ariths) (simp add: signed_take_bit_int_eq_self)
  from this [of 27] this [of 35] show ?thesis by simp
qed

section \<open>Properties\<close>

text \<open>
  What a wallet signs is what a node verifies: the digest of a transaction assembled from a
  payload and any signature is the digest of the payload, also without a signature, and so are
  the printed hashes.
\<close>

theorem payload_transaction_hash:
  "tx_hash cr (transaction_from_payload_sig p sg) = payload_hash cr p \<and>
   tx_hash cr (transaction_from_payload p) = payload_hash cr p \<and>
   hash_string cr (transaction_from_payload_sig p sg) = payload_hash_string cr p"
  by (simp add: tx_hash_def payload_hash_def as_bytes_def payload_as_bytes_def hash_string_def
      payload_hash_string_def transaction_from_payload_sig_def transaction_from_payload_def)

text \<open>
  C36: the two recovery paths of the code agree: \<open>verify_signature\<close>, which goes through
  \<open>RecoverableSignature\<close>, accepts a transaction exactly when \<open>recover\<close>, which calls the Electrum
  recovery itself, returns the transaction's sender.
\<close>

theorem verify_signature_iff_recover:
  "verify_signature cr t = Ok () \<longleftrightarrow> tx_recover cr t = Ok (tx_from t)"
  by (rule verify_signature_iff_recover')

text \<open>
  The recovery id is read the same from the plain, the Ethereum (27) and the EIP-155 (35)
  encoding of \<open>v\<close>: adding either offset to a signature with \<open>v\<close> between 0 and 3 gives the same
  secp256k1 signature.
\<close>

theorem recovery_id_offsets:
  assumes "in_range 0 3 (sig_v sg)"
  shows "signature_try_from cr (sg\<lparr>sig_v := sig_v sg + 27\<rparr>) = signature_try_from cr sg \<and>
         signature_try_from cr (sg\<lparr>sig_v := sig_v sg + 35\<rparr>) = signature_try_from cr sg"
  using assms sint_plus_27 [of "sig_v sg"] by (simp add: signature_try_from_def in_range_def)

definition sample_sig :: recoverable_signature where
  "sample_sig = \<lparr>sig_r = replicate 32 1, sig_s = replicate 32 2, sig_v = 1\<rparr>"

text \<open>
  Concrete crates for the witnesses: a digest of fixed length, a printer of the JSON strings in
  order, and a recovery that reads the signer's key off the signature.
\<close>

fun sample_json :: "json \<Rightarrow> string" where
  "sample_json (J_Str s) = s"
| "sample_json (J_Obj kvs) = concat (map (\<lambda>kv. fst kv @ sample_json (snd kv)) kvs)"

definition sample_crypto :: crypto where
  "sample_crypto =
     \<lparr>keccak256 = (\<lambda>bs. take 32 (bs @ replicate 32 0)), json_to_string = sample_json,
      ethers_recover = (\<lambda>r s v m. Ok (be_bytes 20 (unat r))),
      secp_message = (\<lambda>m. if length m = 32 then Ok m else Err InvalidMessage),
      secp_recovery_id = (\<lambda>i. if in_range 0 3 i then Ok i else Err InvalidRecoveryId),
      secp_from_compact = (\<lambda>d i. if length d = 64 then Ok d else Err InvalidSignature),
      secp_recover_ecdsa = (\<lambda>m d. Ok d)\<rparr>"

theorem recovery_id_offsets_witness:
  "signature_try_from sample_crypto (sample_sig\<lparr>sig_v := 28\<rparr>) = signature_try_from sample_crypto sample_sig \<and>
   signature_try_from sample_crypto (sample_sig\<lparr>sig_v := 36\<rparr>) = signature_try_from sample_crypto sample_sig"
  using recovery_id_offsets [of sample_sig sample_crypto] by (simp add: sample_sig_def in_range_def)

text \<open>
  Byte arrays survive JSON: what \<open>serialize_as_hex\<close> writes, both deserialisers read back,
  each for its own length; a bracketed list of numbers is read back too, and an array of the
  wrong length is rejected.
\<close>

theorem byte_array_roundtrip:
  assumes "hex_laws hx" and "bs \<noteq> []"
  shows "(deserialize_address_bytes_or_string hx (Hex_Str (serialize_as_hex hx bs)) = Ok bs
            \<longleftrightarrow> length bs = 20) \<and>
         (deserialize_address_bytes_or_string hx (Hex_Str (byte_list_literal bs)) = Ok bs
            \<longleftrightarrow> length bs = 20) \<and>
         (deserialize_sig_bytes_or_string hx (Hex_Str (serialize_as_hex hx bs)) = Ok bs
            \<longleftrightarrow> length bs = 32) \<and>
         (deserialize_sig_bytes_or_string hx (Hex_Str (byte_list_literal bs)) = Ok bs
            \<longleftrightarrow> length bs = 32)"
proof -
  have "strip_prefix ''0x'' (byte_list_literal bs) = None"
       "starts_with (CHR ''['') (byte_list_literal bs)"
       "ends_with (CHR '']'') (byte_list_literal bs)"
    by (simp_all add: byte_list_literal_def starts_with_def ends_with_def)
  then show ?thesis
    using assms parse_byte_list_literal [OF assms(2)]
    by (simp add: serialize_as_hex_def hex_encode_bytes_hex hex_decode_bytes_hex try_into_def)
qed

theorem byte_array_roundtrip_witness:
  "deserialize_address_bytes_or_string hex_ref (Hex_Str (byte_list_literal (replicate 20 7)))
     = Ok (replicate 20 7)"
  using byte_array_roundtrip [OF hex_laws_ref, of "replicate 20 7"] by simp

text \<open>
  A transfer between two different owners, applied to the sender's token and to the
  receiver's, conserves the sum of the balances whenever both conversions return, and changes
  nothing else in either token; the sender's aborts exactly when the value exceeds the balance,
  the receiver's exactly when the sum does not fit, and neither returns an error.
\<close>

theorem token_try_from_conserves:
  assumes "tx_from txn \<noteq> tx_to txn" and "\<not> is_bridge_in (tx_transaction_type txn)"
    and "tok_owner_id s = tx_from txn" and "tok_owner_id r = tx_to txn"
  shows "(case token_try_from s txn of
            Ok s' \<Rightarrow>
              s' = s\<lparr>tok_balance := tok_balance s'\<rparr> \<and>
              (case token_try_from r txn of
                 Ok r' \<Rightarrow>
                   r' = r\<lparr>tok_balance := tok_balance r'\<rparr> \<and>
                   unat (tok_balance s') + unat (tok_balance r') =
                   unat (tok_balance s) + unat (tok_balance r)
               | Err e \<Rightarrow> False
               | Panic p \<Rightarrow> 2 ^ 256 \<le> unat (tok_balance r) + unat (tx_value txn))
          | Err e \<Rightarrow> False
          | Panic p \<Rightarrow> unat (tok_balance s) < unat (tx_value txn))"
  using assms token_try_from_sender [of txn s] token_try_from_receiver [of txn r]
  by (auto simp: word_le_nat_alt unat_sub unat_add_u256)

definition sample_transaction :: "transaction_type \<Rightarrow> address \<Rightarrow> address \<Rightarrow> address \<Rightarrow> u256 \<Rightarrow> transaction" where
  "sample_transaction ty f t p v =
     default_transaction\<lparr>tx_transaction_type := ty, tx_from := f, tx_to := t,
       tx_program_id := p, tx_value := v\<rparr>"

lemma sample_transaction_sel [simp]:
  "tx_transaction_type (sample_transaction ty f t p v) = ty"
  "tx_from (sample_transaction ty f t p v) = f"
  "tx_to (sample_transaction ty f t p v) = t"
  "tx_program_id (sample_transaction ty f t p v) = p"
  "tx_value (sample_transaction ty f t p v) = v"
  by (simp_all add: sample_transaction_def)

lemma sample_token_sel [simp]:
  "tok_program_id (sample_token p own b) = p" "tok_owner_id (sample_token p own b) = own"
  "tok_balance (sample_token p own b) = b" "tok_token_ids (sample_token p own b) = []"
  "tok_allowance (sample_token p own b) = Map.empty"
  "tok_approvals (sample_token p own b) = Map.empty"
  by (simp_all add: sample_token_def)

lemma verse_not_eth [simp]: "verse_addr \<noteq> eth_addr" "eth_addr \<noteq> verse_addr"
  by (simp_all add: verse_addr_def eth_addr_def numeral_eq_Suc)

theorem token_try_from_conserves_witness:
  "\<exists>s' r'.
     token_try_from (sample_token eth_addr eth_addr 10)
       (sample_transaction (Send 0) eth_addr verse_addr eth_addr 4) = Ok s' \<and>
     token_try_from (sample_token eth_addr verse_addr 1)
       (sample_transaction (Send 0) eth_addr verse_addr eth_addr 4) = Ok r' \<and>
     unat (tok_balance s') + unat (tok_balance r') = 11"
proof -
  let ?x = "sample_transaction (Send 0) eth_addr verse_addr eth_addr 4"
  let ?s = "sample_token eth_addr eth_addr 10" and ?r = "sample_token eth_addr verse_addr 1"
  have "token_try_from ?s ?x = Ok (?s\<lparr>tok_balance := 6\<rparr>)"
       "token_try_from ?r ?x = Ok (?r\<lparr>tok_balance := 5\<rparr>)"
    by (simp_all add: token_try_from_def u256_sub_def u256_add_def)
  then show ?thesis using token_try_from_conserves [of ?x ?s ?r] by simp
qed

end
