(* ===== verification/Program_Model.thy ===== *)
theory Program_Model
  imports Transaction_Model
begin

text \<open>
  The instructions a program returns (crates/types/src/programming_model.rs): create, update,
  transfer, burn and log, with their builders, the accounts each instruction involves, and the
  program schema's prerequisites. A builder is a record of options; its setters are the steps of
  \<open>*_builder_step\<close>, one constructor a method, and a chain of calls is a fold over a list of them.
  An \<open>std::io::Error\<close> is its message.
\<close>

section \<open>Field updates\<close>

datatype program_field = PF_LinkedPrograms | PF_Metadata | PF_Data

datatype linked_programs_value = LP_Insert address | LP_Extend "address list" | LP_Remove address

datatype program_field_value =
  PV_LinkedPrograms linked_programs_value | PV_Metadata metadata_value | PV_Data data_value

record token_update_field =
  tuf_field :: token_field
  tuf_value :: token_field_value

record program_update_field =
  puf_field :: program_field
  puf_value :: program_field_value

definition default_token_update_field :: token_update_field where
  "default_token_update_field =
     \<lparr>tuf_field = TF_Data, tuf_value = TV_Metadata (MD_Extend [''some'' \<mapsto> ''data''])\<rparr>"

definition token_update_field_build ::
    "token_field option \<Rightarrow> token_field_value option \<Rightarrow> (boxed_error, token_update_field) outcome" where
  "token_update_field_build fld val =
     obind (ok_or fld (IoError ''field is required'')) (\<lambda>f.
     obind (ok_or val (IoError ''value is required'')) (\<lambda>v.
     Ok \<lparr>tuf_field = f, tuf_value = v\<rparr>))"

definition program_update_field_build ::
    "program_field option \<Rightarrow> program_field_value option \<Rightarrow> (boxed_error, program_update_field) outcome" where
  "program_update_field_build fld val =
     obind (ok_or fld (IoError ''field is required'')) (\<lambda>f.
     obind (ok_or val (IoError ''value is required'')) (\<lambda>v.
     Ok \<lparr>puf_field = f, puf_value = v\<rparr>))"

section \<open>Token distributions\<close>

record token_distribution =
  td_program_id :: address_or_namespace
  td_to :: address_or_namespace
  td_amount :: "u256 option"
  td_token_ids :: "u256 list"
  td_update_fields :: "token_update_field list"

definition default_token_distribution :: token_distribution where
  "default_token_distribution =
     \<lparr>td_program_id = This, td_to = AON_Address (Address (replicate 20 0)), td_amount = Some 0,
      td_token_ids = [0], td_update_fields = [default_token_update_field]\<rparr>"

record token_distribution_builder =
  tdb_program_id :: "address_or_namespace option"
  tdb_to :: "address_or_namespace option"
  tdb_amount :: "u256 option"
  tdb_token_ids :: "u256 list"
  tdb_update_fields :: "token_update_field list"

datatype token_distribution_call =
  TD_program_id address_or_namespace | TD_to address_or_namespace | TD_amount u256
| TD_add_token_id u256 | TD_extend_token_ids "u256 list"
| TD_add_update_field token_update_field | TD_extend_update_fields "token_update_field list"

fun token_distribution_builder_step ::
    "token_distribution_call \<Rightarrow> token_distribution_builder \<Rightarrow> token_distribution_builder" where
  "token_distribution_builder_step (TD_program_id p) b = b\<lparr>tdb_program_id := Some p\<rparr>"
| "token_distribution_builder_step (TD_to a) b = b\<lparr>tdb_to := Some a\<rparr>"
| "token_distribution_builder_step (TD_amount v) b = b\<lparr>tdb_amount := Some v\<rparr>"
| "token_distribution_builder_step (TD_add_token_id i) b =
     b\<lparr>tdb_token_ids := tdb_token_ids b @ [i]\<rparr>"
| "token_distribution_builder_step (TD_extend_token_ids is) b =
     b\<lparr>tdb_token_ids := tdb_token_ids b @ is\<rparr>"
| "token_distribution_builder_step (TD_add_update_field u) b =
     b\<lparr>tdb_update_fields := tdb_update_fields b @ [u]\<rparr>"
| "token_distribution_builder_step (TD_extend_update_fields us) b =
     b\<lparr>tdb_update_fields := tdb_update_fields b @ us\<rparr>"

definition token_distribution_build ::
    "token_distribution_builder \<Rightarrow> (boxed_error, token_distribution) outcome" where
  "token_distribution_build b =
     obind (ok_or (tdb_program_id b) (IoError ''program id is required'')) (\<lambda>p.
     obind (ok_or (tdb_to b) (IoError ''to address is required'')) (\<lambda>t.
     Ok \<lparr>td_program_id = p, td_to = t, td_amount = tdb_amount b,
         td_token_ids = tdb_token_ids b, td_update_fields = tdb_update_fields b\<rparr>))"

section \<open>Create\<close>

record create_instruction =
  ci_program_namespace :: address_or_namespace
  ci_program_id :: address_or_namespace
  ci_program_owner :: address
  ci_total_supply :: u256
  ci_initialized_supply :: u256
  ci_distribution :: "token_distribution list"

definition default_create_instruction :: create_instruction where
  "default_create_instruction =
     \<lparr>ci_program_namespace = This, ci_program_id = AON_Address (Address (replicate 20 0)),
      ci_program_owner = Address (replicate 20 0), ci_total_supply = 0,
      ci_initialized_supply = 0, ci_distribution = [default_token_distribution]\<rparr>"

record create_instruction_builder =
  cb_program_namespace :: "address_or_namespace option"
  cb_program_id :: "address_or_namespace option"
  cb_program_owner :: "address option"
  cb_total_supply :: "u256 option"
  cb_initialized_supply :: "u256 option"
  cb_distribution :: "token_distribution list"

datatype create_call =
  CB_program_namespace address_or_namespace | CB_program_id address_or_namespace
| CB_program_owner address | CB_total_supply u256 | CB_initialized_supply u256
| CB_extend_token_distributions "token_distribution list"
| CB_add_token_distribution token_distribution

fun create_builder_step :: "create_call \<Rightarrow> create_instruction_builder \<Rightarrow> create_instruction_builder" where
  "create_builder_step (CB_program_namespace n) b = b\<lparr>cb_program_namespace := Some n\<rparr>"
| "create_builder_step (CB_program_id p) b = b\<lparr>cb_program_id := Some p\<rparr>"
| "create_builder_step (CB_program_owner a) b = b\<lparr>cb_program_owner := Some a\<rparr>"
| "create_builder_step (CB_total_supply v) b = b\<lparr>cb_total_supply := Some v\<rparr>"
| "create_builder_step (CB_initialized_supply v) b = b\<lparr>cb_initialized_supply := Some v\<rparr>"
| "create_builder_step (CB_extend_token_distributions ds) b =
     b\<lparr>cb_distribution := cb_distribution b @ ds\<rparr>"
| "create_builder_step (CB_add_token_distribution d) b =
     b\<lparr>cb_distribution := cb_distribution b @ [d]\<rparr>"

text \<open>
  The two supplies go through \<open>ok_or(default).map_err(..)\<close>: the default becomes the error value
  and is replaced by the message, so a missing supply fails the build.
\<close>

definition create_instruction_build ::
    "create_instruction_builder \<Rightarrow> (boxed_error, create_instruction) outcome" where
  "create_instruction_build b =
     obind (ok_or (cb_program_namespace b) (IoError ''programNamespace is required'')) (\<lambda>n.
     obind (ok_or (cb_program_id b) (IoError ''programId is required'')) (\<lambda>p.
     obind (ok_or (cb_program_owner b) (IoError ''programOwner is required'')) (\<lambda>a.
     obind (map_err (\<lambda>_. IoError ''totalSupply default is U256::MAX'')
              (ok_or (cb_total_supply b) (- 1 :: u256))) (\<lambda>t.
     obind (map_err (\<lambda>_. IoError ''initSupply default is 0'')
              (ok_or (cb_initialized_supply b) (0 :: u256))) (\<lambda>i.
     Ok \<lparr>ci_program_namespace = n, ci_program_id = p, ci_program_owner = a,
         ci_total_supply = t, ci_initialized_supply = i, ci_distribution = cb_distribution b\<rparr>)))))"

definition create_accounts_involved :: "create_instruction \<Rightarrow> address_or_namespace list" where
  "create_accounts_involved c =
     [ci_program_namespace c, ci_program_id c, AON_Address (ci_program_owner c)]
       @ map td_to (ci_distribution c)"

section \<open>Update\<close>

record token_update =
  tu_account :: address_or_namespace
  tu_token :: address_or_namespace
  tu_updates :: "token_update_field list"

record program_update =
  pu_account :: address_or_namespace
  pu_updates :: "program_update_field list"

datatype token_or_program_update = TokenUpdate token_update | ProgramUpdate program_update

datatype update_instruction = UpdateInstruction (ui_updates: "token_or_program_update list")

definition default_token_update :: token_update where
  "default_token_update =
     \<lparr>tu_account = AON_Address (Address (replicate 20 0)), tu_token = This,
      tu_updates = [default_token_update_field]\<rparr>"

definition default_update_instruction :: update_instruction where
  "default_update_instruction = UpdateInstruction [TokenUpdate default_token_update]"

definition token_update_build ::
    "address_or_namespace option \<Rightarrow> address_or_namespace option \<Rightarrow> token_update_field list
       \<Rightarrow> (boxed_error, token_update) outcome" where
  "token_update_build account tok updates =
     obind (ok_or account (IoError ''account is required'')) (\<lambda>a.
     obind (ok_or tok (IoError ''token is required'')) (\<lambda>t.
     Ok \<lparr>tu_account = a, tu_token = t, tu_updates = updates\<rparr>))"

definition program_update_build ::
    "address_or_namespace option \<Rightarrow> program_update_field list \<Rightarrow> (boxed_error, program_update) outcome" where
  "program_update_build account updates =
     obind (ok_or account (IoError ''account is required'')) (\<lambda>a.
     Ok \<lparr>pu_account = a, pu_updates = updates\<rparr>)"

definition is_self :: "program_update \<Rightarrow> address_or_namespace \<Rightarrow> bool" where
  "is_self u account \<longleftrightarrow> pu_account u = account"

fun update_account :: "token_or_program_update \<Rightarrow> address_or_namespace" where
  "update_account (TokenUpdate u) = tu_account u"
| "update_account (ProgramUpdate u) = pu_account u"

definition update_accounts_involved :: "update_instruction \<Rightarrow> address_or_namespace list" where
  "update_accounts_involved u = map update_account (ui_updates u)"

section \<open>Transfer\<close>

record transfer_instruction =
  ti_token :: address
  ti_from :: address_or_namespace
  ti_to :: address_or_namespace
  ti_amount :: "u256 option"
  ti_ids :: "u256 list"

definition default_transfer_instruction :: transfer_instruction where
  "default_transfer_instruction =
     \<lparr>ti_token = Address (replicate 20 0), ti_from = This,
      ti_to = AON_Address (Address (replicate 20 0)), ti_amount = Some 0, ti_ids = [0]\<rparr>"

record transfer_instruction_builder =
  tb_token :: "address option"
  tb_from :: "address_or_namespace option"
  tb_to :: "address_or_namespace option"
  tb_amount :: "u256 option"
  tb_ids :: "u256 list"

datatype transfer_call =
  TB_token address | TB_from address_or_namespace | TB_to address_or_namespace
| TB_amount u256 | TB_add_id u256 | TB_extend_ids "u256 list"

fun transfer_builder_step ::
    "transfer_call \<Rightarrow> transfer_instruction_builder \<Rightarrow> transfer_instruction_builder" where
  "transfer_builder_step (TB_token a) b = b\<lparr>tb_token := Some a\<rparr>"
| "transfer_builder_step (TB_from a) b = b\<lparr>tb_from := Some a\<rparr>"
| "transfer_builder_step (TB_to a) b = b\<lparr>tb_to := Some a\<rparr>"
| "transfer_builder_step (TB_amount v) b = b\<lparr>tb_amount := Some v\<rparr>"
| "transfer_builder_step (TB_add_id i) b = b\<lparr>tb_ids := tb_ids b @ [i]\<rparr>"
| "transfer_builder_step (TB_extend_ids is) b = b\<lparr>tb_ids := tb_ids b @ is\<rparr>"

definition transfer_instruction_build ::
    "transfer_instruction_builder \<Rightarrow> (boxed_error, transfer_instruction) outcome" where
  "transfer_instruction_build b =
     obind (ok_or (tb_token b) (IoError ''token address is required'')) (\<lambda>tok.
     obind (ok_or (tb_from b) (IoError ''from address is required'')) (\<lambda>f.
     obind (ok_or (tb_to b) (IoError ''to address is required'')) (\<lambda>t.
     Ok \<lparr>ti_token = tok, ti_from = f, ti_to = t, ti_amount = tb_amount b, ti_ids = tb_ids b\<rparr>)))"

definition transfer_accounts_involved :: "transfer_instruction \<Rightarrow> address_or_namespace list" where
  "transfer_accounts_involved t = [ti_from t, ti_to t]"

definition replace_this_with_to ::
    "transaction \<Rightarrow> string \<Rightarrow> transfer_instruction \<Rightarrow> (transfer_instruction, boxed_error, unit) mutres" where
  "replace_this_with_to txn field t =
     (if field = ''from'' then (t\<lparr>ti_from := AON_Address (tx_to txn)\<rparr>, Ok ())
      else if field = ''to'' then (t\<lparr>ti_to := AON_Address (tx_to txn)\<rparr>, Ok ())
      else (t, Err (IoError ''received an invalid string when calling `replace_this_with_to`'')))"

section \<open>Burn and log\<close>

record burn_instruction =
  bi_caller :: address
  bi_program_id :: address_or_namespace
  bi_token :: address
  bi_from :: address_or_namespace
  bi_amount :: "u256 option"
  bi_token_ids :: "u256 list"

definition default_burn_instruction :: burn_instruction where
  "default_burn_instruction =
     \<lparr>bi_caller = Address (replicate 20 0), bi_program_id = This,
      bi_token = Address (replicate 20 0), bi_from = AON_Address (Address (replicate 20 0)),
      bi_amount = Some 0, bi_token_ids = [0]\<rparr>"

record burn_instruction_builder =
  bb_caller :: "address option"
  bb_program_id :: "address_or_namespace option"
  bb_token :: "address option"
  bb_from :: "address_or_namespace option"
  bb_amount :: "u256 option"
  bb_token_ids :: "u256 list"

datatype burn_call =
  BB_caller address | BB_program_id address_or_namespace | BB_token address
| BB_from address_or_namespace | BB_amount u256 | BB_add_token_id u256
| BB_extend_token_ids "u256 list"

fun burn_builder_step :: "burn_call \<Rightarrow> burn_instruction_builder \<Rightarrow> burn_instruction_builder" where
  "burn_builder_step (BB_caller a) b = b\<lparr>bb_caller := Some a\<rparr>"
| "burn_builder_step (BB_program_id p) b = b\<lparr>bb_program_id := Some p\<rparr>"
| "burn_builder_step (BB_token a) b = b\<lparr>bb_token := Some a\<rparr>"
| "burn_builder_step (BB_from a) b = b\<lparr>bb_from := Some a\<rparr>"
| "burn_builder_step (BB_amount v) b = b\<lparr>bb_amount := Some v\<rparr>"
| "burn_builder_step (BB_add_token_id i) b = b\<lparr>bb_token_ids := bb_token_ids b @ [i]\<rparr>"
| "burn_builder_step (BB_extend_token_ids is) b = b\<lparr>bb_token_ids := bb_token_ids b @ is\<rparr>"

definition burn_instruction_build ::
    "burn_instruction_builder \<Rightarrow> (boxed_error, burn_instruction) outcome" where
  "burn_instruction_build b =
     obind (ok_or (bb_caller b) (IoError ''caller is required'')) (\<lambda>c.
     obind (ok_or (bb_program_id b) (IoError ''program id is required'')) (\<lambda>p.
     obind (ok_or (bb_token b) (IoError ''token is required'')) (\<lambda>tok.
     obind (ok_or (bb_from b) (IoError ''from is required'')) (\<lambda>f.
     Ok \<lparr>bi_caller = c, bi_program_id = p, bi_token = tok, bi_from = f,
         bi_amount = bb_amount b, bi_token_ids = bb_token_ids b\<rparr>))))"

definition burn_accounts_involved :: "burn_instruction \<Rightarrow> address_or_namespace list" where
  "burn_accounts_involved b = [bi_from b]"

datatype contract_log_type = Log_Info string | Log_Error string | Log_Warn string | Log_Debug string

section \<open>Instructions\<close>

datatype instruction =
  Create create_instruction | Update update_instruction | Transfer transfer_instruction
| Burn burn_instruction | Log contract_log_type

fun get_accounts_involved :: "instruction \<Rightarrow> address_or_namespace list" where
  "get_accounts_involved (Create c) = create_accounts_involved c"
| "get_accounts_involved (Update u) = update_accounts_involved u"
| "get_accounts_involved (Transfer t) = transfer_accounts_involved t"
| "get_accounts_involved (Burn b) = burn_accounts_involved b"
| "get_accounts_involved (Log l) = []"

text \<open>The generic \<open>InstructionBuilder<I>\<close>: its \<open>build\<close> repeats the inner builder's checks.\<close>

definition instruction_builder_create_build :: "create_instruction_builder \<Rightarrow> (boxed_error, instruction) outcome" where
  "instruction_builder_create_build b =
     obind (ok_or (cb_program_namespace b) (IoError ''programNamespace is required'')) (\<lambda>n.
     obind (ok_or (cb_program_id b) (IoError ''programId is required'')) (\<lambda>p.
     obind (ok_or (cb_program_owner b) (IoError ''programOwner is required'')) (\<lambda>a.
     obind (map_err (\<lambda>_. IoError ''totalSupply default is U256::MAX'')
              (ok_or (cb_total_supply b) (- 1 :: u256))) (\<lambda>t.
     obind (map_err (\<lambda>_. IoError ''initSupply default is 0'')
              (ok_or (cb_initialized_supply b) (0 :: u256))) (\<lambda>i.
     Ok (Create \<lparr>ci_program_namespace = n, ci_program_id = p, ci_program_owner = a,
         ci_total_supply = t, ci_initialized_supply = i, ci_distribution = cb_distribution b\<rparr>))))))"

definition instruction_builder_update_build :: "token_or_program_update list \<Rightarrow> instruction" where
  "instruction_builder_update_build updates = Update (UpdateInstruction updates)"

definition instruction_builder_transfer_build :: "transfer_instruction_builder \<Rightarrow> (boxed_error, instruction) outcome" where
  "instruction_builder_transfer_build b =
     obind (ok_or (tb_token b) (IoError ''token address is required'')) (\<lambda>tok.
     obind (ok_or (tb_from b) (IoError ''from address is required'')) (\<lambda>f.
     obind (ok_or (tb_to b) (IoError ''to address is required'')) (\<lambda>t.
     Ok (Transfer \<lparr>ti_token = tok, ti_from = f, ti_to = t, ti_amount = tb_amount b,
                   ti_ids = tb_ids b\<rparr>))))"

definition instruction_builder_burn_build :: "burn_instruction_builder \<Rightarrow> (boxed_error, instruction) outcome" where
  "instruction_builder_burn_build b =
     obind (ok_or (bb_caller b) (IoError ''caller is required'')) (\<lambda>c.
     obind (ok_or (bb_program_id b) (IoError ''program id is required'')) (\<lambda>p.
     obind (ok_or (bb_token b) (IoError ''token is required'')) (\<lambda>tok.
     obind (ok_or (bb_from b) (IoError ''from is required'')) (\<lambda>f.
     Ok (Burn \<lparr>bi_caller = c, bi_program_id = p, bi_token = tok, bi_from = f,
         bi_amount = bb_amount b, bi_token_ids = bb_token_ids b\<rparr>)))))"

section \<open>Program schemas\<close>

datatype transaction_fields =
  F_TransactionType | F_From | F_To | F_ProgramId | F_Op | F_Inputs | F_Value | F_Nonce
| F_V | F_R | F_S

datatype required =
  Req_Call transaction_fields transaction_fields string string string
| Req_Read "(string \<times> string \<times> string) list" "string list option"
| Req_Lock string string
| Req_Unlock string string

record schema_op =
  op_description :: string
  op_help :: "string option"
  op_required :: "required list option"

record schema_contract =
  sc_name :: string
  sc_version :: string
  sc_language :: string
  sc_ops :: "string \<rightharpoonup> schema_op"

definition get_prerequisites :: "schema_contract \<Rightarrow> string \<Rightarrow> (boxed_error, required list) outcome" where
  "get_prerequisites c op =
     obind (ok_or (sc_ops c op) (IoError ''Invalid `op`: Not defined in schema'')) (\<lambda>value.
     case op_required value of Some reqs \<Rightarrow> Ok reqs | None \<Rightarrow> Ok [])"

section \<open>Lemmas\<close>

text \<open>The value the last matching call of a chain leaves in a field, and what the calls append.\<close>

definition last_call :: "('c \<Rightarrow> 'a option) \<Rightarrow> 'c list \<Rightarrow> 'a option" where
  "last_call f cs = fold (\<lambda>c acc. case f c of None \<Rightarrow> acc | Some x \<Rightarrow> Some x) cs None"

lemma last_call_snoc:
  "last_call f (cs @ [c]) = (case f c of None \<Rightarrow> last_call f cs | Some x \<Rightarrow> Some x)"
  by (simp add: last_call_def split: option.split)

lemma last_call_None_iff: "last_call f cs = None \<longleftrightarrow> (\<forall>c\<in>set cs. f c = None)"
  by (induction cs rule: rev_induct) (auto simp: last_call_snoc last_call_def split: option.splits)

fun tb_token_of :: "transfer_call \<Rightarrow> address option" where
  "tb_token_of (TB_token a) = Some a" | "tb_token_of _ = None"
fun tb_from_of :: "transfer_call \<Rightarrow> address_or_namespace option" where
  "tb_from_of (TB_from a) = Some a" | "tb_from_of _ = None"
fun tb_to_of :: "transfer_call \<Rightarrow> address_or_namespace option" where
  "tb_to_of (TB_to a) = Some a" | "tb_to_of _ = None"
fun tb_amount_of :: "transfer_call \<Rightarrow> u256 option" where
  "tb_amount_of (TB_amount v) = Some v" | "tb_amount_of _ = None"
fun tb_ids_of :: "transfer_call \<Rightarrow> u256 list" where
  "tb_ids_of (TB_add_id i) = [i]" | "tb_ids_of (TB_extend_ids is) = is" | "tb_ids_of _ = []"

definition new_transfer_builder :: transfer_instruction_builder where
  "new_transfer_builder =
     \<lparr>tb_token = None, tb_from = None, tb_to = None, tb_amount = None, tb_ids = []\<rparr>"

lemma transfer_builder_chain:
  "fold transfer_builder_step cs new_transfer_builder =
     \<lparr>tb_token = last_call tb_token_of cs, tb_from = last_call tb_from_of cs,
      tb_to = last_call tb_to_of cs, tb_amount = last_call tb_amount_of cs,
      tb_ids = concat (map tb_ids_of cs)\<rparr>"
proof (induction cs rule: rev_induct)
  case Nil
  then show ?case by (simp add: new_transfer_builder_def last_call_def)
next
  case (snoc c cs)
  then show ?case by (cases c) (auto simp: last_call_snoc)
qed

definition new_create_builder :: create_instruction_builder where
  "new_create_builder =
     \<lparr>cb_program_namespace = None, cb_program_id = None, cb_program_owner = None,
      cb_total_supply = None, cb_initialized_supply = None, cb_distribution = []\<rparr>"

lemma create_supply_mono:
  "cb_total_supply b \<noteq> None \<Longrightarrow> cb_total_supply (create_builder_step c b) \<noteq> None"
  by (cases c) auto

lemma create_total_supply_chain:
  "(\<forall>v. CB_total_supply v \<notin> set cs) \<Longrightarrow>
     cb_total_supply (fold create_builder_step cs b) = cb_total_supply b"
proof (induction cs arbitrary: b)
  case (Cons c cs)
  have "cb_total_supply (create_builder_step c b) = cb_total_supply b"
    using Cons.prems by (cases c) auto
  then show ?case using Cons by simp
qed simp

lemma create_init_supply_chain:
  "(\<forall>v. CB_initialized_supply v \<notin> set cs) \<Longrightarrow>
     cb_initialized_supply (fold create_builder_step cs b) = cb_initialized_supply b"
proof (induction cs arbitrary: b)
  case (Cons c cs)
  have "cb_initialized_supply (create_builder_step c b) = cb_initialized_supply b"
    using Cons.prems by (cases c) auto
  then show ?case using Cons by simp
qed simp

section \<open>Properties\<close>

text \<open>
  A chain of calls on a fresh transfer builder builds an instruction exactly when the token,
  the sender and the receiver were each set at least once; every field then holds the value set
  last, and the ids are all that were added, in the order of the calls. The generic instruction
  builder returns the same instruction or the same error.
\<close>

theorem transfer_builder_exact:
  "(transfer_instruction_build (fold transfer_builder_step cs new_transfer_builder) =
      (case last_call tb_token_of cs of
         None \<Rightarrow> Err (IoError ''token address is required'')
       | Some tok \<Rightarrow> (case last_call tb_from_of cs of
           None \<Rightarrow> Err (IoError ''from address is required'')
         | Some f \<Rightarrow> (case last_call tb_to_of cs of
             None \<Rightarrow> Err (IoError ''to address is required'')
           | Some t \<Rightarrow>
               Ok \<lparr>ti_token = tok, ti_from = f, ti_to = t,
                   ti_amount = last_call tb_amount_of cs,
                   ti_ids = concat (map tb_ids_of cs)\<rparr>)))) \<and>
   instruction_builder_transfer_build (fold transfer_builder_step cs new_transfer_builder) =
     obind (transfer_instruction_build (fold transfer_builder_step cs new_transfer_builder))
       (\<lambda>t. Ok (Transfer t)) \<and>
   (is_Ok (transfer_instruction_build (fold transfer_builder_step cs new_transfer_builder)) \<longleftrightarrow>
      (\<exists>a. TB_token a \<in> set cs) \<and> (\<exists>a. TB_from a \<in> set cs) \<and> (\<exists>a. TB_to a \<in> set cs))"
proof -
  have ex: "last_call tb_token_of cs \<noteq> None \<longleftrightarrow> (\<exists>a. TB_token a \<in> set cs)"
           "last_call tb_from_of cs \<noteq> None \<longleftrightarrow> (\<exists>a. TB_from a \<in> set cs)"
           "last_call tb_to_of cs \<noteq> None \<longleftrightarrow> (\<exists>a. TB_to a \<in> set cs)"
    by (auto simp: last_call_None_iff elim!: tb_token_of.elims tb_from_of.elims tb_to_of.elims
        intro!: rev_bexI)
  show ?thesis
    using ex unfolding transfer_builder_chain
    by (auto simp: transfer_instruction_build_def instruction_builder_transfer_build_def
        split: option.splits)
qed

text \<open>
  A create instruction on which a supply was never set cannot be built, whatever else was
  set, although the messages name \<open>U256::MAX\<close> and 0 as the defaults: every chain of calls that
  omits either supply ends in an error, and so does the generic builder.
\<close>

theorem create_builder_needs_supplies:
  assumes "(\<forall>v. CB_total_supply v \<notin> set cs) \<or> (\<forall>v. CB_initialized_supply v \<notin> set cs)"
  shows "is_Err (create_instruction_build (fold create_builder_step cs new_create_builder)) \<and>
         is_Err (instruction_builder_create_build (fold create_builder_step cs new_create_builder))"
proof -
  let ?b = "fold create_builder_step cs new_create_builder"
  have "cb_total_supply ?b = None \<or> cb_initialized_supply ?b = None"
    using assms create_total_supply_chain [of cs new_create_builder]
      create_init_supply_chain [of cs new_create_builder]
    by (auto simp: new_create_builder_def)
  then show ?thesis
    by (cases "cb_program_namespace ?b"; cases "cb_program_id ?b"; cases "cb_program_owner ?b";
        cases "cb_total_supply ?b"; cases "cb_initialized_supply ?b")
      (auto simp: create_instruction_build_def instruction_builder_create_build_def)
qed

theorem create_builder_needs_supplies_witness:
  "is_Err (create_instruction_build
     (fold create_builder_step
        [CB_program_namespace This, CB_program_id This, CB_program_owner eth_addr,
         CB_initialized_supply 5] new_create_builder))"
  using create_builder_needs_supplies
    [of "[CB_program_namespace This, CB_program_id This, CB_program_owner eth_addr,
          CB_initialized_supply 5]"]
  by simp

end
