(* ===== verification/Account_Model.thy ===== *)
theory Account_Model
  imports Program_Model
begin

text \<open>
  Accounts (crates/types/src/account.rs): the \<open>Account\<close> record, the application of send
  transactions and of instruction effects to one account, the validations the validator calls,
  and the nonce. Every \<open>&mut self\<close> method returns the account as it leaves it beside the outcome.
\<close>

section \<open>State\<close>

datatype account_type = User | Program address

record account =
  acc_account_type :: account_type
  acc_program_namespace :: "address_or_namespace option"
  acc_owner_address :: address
  acc_programs :: "address \<rightharpoonup> token"
  acc_nonce :: u256
  acc_program_account_data :: arbitrary_data
  acc_program_account_metadata :: metadata
  acc_program_account_linked_programs :: "address_or_namespace set"

type_synonym 'a account_result = "(account, boxed_error, 'a) mutres"

text \<open>\<open>Account::new\<close> ignores the map of programs it is given.\<close>

definition account_new ::
    "account_type \<Rightarrow> address_or_namespace option \<Rightarrow> address \<Rightarrow> (address \<rightharpoonup> token) option \<Rightarrow> account" where
  "account_new account_type program_namespace owner_address programs =
     \<lparr>acc_account_type = account_type, acc_program_namespace = program_namespace,
      acc_owner_address = owner_address, acc_programs = Map.empty, acc_nonce = 0,
      acc_program_account_data = Map.empty, acc_program_account_metadata = Map.empty,
      acc_program_account_linked_programs = {}\<rparr>"

record program_account =
  pa_namespace :: namespace
  pa_linked_programs :: "address \<rightharpoonup> token"
  pa_metadata :: metadata
  pa_data :: arbitrary_data

definition program_account_new ::
    "namespace \<Rightarrow> (address \<rightharpoonup> token) option \<Rightarrow> metadata option \<Rightarrow> arbitrary_data option \<Rightarrow> program_account" where
  "program_account_new ns linked m d =
     \<lparr>pa_namespace = ns,
      pa_linked_programs = (case linked of Some p \<Rightarrow> p | None \<Rightarrow> Map.empty),
      pa_metadata = (case m of Some x \<Rightarrow> x | None \<Rightarrow> Map.empty),
      pa_data = (case d of Some x \<Rightarrow> x | None \<Rightarrow> Map.empty)\<rparr>"

definition balance_of :: "address \<Rightarrow> account \<Rightarrow> u256" where
  "balance_of program_id a = (case acc_programs a program_id of Some entry \<Rightarrow> tok_balance entry | None \<Rightarrow> 0)"

definition insert_program :: "address \<Rightarrow> token \<Rightarrow> account \<Rightarrow> account" where
  "insert_program program_id tok a = a\<lparr>acc_programs := (acc_programs a)(program_id \<mapsto> tok)\<rparr>"

text \<open>\<open>TokenBuilder\<close> with every field set: a token without balance and ids.\<close>

definition fresh_token :: "address \<Rightarrow> address \<Rightarrow> metadata \<Rightarrow> arbitrary_data \<Rightarrow> token" where
  "fresh_token program_id owner_id md d =
     \<lparr>tok_program_id = program_id, tok_owner_id = owner_id, tok_balance = 0, tok_metadata = md,
      tok_token_ids = [], tok_allowance = Map.empty, tok_approvals = Map.empty,
      tok_data = d, tok_status = Free\<rparr>"

section \<open>Send transactions\<close>

text \<open>A held token: convert, take over the program account's metadata and data, and store.\<close>

definition extend_from_program :: "account option \<Rightarrow> token \<Rightarrow> token" where
  "extend_from_program program_account tok =
     (case program_account of
        Some a \<Rightarrow> tok\<lparr>tok_metadata := kv_extend (acc_program_account_metadata a) (tok_metadata tok),
                      tok_data := kv_extend (acc_program_account_data a) (tok_data tok)\<rparr>
      | None \<Rightarrow> tok)"

definition apply_to_held :: "transaction \<Rightarrow> account option \<Rightarrow> token \<Rightarrow> account \<Rightarrow> token account_result" where
  "apply_to_held txn program_account tok self =
     (case token_try_from tok txn of
        Ok new_token \<Rightarrow>
          (let t = extend_from_program program_account new_token in
           (insert_program (tok_program_id t) t self, Ok t))
      | Err e \<Rightarrow> (self, Err e)
      | Panic p \<Rightarrow> (self, Panic p))"

definition apply_new_token :: "transaction \<Rightarrow> account option \<Rightarrow> account \<Rightarrow> token account_result" where
  "apply_new_token txn program_account self =
     (let tok = token_from_transaction txn;
          t = (case program_account of
                 Some a \<Rightarrow> set_data (acc_program_account_data a)
                            (set_metadata (acc_program_account_metadata a) tok)
               | None \<Rightarrow> tok) in
      (insert_program (tok_program_id t) t self, Ok t))"

definition unable_to_convert :: boxed_error where
  "unable_to_convert = ToTokenError ''unable to convert transaction into token''"

definition apply_send_transaction :: "transaction \<Rightarrow> account option \<Rightarrow> account \<Rightarrow> token account_result" where
  "apply_send_transaction txn program_account self =
     (if is_bridge_in (tx_transaction_type txn) then
        case acc_programs self (tx_program_id txn) of
          None \<Rightarrow>
            (let t = token_from_transaction txn in (insert_program (tok_program_id t) t self, Ok t))
        | Some tok \<Rightarrow> apply_to_held txn program_account tok self
      else if tx_to txn = tx_from txn then
        case acc_programs self (tx_program_id txn) of
          Some tok \<Rightarrow> (self, Ok tok)
        | None \<Rightarrow> (self, Err (ToTokenError
            ''user attempting to send to self, token that does not yet exist''))
      else
        case acc_programs self (tx_program_id txn) of
          Some tok \<Rightarrow> apply_to_held txn program_account tok self
        | None \<Rightarrow>
            if tx_to txn = acc_owner_address self then apply_new_token txn program_account self
            else case acc_account_type self of
                   Program program_address \<Rightarrow>
                     if tx_to txn = program_address then
                       (case acc_programs self (tx_program_id txn) of
                          Some tok \<Rightarrow> apply_to_held txn program_account tok self
                        | None \<Rightarrow> apply_new_token txn program_account self)
                     else (self, Err unable_to_convert)
                 | User \<Rightarrow> (self, Err unable_to_convert))"

section \<open>Instructions\<close>

text \<open>
  \<open>if let Some(entry) = self.programs.get_mut(..)\<close>: the entry is changed in place, so what an
  earlier call did to it stays when a later one fails.
\<close>

definition modify_entry :: "address \<Rightarrow> (token \<Rightarrow> token_result) \<Rightarrow> token \<Rightarrow> account \<Rightarrow> token account_result" where
  "modify_entry addr f entry self =
     (case f entry of (t, r) \<Rightarrow>
        (insert_program addr t self,
         case r of Ok _ \<Rightarrow> Ok t | Err e \<Rightarrow> Err e | Panic p \<Rightarrow> Panic p))"

text \<open>The same calls on a token of the function's own, which is stored only at the end.\<close>

definition store_new :: "address \<Rightarrow> (token \<Rightarrow> token_result) \<Rightarrow> token \<Rightarrow> account \<Rightarrow> token account_result" where
  "store_new addr f tok self =
     (case f tok of
        (t, Ok _) \<Rightarrow> (insert_program addr t self, Ok t)
      | (t, Err e) \<Rightarrow> (self, Err e)
      | (t, Panic p) \<Rightarrow> (self, Panic p))"

definition opt_amount :: "(u256 \<Rightarrow> token \<Rightarrow> token_result) \<Rightarrow> u256 option \<Rightarrow> token \<Rightarrow> token_result" where
  "opt_amount f amount t = (case amount of Some amt \<Rightarrow> f amt t | None \<Rightarrow> (t, Ok ()))"

definition nonempty_ids :: "(u256 list \<Rightarrow> token \<Rightarrow> token_result) \<Rightarrow> u256 list \<Rightarrow> token \<Rightarrow> token_result" where
  "nonempty_ids f ids t = (if ids \<noteq> [] then f ids t else (t, Ok ()))"

definition credit_and_add :: "u256 option \<Rightarrow> u256 list \<Rightarrow> token \<Rightarrow> token_result" where
  "credit_and_add amount ids t =
     and_then (opt_amount credit amount t) (\<lambda>t' _. nonempty_ids add_token_ids ids t')"

definition debit_and_remove :: "u256 option \<Rightarrow> u256 list \<Rightarrow> token \<Rightarrow> token_result" where
  "debit_and_remove amount ids t =
     and_then (opt_amount debit amount t) (\<lambda>t' _. nonempty_ids remove_token_ids ids t')"

definition apply_updates :: "token_update_field list \<Rightarrow> token \<Rightarrow> token_result" where
  "apply_updates updates t = for_each (\<lambda>u. apply_token_update_field_values (tuf_value u)) updates t"

definition apply_transfer_to_instruction ::
    "address \<Rightarrow> u256 option \<Rightarrow> u256 list \<Rightarrow> account option \<Rightarrow> account \<Rightarrow> token account_result" where
  "apply_transfer_to_instruction token_address amount token_ids program_account self =
     (case acc_programs self token_address of
        Some entry \<Rightarrow> modify_entry token_address (credit_and_add amount token_ids) entry self
      | None \<Rightarrow>
          (let token_metadata = (case program_account of
                 Some a \<Rightarrow> acc_program_account_metadata a | None \<Rightarrow> Map.empty);
               token_data = (case program_account of
                 Some a \<Rightarrow> acc_program_account_data a | None \<Rightarrow> Map.empty) in
           store_new token_address (credit_and_add amount token_ids)
             (fresh_token token_address (acc_owner_address self) token_metadata token_data) self))"

definition apply_transfer_from_instruction ::
    "address \<Rightarrow> u256 option \<Rightarrow> u256 list \<Rightarrow> account \<Rightarrow> token account_result" where
  "apply_transfer_from_instruction token_address amount token_ids self =
     (case acc_programs self token_address of
        Some entry \<Rightarrow> modify_entry token_address (debit_and_remove amount token_ids) entry self
      | None \<Rightarrow> (self, Err (IoError ''cannot transfer a token that the caller doesn't own'')))"

definition apply_burn_instruction ::
    "address \<Rightarrow> u256 option \<Rightarrow> u256 list \<Rightarrow> account \<Rightarrow> token account_result" where
  "apply_burn_instruction token_address amount token_ids self =
     (case acc_programs self token_address of
        Some entry \<Rightarrow> modify_entry token_address (debit_and_remove amount token_ids) entry self
      | None \<Rightarrow> (self, Err (IoError ''Account cannot have a token that it does not own burned'')))"

text \<open>The address an account is stored under: its program address, or its owner's.\<close>

definition account_address :: "account \<Rightarrow> address" where
  "account_address a = (case acc_account_type a of Program addr \<Rightarrow> addr | User \<Rightarrow> acc_owner_address a)"

definition apply_token_distribution ::
    "address \<Rightarrow> u256 option \<Rightarrow> u256 list \<Rightarrow> token_update_field list \<Rightarrow> account \<Rightarrow> account
       \<Rightarrow> token account_result" where
  "apply_token_distribution program_id amount token_ids token_updates program_account self =
     (let f = (\<lambda>t. and_then (credit_and_add amount token_ids t) (\<lambda>t' _. apply_updates token_updates t')) in
      case acc_programs self program_id of
        Some tok \<Rightarrow> modify_entry program_id f tok self
      | None \<Rightarrow>
          store_new program_id f
            (fresh_token program_id (account_address self)
               (acc_program_account_metadata program_account)
               (acc_program_account_data program_account)) self)"

definition apply_token_update ::
    "address \<Rightarrow> token_update_field list \<Rightarrow> account \<Rightarrow> account \<Rightarrow> token account_result" where
  "apply_token_update program_id updates program_account self =
     (case acc_programs self program_id of
        Some tok \<Rightarrow> modify_entry program_id (apply_updates updates) tok self
      | None \<Rightarrow>
          store_new program_id (apply_updates updates)
            (fresh_token program_id (account_address self)
               (acc_program_account_metadata program_account)
               (acc_program_account_data program_account)) self)"

fun apply_program_update_field_values :: "program_field_value \<Rightarrow> account \<Rightarrow> unit account_result" where
  "apply_program_update_field_values (PV_LinkedPrograms (LP_Insert p)) self =
     (self\<lparr>acc_program_account_linked_programs :=
        insert (AON_Address p) (acc_program_account_linked_programs self)\<rparr>, Ok ())"
| "apply_program_update_field_values (PV_LinkedPrograms (LP_Extend ps)) self =
     (self\<lparr>acc_program_account_linked_programs :=
        acc_program_account_linked_programs self \<union> AON_Address ` set ps\<rparr>, Ok ())"
| "apply_program_update_field_values (PV_LinkedPrograms (LP_Remove p)) self =
     (self\<lparr>acc_program_account_linked_programs :=
        acc_program_account_linked_programs self - {AON_Address p}\<rparr>, Ok ())"
| "apply_program_update_field_values (PV_Metadata (MD_Insert k v)) self =
     (self\<lparr>acc_program_account_metadata := kv_insert k v (acc_program_account_metadata self)\<rparr>, Ok ())"
| "apply_program_update_field_values (PV_Metadata (MD_Extend iter)) self =
     (self\<lparr>acc_program_account_metadata := kv_extend iter (acc_program_account_metadata self)\<rparr>, Ok ())"
| "apply_program_update_field_values (PV_Metadata (MD_Remove k)) self =
     (self\<lparr>acc_program_account_metadata := kv_remove k (acc_program_account_metadata self)\<rparr>, Ok ())"
| "apply_program_update_field_values (PV_Data (D_Insert k v)) self =
     (self\<lparr>acc_program_account_data := kv_insert k v (acc_program_account_data self)\<rparr>, Ok ())"
| "apply_program_update_field_values (PV_Data (D_Extend iter)) self =
     (self\<lparr>acc_program_account_data := kv_extend iter (acc_program_account_data self)\<rparr>, Ok ())"
| "apply_program_update_field_values (PV_Data (D_Remove k)) self =
     (self\<lparr>acc_program_account_data := kv_remove k (acc_program_account_data self)\<rparr>, Ok ())"

definition account_apply_program_update :: "program_update \<Rightarrow> account \<Rightarrow> unit account_result" where
  "account_apply_program_update update self =
     (case acc_account_type self of
        User \<Rightarrow> (self, Err (IoError
          ''Account is not a program account and cannot accept a program update''))
      | Program program_addr \<Rightarrow>
          for_each (\<lambda>u. apply_program_update_field_values (puf_value u)) (pu_updates update) self)"

section \<open>Validation\<close>

definition no_program_error :: "address \<Rightarrow> boxed_error" where
  "no_program_error program_id =
     IoError (''account does not have associated program: '' @ to_full_string program_id)"

definition validate_program_id :: "address \<Rightarrow> account \<Rightarrow> (boxed_error, unit) outcome" where
  "validate_program_id program_id self =
     (case acc_programs self program_id of
        Some _ \<Rightarrow> Ok () | None \<Rightarrow> Err (no_program_error program_id))"

definition validate_balance :: "address \<Rightarrow> u256 \<Rightarrow> account \<Rightarrow> (boxed_error, unit) outcome" where
  "validate_balance program_id amount self =
     (case acc_programs self program_id of
        Some tok \<Rightarrow>
          if tok_balance tok \<ge> amount then Ok () else Err (IoError ''account balance insufficient'')
      | None \<Rightarrow> Err (no_program_error program_id))"

fun all_owned :: "token \<Rightarrow> u256 list \<Rightarrow> (boxed_error, unit) outcome" where
  "all_owned tok [] = Ok ()"
| "all_owned tok (nft # nfts) =
     (if nft \<notin> set (tok_token_ids tok)
      then Err (IoError (''account does not own token_id: 0x'' @ show_hex (unat nft)))
      else all_owned tok nfts)"

definition validate_token_ownership :: "address \<Rightarrow> u256 list \<Rightarrow> account \<Rightarrow> (boxed_error, unit) outcome" where
  "validate_token_ownership program_id token_ids self =
     (case acc_programs self program_id of
        Some tok \<Rightarrow> all_owned tok token_ids
      | None \<Rightarrow> Err (no_program_error program_id))"

text \<open>The last \<open>else if\<close> of the source repeats the test before it and is never reached.\<close>

definition validate_approved_spend ::
    "address \<Rightarrow> address \<Rightarrow> u256 \<Rightarrow> account \<Rightarrow> (boxed_error, unit) outcome" where
  "validate_approved_spend program_id spender amount self =
     (case acc_programs self program_id of
        Some tok \<Rightarrow>
          (case tok_allowance tok spender of
             Some entry \<Rightarrow>
               if entry > amount then Ok () else Err (IoError ''amount exceeds approved limit'')
           | None \<Rightarrow>
               (case tok_approvals tok spender of
                  Some entry \<Rightarrow>
                    if entry = [] then Ok ()
                    else Err (IoError ''spender not approved by this account'')
                | None \<Rightarrow>
                    (case acc_account_type self of
                       Program program_addr \<Rightarrow>
                         if program_addr = program_id then Ok () else Err (no_program_error program_id)
                     | User \<Rightarrow> Err (IoError ''unable to verify approved spend''))))
      | None \<Rightarrow> Err (no_program_error program_id))"

definition validate_approved_token_transfer ::
    "address \<Rightarrow> address \<Rightarrow> u256 list \<Rightarrow> account \<Rightarrow> (boxed_error, unit) outcome" where
  "validate_approved_token_transfer program_id spender token_ids self =
     (case acc_programs self program_id of
        Some tok \<Rightarrow>
          (case tok_approvals tok spender of
             Some entry \<Rightarrow>
               if entry = [] then Err (IoError ''spender not approved by this account'')
               else (case token_ids of
                       nft # _ \<Rightarrow>
                         if nft \<notin> set entry
                         then Err (IoError (''spender not approved to spend token_id: '' @ show_nat (unat nft)))
                         else Err (no_program_error program_id)
                     | [] \<Rightarrow> Err (no_program_error program_id))
           | None \<Rightarrow>
               (case acc_account_type self of
                  Program program_addr \<Rightarrow>
                    if program_addr = program_id then Ok () else Err (no_program_error program_id)
                | User \<Rightarrow> Err (no_program_error program_id)))
      | None \<Rightarrow> Err (no_program_error program_id))"

definition validate_nonce :: "u256 \<Rightarrow> account \<Rightarrow> (boxed_error, unit) outcome" where
  "validate_nonce nonce self =
     (if acc_nonce self = 0 \<and> nonce = 0 then Ok ()
      else if nonce > acc_nonce self then Ok ()
      else Err (IoError ''unable to validate nonce''))"

definition increment_nonce :: "account \<Rightarrow> unit account_result" where
  "increment_nonce self =
     (case u256_add (acc_nonce self) 1 of
        None \<Rightarrow> (self, Panic overflow)
      | Some n \<Rightarrow> (self\<lparr>acc_nonce := n\<rparr>, Ok ()))"

section \<open>Inputs and outputs of a program\<close>

record inputs =
  in_version :: i32
  in_account_info :: account
  in_transaction :: transaction
  in_op :: string
  in_inputs :: string

record outputs =
  out_inputs :: inputs
  out_instructions :: "instruction list"

datatype outputs_call = OB_inputs inputs | OB_add instruction | OB_extend "instruction list"

record outputs_builder =
  ob_inputs :: "inputs option"
  ob_instructions :: "instruction list"

fun outputs_builder_step :: "outputs_call \<Rightarrow> outputs_builder \<Rightarrow> outputs_builder" where
  "outputs_builder_step (OB_inputs i) b = b\<lparr>ob_inputs := Some i\<rparr>"
| "outputs_builder_step (OB_add x) b = b\<lparr>ob_instructions := ob_instructions b @ [x]\<rparr>"
| "outputs_builder_step (OB_extend xs) b = b\<lparr>ob_instructions := ob_instructions b @ xs\<rparr>"

definition outputs_build :: "outputs_builder \<Rightarrow> (boxed_error, outputs) outcome" where
  "outputs_build b =
     obind (ok_or (ob_inputs b) (IoError ''inputs is required'')) (\<lambda>i.
     Ok \<lparr>out_inputs = i, out_instructions = ob_instructions b\<rparr>)"

section \<open>Well-formed accounts\<close>

text \<open>Every token of an account is filed under its own program id.\<close>

definition wf_account :: "account \<Rightarrow> bool" where
  "wf_account a \<longleftrightarrow> (\<forall>k t. acc_programs a k = Some t \<longrightarrow> tok_program_id t = k)"

text \<open>What the operations of an account never change.\<close>

definition same_identity :: "account \<Rightarrow> account \<Rightarrow> bool" where
  "same_identity a b \<longleftrightarrow>
     acc_account_type b = acc_account_type a \<and> acc_owner_address b = acc_owner_address a \<and>
     acc_program_namespace b = acc_program_namespace a"

lemma same_identity_refl [simp]: "same_identity a a"
  by (simp add: same_identity_def)

lemma same_identity_trans: "same_identity a b \<Longrightarrow> same_identity b c \<Longrightarrow> same_identity a c"
  by (simp add: same_identity_def)

definition kept :: "account \<Rightarrow> account \<Rightarrow> bool" where
  "kept a b \<longleftrightarrow> wf_account b \<and> same_identity a b"

lemma kept_refl: "wf_account a \<Longrightarrow> kept a a"
  by (simp add: kept_def)

lemma kept_trans: "kept a b \<Longrightarrow> kept b c \<Longrightarrow> kept a c"
  by (auto simp: kept_def intro: same_identity_trans)

lemma kept_wf: "kept a b \<Longrightarrow> wf_account b"
  by (simp add: kept_def)

lemma account_new_wf [wf_intros]: "wf_account (account_new ty ns own ps)"
  by (simp add: account_new_def wf_account_def)

lemma insert_program_wf [wf_intros]:
  "wf_account a \<Longrightarrow> tok_program_id t = k \<Longrightarrow> wf_account (insert_program k t a)"
  by (simp add: insert_program_def wf_account_def)

lemma insert_program_frame [simp, frame]:
  "acc_account_type (insert_program k t a) = acc_account_type a"
  "acc_owner_address (insert_program k t a) = acc_owner_address a"
  "acc_program_namespace (insert_program k t a) = acc_program_namespace a"
  "acc_nonce (insert_program k t a) = acc_nonce a"
  "acc_program_account_data (insert_program k t a) = acc_program_account_data a"
  "acc_program_account_metadata (insert_program k t a) = acc_program_account_metadata a"
  "acc_programs (insert_program k t a) = (acc_programs a)(k \<mapsto> t)"
  by (simp_all add: insert_program_def)

lemma insert_program_identity [simp]: "same_identity a (insert_program k t a)"
  by (simp add: same_identity_def)

lemma insert_program_kept: "wf_account a \<Longrightarrow> tok_program_id t = k \<Longrightarrow> kept a (insert_program k t a)"
  by (simp add: kept_def insert_program_wf)

lemma fresh_token_sel [simp]:
  "tok_program_id (fresh_token p own m d) = p" "tok_owner_id (fresh_token p own m d) = own"
  "tok_balance (fresh_token p own m d) = 0" "tok_token_ids (fresh_token p own m d) = []"
  by (simp_all add: fresh_token_def)

lemma extend_from_program_sel [simp]:
  "tok_program_id (extend_from_program pa t) = tok_program_id t"
  "tok_owner_id (extend_from_program pa t) = tok_owner_id t"
  "tok_balance (extend_from_program pa t) = tok_balance t"
  "tok_token_ids (extend_from_program pa t) = tok_token_ids t"
  by (simp_all add: extend_from_program_def split: option.split)

text \<open>The token operations keep the program id and the owner.\<close>

definition same_ids :: "token \<Rightarrow> token \<Rightarrow> bool" where
  "same_ids t t' \<longleftrightarrow> tok_program_id t' = tok_program_id t \<and> tok_owner_id t' = tok_owner_id t"

lemma same_ids_debit: "same_ids t (fst (debit v t))"
  by (simp add: same_ids_def debit_spec)

lemma same_ids_credit: "same_ids t (fst (credit v t))"
  by (simp add: same_ids_def credit_spec)

lemma same_ids_remove: "same_ids t (fst (remove_token_ids is t))"
  by (simp add: same_ids_def remove_token_ids_spec)

lemma same_ids_add: "same_ids t (fst (add_token_ids is t))"
  by (simp add: same_ids_def add_token_ids_def)

lemma same_ids_field: "same_ids t (fst (apply_token_update_field_values u t))"
  using field_update_holding [of t u] by (simp add: same_ids_def same_holding_def)

lemma same_ids_refl [simp]: "same_ids t t"
  by (simp add: same_ids_def)

lemma same_ids_trans: "same_ids a b \<Longrightarrow> same_ids b c \<Longrightarrow> same_ids a c"
  by (simp add: same_ids_def)

lemma same_ids_and_then:
  assumes "same_ids t (fst m)" and "\<And>s a. same_ids s (fst (f s a))"
  shows "same_ids t (fst (and_then m f))"
  using assms(1)
  by (rule and_then_inv [where P = "same_ids t"]) (use assms(2) same_ids_trans in blast)

lemma same_ids_opt [intro]: "(\<And>v t. same_ids t (fst (f v t))) \<Longrightarrow> same_ids t (fst (opt_amount f a t))"
  by (simp add: opt_amount_def split: option.split)

lemma same_ids_nonempty [intro]:
  "(\<And>is t. same_ids t (fst (f is t))) \<Longrightarrow> same_ids t (fst (nonempty_ids f is t))"
  by (simp add: nonempty_ids_def)

lemma same_ids_updates: "same_ids t (fst (apply_updates us t))"
  unfolding apply_updates_def
  by (rule for_each_inv [where P = "same_ids t"]) (use same_ids_field same_ids_trans in auto)

lemma same_ids_credit_and_add: "same_ids t (fst (credit_and_add a is t))"
  unfolding credit_and_add_def by (intro same_ids_and_then same_ids_opt same_ids_nonempty same_ids_credit same_ids_add)

lemma same_ids_debit_and_remove: "same_ids t (fst (debit_and_remove a is t))"
  unfolding debit_and_remove_def
  by (intro same_ids_and_then same_ids_opt same_ids_nonempty same_ids_debit same_ids_remove)

lemmas same_ids_intros = same_ids_credit_and_add same_ids_debit_and_remove same_ids_updates
  same_ids_and_then

lemma modify_entry_wf [wf_intros]:
  assumes "wf_account a" and "acc_programs a k = Some t" and "\<And>t. same_ids t (fst (f t))"
  shows "kept a (fst (modify_entry k f t a))"
proof -
  have "tok_program_id t = k" using assms by (simp add: wf_account_def)
  then show ?thesis using assms(3) [of t] assms(1)
    by (cases "f t") (auto simp: modify_entry_def same_ids_def intro: insert_program_kept kept_refl)
qed

lemma store_new_wf [wf_intros]:
  assumes "wf_account a" and "tok_program_id t = k" and "\<And>t. same_ids t (fst (f t))"
  shows "kept a (fst (store_new k f t a))"
  using assms(1,2) assms(3) [of t]
  by (cases "f t"; cases "snd (f t)") (auto simp: store_new_def same_ids_def intro: insert_program_kept kept_refl)

lemma apply_to_held_wf:
  assumes "wf_account a" and "acc_programs a k = Some t"
  shows "kept a (fst (apply_to_held txn pa t a))"
proof (cases "token_try_from t txn")
  case (Ok t')
  then have "tok_program_id t' = tok_program_id t"
    using token_try_from_Ok_frame [of t txn t'] by (metis token.select_convs(1) token.surjective token.update_convs(3))
  then show ?thesis using assms Ok by (auto simp: apply_to_held_def Let_def intro: insert_program_kept kept_refl)
qed (use assms in \<open>auto simp: apply_to_held_def kept_refl\<close>)

lemma apply_new_token_wf:
  assumes "wf_account a"
  shows "kept a (fst (apply_new_token txn pa a))"
  using assms by (auto simp: apply_new_token_def Let_def intro: insert_program_kept kept_refl)

lemma apply_send_wf:
  assumes "wf_account a"
  shows "kept a (fst (apply_send_transaction txn pa a))"
  using assms apply_to_held_wf [OF assms, of "tx_program_id txn"] apply_new_token_wf [OF assms]
  by (auto simp: apply_send_transaction_def Let_def intro: insert_program_kept kept_refl
      split: option.split account_type.split)

lemma apply_instruction_wf:
  assumes "wf_account a"
  shows "kept a (fst (apply_transfer_to_instruction k v is pa a))"
    and "kept a (fst (apply_transfer_from_instruction k v is a))"
    and "kept a (fst (apply_burn_instruction k v is a))"
    and "kept a (fst (apply_token_distribution k v is us p a))"
    and "kept a (fst (apply_token_update k us p a))"
  unfolding apply_transfer_to_instruction_def apply_transfer_from_instruction_def
    apply_burn_instruction_def apply_token_distribution_def apply_token_update_def Let_def
  using assms
  by (auto split: option.split intro!: modify_entry_wf store_new_wf same_ids_intros kept_refl)

lemma program_field_update_frame:
  "acc_programs (fst (apply_program_update_field_values u a)) = acc_programs a \<and>
   same_identity a (fst (apply_program_update_field_values u a))"
  by (induction u a rule: apply_program_update_field_values.induct) (auto simp: same_identity_def)

lemma program_field_update_kept: "wf_account a \<Longrightarrow> kept a (fst (apply_program_update_field_values u a))"
  using program_field_update_frame [of u a] by (simp add: kept_def wf_account_def)

lemma program_update_kept:
  assumes "wf_account a"
  shows "kept a (fst (account_apply_program_update u a))"
proof (cases "acc_account_type a")
  case (Program p)
  have "kept a (fst (for_each (\<lambda>u. apply_program_update_field_values (puf_value u)) us a))" for us
  proof (rule for_each_inv [where P = "kept a"])
    show "kept a (fst (apply_program_update_field_values (puf_value x) s))" if "kept a s" for x s
      using that program_field_update_kept [of s "puf_value x"] kept_trans kept_wf by blast
  qed (simp add: assms kept_refl)
  then show ?thesis using Program by (simp add: account_apply_program_update_def)
qed (use assms in \<open>simp add: account_apply_program_update_def kept_refl\<close>)

section \<open>The operations as steps\<close>

datatype account_op =
  Op_Send transaction "account option"
| Op_TransferTo address "u256 option" "u256 list" "account option"
| Op_TransferFrom address "u256 option" "u256 list"
| Op_Burn address "u256 option" "u256 list"
| Op_Distribute address "u256 option" "u256 list" "token_update_field list" account
| Op_TokenUpdate address "token_update_field list" account
| Op_ProgramUpdate program_update
| Op_IncrementNonce

fun account_step :: "account_op \<Rightarrow> account \<Rightarrow> account" where
  "account_step (Op_Send txn pa) a = fst (apply_send_transaction txn pa a)"
| "account_step (Op_TransferTo k v is pa) a = fst (apply_transfer_to_instruction k v is pa a)"
| "account_step (Op_TransferFrom k v is) a = fst (apply_transfer_from_instruction k v is a)"
| "account_step (Op_Burn k v is) a = fst (apply_burn_instruction k v is a)"
| "account_step (Op_Distribute k v is us p) a = fst (apply_token_distribution k v is us p a)"
| "account_step (Op_TokenUpdate k us p) a = fst (apply_token_update k us p a)"
| "account_step (Op_ProgramUpdate u) a = fst (account_apply_program_update u a)"
| "account_step Op_IncrementNonce a = fst (increment_nonce a)"

lemma increment_nonce_kept: "wf_account a \<Longrightarrow> kept a (fst (increment_nonce a))"
  by (auto simp: increment_nonce_def kept_def wf_account_def same_identity_def split: option.split)

lemmas account_kept = apply_send_wf apply_instruction_wf program_update_kept increment_nonce_kept

lemma account_step_kept: "wf_account a \<Longrightarrow> kept a (account_step op a)"
  by (cases op) (auto simp: account_kept)

section \<open>Properties\<close>

text \<open>
  C12: from a new account, through any sequence of the operations an account has, successful or
  failing on the way, every token stays filed under its own program id, and the account's type,
  owner and namespace stay what they were.
\<close>

theorem account_run_wf:
  "wf_account (fold account_step ops (account_new ty ns own ps)) \<and>
   same_identity (account_new ty ns own ps) (fold account_step ops (account_new ty ns own ps))"
proof -
  have "kept (account_new ty ns own ps) (fold account_step ops (account_new ty ns own ps))"
  proof (induction ops rule: rev_induct)
    case Nil
    then show ?case by (simp add: kept_refl account_new_wf)
  next
    case (snoc op ops)
    then show ?case using account_step_kept kept_trans kept_wf by (metis fold_append fold_simps comp_apply)
  qed
  then show ?thesis by (simp add: kept_def)
qed

text \<open>
  A send application that does not return a token leaves the account exactly as it was; one
  that does has stored that very token under its program id, and nothing else of the account
  has changed.
\<close>

theorem apply_send_atomic:
  "(case apply_send_transaction txn pa a of
      (a', Ok t) \<Rightarrow>
        acc_programs a' (tok_program_id t) = Some t \<or>
        (a' = a \<and> acc_programs a (tx_program_id txn) = Some t)
    | (a', Err e) \<Rightarrow> a' = a
    | (a', Panic p) \<Rightarrow> a' = a) \<and>
   fst (apply_send_transaction txn pa a) =
     a\<lparr>acc_programs := acc_programs (fst (apply_send_transaction txn pa a))\<rparr>"
  by (auto simp: apply_send_transaction_def apply_to_held_def apply_new_token_def Let_def
      insert_program_def split: option.split account_type.split outcome.split)

lemma balance_of_insert:
  "balance_of p (insert_program q t a) = (if p = q then tok_balance t else balance_of p a)"
  by (simp add: balance_of_def)

lemma apply_send_sender:
  assumes "tx_from txn \<noteq> tx_to txn" and "\<not> is_bridge_in (tx_transaction_type txn)"
    and "wf_account a" and "acc_programs a (tx_program_id txn) = Some s"
    and "tok_owner_id s = tx_from txn" and "tx_value txn \<le> tok_balance s"
  shows "\<exists>s'. apply_send_transaction txn pa a = (insert_program (tx_program_id txn) s' a, Ok s') \<and>
              tok_balance s' = tok_balance s - tx_value txn \<and> tok_program_id s' = tx_program_id txn"
proof -
  have "tok_program_id s = tx_program_id txn" using assms(3,4) by (simp add: wf_account_def)
  then show ?thesis
    using assms token_try_from_sender [of txn s]
    by (simp add: apply_send_transaction_def apply_to_held_def Let_def)
qed

lemma apply_send_receiver:
  assumes "tx_from txn \<noteq> tx_to txn" and "\<not> is_bridge_in (tx_transaction_type txn)"
    and "wf_account a" and "acc_owner_address a = tx_to txn"
    and "\<And>r. acc_programs a (tx_program_id txn) = Some r \<Longrightarrow> tok_owner_id r = tx_to txn"
    and "unat (balance_of (tx_program_id txn) a) + unat (tx_value txn) < 2 ^ 256"
  shows "\<exists>r'. apply_send_transaction txn pa a = (insert_program (tx_program_id txn) r' a, Ok r') \<and>
              tok_balance r' = balance_of (tx_program_id txn) a + tx_value txn"
proof (cases "acc_programs a (tx_program_id txn)")
  case None
  have "tok_program_id (token_from_transaction txn) = tx_program_id txn"
       "tok_balance (token_from_transaction txn) = tx_value txn"
    by (simp_all add: token_from_transaction_def)
  then show ?thesis using None assms(1,2,4)
    by (cases pa) (auto simp: apply_send_transaction_def apply_new_token_def Let_def balance_of_def
        set_data_def set_metadata_def)
next
  case (Some r)
  then have "tok_program_id r = tx_program_id txn" using assms(3) by (simp add: wf_account_def)
  then show ?thesis
    using assms Some token_try_from_receiver [of txn r]
    by (simp add: apply_send_transaction_def apply_to_held_def Let_def balance_of_def)
qed

text \<open>
  A send of a value the sender holds, to a receiver whose balance has room for it, applied to
  the two accounts: both applications return, exactly the value moves from the sender's balance
  to the receiver's, whether or not the receiver held the token before, and no other token of
  either account changes.
\<close>

theorem apply_send_conserves:
  assumes "tx_from txn \<noteq> tx_to txn" and "\<not> is_bridge_in (tx_transaction_type txn)"
    and "wf_account a" and "wf_account b"
    and "acc_programs a (tx_program_id txn) = Some s" and "tok_owner_id s = tx_from txn"
    and "acc_owner_address b = tx_to txn"
    and "\<And>r. acc_programs b (tx_program_id txn) = Some r \<Longrightarrow> tok_owner_id r = tx_to txn"
    and "tx_value txn \<le> tok_balance s"
    and "unat (balance_of (tx_program_id txn) b) + unat (tx_value txn) < 2 ^ 256"
  shows "\<exists>a' s' b' r'.
           apply_send_transaction txn pa a = (a', Ok s') \<and>
           apply_send_transaction txn pb b = (b', Ok r') \<and>
           unat (balance_of (tx_program_id txn) a') + unat (tx_value txn) =
             unat (balance_of (tx_program_id txn) a) \<and>
           unat (balance_of (tx_program_id txn) b') =
             unat (balance_of (tx_program_id txn) b) + unat (tx_value txn) \<and>
           (\<forall>q. q = tx_program_id txn \<or>
                (acc_programs a' q = acc_programs a q \<and> acc_programs b' q = acc_programs b q))"
proof -
  obtain s' where s: "apply_send_transaction txn pa a = (insert_program (tx_program_id txn) s' a, Ok s')"
      "tok_balance s' = tok_balance s - tx_value txn"
    using apply_send_sender assms(1,2,3,5,6,9) by blast
  obtain r' where r: "apply_send_transaction txn pb b = (insert_program (tx_program_id txn) r' b, Ok r')"
      "tok_balance r' = balance_of (tx_program_id txn) b + tx_value txn"
    using apply_send_receiver [of txn b pb] assms(1,2,4,7,8,10) by blast
  have "balance_of (tx_program_id txn) a = tok_balance s"
    using assms(5) by (simp add: balance_of_def)
  moreover have "unat (tok_balance s - tx_value txn) + unat (tx_value txn) = unat (tok_balance s)"
    using assms(9) by (simp add: unat_sub word_le_nat_alt)
  ultimately show ?thesis
    using s r unat_add_u256 [OF assms(10)] by (simp add: balance_of_insert)
qed

definition sample_account :: "address \<Rightarrow> token \<Rightarrow> account" where
  "sample_account own t = insert_program (tok_program_id t) t (account_new User None own None)"

lemma sample_account_sel [simp]:
  "acc_owner_address (sample_account own t) = own" "acc_account_type (sample_account own t) = User"
  "acc_nonce (sample_account own t) = 0"
  "acc_programs (sample_account own t) = [tok_program_id t \<mapsto> t]"
  by (simp_all add: sample_account_def account_new_def)

lemma sample_account_wf [simp]: "wf_account (sample_account own t)"
  by (simp add: sample_account_def insert_program_wf account_new_wf)

theorem apply_send_conserves_witness:
  "\<exists>a' s' b' r'.
     apply_send_transaction (sample_transaction (Send 0) eth_addr verse_addr eth_addr 4) None
       (sample_account eth_addr (sample_token eth_addr eth_addr 10)) = (a', Ok s') \<and>
     apply_send_transaction (sample_transaction (Send 0) eth_addr verse_addr eth_addr 4) None
       (account_new User None verse_addr None) = (b', Ok r') \<and>
     unat (balance_of eth_addr a') + 4 = 10 \<and> unat (balance_of eth_addr b') = 4"
proof -
  let ?x = "sample_transaction (Send 0) eth_addr verse_addr eth_addr 4"
  let ?t = "sample_token eth_addr eth_addr 10"
  let ?a = "sample_account eth_addr ?t" and ?b = "account_new User None verse_addr None"
  have "acc_programs ?b = Map.empty" "acc_owner_address ?b = verse_addr"
    by (simp_all add: account_new_def)
  moreover from this have "balance_of eth_addr ?b = 0" "balance_of eth_addr ?a = 10"
    by (simp_all add: balance_of_def)
  ultimately show ?thesis
    using apply_send_conserves [of ?x ?a ?b ?t None None] by (auto simp: account_new_wf)
qed

text \<open>
  A transfer instruction, taken off one account and put on another: when the sending side
  returns a token, and the receiving balance has room, the receiving side returns too, the amount
  moves between the balances, and the ids move from one list of ids to the other, the receiver's
  in order.
\<close>

theorem transfer_instruction_moves:
  assumes "apply_transfer_from_instruction k amount ids a = (a', Ok s')"
    and "unat (balance_of k b) + unat (case amount of Some v \<Rightarrow> v | None \<Rightarrow> 0) < 2 ^ 256"
  shows "\<exists>b' r'.
           apply_transfer_to_instruction k amount ids pa b = (b', Ok r') \<and>
           unat (balance_of k a') + unat (balance_of k b') =
             unat (balance_of k a) + unat (balance_of k b) \<and>
           set ids \<subseteq> set (tok_token_ids (the (acc_programs a k))) \<and>
           tok_token_ids s' = [i \<leftarrow> tok_token_ids (the (acc_programs a k)). i \<notin> set ids] \<and>
           tok_token_ids r' =
             (case acc_programs b k of Some r \<Rightarrow> tok_token_ids r | None \<Rightarrow> []) @ ids \<and>
           (\<forall>q. q = k \<or> (acc_programs a' q = acc_programs a q \<and> acc_programs b' q = acc_programs b q))"
proof -
  obtain s where s: "acc_programs a k = Some s"
    using assms(1) by (auto simp: apply_transfer_from_instruction_def split: option.splits)
  have from_ok: "debit_and_remove amount ids s = (s', Ok ()) \<and> a' = insert_program k s' a"
    using assms(1) s by (auto simp: apply_transfer_from_instruction_def modify_entry_def
        split: prod.splits outcome.splits)
  let ?v = "case amount of Some v \<Rightarrow> v | None \<Rightarrow> 0"
  have deb: "?v \<le> tok_balance s \<and> tok_balance s' = tok_balance s - ?v \<and>
      set ids \<subseteq> set (tok_token_ids s) \<and> tok_token_ids s' = [i \<leftarrow> tok_token_ids s. i \<notin> set ids]"
    using from_ok by (cases amount)
      (auto simp: debit_and_remove_def opt_amount_def nonempty_ids_def debit_spec
        remove_token_ids_spec outcome_simps split: if_splits)
  define r where "r = (case acc_programs b k of Some r \<Rightarrow> r | None \<Rightarrow>
      fresh_token k (acc_owner_address b)
        (case pa of Some p \<Rightarrow> acc_program_account_metadata p | None \<Rightarrow> Map.empty)
        (case pa of Some p \<Rightarrow> acc_program_account_data p | None \<Rightarrow> Map.empty))"
  have bal: "tok_balance r = balance_of k b"
    by (simp add: r_def balance_of_def split: option.split)
  define r' where "r' = r\<lparr>tok_balance := tok_balance r + ?v, tok_token_ids := tok_token_ids r @ ids\<rparr>"
  have "credit_and_add amount ids r = (r', Ok ())"
    using assms(2) by (cases amount) (auto simp: credit_and_add_def opt_amount_def nonempty_ids_def
        credit_spec add_token_ids_def r'_def bal)
  then have to_ok: "apply_transfer_to_instruction k amount ids pa b = (insert_program k r' b, Ok r')"
    by (cases "acc_programs b k")
      (auto simp: apply_transfer_to_instruction_def modify_entry_def store_new_def r_def Let_def)
  have "unat (tok_balance s - ?v) + unat (tok_balance r + ?v) = unat (tok_balance s) + unat (tok_balance r)"
    using deb assms(2) bal by (simp add: unat_sub unat_add_u256 word_le_nat_alt)
  moreover have "tok_token_ids r = (case acc_programs b k of Some r \<Rightarrow> tok_token_ids r | None \<Rightarrow> [])"
    by (simp add: r_def split: option.split)
  moreover have "balance_of k a = tok_balance s" using s by (simp add: balance_of_def)
  ultimately show ?thesis
    using to_ok from_ok deb s bal by (simp add: balance_of_insert r'_def)
qed

theorem transfer_instruction_moves_witness:
  "\<exists>a' s' b' r'.
     apply_transfer_from_instruction eth_addr (Some 4) [7]
       (sample_account eth_addr ((sample_token eth_addr eth_addr 10)\<lparr>tok_token_ids := [7, 8]\<rparr>)) = (a', Ok s') \<and>
     apply_transfer_to_instruction eth_addr (Some 4) [7] None (account_new User None verse_addr None) = (b', Ok r') \<and>
     tok_token_ids s' = [8] \<and> tok_token_ids r' = [7]"
proof -
  let ?s = "(sample_token eth_addr eth_addr 10)\<lparr>tok_token_ids := [7, 8]\<rparr>"
  let ?s' = "(sample_token eth_addr eth_addr 6)\<lparr>tok_token_ids := [8]\<rparr>"
  let ?a = "sample_account eth_addr ?s" and ?b = "account_new User None verse_addr None"
  have step: "apply_transfer_from_instruction eth_addr (Some 4) [7] ?a = (insert_program eth_addr ?s' ?a, Ok ?s')"
    by (simp add: apply_transfer_from_instruction_def modify_entry_def debit_and_remove_def
        opt_amount_def nonempty_ids_def debit_spec remove_token_ids_spec) (simp add: sample_token_def)
  show ?thesis
    using transfer_instruction_moves [OF step, of ?b None] step
    by (auto simp: balance_of_def account_new_def)
qed

text \<open>
  Who may spend from an account by \<open>validate_approved_spend\<close>: a spender with an allowance
  strictly above the amount; or, without an allowance, one with an empty list of approvals,
  whatever the amount; or, with neither, anyone, when the account is the program's own. An
  allowance of exactly the amount does not suffice.
\<close>

theorem approved_spend_iff:
  "validate_approved_spend p spender v a = Ok () \<longleftrightarrow>
     (\<exists>t. acc_programs a p = Some t \<and>
        (case tok_allowance t spender of
           Some w \<Rightarrow> unat v < unat w
         | None \<Rightarrow> (case tok_approvals t spender of
                      Some ids \<Rightarrow> ids = []
                    | None \<Rightarrow> acc_account_type a = Program p)))"
  by (auto simp: validate_approved_spend_def word_less_nat_alt split: option.splits account_type.splits)

text \<open>
  An approval to transfer ids is never honoured: \<open>validate_approved_token_transfer\<close> accepts
  only when the spender has no approvals entry at all and the account is the program's own; with
  any entry, also one that lists every id, it returns an error.
\<close>

theorem approved_token_transfer_iff:
  "validate_approved_token_transfer p spender ids a = Ok () \<longleftrightarrow>
     (\<exists>t. acc_programs a p = Some t \<and> tok_approvals t spender = None \<and> acc_account_type a = Program p)"
  by (auto simp: validate_approved_token_transfer_def split: option.splits account_type.splits list.splits if_splits)

lemma all_owned_iff: "all_owned t ids = Ok () \<longleftrightarrow> set ids \<subseteq> set (tok_token_ids t)"
  by (induction ids) auto

text \<open>
  The ownership checks are exactly what the operations need: an account that passes
  \<open>validate_balance\<close> and \<open>validate_token_ownership\<close> for an amount and some ids has its transfer
  and its burn of them succeed, and one that fails either check has both fail.
\<close>

theorem ownership_checks_suffice:
  "(validate_balance k v a = Ok () \<and> validate_token_ownership k ids a = Ok () \<longleftrightarrow>
      is_Ok (snd (apply_transfer_from_instruction k (Some v) ids a))) \<and>
   (validate_balance k v a = Ok () \<and> validate_token_ownership k ids a = Ok () \<longleftrightarrow>
      is_Ok (snd (apply_burn_instruction k (Some v) ids a)))"
  by (auto simp: validate_balance_def validate_token_ownership_def all_owned_iff
      apply_transfer_from_instruction_def apply_burn_instruction_def modify_entry_def
      debit_and_remove_def opt_amount_def nonempty_ids_def debit_spec remove_token_ids_spec
      split: option.splits if_splits)

lemma increment_nonce_iterate:
  "unat (acc_nonce a) + k < 2 ^ 256 \<Longrightarrow>
     (account_step Op_IncrementNonce ^^ k) a = a\<lparr>acc_nonce := acc_nonce a + of_nat k\<rparr>"
proof (induction k)
  case (Suc k)
  have "unat (of_nat k :: u256) = k"
    using Suc.prems by (simp add: unsigned_of_nat take_bit_nat_eq_self)
  then have "unat (acc_nonce a + of_nat k) = unat (acc_nonce a) + k"
    using Suc.prems unat_add_u256 [of "acc_nonce a" "of_nat k"] by simp
  then show ?case using Suc by (simp add: increment_nonce_def u256_add_def ac_simps)
qed simp

text \<open>
  C39: how long a nonce stays acceptable. The account's nonce advances by one for a transaction,
  it is not set to the transaction's nonce: after \<open>k\<close> increments a nonce \<open>n\<close> still passes
  \<open>validate_nonce\<close> as long as the advanced nonce is below \<open>n\<close>, so the same signed transaction
  passes \<open>n\<close> minus the account's nonce times. Only the zero nonce of a fresh account, and nonces
  one above the account's, pass once.
\<close>

theorem nonce_acceptance:
  assumes "unat (acc_nonce a) + k < 2 ^ 256"
  shows "validate_nonce n ((account_step Op_IncrementNonce ^^ k) a) = Ok () \<longleftrightarrow>
           unat (acc_nonce a) + k < unat n \<or> (unat (acc_nonce a) + k = 0 \<and> n = 0)"
proof -
  have "unat (of_nat k :: u256) = k"
    using assms by (simp add: unsigned_of_nat take_bit_nat_eq_self)
  then have u: "unat (acc_nonce a + of_nat k) = unat (acc_nonce a) + k"
    using assms unat_add_u256 [of "acc_nonce a" "of_nat k"] by simp
  have "acc_nonce a + of_nat k = 0 \<longleftrightarrow> unat (acc_nonce a) + k = 0"
    using u by (metis unat_eq_zero)
  then show ?thesis
    using assms u by (auto simp: increment_nonce_iterate validate_nonce_def word_less_nat_alt)
qed

theorem nonce_acceptance_witness:
  "validate_nonce 5 (account_new User None eth_addr None) = Ok () \<and>
   validate_nonce 5 ((account_step Op_IncrementNonce ^^ 4) (account_new User None eth_addr None)) = Ok ()"
  using nonce_acceptance [of "account_new User None eth_addr None" 0 5]
    nonce_acceptance [of "account_new User None eth_addr None" 4 5]
  by (simp add: account_new_def del: account_step.simps)

end
