(* ===== verification/Account_Cache.thy ===== *)
theory Account_Cache
  imports Account_Model
begin

text \<open>
  The account cache actor (crates/actors/src/account_cache.rs) and the helper through which the
  other actors read it (crates/actors/src/helpers.rs): a hash map of accounts in front of the
  persistence store. The store (TiKV) is a map from keys to bytes held in the state; decoding a
  stored value, the size of the serialised cache and the clock are parameters (record
  \<open>cache_env\<close>). The interface the other components rely on is the locale \<open>account_store\<close>.
\<close>

section \<open>State and environment\<close>

record account_cache =
  ac_cache :: "address \<rightharpoonup> account"
  ac_batch_interval :: nat
  ac_last_batch :: "nat option"
  ac_storage :: "string \<rightharpoonup> u8 list"

record cache_env =
  env_deserialize :: "u8 list \<Rightarrow> account option"
  env_store_fails :: "string \<Rightarrow> bool"
  env_base64_len :: "(address \<rightharpoonup> account) \<Rightarrow> nat option"
  env_now :: nat

definition MAX_BATCH_SIZE :: nat where
  "MAX_BATCH_SIZE = 1024 * 512"

datatype cache_error = FailedAccountAcquisition address | SerdeError

datatype cache_message =
  AC_Write account | AC_Read address | AC_Remove address | AC_Update account
| AC_TryGetAccount address

datatype cache_reply = Read_Reply "account option" | TryGet_Reply "account option"

section \<open>Operations\<close>

definition cache_new :: "nat \<Rightarrow> (string \<rightharpoonup> u8 list) \<Rightarrow> account_cache" where
  "cache_new batch_interval storage =
     \<lparr>ac_cache = Map.empty, ac_batch_interval = batch_interval, ac_last_batch = None,
      ac_storage = storage\<rparr>"

definition cache_get :: "address \<Rightarrow> account_cache \<Rightarrow> account option" where
  "cache_get address s = ac_cache s address"

definition cache_remove :: "address \<Rightarrow> account_cache \<Rightarrow> (account_cache, cache_error, unit) mutres" where
  "cache_remove address s = (s\<lparr>ac_cache := (ac_cache s)(address := None)\<rparr>, Ok ())"

definition cache_update :: "account \<Rightarrow> account_cache \<Rightarrow> (account_cache, cache_error, unit) mutres" where
  "cache_update account s =
     (let addr = acc_owner_address account in
      case ac_cache s addr of
        Some a \<Rightarrow> (s\<lparr>ac_cache := (ac_cache s)(addr \<mapsto> account)\<rparr>, Ok ())
      | None \<Rightarrow> (s, Err (FailedAccountAcquisition addr)))"

text \<open>\<open>build_batch\<close> only logs, so of its two guarded calls nothing but \<open>Ok\<close> remains.\<close>

definition check_build_batch :: "cache_env \<Rightarrow> account_cache \<Rightarrow> (account_cache, cache_error, unit) mutres" where
  "check_build_batch env s =
     (case env_base64_len env (ac_cache s) of
        None \<Rightarrow> (s, Err SerdeError)
      | Some len \<Rightarrow>
          if len \<ge> MAX_BATCH_SIZE then (s, Ok ())
          else (case ac_last_batch s of
                  Some instant \<Rightarrow> (s, Ok ())
                | None \<Rightarrow> (s\<lparr>ac_last_batch := Some (env_now env)\<rparr>, Ok ())))"

definition handle_cache_write ::
    "cache_env \<Rightarrow> account \<Rightarrow> account_cache \<Rightarrow> (account_cache, cache_error, unit) mutres" where
  "handle_cache_write env account s =
     (case acc_account_type account of
        User \<Rightarrow>
          check_build_batch env (s\<lparr>ac_cache := (ac_cache s)(acc_owner_address account \<mapsto> account)\<rparr>)
      | Program program_address \<Rightarrow>
          check_build_batch env (s\<lparr>ac_cache := (ac_cache s)(program_address \<mapsto> account)\<rparr>))"

definition storage_read :: "cache_env \<Rightarrow> address \<Rightarrow> account_cache \<Rightarrow> account option" where
  "storage_read env address s =
     (let acc_key = to_full_string address in
      if env_store_fails env acc_key then None
      else case ac_storage s acc_key of
             None \<Rightarrow> None | Some returned_data \<Rightarrow> env_deserialize env returned_data)"

definition cache_read :: "cache_env \<Rightarrow> address \<Rightarrow> account_cache \<Rightarrow> account option" where
  "cache_read env address s =
     (case cache_get address s of
        Some account \<Rightarrow> Some account | None \<Rightarrow> storage_read env address s)"

fun cache_handle :: "cache_env \<Rightarrow> cache_message \<Rightarrow> account_cache \<Rightarrow> account_cache \<times> cache_reply option" where
  "cache_handle env (AC_Write account) s = (fst (handle_cache_write env account s), None)"
| "cache_handle env (AC_Read address) s = (s, Some (Read_Reply (cache_read env address s)))"
| "cache_handle env (AC_Remove address) s = (fst (cache_remove address s), None)"
| "cache_handle env (AC_Update account) s =
     (case cache_update account s of
        (s', Err e) \<Rightarrow> (fst (handle_cache_write env account s'), None)
      | (s', _) \<Rightarrow> (s', None))"
| "cache_handle env (AC_TryGetAccount address) s =
     (s, Some (TryGet_Reply (cache_get address s)))"

text \<open>
  \<open>check_account_cache\<close> and \<open>get_account\<close>: None when the actor is not registered, the message
  cannot be sent, no answer comes in time (all \<open>reachable = False\<close>), or the answer is None.
\<close>

definition check_account_cache :: "bool \<Rightarrow> cache_env \<Rightarrow> address \<Rightarrow> account_cache \<Rightarrow> account option" where
  "check_account_cache reachable env address s =
     (if reachable then
        (case snd (cache_handle env (AC_Read address) s) of
           Some (Read_Reply (Some account)) \<Rightarrow> Some account | _ \<Rightarrow> None)
      else None)"

section \<open>The store interface\<close>

text \<open>
  What the batcher, the validator and the engine rely on: an account read after a write is the
  account written, under the address the account is filed under, and every other address reads
  as before.
\<close>

locale account_store =
  fixes fetch :: "'s \<Rightarrow> address \<Rightarrow> account option"
    and store :: "account \<Rightarrow> 's \<Rightarrow> 's"
  assumes read_write: "fetch (store a s) k = (if k = account_address a then Some a else fetch s k)"
begin

lemma read_written: "fetch (store a s) (account_address a) = Some a"
  by (simp add: read_write)

lemma read_other: "k \<noteq> account_address a \<Longrightarrow> fetch (store a s) k = fetch s k"
  by (simp add: read_write)

lemma write_overwrites:
  "account_address a = account_address b \<Longrightarrow> fetch (store b (store a s)) k = fetch (store b s) k"
  by (simp add: read_write)

lemma write_commutes:
  "account_address a \<noteq> account_address b \<Longrightarrow>
     fetch (store b (store a s)) k = fetch (store a (store b s)) k"
  by (simp add: read_write)

lemma read_fold_write:
  "fetch (fold store as s) k =
     (case find (\<lambda>a. account_address a = k) (rev as) of Some a \<Rightarrow> Some a | None \<Rightarrow> fetch s k)"
  by (induction as rule: rev_induct) (auto simp: read_write split: option.split)

end

section \<open>Lemmas\<close>

lemma check_build_batch_frame [simp, frame]:
  "ac_cache (fst (check_build_batch env s)) = ac_cache s"
  "ac_storage (fst (check_build_batch env s)) = ac_storage s"
  by (simp_all add: check_build_batch_def split: option.split)

lemma handle_cache_write_cache:
  "ac_cache (fst (handle_cache_write env a s)) = (ac_cache s)(account_address a \<mapsto> a)"
  "ac_storage (fst (handle_cache_write env a s)) = ac_storage s"
  by (simp_all add: handle_cache_write_def account_address_def split: account_type.split)

lemma cache_read_view:
  "cache_read env k s = ((\<lambda>k. storage_read env k s) ++ ac_cache s) k"
  by (simp add: cache_read_def cache_get_def map_add_def split: option.split)

lemma storage_read_cong: "ac_storage s = ac_storage t \<Longrightarrow> storage_read env k s = storage_read env k t"
  by (simp add: storage_read_def Let_def)

definition cache_write :: "cache_env \<Rightarrow> account \<Rightarrow> account_cache \<Rightarrow> account_cache" where
  "cache_write env a s = fst (cache_handle env (AC_Write a) s)"

lemma cache_read_write:
  "cache_read env k (cache_write env a s) = (if k = account_address a then Some a else cache_read env k s)"
  using storage_read_cong [of "fst (handle_cache_write env a s)" s env k]
  by (simp add: cache_write_def cache_read_def cache_get_def handle_cache_write_cache split: option.split)

interpretation cache: account_store "\<lambda>s k. cache_read env k s" "cache_write env" for env
  by unfold_locales (rule cache_read_write)

section \<open>Specification\<close>

text \<open>
  The abstract store: one map from addresses to accounts, the map below it that a removal
  uncovers, and the addresses that were written since they were last removed. A write sets the
  entry of the account's address. An update sets the entry of the account's owner when that is
  among the written addresses, whatever the type of the account, and is a write otherwise.
  \<open>TryGetAccount\<close> sees only the written addresses.
\<close>

record store_view =
  sv_entries :: "address \<rightharpoonup> account"
  sv_below :: "address \<rightharpoonup> account"
  sv_written :: "address set"

definition view :: "cache_env \<Rightarrow> account_cache \<Rightarrow> store_view" where
  "view env s = \<lparr>sv_entries = (\<lambda>k. cache_read env k s), sv_below = (\<lambda>k. storage_read env k s), sv_written = dom (ac_cache s)\<rparr>"

definition sv_put :: "address \<Rightarrow> account \<Rightarrow> store_view \<Rightarrow> store_view" where
  "sv_put k a v = v\<lparr>sv_entries := (sv_entries v)(k \<mapsto> a), sv_written := insert k (sv_written v)\<rparr>"

fun spec_handle :: "cache_message \<Rightarrow> store_view \<Rightarrow> store_view \<times> cache_reply option" where
  "spec_handle (AC_Write a) v = (sv_put (account_address a) a v, None)"
| "spec_handle (AC_Read k) v = (v, Some (Read_Reply (sv_entries v k)))"
| "spec_handle (AC_Remove k) v =
     (v\<lparr>sv_entries := (sv_entries v)(k := sv_below v k), sv_written := sv_written v - {k}\<rparr>, None)"
| "spec_handle (AC_Update a) v =
     (sv_put (if acc_owner_address a \<in> sv_written v then acc_owner_address a else account_address a) a v, None)"
| "spec_handle (AC_TryGetAccount k) v =
     (v, Some (TryGet_Reply (if k \<in> sv_written v then sv_entries v k else None)))"

text \<open>A series of messages, with the replies to them in order.\<close>

fun run_messages :: "('m \<Rightarrow> 's \<Rightarrow> 's \<times> 'r option) \<Rightarrow> 'm list \<Rightarrow> 's \<Rightarrow> 's \<times> 'r list" where
  "run_messages h [] s = (s, [])"
| "run_messages h (m # ms) s =
     (case h m s of (s', r) \<Rightarrow>
      case run_messages h ms s' of (s'', rs) \<Rightarrow> (s'', (case r of None \<Rightarrow> rs | Some x \<Rightarrow> x # rs)))"

lemma view_cache:
  "ac_storage s' = ac_storage s \<Longrightarrow> ac_cache s' = (ac_cache s)(k \<mapsto> a) \<Longrightarrow> view env s' = sv_put k a (view env s)"
  using storage_read_cong [of s' s env]
  by (auto simp: view_def sv_put_def cache_read_def cache_get_def fun_eq_iff split: option.split)

lemma cache_handle_refines:
  "(case cache_handle env m s of (s', r) \<Rightarrow> (view env s', r)) = spec_handle m (view env s)"
proof (cases m)
  case (AC_Write a)
  then show ?thesis
    using view_cache [of "fst (handle_cache_write env a s)" s "account_address a" a env]
    by (simp add: handle_cache_write_cache)
next
  case (AC_Update a)
  have written: "sv_written (view env s) = dom (ac_cache s)" by (simp add: view_def)
  show ?thesis
  proof (cases "ac_cache s (acc_owner_address a)")
    case None
    then show ?thesis
      using AC_Update view_cache [of "fst (handle_cache_write env a s)" s "account_address a" a env]
      by (simp add: cache_update_def Let_def handle_cache_write_cache written dom_def)
  next
    case (Some b)
    then show ?thesis
      using AC_Update view_cache [of "s\<lparr>ac_cache := (ac_cache s)(acc_owner_address a \<mapsto> a)\<rparr>" s "acc_owner_address a" a env]
      by (simp add: cache_update_def Let_def written dom_def)
  qed
next
  case (AC_Remove k)
  then show ?thesis
    by (auto simp: view_def cache_remove_def cache_read_def cache_get_def storage_read_def Let_def
        fun_eq_iff split: option.split)
next
  case (AC_TryGetAccount k)
  then show ?thesis by (auto simp: view_def cache_read_def cache_get_def dom_def split: option.split)
qed (simp add: view_def)

section \<open>Properties\<close>

text \<open>
  An account written to the cache is what every later read returns until the next write to
  the same address, whatever writes to other addresses come in between; it is filed under the
  program address of a program account and under the owner address of a user account. A read
  changes nothing, so an account found only in the persistence store is not copied into the
  cache.
\<close>

theorem cache_read_after_writes:
  "cache_read env k (fold (cache_write env) as s) =
     (case find (\<lambda>a. account_address a = k) (rev as) of
        Some a \<Rightarrow> Some a | None \<Rightarrow> cache_read env k s) \<and>
   fst (cache_handle env (AC_Read k) s) = s"
  using cache.read_fold_write by simp

text \<open>
  C14: the cache in front of the store refines the abstract store, for every series of messages of
  every kind: the replies are those of the abstract store, and so are the entries, what a removal
  uncovers and the written addresses in the end. So the cache is one map over the store but for the
  two deviations that the abstract store states: an update of an account whose owner is cached
  replaces the owner's entry, also for a program account, and \<open>TryGetAccount\<close> does not see an account
  that only the store has.
\<close>

theorem cache_refines_map:
  "(case run_messages (cache_handle env) ms s of (s', replies) \<Rightarrow> (view env s', replies)) =
     run_messages spec_handle ms (view env s)"
proof (induction ms arbitrary: s)
  case (Cons m ms)
  obtain s1 r where h: "cache_handle env m s = (s1, r)" by fastforce
  then have "spec_handle m (view env s) = (view env s1, r)" using cache_handle_refines [of env m s] by simp
  then show ?case using Cons [of s1] h by (auto split: prod.splits)
qed simp

definition sample_env :: cache_env where
  "sample_env = \<lparr>env_deserialize = (\<lambda>_. None), env_store_fails = (\<lambda>_. False),
     env_base64_len = (\<lambda>_. Some 0), env_now = 0\<rparr>"

text \<open>
  An \<open>Update\<close> of a program account files it under its owner: when the owner's own account is
  in the cache, the program account replaces it there, and the entry of the program's address
  stays as it was.
\<close>

theorem update_program_account_misfiled:
  assumes "acc_account_type a = Program p" and "acc_owner_address a \<noteq> p"
    and "ac_cache s (acc_owner_address a) = Some user"
  shows "cache_read env (acc_owner_address a) (fst (cache_handle env (AC_Update a) s)) = Some a \<and>
         cache_read env p (fst (cache_handle env (AC_Update a) s)) = cache_read env p s"
  using assms
  by (simp add: cache_update_def Let_def cache_read_def cache_get_def storage_read_def split: option.split)

theorem update_program_account_misfiled_witness:
  "cache_read sample_env eth_addr
     (fst (cache_handle sample_env (AC_Update (account_new (Program verse_addr) None eth_addr None))
       (cache_write sample_env (account_new User None eth_addr None) (cache_new 180 Map.empty)))) =
   Some (account_new (Program verse_addr) None eth_addr None)"
proof -
  let ?p = "account_new (Program verse_addr) None eth_addr None"
  let ?u = "account_new User None eth_addr None"
  let ?s = "cache_write sample_env ?u (cache_new 180 Map.empty)"
  have sel: "acc_account_type ?p = Program verse_addr" "acc_owner_address ?p = eth_addr"
    "account_address ?u = eth_addr"
    by (simp_all add: account_new_def account_address_def)
  moreover from this have "ac_cache ?s eth_addr = Some ?u"
    by (simp add: cache_write_def handle_cache_write_cache)
  ultimately show ?thesis
    using update_program_account_misfiled [of ?p verse_addr ?s ?u sample_env] by simp
qed

end
