(* ===== verification/Messages_Model.thy ===== *)
theory Messages_Model
  imports Account_Cache
begin

text \<open>
  What the actors say to each other (crates/messages/src/messages.rs and actor_types.rs), the
  actor registry, and the text of errors. A handler returns the list of the messages it sends, in
  order; a message is sent when the receiver's name is registered and the cast succeeds, both of
  which are parameters (record \<open>registry\<close>). A reply port is a number. Messages that only a
  component outside the model produces or consumes are left out.
\<close>

section \<open>Actors and the registry\<close>

datatype actor_type =
  Registry | RpcServer | Scheduler | Validator | Engine | EoServer | DaClient | AccountCacheActor
| BlobCache | PendingTransactions | EoClient | Batcher | Executor | RemoteExecutor

fun actor_type_to_string :: "actor_type \<Rightarrow> string" where
  "actor_type_to_string Registry = ''registry''"
| "actor_type_to_string RpcServer = ''rpc_server''"
| "actor_type_to_string Scheduler = ''scheduler''"
| "actor_type_to_string Validator = ''validator''"
| "actor_type_to_string Engine = ''engine''"
| "actor_type_to_string EoServer = ''eo_server''"
| "actor_type_to_string DaClient = ''da_client''"
| "actor_type_to_string AccountCacheActor = ''account_cache''"
| "actor_type_to_string BlobCache = ''blob_cache''"
| "actor_type_to_string PendingTransactions = ''pending_transactions''"
| "actor_type_to_string EoClient = ''eo_client''"
| "actor_type_to_string Batcher = ''batcher''"
| "actor_type_to_string Executor = ''executor''"
| "actor_type_to_string RemoteExecutor = ''remote_executor''"

text \<open>\<open>ractor::registry::where_is\<close> by name, and whether a cast to the actor found succeeds.\<close>

record registry =
  where_is :: "string \<Rightarrow> bool"
  cast_ok :: "string \<Rightarrow> bool"

definition registered :: "registry \<Rightarrow> actor_type \<Rightarrow> bool" where
  "registered reg a = where_is reg (actor_type_to_string a)"

definition castable :: "registry \<Rightarrow> actor_type \<Rightarrow> bool" where
  "castable reg a = cast_ok reg (actor_type_to_string a)"

section \<open>Error texts\<close>

definition quoted :: "string \<Rightarrow> string" where
  "quoted s = CHR 0x22 # s @ [CHR 0x22]"

fun debug_address_or_namespace :: "address_or_namespace \<Rightarrow> string" where
  "debug_address_or_namespace (AON_Address a) = ''Address('' @ to_full_string a @ '')''"
| "debug_address_or_namespace (AON_Namespace (Namespace n)) = ''Namespace(Namespace('' @ quoted n @ ''))''"
| "debug_address_or_namespace This = ''This''"

text \<open>\<open>Display\<close> of the boxed errors; the text of a secp256k1 error is a parameter.\<close>

fun error_to_string :: "(secp_error \<Rightarrow> string) \<Rightarrow> boxed_error \<Rightarrow> string" where
  "error_to_string sd (IoError m) = m"
| "error_to_string sd (ToTokenError m) = ''Custom('' @ quoted m @ '')''"
| "error_to_string sd (Secp e) = sd e"
| "error_to_string sd (Ethers m) = m"
| "error_to_string sd (ValidatorCustom m) = m"
| "error_to_string sd (FailedProgramUpdate p reason) =
     ''failed to validate program update for address '' @ debug_address_or_namespace p @ '': '' @ reason"
| "error_to_string sd (BatcherCustom m) = m"
| "error_to_string sd (MessagingErr a) = ''Messaging failed to enqueue the message to the specified actor''"

section \<open>Messages\<close>

record certificate =
  cert_quorum_id :: "u8 list"
  cert_quorum_sigs :: "recoverable_signature list"

record bridge_event =
  be_user :: address
  be_program_id :: address
  be_amount :: u256
  be_token_id :: u256
  be_token_type :: string
  be_bridge_event_id :: u256

datatype pending_message =
  PT_New transaction "outputs option"
| PT_NewCall transaction
| PT_ExecSuccess transaction
| PT_Valid transaction "certificate option"
| PT_Invalid transaction boxed_error
| PT_Confirmed "address \<rightharpoonup> transaction" "u8 list" nat
| PT_GetPendingTransaction string
| PT_ValidCall outputs transaction "certificate option"
| PT_CleanGraph

datatype validator_message =
  V_PendingTransaction transaction
| V_PendingCall "outputs option" transaction
| V_PendingRegistration transaction

datatype batcher_message =
  B_AppendTransaction transaction "outputs option"
| B_GetNextBatch
| B_BlobVerificationProof string string nat

datatype scheduler_message =
  S_Call transaction nat
| S_Send transaction nat
| S_RegisterProgram transaction nat
| S_GetAccount address nat
| S_TransactionApplied string token
| S_SendTransactionFailure string boxed_error
| S_CallTransactionApplied string account
| S_CallTransactionFailure string string string
| S_CallTransactionAsyncPending string
| S_RegistrationSuccess transaction address
| S_RegistrationFailure string string

datatype engine_message =
  E_Call transaction
| E_Send transaction
| E_RegisterProgram transaction
| E_BridgeEvents "bridge_event list"
| E_SettlementEvents
| E_Cache address account
| E_CallSuccess transaction string string
| E_RegistrationSuccess string

datatype executor_message =
  X_Retrieve transaction string address | X_Create transaction string | X_Start string
| X_Set transaction | X_Exec transaction | X_Kill string | X_Delete string
| X_Results "transaction option" string string "string option" | X_PollJobStatus nat

datatype da_message = D_StoreBatch string | D_ValidateBlob string

datatype eo_message = Eo_Settle "string set" "u8 list" nat

datatype transaction_response =
  SendResponse token | CallResponse account | AsyncCallResponse string
| GetAccountResponse account | RegisterProgramResponse "string option" | TransactionError string

datatype message =
  To_Pending pending_message | To_Validator validator_message | To_Batcher batcher_message
| To_Scheduler scheduler_message | To_Engine engine_message | To_Executor executor_message
| To_AccountCache cache_message | To_DaClient da_message | To_Eo eo_message
| Rpc_Reply nat "string + transaction_response"

text \<open>\<open>let _ = actor.cast(message)\<close>: the message is sent or lost, the sender goes on.\<close>

definition send_to :: "registry \<Rightarrow> actor_type \<Rightarrow> message \<Rightarrow> message list" where
  "send_to reg a m = (if castable reg a then [m] else [])"

section \<open>Program ids\<close>

text \<open>The id hashes the content id with the abbreviated text of the signer's address.\<close>

definition create_program_id ::
    "crypto \<Rightarrow> hex_crate \<Rightarrow> (secp_error \<Rightarrow> string) \<Rightarrow> string \<Rightarrow> transaction \<Rightarrow> (boxed_error, address) outcome" where
  "create_program_id cr hx sd content_id tx =
     obind (map_err (\<lambda>e. IoError (error_to_string sd e)) (tx_sig tx)) (\<lambda>sg.
     obind (map_err (\<lambda>e. IoError (sd e)) (sig_recover cr sg (tx_hash cr tx))) (\<lambda>pubkey.
     obind (map_err (\<lambda>_. IoError '''') (display_address hx pubkey)) (\<lambda>text.
     let hash = keccak256 cr (str_bytes content_id @ str_bytes text) in
     if length hash < 20 then Panic ''range end index 20 out of range'' else Ok (Address (take 20 hash)))))"

section \<open>Lemmas\<close>

lemma actor_type_to_string_inj: "actor_type_to_string a = actor_type_to_string b \<longleftrightarrow> a = b"
  by (cases a; cases b) simp_all

definition all_up :: registry where
  "all_up = \<lparr>where_is = (\<lambda>_. True), cast_ok = (\<lambda>_. True)\<rparr>"

lemma all_up_sel [simp]: "registered all_up a" "castable all_up a"
  by (simp_all add: all_up_def registered_def castable_def)

lemma sample_program_id:
  "\<exists>pid. create_program_id sample_crypto hex_ref sd cid (default_transaction\<lparr>tx_v := 27\<rparr>) = Ok pid"
proof -
  have "length (bytes_hex bs) = 2 * length bs" for bs
    by (induction bs) (simp_all add: bytes_hex_def byte_hex_def)
  then show ?thesis
    by (simp add: create_program_id_def tx_sig_def sig_recover_def in_range_def sample_crypto_def
        default_transaction_def display_address_def hex_ref_def Let_def)
qed

end
