(* ===== verification/Validator_Model.thy ===== *)
theory Validator_Model
  imports Messages_Model
begin

text \<open>
  The validator (crates/actors/src/validator.rs): the checks of send, bridge-in and call
  transactions, of every instruction a call returned, and the messages that carry the verdict to
  the pending-transactions actor or the batcher. A check returns the error that goes into the
  \<open>Invalid\<close> message; the loop over the instructions adds the message and the returned error. The
  closures handed to the thread pool are applied at once, on the accounts read for them.
\<close>

section \<open>Environment\<close>

record validator_env =
  ve_registry :: registry
  ve_crypto :: crypto
  ve_hex :: hex_crate
  ve_secp_display :: "secp_error \<Rightarrow> string"

type_synonym verdict = "message list \<times> (boxed_error, unit) outcome"
type_synonym account_map = "address_or_namespace \<rightharpoonup> account option"

definition no_pending_actor :: boxed_error where
  "no_pending_actor = ValidatorCustom ''unable to acquire pending transaction actor''"

definition no_batcher_actor :: boxed_error where
  "no_batcher_actor = ValidatorCustom ''unable to acquire batcher actor''"

text \<open>The error a function returns after it has sent \<open>Invalid\<close> with \<open>e\<close>.\<close>

fun returned_error :: "validator_env \<Rightarrow> boxed_error \<Rightarrow> boxed_error" where
  "returned_error env (FailedProgramUpdate p r) = FailedProgramUpdate p r"
| "returned_error env e = ValidatorCustom (error_to_string (ve_secp_display env) e)"

definition reject :: "validator_env \<Rightarrow> transaction \<Rightarrow> boxed_error \<Rightarrow> verdict" where
  "reject env tx e =
     (send_to (ve_registry env) PendingTransactions (To_Pending (PT_Invalid tx e)),
      Err (returned_error env e))"

text \<open>\<open>where_is(Batcher)\<close>, then \<open>cast\<close> of \<open>AppendTransaction\<close>; both failures are returned.\<close>

definition append_to_batcher :: "validator_env \<Rightarrow> transaction \<Rightarrow> outputs option \<Rightarrow> verdict" where
  "append_to_batcher env tx outs =
     (if \<not> registered (ve_registry env) Batcher then ([], Err no_batcher_actor)
      else if \<not> castable (ve_registry env) Batcher
      then ([], Err (MessagingErr (actor_type_to_string Batcher)))
      else ([To_Batcher (B_AppendTransaction tx outs)], Ok ()))"

section \<open>Bridge-in and send\<close>

definition validate_bridge_in :: "validator_env \<Rightarrow> transaction \<Rightarrow> verdict" where
  "validate_bridge_in env tx =
     (if tx_from tx \<noteq> tx_to tx
      then ([], Err (ValidatorCustom ''bridge tx from and to must be the same''))
      else append_to_batcher env tx None)"

fun first_err :: "('e, 'a) outcome list \<Rightarrow> 'e option" where
  "first_err [] = None"
| "first_err (Err e # rs) = Some e"
| "first_err (r # rs) = first_err rs"

definition validate_send :: "validator_env \<Rightarrow> transaction \<Rightarrow> account \<Rightarrow> verdict" where
  "validate_send env tx account =
     (if \<not> registered (ve_registry env) PendingTransactions then ([], Err no_pending_actor)
      else
        (let by_program = validate_program_id (tx_program_id tx) account;
             by_balance = validate_balance (tx_program_id tx) (tx_value tx) account;
             by_nonce = validate_nonce (tx_nonce tx) account;
             by_sig = map_err Secp (verify_signature (ve_crypto env) tx) in
         case by_sig of
           Panic p \<Rightarrow> ([], Panic p)
         | _ \<Rightarrow>
             (case first_err [by_program, by_balance, by_nonce, by_sig] of
                Some e \<Rightarrow> reject env tx e
              | None \<Rightarrow> append_to_batcher env tx None)))"

section \<open>Instructions\<close>

text \<open>Approved for the caller, or else for the called program; the second error counts.\<close>

definition approved_spend :: "address \<Rightarrow> account \<Rightarrow> address \<Rightarrow> u256 \<Rightarrow> account \<Rightarrow> (boxed_error, unit) outcome" where
  "approved_spend token_address caller program_id amt acct =
     (if is_Err (validate_approved_spend token_address (acc_owner_address caller) amt acct)
      then validate_approved_spend token_address program_id amt acct else Ok ())"

definition approved_token_transfer ::
    "address \<Rightarrow> account \<Rightarrow> address \<Rightarrow> u256 list \<Rightarrow> account \<Rightarrow> (boxed_error, unit) outcome" where
  "approved_token_transfer token_address caller program_id ids acct =
     (if is_Err (validate_approved_token_transfer token_address (acc_owner_address caller) ids acct)
      then validate_approved_token_transfer token_address program_id ids acct else Ok ())"

definition validate_transfer ::
    "validator_env \<Rightarrow> transaction \<Rightarrow> account \<Rightarrow> account_map \<Rightarrow> transfer_instruction
       \<Rightarrow> (boxed_error, unit) outcome" where
  "validate_transfer env tx caller accts transfer =
     (let transfer_from = ti_from transfer; program_id = tx_to tx; token_address = ti_token transfer in
      if transfer_from = AON_Address (acc_owner_address caller) then
        (case ti_amount transfer of
           Some amt \<Rightarrow> validate_balance token_address amt caller
         | None \<Rightarrow> validate_token_ownership program_id (ti_ids transfer) caller)
      else
        (case accts transfer_from of
           Some (Some acct) \<Rightarrow>
             if acc_programs acct token_address = None then
               obind (map_err (\<lambda>_. IoError '''') (display_address (ve_hex env) token_address)) (\<lambda>d.
               Err (ValidatorCustom
                 (''unable to acquire token '' @ d @ '' from account, does not exist'')))
             else
               (case ti_amount transfer of
                  Some amt \<Rightarrow>
                    (case validate_balance token_address amt acct of
                       Err e \<Rightarrow> Err (ValidatorCustom
                         (''account '' @ to_full_string (account_address acct)
                          @ '' has insufficient balance for token '' @ to_full_string token_address
                          @ '': Error: '' @ error_to_string (ve_secp_display env) e))
                     | Panic p \<Rightarrow> Panic p
                     | Ok _ \<Rightarrow>
                         (case acc_account_type acct of
                            Program program_addr \<Rightarrow>
                              if program_addr \<noteq> tx_to tx
                              then approved_spend token_address caller program_id amt acct
                              else Ok ()
                          | User \<Rightarrow> approved_spend token_address caller program_id amt acct))
                | None \<Rightarrow>
                    obind (validate_token_ownership token_address (ti_ids transfer) acct) (\<lambda>_.
                    approved_token_transfer token_address caller program_id (ti_ids transfer) acct))
         | _ \<Rightarrow> Err (ValidatorCustom ''unable to acquire transferFrom account, does not exist'')))"

definition validate_burn ::
    "transaction \<Rightarrow> account \<Rightarrow> account_map \<Rightarrow> burn_instruction \<Rightarrow> (boxed_error, unit) outcome" where
  "validate_burn tx caller accts burn =
     (case (case bi_program_id burn of
              AON_Address addr \<Rightarrow> Some addr | This \<Rightarrow> Some (tx_to tx) | AON_Namespace _ \<Rightarrow> None) of
        None \<Rightarrow> Err (ValidatorCustom ''program namespaces not yet implemented'')
      | Some program_id \<Rightarrow>
          (let burn_from = bi_from burn; token_address = bi_token burn in
           if burn_from = AON_Address (acc_owner_address caller) then
             (case bi_amount burn of
                Some amt \<Rightarrow> validate_balance token_address amt caller
              | None \<Rightarrow> validate_token_ownership program_id (bi_token_ids burn) caller)
           else
             (case accts burn_from of
                Some (Some acct) \<Rightarrow>
                  if acc_programs acct token_address = None
                  then Err (ValidatorCustom ''account being debited does not hold token'')
                  else
                    (case bi_amount burn of
                       Some amt \<Rightarrow>
                         obind (validate_balance token_address amt acct) (\<lambda>_.
                         approved_spend token_address caller program_id amt acct)
                     | None \<Rightarrow>
                         obind (validate_token_ownership token_address (bi_token_ids burn) acct) (\<lambda>_.
                         approved_token_transfer token_address caller program_id (bi_token_ids burn) acct))
              | _ \<Rightarrow> Err (ValidatorCustom ''account being debited does not exist''))))"

definition validate_owner_update :: "string \<Rightarrow> account \<Rightarrow> account_map \<Rightarrow> address_or_namespace \<Rightarrow> (boxed_error, unit) outcome" where
  "validate_owner_update what caller accts account =
     (case accts account of
        Some (Some acct) \<Rightarrow>
          if acc_owner_address acct \<noteq> acc_owner_address caller
          then Err (ValidatorCustom (what @ '' can only be updated by the account owner'')) else Ok ()
      | _ \<Rightarrow> Err (ValidatorCustom (what @ '' can only be updated on accounts that exist'')))"

definition not_approved_text :: string where
  "not_approved_text = ''the caller does not own this account, and the account owner has not approved either the caller of the called program''"

definition validate_other_update :: "transaction \<Rightarrow> account \<Rightarrow> account_map \<Rightarrow> token_update \<Rightarrow> (boxed_error, unit) outcome" where
  "validate_other_update tx caller accts u =
     (case (case tu_token u of
              This \<Rightarrow> Some (tx_to tx) | AON_Address addr \<Rightarrow> Some addr | AON_Namespace _ \<Rightarrow> None) of
        None \<Rightarrow> Err (ValidatorCustom ''Namespaces not yet implemented for token updates'')
      | Some token_address \<Rightarrow>
          (case accts (tu_account u) of
             Some (Some acct) \<Rightarrow>
               if acc_owner_address acct \<noteq> acc_owner_address caller then
                 (case acc_programs acct token_address of
                    Some program \<Rightarrow>
                      if tok_approvals program (tx_to tx) = None \<and> tok_approvals program (tx_from tx) = None
                      then Err (ValidatorCustom not_approved_text) else Ok ()
                  | None \<Rightarrow> Ok ())
               else Ok ()
           | _ \<Rightarrow> Ok ()))"

definition validate_update_field ::
    "transaction \<Rightarrow> account \<Rightarrow> account_map \<Rightarrow> token_update \<Rightarrow> token_update_field \<Rightarrow> (boxed_error, unit) outcome" where
  "validate_update_field tx caller accts u f =
     (case tuf_value f of
        TV_Approvals _ \<Rightarrow> validate_owner_update ''Approvals'' caller accts (tu_account u)
      | TV_Allowance _ \<Rightarrow> validate_owner_update ''Allowances'' caller accts (tu_account u)
      | _ \<Rightarrow> validate_other_update tx caller accts u)"

fun validate_all :: "('x \<Rightarrow> (boxed_error, unit) outcome) \<Rightarrow> 'x list \<Rightarrow> (boxed_error, unit) outcome" where
  "validate_all f [] = Ok ()"
| "validate_all f (x # xs) = obind (f x) (\<lambda>_. validate_all f xs)"

definition validate_program_update ::
    "transaction \<Rightarrow> account_map \<Rightarrow> program_update \<Rightarrow> (boxed_error, unit) outcome" where
  "validate_program_update tx accts u =
     (let to_address = AON_Address (tx_to tx) in
      case accts (pu_account u) of
        Some (Some acct) \<Rightarrow>
          if acc_owner_address acct \<noteq> tx_from tx \<and> \<not> is_self u to_address \<and>
             to_address \<notin> acc_program_account_linked_programs acct
          then Err (FailedProgramUpdate (pu_account u)
            ''program called must be called by program owner, be the program itself, or a linked program to update another program account'')
          else Ok ()
      | _ \<Rightarrow> Err (FailedProgramUpdate (pu_account u) ''program accounts must exist to be updated''))"

fun validate_update ::
    "transaction \<Rightarrow> account \<Rightarrow> account_map \<Rightarrow> token_or_program_update \<Rightarrow> (boxed_error, unit) outcome" where
  "validate_update tx caller accts (TokenUpdate u) =
     validate_all (validate_update_field tx caller accts u) (tu_updates u)"
| "validate_update tx caller accts (ProgramUpdate u) = validate_program_update tx accts u"

fun validate_instruction ::
    "validator_env \<Rightarrow> transaction \<Rightarrow> account \<Rightarrow> account_map \<Rightarrow> instruction \<Rightarrow> (boxed_error, unit) outcome" where
  "validate_instruction env tx caller accts (Transfer t) = validate_transfer env tx caller accts t"
| "validate_instruction env tx caller accts (Burn b) = validate_burn tx caller accts b"
| "validate_instruction env tx caller accts (Update u) =
     validate_all (validate_update tx caller accts) (ui_updates u)"
| "validate_instruction env tx caller accts (Create c) =
     (if acc_owner_address caller \<noteq> ci_program_owner c
      then Err (ValidatorCustom ''caller must be program owner for Create Instruction'') else Ok ())"
| "validate_instruction env tx caller accts (Log l) = Ok ()"

fun validate_instructions ::
    "validator_env \<Rightarrow> transaction \<Rightarrow> account \<Rightarrow> account_map \<Rightarrow> instruction list \<Rightarrow> verdict" where
  "validate_instructions env tx caller accts [] = ([], Ok ())"
| "validate_instructions env tx caller accts (i # is) =
     (case validate_instruction env tx caller accts i of
        Ok _ \<Rightarrow> validate_instructions env tx caller accts is
      | Err e \<Rightarrow> reject env tx e
      | Panic p \<Rightarrow> ([], Panic p))"

section \<open>Calls\<close>

definition validate_call :: "validator_env \<Rightarrow> account_map \<Rightarrow> outputs \<Rightarrow> transaction \<Rightarrow> verdict" where
  "validate_call env accts outs tx =
     (if \<not> registered (ve_registry env) PendingTransactions then ([], Err no_pending_actor)
      else
        (case verify_signature (ve_crypto env) tx of
           Err e \<Rightarrow> reject env tx (Secp e)
         | Panic p \<Rightarrow> ([], Panic p)
         | Ok _ \<Rightarrow>
             (case accts (AON_Address (tx_from tx)) of
                Some (Some caller) \<Rightarrow>
                  (case validate_nonce (tx_nonce tx) caller of
                     Err e \<Rightarrow> reject env tx e
                   | Panic p \<Rightarrow> ([], Panic p)
                   | Ok _ \<Rightarrow>
                       (case validate_instructions env tx caller accts (out_instructions outs) of
                          (ms, Ok _) \<Rightarrow>
                            (case append_to_batcher env tx (Some outs) of (ms', r) \<Rightarrow> (ms @ ms', r))
                        | (ms, r) \<Rightarrow> (ms, r)))
              | _ \<Rightarrow> reject env tx (ValidatorCustom
                  (''unable to acquire `caller` account '' @ to_full_string (tx_from tx)
                   @ '', does not exist'')))))"

definition validate_register_program :: "transaction \<Rightarrow> (boxed_error, bool) outcome" where
  "validate_register_program tx = Ok True"

section \<open>The actor\<close>

text \<open>\<open>lookup\<close> is \<open>get_account\<close> (theory \<open>Account_Cache\<close>) at the time of the request.\<close>

definition pending_transaction ::
    "validator_env \<Rightarrow> (address \<Rightarrow> account option) \<Rightarrow> transaction \<Rightarrow> verdict" where
  "pending_transaction env lookup tx =
     (case tx_transaction_type tx of
        Send _ \<Rightarrow>
          (case lookup (tx_from tx) of
             None \<Rightarrow>
               if \<not> registered (ve_registry env) PendingTransactions then ([], Err no_pending_actor)
               else if \<not> castable (ve_registry env) PendingTransactions
               then ([], Err (MessagingErr (actor_type_to_string PendingTransactions)))
               else ([To_Pending (PT_Invalid tx (IoError ''account does not exist''))], Ok ())
           | Some account \<Rightarrow> (fst (validate_send env tx account), Ok ()))
      | BridgeIn _ \<Rightarrow> (fst (validate_bridge_in env tx), Ok ())
      | Call _ \<Rightarrow> ([], Ok ())
      | RegisterProgram _ \<Rightarrow> ([], Ok ())
      | BridgeOut _ \<Rightarrow> ([], Ok ()))"

fun lookup_aon :: "(address \<Rightarrow> account option) \<Rightarrow> transaction \<Rightarrow> address_or_namespace \<Rightarrow> account option" where
  "lookup_aon lookup tx This = lookup (tx_to tx)"
| "lookup_aon lookup tx (AON_Address addr) = lookup addr"
| "lookup_aon lookup tx (AON_Namespace n) = None"

definition validator_accounts ::
    "(address \<Rightarrow> account option) \<Rightarrow> outputs \<Rightarrow> transaction \<Rightarrow> account_map" where
  "validator_accounts lookup outs tx =
     fold (\<lambda>address m. m(address \<mapsto> lookup_aon lookup tx address))
       (concat (map get_accounts_involved (out_instructions outs))
         @ [AON_Address (tx_from tx), AON_Address (tx_to tx)])
       Map.empty"

definition pending_call ::
    "validator_env \<Rightarrow> (address \<Rightarrow> account option) \<Rightarrow> outputs option \<Rightarrow> transaction \<Rightarrow> verdict" where
  "pending_call env lookup outs tx =
     (case outs of
        Some o' \<Rightarrow> (fst (validate_call env (validator_accounts lookup o' tx) o' tx), Ok ())
      | None \<Rightarrow>
          (if registered (ve_registry env) PendingTransactions
           then send_to (ve_registry env) PendingTransactions
                  (To_Pending (PT_Invalid tx (ValidatorCustom ''Call transaction missing associated outputs'')))
           else [], Ok ()))"

fun validator_handle :: "validator_env \<Rightarrow> (address \<Rightarrow> account option) \<Rightarrow> validator_message \<Rightarrow> message list" where
  "validator_handle env lookup (V_PendingTransaction tx) = fst (pending_transaction env lookup tx)"
| "validator_handle env lookup (V_PendingCall outs tx) = fst (pending_call env lookup outs tx)"
| "validator_handle env lookup (V_PendingRegistration tx) = []"

section \<open>Lemmas\<close>

definition actors_up :: "validator_env \<Rightarrow> bool" where
  "actors_up env \<longleftrightarrow>
     registered (ve_registry env) PendingTransactions \<and> castable (ve_registry env) PendingTransactions \<and>
     registered (ve_registry env) Batcher \<and> castable (ve_registry env) Batcher"

lemma append_up: "actors_up env \<Longrightarrow> append_to_batcher env tx outs = ([To_Batcher (B_AppendTransaction tx outs)], Ok ())"
  by (simp add: append_to_batcher_def actors_up_def)

lemma reject_up:
  "actors_up env \<Longrightarrow> reject env tx e = ([To_Pending (PT_Invalid tx e)], Err (returned_error env e))"
  by (simp add: reject_def actors_up_def send_to_def)

lemma validate_program_id_iff: "validate_program_id p a = Ok () \<longleftrightarrow> acc_programs a p \<noteq> None"
  by (simp add: validate_program_id_def split: option.split)

lemma validate_balance_iff:
  "validate_balance p v a = Ok () \<longleftrightarrow>
     (\<exists>t. acc_programs a p = Some t \<and> unat v \<le> unat (tok_balance t))"
  by (auto simp: validate_balance_def word_le_nat_alt split: option.split)

lemma validate_nonce_iff:
  "validate_nonce n a = Ok () \<longleftrightarrow> unat (acc_nonce a) < unat n \<or> (acc_nonce a = 0 \<and> n = 0)"
  by (auto simp: validate_nonce_def word_less_nat_alt)

lemma validations_safe [simp]:
  "safe (\<lambda>_. True) (validate_program_id p a)" "safe (\<lambda>_. True) (validate_balance p v a)"
  "safe (\<lambda>_. True) (validate_nonce n a)" "safe (\<lambda>_. True) (validate_approved_spend p s v a)"
  "safe (\<lambda>_. True) (validate_approved_token_transfer p s is a)"
  by (auto simp: validate_program_id_def validate_balance_def validate_nonce_def
      validate_approved_spend_def validate_approved_token_transfer_def
      split: option.split account_type.split list.split)

lemma validate_ownership_safe [simp]: "safe (\<lambda>_. True) (validate_token_ownership p is a)"
proof -
  have "safe (\<lambda>_. True) (all_owned t is)" for t
    by (induction "is") auto
  then show ?thesis by (simp add: validate_token_ownership_def split: option.split)
qed

lemma approved_safe [simp]:
  "safe (\<lambda>_. True) (approved_spend k c p v a)" "safe (\<lambda>_. True) (approved_token_transfer k c p is a)"
  by (simp_all add: approved_spend_def approved_token_transfer_def)

lemma display_address_safe: "hex_laws hx \<Longrightarrow> wf_address a \<Longrightarrow> safe (\<lambda>_. True) (display_address hx a)"
  by (simp add: display_address_def Let_def hex_encode_bytes_hex wf_address_def)

lemma validate_transfer_safe:
  assumes "hex_laws (ve_hex env)" and "wf_address (ti_token t)"
  shows "safe (\<lambda>_. True) (validate_transfer env tx caller accts t)"
proof -
  note step = safe_obind [where Q = "\<lambda>_. True"]
  have bal: "validate_balance k v a \<noteq> Panic p" for k v a p
    using validations_safe(2) [of k v a] by (simp add: safe_True_iff)
  show ?thesis
    using display_address_safe [OF assms] bal
    by (auto simp: validate_transfer_def Let_def intro!: step
        split: option.split outcome.split account_type.split)
qed

lemma validate_burn_safe: "safe (\<lambda>_. True) (validate_burn tx caller accts b)"
  by (auto simp: validate_burn_def Let_def intro!: safe_obind [where Q = "\<lambda>_. True"]
      split: option.split address_or_namespace.split)

lemma validate_all_safe: "(\<And>x. safe (\<lambda>_. True) (f x)) \<Longrightarrow> safe (\<lambda>_. True) (validate_all f xs)"
  by (induction xs) (auto intro: safe_obind)

lemma validate_update_safe: "safe (\<lambda>_. True) (validate_update tx caller accts u)"
proof (cases u)
  case (TokenUpdate t)
  have "safe (\<lambda>_. True) (validate_update_field tx caller accts t f)" for f
    by (simp add: validate_update_field_def validate_owner_update_def validate_other_update_def
        split: token_field_value.split option.split address_or_namespace.split)
  then show ?thesis using TokenUpdate by (simp add: validate_all_safe)
next
  case (ProgramUpdate p)
  then show ?thesis by (simp add: validate_program_update_def Let_def split: option.split)
qed

lemma validate_instruction_safe:
  assumes "hex_laws (ve_hex env)" and "\<And>t. i = Transfer t \<Longrightarrow> wf_address (ti_token t)"
  shows "safe (\<lambda>_. True) (validate_instruction env tx caller accts i)"
  using assms by (cases i)
    (simp_all add: validate_transfer_safe validate_burn_safe validate_all_safe validate_update_safe)

lemma validate_all_Ok_iff: "validate_all f xs = Ok () \<longleftrightarrow> (\<forall>x\<in>set xs. f x = Ok ())"
  by (induction xs) (auto simp: outcome_simps)

lemma first_err_None_iff:
  "(\<And>r. r \<in> set rs \<Longrightarrow> safe (\<lambda>_. True) r) \<Longrightarrow> first_err rs = None \<longleftrightarrow> (\<forall>r\<in>set rs. r = Ok ())"
  for rs :: "(boxed_error, unit) outcome list"
proof (induction rs)
  case (Cons r rs)
  have "safe (\<lambda>_. True) r" using Cons.prems by simp
  then show ?case using Cons by (cases r) auto
qed simp

lemma validate_instructions_verdict:
  assumes "actors_up env" and "hex_laws (ve_hex env)"
    and "\<And>t. Transfer t \<in> set is \<Longrightarrow> wf_address (ti_token t)"
  shows "(validate_instructions env tx caller accts is = ([], Ok ()) \<and>
            (\<forall>i\<in>set is. validate_instruction env tx caller accts i = Ok ())) \<or>
         (\<exists>e. validate_instructions env tx caller accts is =
                ([To_Pending (PT_Invalid tx e)], Err (returned_error env e)) \<and>
              (\<exists>i\<in>set is. validate_instruction env tx caller accts i = Err e))"
  using assms(3)
proof (induction "is")
  case Nil
  then show ?case by simp
next
  case (Cons i "is")
  have "safe (\<lambda>_. True) (validate_instruction env tx caller accts i)"
    using Cons.prems by (intro validate_instruction_safe [OF assms(2)]) auto
  then show ?case using Cons reject_up [OF assms(1)]
    by (cases "validate_instruction env tx caller accts i") auto
qed

section \<open>Properties\<close>

lemma validate_send_cases:
  assumes "actors_up env" and "\<And>p. verify_signature (ve_crypto env) tx \<noteq> Panic p"
  shows "fst (validate_send env tx acct) =
           (if (\<exists>t. acc_programs acct (tx_program_id tx) = Some t \<and>
                    unat (tx_value tx) \<le> unat (tok_balance t)) \<and>
               (unat (acc_nonce acct) < unat (tx_nonce tx) \<or> (acc_nonce acct = 0 \<and> tx_nonce tx = 0)) \<and>
               tx_recover (ve_crypto env) tx = Ok (tx_from tx)
            then [To_Batcher (B_AppendTransaction tx None)]
            else [To_Pending (PT_Invalid tx
                    (the (first_err [validate_program_id (tx_program_id tx) acct,
                      validate_balance (tx_program_id tx) (tx_value tx) acct,
                      validate_nonce (tx_nonce tx) acct,
                      map_err Secp (verify_signature (ve_crypto env) tx)])))])"
proof -
  let ?rs = "[validate_program_id (tx_program_id tx) acct,
              validate_balance (tx_program_id tx) (tx_value tx) acct,
              validate_nonce (tx_nonce tx) acct, map_err Secp (verify_signature (ve_crypto env) tx)]"
  have np: "map_err Secp (verify_signature (ve_crypto env) tx) \<noteq> Panic p" for p
    using assms(2) by (simp add: outcome_simps)
  have "first_err ?rs = None \<longleftrightarrow> (\<forall>r\<in>set ?rs. r = Ok ())"
    using assms(2) by (intro first_err_None_iff) (auto simp: safe_True_iff [of "verify_signature _ _"])
  then have ok: "first_err ?rs = None \<longleftrightarrow>
      (\<exists>t. acc_programs acct (tx_program_id tx) = Some t \<and> unat (tx_value tx) \<le> unat (tok_balance t)) \<and>
      (unat (acc_nonce acct) < unat (tx_nonce tx) \<or> (acc_nonce acct = 0 \<and> tx_nonce tx = 0)) \<and>
      tx_recover (ve_crypto env) tx = Ok (tx_from tx)"
    by (auto simp: validate_program_id_iff validate_balance_iff validate_nonce_iff map_err_Ok_iff
        verify_signature_iff_recover')
  have "fst (validate_send env tx acct) =
        (case first_err ?rs of Some e \<Rightarrow> [To_Pending (PT_Invalid tx e)]
         | None \<Rightarrow> [To_Batcher (B_AppendTransaction tx None)])"
    using assms(1) np reject_up [OF assms(1)] append_up [OF assms(1)]
    by (auto simp: validate_send_def Let_def actors_up_def split: outcome.split option.split)
  then show ?thesis using ok by (auto split: option.splits)
qed

text \<open>
  C10: with the actors it talks to running, the validator gives a send transaction exactly one
  verdict: it goes to the batcher when the sender holds the token, the value is covered, the nonce
  is acceptable and the recovered signer is the sender, and otherwise it is reported invalid; no
  other message is sent.
\<close>

theorem validate_send_verdict:
  assumes "actors_up env" and "\<And>p. verify_signature (ve_crypto env) tx \<noteq> Panic p"
  shows "fst (validate_send env tx acct) =
           (if (\<exists>t. acc_programs acct (tx_program_id tx) = Some t \<and>
                    unat (tx_value tx) \<le> unat (tok_balance t)) \<and>
               (unat (acc_nonce acct) < unat (tx_nonce tx) \<or> (acc_nonce acct = 0 \<and> tx_nonce tx = 0)) \<and>
               tx_recover (ve_crypto env) tx = Ok (tx_from tx)
            then [To_Batcher (B_AppendTransaction tx None)]
            else [To_Pending (PT_Invalid tx
                    (the (first_err [validate_program_id (tx_program_id tx) acct,
                      validate_balance (tx_program_id tx) (tx_value tx) acct,
                      validate_nonce (tx_nonce tx) acct,
                      map_err Secp (verify_signature (ve_crypto env) tx)])))])"
  by (rule validate_send_cases [OF assms])

lemma instruction_ignores_value:
  "validate_instruction env (tx\<lparr>tx_value := v\<rparr>) caller accts i = validate_instruction env tx caller accts i"
proof -
  let ?tx = "tx\<lparr>tx_value := v\<rparr>"
  have sel: "tx_to ?tx = tx_to tx" "tx_from ?tx = tx_from tx" by simp_all
  have field: "validate_update_field ?tx caller accts u f = validate_update_field tx caller accts u f" for u f
    unfolding validate_update_field_def validate_other_update_def sel by (rule refl)
  have "validate_all (validate_update_field ?tx caller accts u) fs = validate_all (validate_update_field tx caller accts u) fs" for u fs
    by (induction fs) (simp_all add: field)
  moreover have "validate_program_update ?tx accts u = validate_program_update tx accts u" for u
    unfolding validate_program_update_def sel by (rule refl)
  ultimately have update: "validate_update ?tx caller accts u = validate_update tx caller accts u" for u
    by (cases u) simp_all
  have "validate_all (validate_update ?tx caller accts) us = validate_all (validate_update tx caller accts) us" for us
    by (induction us) (simp_all add: update)
  moreover have "validate_transfer env ?tx caller accts t = validate_transfer env tx caller accts t"
      "validate_burn ?tx caller accts b = validate_burn tx caller accts b" for t b
    unfolding validate_transfer_def validate_burn_def sel by (rule refl)+
  ultimately show ?thesis by (cases i) simp_all
qed

lemma call_verdict:
  assumes "actors_up env" and "hex_laws (ve_hex env)"
    and "\<And>p. verify_signature (ve_crypto env) tx \<noteq> Panic p"
    and "\<And>t. Transfer t \<in> set (out_instructions outs) \<Longrightarrow> wf_address (ti_token t)"
  shows "(fst (validate_call env accts outs tx) = [To_Batcher (B_AppendTransaction tx (Some outs))] \<and>
            tx_recover (ve_crypto env) tx = Ok (tx_from tx) \<and>
            (\<exists>caller. accts (AON_Address (tx_from tx)) = Some (Some caller) \<and>
               validate_nonce (tx_nonce tx) caller = Ok () \<and>
               (\<forall>i\<in>set (out_instructions outs). validate_instruction env tx caller accts i = Ok ()))) \<or>
         (\<exists>e. fst (validate_call env accts outs tx) = [To_Pending (PT_Invalid tx e)] \<and>
            \<not> (tx_recover (ve_crypto env) tx = Ok (tx_from tx) \<and>
               (\<exists>caller. accts (AON_Address (tx_from tx)) = Some (Some caller) \<and>
                  validate_nonce (tx_nonce tx) caller = Ok () \<and>
                  (\<forall>i\<in>set (out_instructions outs). validate_instruction env tx caller accts i = Ok ()))))"
proof (cases "verify_signature (ve_crypto env) tx")
  case (Err e)
  then have "tx_recover (ve_crypto env) tx \<noteq> Ok (tx_from tx)"
    by (simp flip: verify_signature_iff_recover')
  then show ?thesis using Err assms(1) reject_up [OF assms(1)]
    by (simp add: validate_call_def actors_up_def)
next
  case (Ok u)
  then have sig: "tx_recover (ve_crypto env) tx = outcome.Ok (tx_from tx)"
    by (simp flip: verify_signature_iff_recover')
  show ?thesis
  proof (cases "\<exists>caller. accts (AON_Address (tx_from tx)) = Some (Some caller)")
    case False
    then have "fst (validate_call env accts outs tx) = fst (reject env tx (ValidatorCustom
        (''unable to acquire `caller` account '' @ to_full_string (tx_from tx) @ '', does not exist'')))"
      using Ok assms(1) by (auto simp: validate_call_def actors_up_def split: option.split)
    then show ?thesis using False reject_up [OF assms(1)] by simp
  next
    case True
    then obtain caller where c: "accts (AON_Address (tx_from tx)) = Some (Some caller)" by blast
    have "validate_nonce (tx_nonce tx) caller \<noteq> Panic p" for p
      using validations_safe(3) [of "tx_nonce tx" caller] by (simp add: safe_True_iff)
    then show ?thesis
      using Ok c sig assms(1) reject_up [OF assms(1)] append_up [OF assms(1)]
        validate_instructions_verdict [OF assms(1,2), of "out_instructions outs" tx caller accts] assms(4)
      by (cases "validate_nonce (tx_nonce tx) caller") (auto simp: validate_call_def actors_up_def)
  qed
qed (use assms(3) in auto)

text \<open>
  C11: a call whose outputs arrived gets exactly one verdict: it is handed to the batcher with
  its outputs when the signature is the sender's, the caller's account exists, the nonce is
  acceptable and every instruction passes its check, and it is reported invalid once otherwise. These
  are all the checks: the value of the call is not compared with the caller's balance, although the
  comment on the function says so, neither here nor in the check of an instruction, which is the same
  for every value.
\<close>

theorem validate_call_verdict:
  assumes "actors_up env" and "hex_laws (ve_hex env)"
    and "\<And>p. verify_signature (ve_crypto env) tx \<noteq> Panic p"
    and "\<And>t. Transfer t \<in> set (out_instructions outs) \<Longrightarrow> wf_address (ti_token t)"
  shows "((fst (validate_call env accts outs tx) = [To_Batcher (B_AppendTransaction tx (Some outs))] \<and>
            tx_recover (ve_crypto env) tx = Ok (tx_from tx) \<and>
            (\<exists>caller. accts (AON_Address (tx_from tx)) = Some (Some caller) \<and>
               validate_nonce (tx_nonce tx) caller = Ok () \<and>
               (\<forall>i\<in>set (out_instructions outs). validate_instruction env tx caller accts i = Ok ()))) \<or>
         (\<exists>e. fst (validate_call env accts outs tx) = [To_Pending (PT_Invalid tx e)] \<and>
            \<not> (tx_recover (ve_crypto env) tx = Ok (tx_from tx) \<and>
               (\<exists>caller. accts (AON_Address (tx_from tx)) = Some (Some caller) \<and>
                  validate_nonce (tx_nonce tx) caller = Ok () \<and>
                  (\<forall>i\<in>set (out_instructions outs). validate_instruction env tx caller accts i = Ok ()))))) \<and>
         (\<forall>v caller i. validate_instruction env (tx\<lparr>tx_value := v\<rparr>) caller accts i = validate_instruction env tx caller accts i)"
  using call_verdict [OF assms] instruction_ignores_value by blast

text \<open>
  The check of a transfer that names an amount ignores the ids it moves: with the amount
  given, any two lists of ids get the same verdict, so neither ownership of the ids nor an
  approval to move them is looked at.
\<close>

theorem transfer_amount_ignores_ids:
  "validate_transfer env tx caller accts (t\<lparr>ti_amount := Some v, ti_ids := ids\<rparr>) =
   validate_transfer env tx caller accts (t\<lparr>ti_amount := Some v, ti_ids := ids'\<rparr>)"
  by (simp add: validate_transfer_def Let_def cong: option.case_cong if_cong)

text \<open>
  A validated transfer that names only an amount, or only ids of a token other than through
  the caller's own account, can be taken off the account it was validated against: applying its
  debit to the account the validator read returns a token.
\<close>

theorem validated_transfer_applies:
  assumes "validate_transfer env tx caller accts t = Ok ()"
    and "(ti_amount t \<noteq> None \<and> ti_ids t = []) \<or>
         (ti_amount t = None \<and> (ti_from t \<noteq> AON_Address (acc_owner_address caller) \<or> ti_token t = tx_to tx))"
  shows "\<exists>payer.
           (if ti_from t = AON_Address (acc_owner_address caller) then payer = caller
            else accts (ti_from t) = Some (Some payer)) \<and>
           is_Ok (snd (apply_transfer_from_instruction (ti_token t) (ti_amount t) (ti_ids t) payer))"
proof -
  have by_amount: "is_Ok (snd (apply_transfer_from_instruction k (Some v) [] a))"
    if "validate_balance k v a = Ok ()" for k v a
    using that by (auto simp: validate_balance_def apply_transfer_from_instruction_def modify_entry_def
        debit_and_remove_def opt_amount_def nonempty_ids_def debit_spec split: option.splits if_splits)
  have by_ids: "is_Ok (snd (apply_transfer_from_instruction k None ids a))"
    if "validate_token_ownership k ids a = Ok ()" for k ids a
    using that by (auto simp: validate_token_ownership_def all_owned_iff
        apply_transfer_from_instruction_def modify_entry_def debit_and_remove_def opt_amount_def
        nonempty_ids_def remove_token_ids_spec split: option.splits if_splits)
  show ?thesis
    using assms by_amount by_ids
    by (auto simp: validate_transfer_def Let_def outcome_simps
        split: option.splits if_splits outcome.splits)
qed

text \<open>
  Who may update a program account: it must exist, and the transaction is sent by its owner,
  or the called program is the account updated, or the called program is linked to it.
\<close>

theorem program_update_authorised_iff:
  "validate_program_update tx accts u = Ok () \<longleftrightarrow>
     (\<exists>acct. accts (pu_account u) = Some (Some acct) \<and>
        (acc_owner_address acct = tx_from tx \<or> pu_account u = AON_Address (tx_to tx) \<or>
         AON_Address (tx_to tx) \<in> acc_program_account_linked_programs acct))"
  by (auto simp: validate_program_update_def Let_def is_self_def split: option.splits if_splits)

text \<open>
  C38: who may update a token of another account. Approvals and allowances: only the owner of an
  existing account. Data, metadata and status: anyone when the account is unknown or does not
  hold the token; with the token held, the account's owner, or a caller or program that has any
  entry among the token's approvals.
\<close>

theorem token_update_authorised_iff:
  "validate_update tx caller accts (TokenUpdate u) = Ok () \<longleftrightarrow>
     list_all (\<lambda>f. case tuf_value f of
         TV_Approvals _ \<Rightarrow>
           (\<exists>acct. accts (tu_account u) = Some (Some acct) \<and> acc_owner_address acct = acc_owner_address caller)
       | TV_Allowance _ \<Rightarrow>
           (\<exists>acct. accts (tu_account u) = Some (Some acct) \<and> acc_owner_address acct = acc_owner_address caller)
       | _ \<Rightarrow>
           (\<exists>token. (tu_token u = AON_Address token \<or> (tu_token u = This \<and> token = tx_to tx)) \<and>
              (case accts (tu_account u) of
                 Some (Some acct) \<Rightarrow>
                   acc_owner_address acct = acc_owner_address caller \<or>
                   (case acc_programs acct token of
                      Some t \<Rightarrow> tx_to tx \<in> dom (tok_approvals t) \<or> tx_from tx \<in> dom (tok_approvals t)
                    | None \<Rightarrow> True)
               | _ \<Rightarrow> True))) (tu_updates u)"
proof -
  have owner: "validate_owner_update w caller accts k = Ok () \<longleftrightarrow>
      (\<exists>acct. accts k = Some (Some acct) \<and> acc_owner_address acct = acc_owner_address caller)" for w k
    by (auto simp: validate_owner_update_def split: option.splits if_splits)
  have other: "validate_other_update tx caller accts u = Ok () \<longleftrightarrow>
      (\<exists>token. (tu_token u = AON_Address token \<or> (tu_token u = This \<and> token = tx_to tx)) \<and>
         (case accts (tu_account u) of
            Some (Some acct) \<Rightarrow>
              acc_owner_address acct = acc_owner_address caller \<or>
              (case acc_programs acct token of
                 Some t \<Rightarrow> tx_to tx \<in> dom (tok_approvals t) \<or> tx_from tx \<in> dom (tok_approvals t)
               | None \<Rightarrow> True)
          | _ \<Rightarrow> True))"
    by (cases "tu_token u") (auto simp: validate_other_update_def split: option.splits if_splits)
  show ?thesis
    by (auto simp: validate_all_Ok_iff list_all_iff validate_update_field_def owner other
        split: token_field_value.splits)
qed

text \<open>
  A bridge-in transaction whose sender and receiver differ is dropped without a message: the
  pending-transactions actor is not told, and the batcher does not get it.
\<close>

theorem bridge_in_rejected_silently:
  assumes "tx_from tx \<noteq> tx_to tx" and "is_bridge_in (tx_transaction_type tx)"
  shows "validator_handle env lookup (V_PendingTransaction tx) = []"
  using assms by (cases "tx_transaction_type tx") (auto simp: pending_transaction_def validate_bridge_in_def)

section \<open>Witnesses\<close>

definition sample_venv :: validator_env where
  "sample_venv = \<lparr>ve_registry = all_up, ve_crypto = sample_crypto, ve_hex = hex_ref,
     ve_secp_display = (\<lambda>_. ''secp'')\<rparr>"

lemma sample_venv_up [simp]: "actors_up sample_venv" "hex_laws (ve_hex sample_venv)"
  by (simp_all add: actors_up_def sample_venv_def hex_laws_ref)

definition sample_send :: transaction where
  "sample_send = (sample_transaction (Send 0) eth_addr verse_addr eth_addr 4)\<lparr>tx_v := 27\<rparr>"

lemma sample_send_sel [simp]:
  "tx_from sample_send = eth_addr" "tx_to sample_send = verse_addr"
  "tx_program_id sample_send = eth_addr" "tx_value sample_send = 4" "tx_nonce sample_send = 0"
  by (simp_all add: sample_send_def) (simp add: sample_transaction_def default_transaction_def)

text \<open>The sample signature's \<open>r\<close> is zero, so the sample recovery returns the zero address.\<close>

lemma u256_from_be_zeros: "u256_from_be (replicate n 0) = 0"
  unfolding u256_from_be_def by (induction n) auto

lemma be_bytes_zero: "be_bytes k 0 = replicate k 0"
  by (induction k) (auto simp: replicate_append_same)

lemma sample_send_recover: "tx_recover sample_crypto sample_send = Ok (tx_from sample_send)"
proof -
  have "tx_v sample_send = 27" "tx_r sample_send = replicate 32 0"
    by (simp_all add: sample_send_def sample_transaction_def default_transaction_def)
  then show ?thesis
    by (simp add: tx_recover_def in_range_def sample_crypto_def u256_from_be_zeros
        be_bytes_zero eth_addr_def)
qed

lemma sample_send_verify: "verify_signature sample_crypto sample_send = Ok ()"
  using sample_send_recover by (simp add: verify_signature_iff_recover')

theorem validate_send_verdict_witness:
  "fst (validate_send sample_venv sample_send (sample_account eth_addr (sample_token eth_addr eth_addr 10))) =
     [To_Batcher (B_AppendTransaction sample_send None)]"
proof -
  have "ve_crypto sample_venv = sample_crypto" by (simp add: sample_venv_def)
  then show ?thesis
    using validate_send_verdict [of sample_venv sample_send
        "sample_account eth_addr (sample_token eth_addr eth_addr 10)"]
      sample_send_recover sample_send_verify
    by simp
qed

definition sample_transfer :: transfer_instruction where
  "sample_transfer = \<lparr>ti_token = eth_addr, ti_from = AON_Address eth_addr,
     ti_to = AON_Address verse_addr, ti_amount = Some 4, ti_ids = []\<rparr>"

definition sample_outputs :: "transaction \<Rightarrow> instruction list \<Rightarrow> outputs" where
  "sample_outputs tx is =
     \<lparr>out_inputs = \<lparr>in_version = 1, in_account_info = account_new User None eth_addr None,
                     in_transaction = tx, in_op = '''', in_inputs = ''''\<rparr>,
      out_instructions = is\<rparr>"

theorem validate_call_verdict_witness:
  "\<exists>e. fst (validate_call sample_venv Map.empty
      (sample_outputs sample_send [Transfer sample_transfer]) sample_send) = [To_Pending (PT_Invalid sample_send e)]"
proof -
  have "ve_crypto sample_venv = sample_crypto" by (simp add: sample_venv_def)
  then show ?thesis
    using validate_call_verdict [of sample_venv sample_send "sample_outputs sample_send [Transfer sample_transfer]"
        Map.empty] sample_send_verify
    by (simp add: sample_outputs_def sample_transfer_def wf_address_def eth_addr_def)
qed

theorem validated_transfer_applies_witness:
  "is_Ok (snd (apply_transfer_from_instruction eth_addr (Some 4) []
      (sample_account eth_addr (sample_token eth_addr eth_addr 10))))"
  using validated_transfer_applies [of sample_venv sample_send
      "sample_account eth_addr (sample_token eth_addr eth_addr 10)" Map.empty sample_transfer]
  by (simp add: sample_transfer_def validate_transfer_def validate_balance_def)

theorem bridge_in_rejected_silently_witness:
  "validator_handle sample_venv (\<lambda>_. None)
     (V_PendingTransaction (sample_transaction (BridgeIn 0) eth_addr verse_addr eth_addr 4)) = []"
  by (rule bridge_in_rejected_silently) simp_all

end
