(* ===== verification/Batch_Model.thy ===== *)
theory Batch_Model
  imports Validator_Model
begin

text \<open>
  Batches (crates/actors/src/batcher.rs, \<open>Batch\<close>, and the two loops of \<open>Batcher\<close> that place a
  transaction or an account in one): the encoding pipeline, the capacity test, insertion, and the
  search for a batch that accepts. serde_json, zlib, the KZG padding and base64 are parameters
  (record \<open>batch_codec\<close>). The search loop may run forever, so it is a partial function whose
  value is None when it does not return.
\<close>

section \<open>Batches\<close>

record batch =
  b_transactions :: "(string, transaction) hashmap"
  b_accounts :: "(string, account) hashmap"

record batch_codec =
  cd_json_ser :: "batch \<Rightarrow> u8 list option"
  cd_json_de :: "u8 list \<Rightarrow> batch option"
  cd_zlib_enc :: "u8 list \<Rightarrow> u8 list option"
  cd_zlib_dec :: "u8 list \<Rightarrow> u8 list option"
  cd_pad :: "u8 list \<Rightarrow> u8 list"
  cd_unpad :: "u8 list \<Rightarrow> u8 list"
  cd_b64_enc :: "u8 list \<Rightarrow> string"
  cd_b64_dec :: "string \<Rightarrow> u8 list option"

datatype batcher_error =
  BE_Custom string | BE_FailedTransaction string transaction | BE_Messaging string
| BE_RactorRegistryError

fun batcher_error_to_string :: "batcher_error \<Rightarrow> string" where
  "batcher_error_to_string (BE_Custom m) = m"
| "batcher_error_to_string (BE_FailedTransaction m t) = m"
| "batcher_error_to_string (BE_Messaging m) = m"
| "batcher_error_to_string BE_RactorRegistryError = ''failed to acquire BatcherActor from registry''"

definition batch_new :: batch where
  "batch_new = \<lparr>b_transactions = [], b_accounts = []\<rparr>"

definition batch_empty :: "batch \<Rightarrow> bool" where
  "batch_empty b \<longleftrightarrow> b_transactions b = [] \<and> b_accounts b = []"

definition get_user_account :: "address \<Rightarrow> batch \<Rightarrow> account option" where
  "get_user_account address b = hm_get (b_accounts b) (to_full_string address)"

definition get_transaction :: "string \<Rightarrow> batch \<Rightarrow> transaction option" where
  "get_transaction k b = hm_get (b_transactions b) k"

definition get_program_account :: "account_type \<Rightarrow> batch \<Rightarrow> account option" where
  "get_program_account ty b =
     (case ty of
        Program program_address \<Rightarrow> hm_get (b_accounts b) (to_full_string program_address)
      | User \<Rightarrow> None)"

section \<open>Encoding\<close>

definition serialize_batch :: "batch_codec \<Rightarrow> batch \<Rightarrow> u8 list option" where
  "serialize_batch c b = cd_json_ser c b"

definition compress_batch :: "batch_codec \<Rightarrow> batch \<Rightarrow> u8 list option" where
  "compress_batch c b =
     (case serialize_batch c b of None \<Rightarrow> None | Some bytes \<Rightarrow> cd_zlib_enc c bytes)"

definition decompress_batch :: "batch_codec \<Rightarrow> u8 list \<Rightarrow> u8 list option" where
  "decompress_batch c bytes = cd_zlib_dec c bytes"

definition deserialize_batch :: "batch_codec \<Rightarrow> u8 list \<Rightarrow> batch option" where
  "deserialize_batch c bytes =
     (case decompress_batch c bytes of None \<Rightarrow> None | Some d \<Rightarrow> cd_json_de c d)"

definition encode_batch :: "batch_codec \<Rightarrow> batch \<Rightarrow> string option" where
  "encode_batch c b =
     (case compress_batch c b of None \<Rightarrow> None | Some z \<Rightarrow> Some (cd_b64_enc c (cd_pad c z)))"

definition decode_batch :: "batch_codec \<Rightarrow> string \<Rightarrow> batch option" where
  "decode_batch c s =
     (case cd_b64_dec c s of None \<Rightarrow> None | Some bytes \<Rightarrow> deserialize_batch c (cd_unpad c bytes))"

section \<open>Capacity\<close>

definition check_size :: "batch_codec \<Rightarrow> batch \<Rightarrow> nat option" where
  "check_size c b = map_option length (encode_batch c b)"

definition at_capacity :: "batch_codec \<Rightarrow> batch \<Rightarrow> bool option" where
  "at_capacity c b = map_option (\<lambda>n. n \<ge> 512 * 1024) (check_size c b)"

definition put_transaction :: "crypto \<Rightarrow> transaction \<Rightarrow> batch \<Rightarrow> batch" where
  "put_transaction cr t b = b\<lparr>b_transactions := hm_insert (hash_string cr t) t (b_transactions b)\<rparr>"

definition put_account :: "string \<Rightarrow> account \<Rightarrow> batch \<Rightarrow> batch" where
  "put_account key a b = b\<lparr>b_accounts := hm_insert key a (b_accounts b)\<rparr>"

definition transaction_would_exceed_capacity :: "batch_codec \<Rightarrow> crypto \<Rightarrow> transaction \<Rightarrow> batch \<Rightarrow> bool option" where
  "transaction_would_exceed_capacity c cr t b = at_capacity c (put_transaction cr t b)"

text \<open>The test batch files the account under its owner's address, whatever its type.\<close>

definition account_would_exceed_capacity :: "batch_codec \<Rightarrow> account \<Rightarrow> batch \<Rightarrow> bool option" where
  "account_would_exceed_capacity c a b =
     at_capacity c (put_account (to_full_string (acc_owner_address a)) a b)"

definition insert_transaction :: "batch_codec \<Rightarrow> crypto \<Rightarrow> transaction \<Rightarrow> batch \<Rightarrow> (batch, batcher_error, unit) mutres" where
  "insert_transaction c cr t b =
     (if transaction_would_exceed_capacity c cr t b = Some False
      then (put_transaction cr t b, Ok ())
      else (b, Err (BE_Custom ''transactions at capacity'')))"

definition insert_account :: "batch_codec \<Rightarrow> account \<Rightarrow> batch \<Rightarrow> (batch, batcher_error, unit) mutres" where
  "insert_account c a b =
     (if account_would_exceed_capacity c a b = Some False
      then (case acc_account_type a of
              Program address \<Rightarrow> (put_account (to_full_string address) a b, Ok ())
            | User \<Rightarrow> (put_account (to_full_string (acc_owner_address a)) a b, Ok ()))
      else (b, Err (BE_Custom ''accounts at capacity'')))"

section \<open>The batcher's batches\<close>

record batcher =
  bt_parent :: batch
  bt_children :: "batch list"
  bt_cache :: "(string, batch) hashmap"

definition batcher_new :: batcher where
  "batcher_new = \<lparr>bt_parent = batch_new, bt_children = [], bt_cache = []\<rparr>"

text \<open>
  \<open>while let Err(e) = res\<close>: the iterator moves to the next child while there is one; when there is
  none, \<open>new_batch\<close> is set and the loop goes round again with \<open>res\<close> unchanged.
\<close>

partial_function (option) place_loop ::
    "(batch \<Rightarrow> (batch, batcher_error, unit) mutres) \<Rightarrow> (batcher_error, unit) outcome
       \<Rightarrow> batch list \<Rightarrow> batch list \<Rightarrow> bool \<Rightarrow> (batch list \<times> bool) option" where
  "place_loop ins res visited rest new_batch =
     (if is_Err res then
        (case rest of
           child # cs \<Rightarrow> place_loop ins (snd (ins child)) (visited @ [fst (ins child)]) cs new_batch
         | [] \<Rightarrow> place_loop ins res visited [] True)
      else Some (visited @ rest, new_batch))"

definition place :: "(batch \<Rightarrow> (batch, batcher_error, unit) mutres) \<Rightarrow> batcher \<Rightarrow> batcher option" where
  "place ins bt =
     (case place_loop ins (snd (ins (bt_parent bt))) [] (bt_children bt) False of
        None \<Rightarrow> None
      | Some (children, new_batch) \<Rightarrow>
          (let bt' = bt\<lparr>bt_parent := fst (ins (bt_parent bt)), bt_children := children\<rparr> in
           Some (if new_batch
                 then bt'\<lparr>bt_children := bt_children bt' @ [fst (ins batch_new)]\<rparr>
                 else bt')))"

definition add_transaction_to_batch :: "batch_codec \<Rightarrow> crypto \<Rightarrow> transaction \<Rightarrow> batcher \<Rightarrow> batcher option" where
  "add_transaction_to_batch c cr t bt = place (insert_transaction c cr t) bt"

text \<open>The part of \<open>add_account_to_batch\<close> after the account has been sent to the cache.\<close>

definition place_account :: "batch_codec \<Rightarrow> account \<Rightarrow> batcher \<Rightarrow> batcher option" where
  "place_account c a bt = place (insert_account c a) bt"

section \<open>Lemmas\<close>

definition codec_laws :: "batch_codec \<Rightarrow> bool" where
  "codec_laws c \<longleftrightarrow>
     (\<forall>b j. cd_json_ser c b = Some j \<longrightarrow> cd_json_de c j = Some b) \<and>
     (\<forall>x z. cd_zlib_enc c x = Some z \<longrightarrow> cd_zlib_dec c z = Some x) \<and>
     (\<forall>x. cd_unpad c (cd_pad c x) = x) \<and>
     (\<forall>x. cd_b64_dec c (cd_b64_enc c x) = Some x)"

definition fits :: "batch_codec \<Rightarrow> batch \<Rightarrow> bool" where
  "fits c b \<longleftrightarrow> (\<exists>n. check_size c b = Some n \<and> n < 512 * 1024)"

lemma at_capacity_False_iff: "at_capacity c b = Some False \<longleftrightarrow> fits c b"
  by (auto simp: at_capacity_def fits_def)

lemma insert_transaction_spec:
  "insert_transaction c cr t b =
     (if fits c (put_transaction cr t b) then (put_transaction cr t b, Ok ())
      else (b, Err (BE_Custom ''transactions at capacity'')))"
  by (simp add: insert_transaction_def transaction_would_exceed_capacity_def at_capacity_False_iff)

lemma insert_account_spec:
  "insert_account c a b =
     (if fits c (put_account (to_full_string (acc_owner_address a)) a b)
      then (put_account (to_full_string (account_address a)) a b, Ok ())
      else (b, Err (BE_Custom ''accounts at capacity'')))"
  by (simp add: insert_account_def account_would_exceed_capacity_def at_capacity_False_iff
      account_address_def split: account_type.split)

text \<open>All batches in the order they are tried.\<close>

definition batches :: "batcher \<Rightarrow> batch list" where
  "batches bt = bt_parent bt # bt_children bt"

lemma place_loop_Ok: "\<not> is_Err res \<Longrightarrow> place_loop ins res vis rest nb = Some (vis @ rest, nb)"
  by (subst place_loop.simps) simp

lemma place_loop_Some_accepts:
  assumes "place_loop ins res vis rest nb = Some y"
  shows "\<not> is_Err res \<or> (\<exists>b\<in>set rest. \<not> is_Err (snd (ins b)))"
  using _ assms
proof (rule place_loop.raw_induct [where P = "\<lambda>ins res vis rest nb y.
      \<not> is_Err res \<or> (\<exists>b\<in>set rest. \<not> is_Err (snd (ins b)))"])
  fix loop ins res vis rest nb y
  assume IH: "\<And>ins res vis rest nb y. loop ins res vis rest nb = Some y \<Longrightarrow>
      \<not> is_Err res \<or> (\<exists>b\<in>set rest. \<not> is_Err (snd (ins b)))"
    and eq: "(if is_Err res
      then case rest of [] \<Rightarrow> loop ins res vis [] True
           | child # cs \<Rightarrow> loop ins (snd (ins child)) (vis @ [fst (ins child)]) cs nb
      else Some (vis @ rest, nb)) = Some y"
  show "\<not> is_Err res \<or> (\<exists>b\<in>set rest. \<not> is_Err (snd (ins b)))"
  proof (cases rest)
    case Nil
    then show ?thesis using IH [of ins res vis "[]" True y] eq by (auto split: if_splits)
  next
    case (Cons c cs)
    then show ?thesis
      using IH [of ins "snd (ins c)" "vis @ [fst (ins c)]" cs nb y] eq by (auto split: if_splits)
  qed
qed

text \<open>What placing does: the first batch that accepts, parent first, takes the item.\<close>

lemma place_parent:
  assumes "snd (ins (bt_parent bt)) = Ok ()"
  shows "place ins bt = Some (bt\<lparr>bt_parent := fst (ins (bt_parent bt))\<rparr>)"
  using assms by (simp add: place_def place_loop_Ok)

text \<open>
  The contract of an insertion, on which the search for a batch rests: it either succeeds, or
  refuses and leaves the batch alone. The two insertions of \<open>Batch\<close> both keep it.
\<close>

locale batch_insertion =
  fixes ins :: "batch \<Rightarrow> (batch, batcher_error, unit) mutres"
  assumes accepts_or_refuses: "snd (ins b) = Ok () \<or> (is_Err (snd (ins b)) \<and> fst (ins b) = b)"
begin

lemma refused: "is_Err (snd (ins b)) \<Longrightarrow> fst (ins b) = b"
  by (metis accepts_or_refuses is_Err.simps(1))

lemma accepted: "\<not> is_Err (snd (ins b)) \<Longrightarrow> snd (ins b) = Ok ()"
  using accepts_or_refuses by blast

lemma place_loop_first:
  assumes "is_Err res"
    and "\<And>c. c \<in> set pre \<Longrightarrow> is_Err (snd (ins c))" and "snd (ins b) = Ok ()"
  shows "place_loop ins res vis (pre @ b # post) nb = Some (vis @ pre @ fst (ins b) # post, nb)"
  using assms(1,2)
proof (induction pre arbitrary: res vis)
  case Nil
  then show ?case using assms(3) by (subst place_loop.simps) (simp add: place_loop_Ok)
next
  case (Cons c cs)
  then have "is_Err (snd (ins c))" by simp
  moreover from this have "fst (ins c) = c" using refused by simp
  ultimately show ?case using Cons.prems Cons.IH [of "snd (ins c)" "vis @ [c]"]
    by (subst place_loop.simps) simp
qed

lemma place_child:
  assumes "is_Err (snd (ins (bt_parent bt)))"
    and "bt_children bt = pre @ b # post" and "\<And>c. c \<in> set pre \<Longrightarrow> is_Err (snd (ins c))"
    and "snd (ins b) = Ok ()"
  shows "place ins bt = Some (bt\<lparr>bt_children := pre @ fst (ins b) # post\<rparr>)"
  using place_loop_first [OF assms(1,3,4)] refused [OF assms(1)] assms(2)
  by (simp add: place_def)

lemma place_None:
  assumes "\<And>b. b \<in> insert (bt_parent bt) (set (bt_children bt)) \<Longrightarrow> is_Err (snd (ins b))"
  shows "place ins bt = None"
proof (cases "place_loop ins (snd (ins (bt_parent bt))) [] (bt_children bt) False")
  case None
  then show ?thesis by (simp add: place_def)
next
  case (Some y)
  then show ?thesis using place_loop_Some_accepts [OF Some] assms by auto
qed

lemma place_cases:
  obtains (parent) "snd (ins (bt_parent bt)) = Ok ()"
      "place ins bt = Some (bt\<lparr>bt_parent := fst (ins (bt_parent bt))\<rparr>)"
    | (child) pre b post where "is_Err (snd (ins (bt_parent bt)))" "bt_children bt = pre @ b # post"
      "\<And>c. c \<in> set pre \<Longrightarrow> is_Err (snd (ins c))" "snd (ins b) = Ok ()"
      "place ins bt = Some (bt\<lparr>bt_children := pre @ fst (ins b) # post\<rparr>)"
    | (never) "\<And>b. b \<in> insert (bt_parent bt) (set (bt_children bt)) \<Longrightarrow> is_Err (snd (ins b))"
      "place ins bt = None"
proof (cases "is_Err (snd (ins (bt_parent bt)))")
  case False
  then show ?thesis using parent place_parent accepted by blast
next
  case True
  show ?thesis
  proof (cases "\<exists>b\<in>set (bt_children bt). \<not> is_Err (snd (ins b))")
    case False
    then show ?thesis using never place_None True by auto
  next
    case ex: True
    obtain pre b post where "bt_children bt = pre @ b # post" "\<not> is_Err (snd (ins b))"
        "\<forall>c\<in>set pre. \<not> \<not> is_Err (snd (ins c))"
      using split_list_first_prop [OF ex] by blast
    then show ?thesis
      using child [of pre b post] place_child [OF True, of pre b post] True accepted
      by auto
  qed
qed

lemma place_first_fit:
  "case place ins bt of
           None \<Rightarrow> list_all (\<lambda>b. is_Err (snd (ins b))) (batches bt)
         | Some bt' \<Rightarrow>
             bt_cache bt' = bt_cache bt \<and>
             (\<exists>i < length (batches bt).
                list_all (\<lambda>b. is_Err (snd (ins b))) (take i (batches bt)) \<and> snd (ins (batches bt ! i)) = Ok () \<and>
                batches bt' = (batches bt)[i := fst (ins (batches bt ! i))])"
proof (rule place_cases [of bt])
  fix pre b post
  assume a: "is_Err (snd (ins (bt_parent bt)))" "bt_children bt = pre @ b # post"
    "\<And>d. d \<in> set pre \<Longrightarrow> is_Err (snd (ins d))" "snd (ins b) = Ok ()"
    "place ins bt = Some (bt\<lparr>bt_children := pre @ fst (ins b) # post\<rparr>)"
  then have "list_all (\<lambda>b. is_Err (snd (ins b))) (take (Suc (length pre)) (batches bt))"
    by (simp add: batches_def list_all_iff)
  then show ?thesis using a(2,4,5) by (auto simp: batches_def intro!: exI [of _ "Suc (length pre)"])
next
  assume "snd (ins (bt_parent bt)) = Ok ()"
    and "place ins bt = Some (bt\<lparr>bt_parent := fst (ins (bt_parent bt))\<rparr>)"
  then show ?thesis by (auto simp: batches_def intro!: exI [of _ 0])
qed (auto simp: batches_def list_all_iff)

end

interpretation tx_insertion: batch_insertion "insert_transaction c cr t" for c cr t
  by unfold_locales (simp add: insert_transaction_spec)

interpretation account_insertion: batch_insertion "insert_account c a" for c a
  by unfold_locales (simp add: insert_account_spec)

section \<open>Properties\<close>

text \<open>
  C15: placing a transaction returns exactly when the parent or one of the children accepts it.
  The first batch that accepts, the parent before the children, takes it; every other batch, and
  the number of children, stay as they were. When every batch refuses it, the loop never ends: no
  batch is added.
\<close>

theorem add_transaction_to_batch_first_fit:
  "(case add_transaction_to_batch c cr t bt of
      None \<Rightarrow> list_all (\<lambda>b. \<not> fits c (put_transaction cr t b)) (batches bt)
    | Some bt' \<Rightarrow>
        bt_cache bt' = bt_cache bt \<and>
        (\<exists>i < length (batches bt).
           list_all (\<lambda>b. \<not> fits c (put_transaction cr t b)) (take i (batches bt)) \<and>
           fits c (put_transaction cr t (batches bt ! i)) \<and>
           batches bt' = (batches bt)[i := put_transaction cr t (batches bt ! i)]))"
proof -
  have err: "is_Err (snd (insert_transaction c cr t b)) \<longleftrightarrow> \<not> fits c (put_transaction cr t b)" for b
    by (simp add: insert_transaction_spec)
  have ok: "snd (insert_transaction c cr t b) = Ok () \<and> xs = ys[i := fst (insert_transaction c cr t b)] \<longleftrightarrow>
      fits c (put_transaction cr t b) \<and> xs = ys[i := put_transaction cr t b]" for b i xs ys
    by (auto simp: insert_transaction_spec)
  show ?thesis
    using tx_insertion.place_first_fit [of c cr t bt]
    by (simp add: add_transaction_to_batch_def err ok split: option.splits)
qed

text \<open>
  A batch decoded from its encoding is the batch: JSON, zlib, the padding and base64 undo
  each other in the order the code applies them, given that each crate's decoder inverts its
  encoder.
\<close>

theorem batch_encoding_roundtrip:
  assumes "codec_laws c" and "encode_batch c b = Some s"
  shows "decode_batch c s = Some b"
  using assms
  by (auto simp: codec_laws_def encode_batch_def compress_batch_def serialize_batch_def
      decode_batch_def deserialize_batch_def decompress_batch_def split: option.splits)

definition sample_codec :: batch_codec where
  "sample_codec =
     \<lparr>cd_json_ser = (\<lambda>b. if b = batch_new then Some [1, 2] else None),
      cd_json_de = (\<lambda>x. if x = [1, 2] then Some batch_new else None),
      cd_zlib_enc = Some, cd_zlib_dec = Some, cd_pad = (\<lambda>x. 0 # x), cd_unpad = tl,
      cd_b64_enc = bytes_hex, cd_b64_dec = (\<lambda>s. case ref_hex_decode s of Ok x \<Rightarrow> Some x | _ \<Rightarrow> None)\<rparr>"

theorem batch_encoding_roundtrip_witness:
  "decode_batch sample_codec (bytes_hex [0, 1, 2]) = Some batch_new"
proof (rule batch_encoding_roundtrip)
  show "codec_laws sample_codec"
    by (auto simp: codec_laws_def sample_codec_def ref_hex_decode_bytes_hex split: if_splits)
  show "encode_batch sample_codec batch_new = Some (bytes_hex [0, 1, 2])"
    by (simp add: sample_codec_def encode_batch_def compress_batch_def serialize_batch_def)
qed

text \<open>
  An accepted transaction or account is found under its key in the batch that took it, and a
  batch that took a transaction or a user account is below 512 KiB encoded.
\<close>

theorem insert_then_get:
  "(case insert_transaction c cr t b of
      (b', Ok _) \<Rightarrow> get_transaction (hash_string cr t) b' = Some t \<and> fits c b'
    | (b', _) \<Rightarrow> b' = b) \<and>
   (case insert_account c a b of
      (b', Ok _) \<Rightarrow>
        (case acc_account_type a of
           User \<Rightarrow> get_user_account (acc_owner_address a) b' = Some a \<and> fits c b'
         | Program p \<Rightarrow> get_program_account (Program p) b' = Some a)
    | (b', _) \<Rightarrow> b' = b)"
  by (auto simp: insert_transaction_spec insert_account_spec get_transaction_def put_transaction_def
      get_user_account_def get_program_account_def put_account_def account_address_def hm_get_insert
      split: account_type.split)

text \<open>
  The capacity test of a program account is made on another batch than the one that results:
  it files the account under the owner's address, where it can replace the owner's own account,
  while the account is stored under the program's. So a batch can pass the test and be over the
  capacity after the insertion.
\<close>

theorem program_account_bypasses_capacity:
  "\<exists>c a b b'. insert_account c a b = (b', Ok ()) \<and> fits c b \<and> \<not> fits c b'"
proof -
  define c where "c = \<lparr>cd_json_ser = (\<lambda>b. Some (replicate (300 * 1024 * length (b_accounts b)) 0)),
    cd_json_de = (\<lambda>_. None), cd_zlib_enc = Some, cd_zlib_dec = Some, cd_pad = (\<lambda>x. x), cd_unpad = (\<lambda>x. x),
    cd_b64_enc = map (\<lambda>_. CHR ''A''), cd_b64_dec = (\<lambda>_. None)\<rparr>"
  have size: "fits c b \<longleftrightarrow> 300 * 1024 * length (b_accounts b) < 512 * 1024" for b
    by (simp add: fits_def check_size_def encode_batch_def compress_batch_def serialize_batch_def c_def)
  let ?u = "account_new User None eth_addr None" and ?p = "account_new (Program verse_addr) None eth_addr None"
  let ?b = "batch_new\<lparr>b_accounts := [(to_full_string eth_addr, ?u)]\<rparr>"
  have "to_full_string verse_addr \<noteq> to_full_string eth_addr" by simp
  moreover have "acc_owner_address ?p = eth_addr" "account_address ?p = verse_addr"
    by (simp_all add: account_new_def account_address_def)
  ultimately have "insert_account c ?p ?b = (put_account (to_full_string verse_addr) ?p ?b, Ok ())"
    "fits c ?b" "\<not> fits c (put_account (to_full_string verse_addr) ?p ?b)"
    by (simp_all add: insert_account_spec size put_account_def)
  then show ?thesis by blast
qed

end
