(* ===== verification/Batcher_Model.thy ===== *)
theory Batcher_Model
  imports Batch_Model
begin

text \<open>
  The batcher (crates/actors/src/batcher.rs, \<open>Batcher\<close> and the actor, and
  crates/contract/src/helpers.rs): applying send, bridge-in, call and registration transactions
  to accounts, placing the changed accounts and the transaction in a batch, and handing batches to
  the store, the data-availability client and the settlement client. An operation runs on a
  \<open>world\<close>: the account cache with the store below it, the batcher's batches, and the messages sent
  so far. It returns None when it does not return, which happens only in the search for a batch
  (theory \<open>Batch_Model\<close>). A future of the pool runs to its end before the next; a write sent to the
  account cache is seen by the reads that follow it. Text that a third-party crate adds to an error
  message is left out.
\<close>

section \<open>World and environment\<close>

record world =
  w_cache :: account_cache
  w_batcher :: batcher
  w_out :: "message list"

record batcher_env =
  bn_registry :: registry
  bn_crypto :: crypto
  bn_hex :: hex_crate
  bn_secp_display :: "secp_error \<Rightarrow> string"
  bn_codec :: batch_codec
  bn_cache :: cache_env
  bn_cache_answers :: bool
  bn_it_address :: "(address \<times> account) list \<Rightarrow> (address \<times> account) list"
  bn_it_string :: "(string \<times> account) list \<Rightarrow> (string \<times> account) list"
  bn_parse_inputs :: "string \<Rightarrow> (string, string \<rightharpoonup> json) outcome"
  bn_ser_account :: "account \<Rightarrow> u8 list option"
  bn_put_fails :: "string \<Rightarrow> bool"
  bn_blob_response :: "string \<Rightarrow> string option"

type_synonym 'a batcher_op = "world \<Rightarrow> (world \<times> (batcher_error, 'a) outcome) option"

definition bbind :: "'a batcher_op \<Rightarrow> ('a \<Rightarrow> 'b batcher_op) \<Rightarrow> 'b batcher_op" where
  "bbind m f w =
     (case m w of
        None \<Rightarrow> None
      | Some (w', Ok a) \<Rightarrow> f a w'
      | Some (w', Err e) \<Rightarrow> Some (w', Err e)
      | Some (w', Panic p) \<Rightarrow> Some (w', Panic p))"

definition pure_op :: "(batcher_error, 'a) outcome \<Rightarrow> 'a batcher_op" where
  "pure_op r w = Some (w, r)"

definition lookup_account :: "batcher_env \<Rightarrow> world \<Rightarrow> address \<Rightarrow> account option" where
  "lookup_account env w addr =
     check_account_cache
       (registered (bn_registry env) AccountCacheActor \<and> castable (bn_registry env) AccountCacheActor
          \<and> bn_cache_answers env)
       (bn_cache env) addr (w_cache w)"

definition emit :: "batcher_env \<Rightarrow> actor_type \<Rightarrow> message \<Rightarrow> world \<Rightarrow> world" where
  "emit env a m w = w\<lparr>w_out := w_out w @ send_to (bn_registry env) a m\<rparr>"

section \<open>Accounts into batches\<close>

definition cache_account :: "batcher_env \<Rightarrow> account \<Rightarrow> world \<Rightarrow> world" where
  "cache_account env account w =
     (if registered (bn_registry env) AccountCacheActor \<and> castable (bn_registry env) AccountCacheActor
      then emit env AccountCacheActor (To_AccountCache (AC_Write account))
             (w\<lparr>w_cache := cache_write (bn_cache env) account (w_cache w)\<rparr>)
      else w)"

definition add_account_to_batch :: "batcher_env \<Rightarrow> account \<Rightarrow> unit batcher_op" where
  "add_account_to_batch env account w =
     (let w' = cache_account env account w in
      case place_account (bn_codec env) account (w_batcher w') of
        None \<Rightarrow> None
      | Some bt \<Rightarrow> Some (w'\<lparr>w_batcher := bt\<rparr>, Ok ()))"

fun add_accounts_to_batch :: "batcher_env \<Rightarrow> account list \<Rightarrow> unit batcher_op" where
  "add_accounts_to_batch env [] w = Some (w, Ok ())"
| "add_accounts_to_batch env (a # as) w =
     bbind (add_account_to_batch env a) (\<lambda>_. add_accounts_to_batch env as) w"

definition place_transaction :: "batcher_env \<Rightarrow> transaction \<Rightarrow> unit batcher_op" where
  "place_transaction env tx w =
     (case add_transaction_to_batch (bn_codec env) (bn_crypto env) tx (w_batcher w) of
        None \<Rightarrow> None | Some bt \<Rightarrow> Some (w\<lparr>w_batcher := bt\<rparr>, Ok ()))"

text \<open>\<open>get_actor_ref\<close>, then a cast whose failure fails the transaction.\<close>

definition cast_or_fail :: "batcher_env \<Rightarrow> transaction \<Rightarrow> actor_type \<Rightarrow> string \<Rightarrow> message \<Rightarrow> unit batcher_op" where
  "cast_or_fail env tx a missing m w =
     (if \<not> registered (bn_registry env) a then Some (w, Err (BE_FailedTransaction missing tx))
      else if \<not> castable (bn_registry env) a
      then Some (w, Err (BE_FailedTransaction
        (error_to_string (bn_secp_display env) (MessagingErr (actor_type_to_string a))) tx))
      else Some (emit env a m w, Ok ()))"

section \<open>Send and bridge-in\<close>

text \<open>\<open>AccountBuilder\<close> with every field set: an empty user account.\<close>

definition new_user_account :: "address \<Rightarrow> account" where
  "new_user_account addr = account_new User None addr None"

definition failed_with :: "batcher_env \<Rightarrow> transaction \<Rightarrow> boxed_error \<Rightarrow> batcher_error" where
  "failed_with env tx e = BE_FailedTransaction (error_to_string (bn_secp_display env) e) tx"

definition apply_to_sender ::
    "batcher_env \<Rightarrow> (address \<Rightarrow> account option) \<Rightarrow> transaction \<Rightarrow> (batcher_error, account \<times> token) outcome" where
  "apply_to_sender env lookup tx =
     (case lookup (tx_from tx) of
        Some account \<Rightarrow>
          (case and_then (increment_nonce account) (\<lambda>a _. apply_send_transaction tx None a) of
             (a, r) \<Rightarrow> obind (map_err (failed_with env tx) r) (\<lambda>tok. Ok (a, tok)))
      | None \<Rightarrow>
          if \<not> is_bridge_in (tx_transaction_type tx)
          then Err (BE_FailedTransaction ''sender account does not exist'' tx)
          else (case apply_send_transaction tx (lookup (tx_program_id tx)) (new_user_account (tx_from tx)) of
                  (a, r) \<Rightarrow> obind (map_err (failed_with env tx) r) (\<lambda>tok. Ok (a, tok))))"

text \<open>The receiving side ignores the error of the application and keeps the account as it is.\<close>

fun ignore_err :: "'a account_result \<Rightarrow> (batcher_error, account) outcome" where
  "ignore_err (a, Ok _) = Ok a"
| "ignore_err (a, Err _) = Ok a"
| "ignore_err (a, Panic p) = Panic p"

definition apply_to_receiver ::
    "(address \<Rightarrow> account option) \<Rightarrow> transaction \<Rightarrow> account \<Rightarrow> (batcher_error, account) outcome" where
  "apply_to_receiver lookup tx account =
     (case lookup (tx_program_id tx) of
        Some program_account \<Rightarrow> ignore_err (apply_send_transaction tx (Some program_account) account)
      | None \<Rightarrow>
          if tx_program_id tx = eth_addr \<or> tx_program_id tx = verse_addr
          then ignore_err (apply_send_transaction tx None account)
          else Err (BE_FailedTransaction
            (''program account '' @ to_full_string (tx_program_id tx) @ '' does not exist'') tx))"

definition transaction_buffer ::
    "batcher_env \<Rightarrow> (address \<Rightarrow> account option) \<Rightarrow> transaction
       \<Rightarrow> (batcher_error, (string, account) hashmap \<times> token) outcome" where
  "transaction_buffer env lookup tx =
     obind (apply_to_sender env lookup tx) (\<lambda>(from_account, tok).
     let buffer = hm_insert (to_full_string (tx_from tx)) from_account [] in
     if tx_to tx \<noteq> tx_from tx then
       obind (apply_to_receiver lookup tx
                (case lookup (tx_to tx) of Some a \<Rightarrow> a | None \<Rightarrow> new_user_account (tx_to tx)))
         (\<lambda>to_account. Ok (hm_insert (to_full_string (tx_to tx)) to_account buffer, tok))
     else if \<not> is_bridge_in (tx_transaction_type tx) then
       (case hm_get buffer (to_full_string (tx_to tx)) of
          Some account \<Rightarrow>
            obind (apply_to_receiver lookup tx account)
              (\<lambda>to_account. Ok (hm_insert (to_full_string (tx_to tx)) to_account buffer, tok))
        | None \<Rightarrow>
            (case lookup (tx_to tx) of
               Some account \<Rightarrow>
                 obind (apply_to_receiver lookup tx account)
                   (\<lambda>to_account. Ok (hm_insert (to_full_string (tx_to tx)) to_account buffer, tok))
             | None \<Rightarrow> Err (BE_FailedTransaction ''account sending to itself does not exist'' tx)))
     else Ok (buffer, tok))"

definition add_transaction_to_account :: "batcher_env \<Rightarrow> transaction \<Rightarrow> unit batcher_op" where
  "add_transaction_to_account env tx w =
     (case transaction_buffer env (lookup_account env w) tx of
        Err e \<Rightarrow> Some (w, Err e)
      | Panic p \<Rightarrow> Some (w, Panic p)
      | Ok (buffer, tok) \<Rightarrow>
          bbind (add_accounts_to_batch env (map snd (bn_it_string env buffer))) (\<lambda>_.
          bbind (place_transaction env tx) (\<lambda>_.
          bbind (cast_or_fail env tx Scheduler ''failed to acquire SchedulerActor''
                   (To_Scheduler (S_TransactionApplied (hash_string (bn_crypto env) tx) tok))) (\<lambda>_.
          cast_or_fail env tx PendingTransactions ''failed to acquire PendingTransactionActor''
            (To_Pending (PT_Valid tx None))))) w)"

section \<open>Instructions\<close>

type_synonym buffer = "(address, account) hashmap"

text \<open>\<open>map_err(|e| BatcherError::Custom(e.to_string()))?\<close>, then the account.\<close>

definition custom :: "batcher_env \<Rightarrow> 'a account_result \<Rightarrow> (batcher_error, account) outcome" where
  "custom env res =
     (case res of (a, r) \<Rightarrow>
        obind (map_err (\<lambda>e. BE_Custom (error_to_string (bn_secp_display env) e)) r) (\<lambda>_. Ok a))"

definition get_transfer_from_account ::
    "(address \<Rightarrow> account option) \<Rightarrow> transaction \<Rightarrow> address_or_namespace \<Rightarrow> buffer \<Rightarrow> (batcher_error, account) outcome" where
  "get_transfer_from_account lookup tx from buf =
     (case from of
        This \<Rightarrow>
          (case hm_get buf (tx_to tx) of
             Some account \<Rightarrow> Ok account
           | None \<Rightarrow> ok_or (lookup (tx_to tx)) (BE_Custom ''the `from` account in a transfer must exist''))
      | AON_Address address \<Rightarrow>
          (case hm_get buf address of
             Some account \<Rightarrow> Ok account
           | None \<Rightarrow> ok_or (lookup address) (BE_Custom ''the `from` account in a transfer must exist''))
      | AON_Namespace n \<Rightarrow> Err (BE_Custom
          ''Transfers from namespaces are not yet supported, use address for {:?} instead''))"

definition get_transfer_to_account ::
    "(address \<Rightarrow> account option) \<Rightarrow> transaction \<Rightarrow> address_or_namespace \<Rightarrow> buffer \<Rightarrow> account option" where
  "get_transfer_to_account lookup tx to buf =
     (case to of
        This \<Rightarrow>
          (case hm_get buf (tx_to tx) of Some account \<Rightarrow> Some account | None \<Rightarrow> lookup (tx_to tx))
      | AON_Address address \<Rightarrow>
          (case hm_get buf address of Some account \<Rightarrow> Some account | None \<Rightarrow> lookup address)
      | AON_Namespace n \<Rightarrow> None)"

definition apply_transfer_from ::
    "batcher_env \<Rightarrow> (address \<Rightarrow> account option) \<Rightarrow> transaction \<Rightarrow> transfer_instruction \<Rightarrow> buffer
       \<Rightarrow> (batcher_error, account) outcome" where
  "apply_transfer_from env lookup tx t buf =
     obind (get_transfer_from_account lookup tx (ti_from t) buf) (\<lambda>account.
     custom env (apply_transfer_from_instruction (ti_token t) (ti_amount t) (ti_ids t) account))"

definition no_program_account :: "address \<Rightarrow> batcher_error" where
  "no_program_account token =
     BE_Custom (''token '' @ to_full_string token @ '' program account does not exist'')"

definition transfer_into ::
    "batcher_env \<Rightarrow> (address \<Rightarrow> account option) \<Rightarrow> transfer_instruction \<Rightarrow> account \<Rightarrow> (batcher_error, account) outcome" where
  "transfer_into env lookup t account =
     (case lookup (ti_token t) of
        Some program_account \<Rightarrow>
          custom env (apply_transfer_to_instruction (ti_token t) (ti_amount t) (ti_ids t)
            (Some program_account) account)
      | None \<Rightarrow>
          if ti_token t = eth_addr \<or> ti_token t = verse_addr
          then custom env (apply_transfer_to_instruction (ti_token t) (ti_amount t) (ti_ids t) None account)
          else Err (no_program_account (ti_token t)))"

definition apply_transfer_to ::
    "batcher_env \<Rightarrow> (address \<Rightarrow> account option) \<Rightarrow> transaction \<Rightarrow> transfer_instruction \<Rightarrow> buffer
       \<Rightarrow> (batcher_error, account) outcome" where
  "apply_transfer_to env lookup tx t buf =
     (case get_transfer_to_account lookup tx (ti_to t) buf of
        Some account \<Rightarrow> transfer_into env lookup t account
      | None \<Rightarrow>
          (case ti_to t of
             AON_Address address \<Rightarrow> transfer_into env lookup t (new_user_account address)
           | _ \<Rightarrow> Err (BE_Custom ''When sending tokens to an account that does not exist yet, fully qualified address must be used'')))"

text \<open>Both sides start from the accounts as they are before the transfer.\<close>

definition apply_transfer_instruction ::
    "batcher_env \<Rightarrow> (address \<Rightarrow> account option) \<Rightarrow> transaction \<Rightarrow> transfer_instruction \<Rightarrow> buffer
       \<Rightarrow> (batcher_error, account \<times> account) outcome" where
  "apply_transfer_instruction env lookup tx t buf =
     obind (apply_transfer_from env lookup tx t buf) (\<lambda>from_account.
     obind (apply_transfer_to env lookup tx t buf) (\<lambda>to_account.
     Ok (from_account, to_account)))"

definition batcher_apply_burn_instruction ::
    "batcher_env \<Rightarrow> (address \<Rightarrow> account option) \<Rightarrow> transaction \<Rightarrow> burn_instruction \<Rightarrow> buffer
       \<Rightarrow> (batcher_error, account) outcome" where
  "batcher_apply_burn_instruction env lookup tx b buf =
     obind (get_transfer_from_account lookup tx (bi_from b) buf) (\<lambda>account.
     custom env (apply_burn_instruction (bi_token b) (bi_amount b) (bi_token_ids b) account))"

fun resolve_program :: "string \<Rightarrow> transaction \<Rightarrow> address_or_namespace \<Rightarrow> (batcher_error, address) outcome" where
  "resolve_program msg tx This = Ok (tx_to tx)"
| "resolve_program msg tx (AON_Address a) = Ok a"
| "resolve_program msg tx (AON_Namespace n) = Err (BE_Custom msg)"

definition distribute_to ::
    "batcher_env \<Rightarrow> (address \<Rightarrow> account option) \<Rightarrow> address \<Rightarrow> token_distribution \<Rightarrow> account
       \<Rightarrow> (batcher_error, account) outcome" where
  "distribute_to env lookup program_id d acct =
     (case lookup program_id of
        Some program_account \<Rightarrow>
          custom env (apply_token_distribution program_id (td_amount d) (td_token_ids d)
            (td_update_fields d) program_account acct)
      | None \<Rightarrow> Err (no_program_account program_id))"

definition apply_distribution ::
    "batcher_env \<Rightarrow> (address \<Rightarrow> account option) \<Rightarrow> transaction \<Rightarrow> token_distribution \<Rightarrow> buffer
       \<Rightarrow> (batcher_error, account) outcome" where
  "apply_distribution env lookup tx d buf =
     obind (resolve_program ''Namespaces are not yet supported for token distributions'' tx (td_program_id d))
       (\<lambda>program_id.
     case td_to d of
       This \<Rightarrow>
         distribute_to env lookup program_id d
           (case get_transfer_to_account lookup tx (td_to d) buf of
              Some acct \<Rightarrow> acct
            | None \<Rightarrow> account_new (Program (tx_to tx)) None (tx_from tx) None)
     | AON_Address to_addr \<Rightarrow>
         distribute_to env lookup program_id d
           (case get_transfer_to_account lookup tx (AON_Address to_addr) buf of
              Some acct \<Rightarrow> acct | None \<Rightarrow> new_user_account to_addr)
     | AON_Namespace (Namespace n) \<Rightarrow> Err (BE_Custom
         (''Namespaced are not yet supported for Token Distrubtion applications, use address for ''
          @ ''Namespace('' @ quoted n @ '') instead'')))"

definition update_on ::
    "batcher_env \<Rightarrow> (address \<Rightarrow> account option) \<Rightarrow> address \<Rightarrow> token_update \<Rightarrow> account \<Rightarrow> token account_result option" where
  "update_on env lookup program_id u account =
     map_option (\<lambda>program_account. apply_token_update program_id (tu_updates u) program_account account)
       (lookup program_id)"

text \<open>
  An account of the buffer is updated in place, so the buffer changes even when the update fails;
  an account from the cache is updated as a copy.
\<close>

definition token_update_at ::
    "batcher_env \<Rightarrow> (address \<Rightarrow> account option) \<Rightarrow> address \<Rightarrow> token_update \<Rightarrow> address \<Rightarrow> (batcher_error, account) outcome
       \<Rightarrow> buffer \<Rightarrow> (buffer, batcher_error, account) mutres" where
  "token_update_at env lookup program_id u addr absent buf =
     (case hm_get buf addr of
        Some account \<Rightarrow>
          (case update_on env lookup program_id u account of
             Some res \<Rightarrow> (hm_insert addr (fst res) buf, custom env res)
           | None \<Rightarrow> (buf, Err (no_program_account program_id)))
      | None \<Rightarrow>
          (buf,
           obind (case lookup addr of Some account \<Rightarrow> Ok account | None \<Rightarrow> absent) (\<lambda>account.
           case update_on env lookup program_id u account of
             Some res \<Rightarrow> custom env res
           | None \<Rightarrow> Err (no_program_account program_id))))"

definition batcher_apply_token_update ::
    "batcher_env \<Rightarrow> (address \<Rightarrow> account option) \<Rightarrow> transaction \<Rightarrow> token_update \<Rightarrow> buffer
       \<Rightarrow> (buffer, batcher_error, account) mutres" where
  "batcher_apply_token_update env lookup tx u buf =
     (case resolve_program ''Namespaces are not yet supported for token updates'' tx (tu_token u) of
        Err e \<Rightarrow> (buf, Err e)
      | Panic p \<Rightarrow> (buf, Panic p)
      | Ok program_id \<Rightarrow>
          (case tu_account u of
             This \<Rightarrow> token_update_at env lookup program_id u (tx_to tx)
               (Err (BE_Custom ''Use of `This` variant impermissible on accounts that do not exist yet'')) buf
           | AON_Address address \<Rightarrow> token_update_at env lookup program_id u address
               (Ok (new_user_account address)) buf
           | AON_Namespace n \<Rightarrow> (buf, Err (BE_Custom
               ''Namespaces are not yet enabled for applying token updates''))))"

definition program_update_at ::
    "batcher_env \<Rightarrow> (address \<Rightarrow> account option) \<Rightarrow> program_update \<Rightarrow> address \<Rightarrow> (batcher_error, account) outcome
       \<Rightarrow> buffer \<Rightarrow> (buffer, batcher_error, account) mutres" where
  "program_update_at env lookup u addr absent buf =
     (case hm_get buf addr of
        Some account \<Rightarrow>
          (let res = account_apply_program_update u account in
           (hm_insert addr (fst res) buf, custom env res))
      | None \<Rightarrow>
          (buf,
           obind (case lookup addr of Some account \<Rightarrow> Ok account | None \<Rightarrow> absent) (\<lambda>account.
           custom env (account_apply_program_update u account))))"

definition batcher_apply_program_update ::
    "batcher_env \<Rightarrow> (address \<Rightarrow> account option) \<Rightarrow> transaction \<Rightarrow> program_update \<Rightarrow> buffer
       \<Rightarrow> (buffer, batcher_error, account) mutres" where
  "batcher_apply_program_update env lookup tx u buf =
     (case pu_account u of
        This \<Rightarrow> program_update_at env lookup u (tx_to tx)
          (Err (BE_Custom ''Use of `This` variant impermissible on accounts that do not exist yet'')) buf
      | AON_Address address \<Rightarrow> program_update_at env lookup u address (Ok (new_user_account address)) buf
      | AON_Namespace n \<Rightarrow> (buf, Err (BE_Custom
          ''Namespaces are not yet enabled for applying token updates'')))"

fun apply_update ::
    "batcher_env \<Rightarrow> (address \<Rightarrow> account option) \<Rightarrow> transaction \<Rightarrow> token_or_program_update \<Rightarrow> buffer
       \<Rightarrow> (buffer, batcher_error, account) mutres" where
  "apply_update env lookup tx (TokenUpdate u) buf = batcher_apply_token_update env lookup tx u buf"
| "apply_update env lookup tx (ProgramUpdate u) buf = batcher_apply_program_update env lookup tx u buf"

definition add_account_to_batch_buffer :: "account \<Rightarrow> buffer \<Rightarrow> buffer" where
  "add_account_to_batch_buffer account buf =
     (case acc_account_type account of
        User \<Rightarrow> hm_insert (acc_owner_address account) account buf
      | Program program_address \<Rightarrow> hm_insert program_address account buf)"

text \<open>The metadata with the two supplies is built and then not used.\<close>

definition try_create_program_account ::
    "(address \<Rightarrow> account option) \<Rightarrow> transaction \<Rightarrow> create_instruction \<Rightarrow> buffer \<Rightarrow> account" where
  "try_create_program_account lookup tx instruction buf =
     (case hm_get buf (tx_to tx) of
        Some account \<Rightarrow> account
      | None \<Rightarrow>
          (case lookup (tx_to tx) of
             Some account \<Rightarrow> account
           | None \<Rightarrow> account_new (Program (tx_to tx)) None (tx_from tx) None))"

definition failed_err :: "transaction \<Rightarrow> batcher_error \<Rightarrow> batcher_error" where
  "failed_err tx e = BE_FailedTransaction (batcher_error_to_string e) tx"

text \<open>One result goes into the buffer; an error fails the transaction.\<close>

fun into_buffer :: "transaction \<Rightarrow> (buffer, batcher_error, account) mutres \<Rightarrow> (buffer, batcher_error, unit) mutres" where
  "into_buffer tx (buf, Ok account) = (add_account_to_batch_buffer account buf, Ok ())"
| "into_buffer tx (buf, Err e) = (buf, Err (failed_err tx e))"
| "into_buffer tx (buf, Panic p) = (buf, Panic p)"

fun apply_instruction ::
    "batcher_env \<Rightarrow> (address \<Rightarrow> account option) \<Rightarrow> transaction \<Rightarrow> instruction \<Rightarrow> buffer
       \<Rightarrow> (buffer, batcher_error, unit) mutres" where
  "apply_instruction env lookup tx (Transfer t) buf =
     (case apply_transfer_instruction env lookup tx t buf of
        Ok (from_account, to_account) \<Rightarrow>
          (add_account_to_batch_buffer to_account (add_account_to_batch_buffer from_account buf), Ok ())
      | Err e \<Rightarrow> (buf, Err (failed_err tx e))
      | Panic p \<Rightarrow> (buf, Panic p))"
| "apply_instruction env lookup tx (Burn b) buf =
     into_buffer tx (buf, batcher_apply_burn_instruction env lookup tx b buf)"
| "apply_instruction env lookup tx (Create c) buf =
     and_then
       (for_each (\<lambda>d bf. into_buffer tx (bf, apply_distribution env lookup tx d bf)) (ci_distribution c) buf)
       (\<lambda>bf _. into_buffer tx (bf, Ok (try_create_program_account lookup tx c bf)))"
| "apply_instruction env lookup tx (Update u) buf =
     for_each (\<lambda>x bf. into_buffer tx (apply_update env lookup tx x bf)) (ui_updates u) buf"
| "apply_instruction env lookup tx (Log l) buf = (buf, Ok ())"

definition apply_instructions ::
    "batcher_env \<Rightarrow> (address \<Rightarrow> account option) \<Rightarrow> transaction \<Rightarrow> instruction list
       \<Rightarrow> (buffer, batcher_error, unit) mutres" where
  "apply_instructions env lookup tx is = for_each (apply_instruction env lookup tx) is []"

text \<open>The account whose nonce is advanced is the one at \<open>transaction.to()\<close>.\<close>

definition apply_instructions_to_accounts :: "batcher_env \<Rightarrow> transaction \<Rightarrow> outputs \<Rightarrow> unit batcher_op" where
  "apply_instructions_to_accounts env tx outs w =
     (case lookup_account env w (tx_to tx) of
        None \<Rightarrow> Some (w, Err (BE_FailedTransaction ''caller account does not exist'' tx))
      | Some caller \<Rightarrow>
          (case increment_nonce caller of
             (_, Panic p) \<Rightarrow> Some (w, Panic p)
           | (caller', _) \<Rightarrow>
               bbind (add_account_to_batch env caller') (\<lambda>_ w1.
               case apply_instructions env (lookup_account env w1) tx (out_instructions outs) of
                 (_, Err e) \<Rightarrow> Some (w1, Err e)
               | (_, Panic p) \<Rightarrow> Some (w1, Panic p)
               | (buf, Ok _) \<Rightarrow>
                   bbind (add_accounts_to_batch env (map snd (bn_it_address env buf))) (\<lambda>_.
                   bbind (place_transaction env tx) (\<lambda>_ w2.
                   if \<not> registered (bn_registry env) Scheduler
                   then Some (w2, Err (BE_FailedTransaction ''unable to acquire SchedulerActor'' tx))
                   else if \<not> registered (bn_registry env) PendingTransactions
                   then Some (w2, Err (BE_FailedTransaction ''unable to acquire PendingTransactionActor'' tx))
                   else
                     (let w3 = emit env PendingTransactions (To_Pending (PT_ValidCall outs tx None)) w2 in
                      case lookup_account env w3 (tx_from tx) of
                        None \<Rightarrow> Some (w3, Err (BE_FailedTransaction ''unable to acquire caller account'' tx))
                      | Some account \<Rightarrow>
                          Some (emit env Scheduler
                                  (To_Scheduler (S_CallTransactionApplied (hash_string (bn_crypto env) tx) account))
                                  w3, Ok ())))) w1) w))"

section \<open>Program registration\<close>

definition content_id_of :: "batcher_env \<Rightarrow> transaction \<Rightarrow> (batcher_error, string) outcome" where
  "content_id_of env tx =
     obind (map_err (\<lambda>m. BE_FailedTransaction m tx) (bn_parse_inputs env (tx_inputs tx))) (\<lambda>json.
     obind (ok_or (json ''contentId'') (BE_FailedTransaction ''content id is required'' tx)) (\<lambda>v.
     case v of
       J_Str cid \<Rightarrow> Ok cid
     | J_Obj _ \<Rightarrow> Err (BE_FailedTransaction ''contentId is incorrect type: Must be String'' tx)))"

definition apply_program_registration :: "batcher_env \<Rightarrow> transaction \<Rightarrow> unit batcher_op" where
  "apply_program_registration env tx w =
     (if \<not> registered (bn_registry env) Scheduler
      then Some (w, Err (BE_FailedTransaction ''unable to acquire Scheduler actor'' tx))
      else
        (case lookup_account env w (tx_from tx) of
           None \<Rightarrow>
             Some (emit env Scheduler (To_Scheduler (S_CallTransactionFailure
                      (hash_string (bn_crypto env) tx) '''' ''deployer account doesn't exit'')) w,
                   Err (BE_FailedTransaction ''deployer account doesn't exit'' tx))
         | Some account \<Rightarrow>
             bbind (pure_op (content_id_of env tx)) (\<lambda>content_id.
             bbind (pure_op (map_err (failed_with env tx)
                      (create_program_id (bn_crypto env) (bn_hex env) (bn_secp_display env) content_id tx)))
               (\<lambda>program_id.
             bbind (add_account_to_batch env
                      ((account_new (Program program_id) None (tx_from tx) None)
                         \<lparr>acc_program_account_metadata := [''content_id'' \<mapsto> content_id]\<rparr>)) (\<lambda>_.
             bbind (pure_op (case increment_nonce account of
                               (a, Ok _) \<Rightarrow> Ok a | (_, Err e) \<Rightarrow> Ok account | (_, Panic p) \<Rightarrow> Panic p)) (\<lambda>account'.
             bbind (add_account_to_batch env account') (\<lambda>_ w'.
             if \<not> castable (bn_registry env) Scheduler
             then Some (w', Err (BE_FailedTransaction (error_to_string (bn_secp_display env)
                    (MessagingErr (actor_type_to_string Scheduler))) tx))
             else Some (emit env Scheduler (To_Scheduler (S_RegistrationSuccess tx program_id)) w', Ok ())))))) w))"

section \<open>The next batch\<close>

definition persist_account :: "batcher_env \<Rightarrow> string \<times> account \<Rightarrow> (string \<rightharpoonup> u8 list) \<Rightarrow> (string \<rightharpoonup> u8 list)" where
  "persist_account env entry st =
     (case bn_ser_account env (snd entry) of
        Some val \<Rightarrow> if bn_put_fails env (fst entry) then st else st(fst entry \<mapsto> val)
      | None \<Rightarrow> st)"

definition persist_batch :: "batcher_env \<Rightarrow> batch \<Rightarrow> world \<Rightarrow> world" where
  "persist_batch env b w =
     w\<lparr>w_cache := (w_cache w)\<lparr>ac_storage :=
        fold (persist_account env) (bn_it_string env (b_accounts b)) (ac_storage (w_cache w))\<rparr>\<rparr>"

definition request_blob_validation :: "batcher_env \<Rightarrow> string \<Rightarrow> world \<Rightarrow> world" where
  "request_blob_validation env request_id w =
     (if registered (bn_registry env) DaClient
      then emit env DaClient (To_DaClient (D_ValidateBlob request_id)) w else w)"

text \<open>When a child takes the parent's place the function returns before the validation request.\<close>

definition handle_next_batch_request :: "batcher_env \<Rightarrow> unit batcher_op" where
  "handle_next_batch_request env w =
     (let parent = bt_parent (w_batcher w) in
      if batch_empty parent then Some (w, Ok ())
      else
        (let w1 = persist_batch env parent w in
         if \<not> registered (bn_registry env) DaClient then Some (w1, Ok ())
         else
           (case encode_batch (bn_codec env) parent of
              None \<Rightarrow> Some (w1, Err (BE_Custom ''failed to encode batch''))
            | Some encoded \<Rightarrow>
                (let w2 = emit env DaClient (To_DaClient (D_StoreBatch encoded)) w1 in
                 case (if castable (bn_registry env) DaClient then bn_blob_response env encoded else None) of
                   None \<Rightarrow> Some (w2, Err (BE_Custom ''Failed to recieve blob response from DA Client''))
                 | Some request_id \<Rightarrow>
                     (let bt = (w_batcher w2)\<lparr>bt_cache := hm_insert request_id parent (bt_cache (w_batcher w2))\<rparr> in
                      case bt_children bt of
                        child # cs \<Rightarrow>
                          Some (w2\<lparr>w_batcher := bt\<lparr>bt_parent := child, bt_children := cs\<rparr>\<rparr>, Ok ())
                      | [] \<Rightarrow>
                          Some (request_blob_validation env request_id
                                  (w2\<lparr>w_batcher := bt\<lparr>bt_parent := batch_new\<rparr>\<rparr>), Ok ()))))))"

definition handle_blob_verification_proof ::
    "batcher_env \<Rightarrow> string \<Rightarrow> string \<Rightarrow> nat \<Rightarrow> unit batcher_op" where
  "handle_blob_verification_proof env request_id header_hash blob_index w =
     (if \<not> registered (bn_registry env) EoClient then Some (w, Ok ())
      else
        (case hm_get (bt_cache (w_batcher w)) request_id of
           None \<Rightarrow> Some (w, Err (BE_Custom ''request id not in cache''))
         | Some b \<Rightarrow>
             (case cd_b64_dec (bn_codec env) header_hash of
                None \<Rightarrow> Some (w, Ok ())
              | Some decoded \<Rightarrow>
                  if length decoded \<noteq> 32
                  then Some (w, Panic ''source slice length does not match destination slice length'')
                  else Some (emit env EoClient
                         (To_Eo (Eo_Settle (fst ` set (b_accounts b)) decoded blob_index)) w, Ok ()))))"

section \<open>The actor\<close>

definition handle_transaction_error :: "batcher_env \<Rightarrow> string \<Rightarrow> transaction \<Rightarrow> world \<Rightarrow> world" where
  "handle_transaction_error env err tx w =
     (if registered (bn_registry env) PendingTransactions
      then emit env PendingTransactions (To_Pending (PT_Invalid tx (BatcherCustom err))) w else w)"

text \<open>
  The future handler: a failed transaction is reported, any other error is only logged, and a panic
  is passed on: it ends the loop of the node that runs the futures (theory \<open>System_Model\<close>).
\<close>

definition run_future :: "batcher_env \<Rightarrow> unit batcher_op \<Rightarrow> unit batcher_op" where
  "run_future env fut w =
     (case fut w of
        None \<Rightarrow> None
      | Some (w', Panic p) \<Rightarrow> Some (w', Panic p)
      | Some (w', Err (BE_FailedTransaction msg tx)) \<Rightarrow> Some (handle_transaction_error env msg tx w', Ok ())
      | Some (w', _) \<Rightarrow> Some (w', Ok ()))"

text \<open>
  A message with the future it makes run to its end. The next-batch request runs in the actor itself:
  its error is the error of the actor, which ends with it; the supervisor starts the actor again on
  the same state (theory \<open>Supervision_Model\<close>).
\<close>

fun batcher_handle :: "batcher_env \<Rightarrow> batcher_message \<Rightarrow> unit batcher_op" where
  "batcher_handle env B_GetNextBatch w = handle_next_batch_request env w"
| "batcher_handle env (B_AppendTransaction tx outs) w =
     (case tx_transaction_type tx of
        Send _ \<Rightarrow> run_future env (add_transaction_to_account env tx) w
      | BridgeIn _ \<Rightarrow> run_future env (add_transaction_to_account env tx) w
      | Call _ \<Rightarrow>
          (case outs of
             Some o' \<Rightarrow> run_future env (apply_instructions_to_accounts env tx o') w
           | None \<Rightarrow> Some (w, Ok ()))
      | RegisterProgram _ \<Rightarrow> run_future env (apply_program_registration env tx) w
      | BridgeOut _ \<Rightarrow> Some (w, Ok ()))"
| "batcher_handle env (B_BlobVerificationProof request_id header_hash blob_index) w =
     run_future env (handle_blob_verification_proof env request_id header_hash blob_index) w"

section \<open>Lemmas\<close>

definition cache_up :: "batcher_env \<Rightarrow> bool" where
  "cache_up env \<longleftrightarrow>
     registered (bn_registry env) AccountCacheActor \<and> castable (bn_registry env) AccountCacheActor \<and>
     bn_cache_answers env"

definition world_read :: "batcher_env \<Rightarrow> world \<Rightarrow> address \<Rightarrow> account option" where
  "world_read env w k = cache_read (bn_cache env) k (w_cache w)"

definition world_write :: "batcher_env \<Rightarrow> account \<Rightarrow> world \<Rightarrow> world" where
  "world_write env a w = w\<lparr>w_cache := cache_write (bn_cache env) a (w_cache w)\<rparr>"

interpretation world: account_store "world_read env" "world_write env" for env
  by unfold_locales (simp add: world_read_def world_write_def cache_read_write)

lemma check_account_cache_read: "check_account_cache True env k s = cache_read env k s"
  by (simp add: check_account_cache_def split: option.split)

lemma lookup_account_up: "cache_up env \<Longrightarrow> lookup_account env w k = world_read env w k"
  by (simp add: cache_up_def lookup_account_def world_read_def check_account_cache_read)

lemma emit_frame [simp, frame]:
  "w_cache (emit env a m w) = w_cache w" "w_batcher (emit env a m w) = w_batcher w"
  "world_read env' (emit env a m w) = world_read env' w"
  by (simp_all add: emit_def world_read_def fun_eq_iff)

lemma world_read_batcher [simp]: "world_read env (w\<lparr>w_batcher := bt\<rparr>) = world_read env w"
  by (simp add: world_read_def fun_eq_iff)

lemma cache_account_up:
  "cache_up env \<Longrightarrow> world_read env (cache_account env a w) = world_read env (world_write env a w)"
  by (simp add: cache_account_def cache_up_def world_read_def world_write_def emit_def fun_eq_iff)

lemma add_account_read:
  assumes "cache_up env" and "add_account_to_batch env a w = Some (w', r)"
  shows "r = Ok () \<and> world_read env w' k = (if k = account_address a then Some a else world_read env w k)"
  using assms cache_account_up [OF assms(1), of a w]
  by (auto simp: add_account_to_batch_def Let_def world.read_write split: option.splits)

lemma bbind_Ok_iff:
  "bbind m f w = Some (w', Ok b) \<longleftrightarrow> (\<exists>w1 a. m w = Some (w1, Ok a) \<and> f a w1 = Some (w', Ok b))"
  by (auto simp: bbind_def split: option.splits outcome.splits)

lemma add_account_returns: "add_account_to_batch env a w = Some (w', r) \<Longrightarrow> r = Ok ()"
  by (auto simp: add_account_to_batch_def Let_def split: option.splits)

lemma add_accounts_Cons:
  "add_accounts_to_batch env (a # as) w = Some (w', r) \<Longrightarrow>
     \<exists>w1. add_account_to_batch env a w = Some (w1, Ok ()) \<and> add_accounts_to_batch env as w1 = Some (w', r)"
  using add_account_returns [of env a w]
  by (cases "add_account_to_batch env a w") (auto simp: bbind_def split: outcome.splits)

lemma add_accounts_read:
  assumes "cache_up env" and "add_accounts_to_batch env as w = Some (w', r)"
  shows "r = Ok () \<and> world_read env w' k =
           (case find (\<lambda>a. account_address a = k) (rev as) of Some a \<Rightarrow> Some a | None \<Rightarrow> world_read env w k)"
proof -
  have run: "r = Ok () \<and> world_read env w' k = world_read env (fold (world_write env) as v) k"
    if "add_accounts_to_batch env as w = Some (w', r)" "\<And>k. world_read env w k = world_read env v k" for w v
    using that
  proof (induction as arbitrary: w v)
    case Nil
    then show ?case by simp
  next
    case (Cons a as)
    then obtain w1 where w1: "add_account_to_batch env a w = Some (w1, Ok ())"
        "add_accounts_to_batch env as w1 = Some (w', r)"
      using add_accounts_Cons by blast
    have "world_read env w1 k = world_read env (world_write env a v) k" for k
      using add_account_read [OF assms(1) w1(1)] Cons.prems(2) by (simp add: world.read_write)
    then show ?case using Cons.IH [OF w1(2), of "world_write env a v"] by simp
  qed
  show ?thesis using run [OF assms(2), of w] by (simp add: world.read_fold_write)
qed

lemma cast_or_fail_Ok:
  "cast_or_fail env tx a s m w = Some (w', Ok ()) \<Longrightarrow>
     w' = emit env a m w \<and> registered (bn_registry env) a \<and> castable (bn_registry env) a"
  by (auto simp: cast_or_fail_def split: if_splits)

lemma place_transaction_read:
  "place_transaction env tx w = Some (w', r) \<Longrightarrow> r = Ok () \<and> world_read env' w' = world_read env' w"
  by (auto simp: place_transaction_def split: option.splits)

lemma custom_Ok: "custom env res = Ok a \<longleftrightarrow> a = fst res \<and> is_Ok (snd res)"
  by (auto simp: custom_def outcome_simps split: prod.splits)

text \<open>What a successful send leaves in the store: the buffer's accounts, under their addresses.\<close>

lemma add_transaction_read:
  assumes "cache_up env" and "add_transaction_to_account env tx w = Some (w', Ok ())"
  shows "\<exists>buf tok. transaction_buffer env (world_read env w) tx = Ok (buf, tok) \<and>
           (\<forall>k. world_read env w' k =
             (case find (\<lambda>a. account_address a = k) (rev (map snd (bn_it_string env buf))) of
                Some a \<Rightarrow> Some a | None \<Rightarrow> world_read env w k))"
proof -
  have look: "lookup_account env w = world_read env w"
    using lookup_account_up [OF assms(1)] by blast
  obtain buf tok where buf: "transaction_buffer env (world_read env w) tx = Ok (buf, tok)"
    using assms(2) look by (auto simp: add_transaction_to_account_def split: outcome.splits)
  let ?m1 = "To_Scheduler (S_TransactionApplied (hash_string (bn_crypto env) tx) tok)"
  obtain w1 w2 w3 where steps:
      "add_accounts_to_batch env (map snd (bn_it_string env buf)) w = Some (w1, Ok ())"
      "place_transaction env tx w1 = Some (w2, Ok ())"
      "cast_or_fail env tx Scheduler ''failed to acquire SchedulerActor'' ?m1 w2 = Some (w3, Ok ())"
      "cast_or_fail env tx PendingTransactions ''failed to acquire PendingTransactionActor''
         (To_Pending (PT_Valid tx None)) w3 = Some (w', Ok ())"
    using assms(2) look buf by (auto simp: add_transaction_to_account_def bbind_Ok_iff)
  have "world_read env w' = world_read env w1"
    using cast_or_fail_Ok [OF steps(3)] cast_or_fail_Ok [OF steps(4)]
      place_transaction_read [OF steps(2), of env] by simp
  then show ?thesis using buf add_accounts_read [OF assms(1) steps(1)] by auto
qed

lemma find_two:
  "set xs = {a, b} \<Longrightarrow> account_address a \<noteq> account_address b \<Longrightarrow>
     find (\<lambda>x. account_address x = k) xs =
       (if k = account_address a then Some a else if k = account_address b then Some b else None)"
proof -
  assume s: "set xs = {a, b}" and d: "account_address a \<noteq> account_address b"
  show ?thesis
  proof (cases "find (\<lambda>x. account_address x = k) xs")
    case None
    then show ?thesis using s by (auto simp: find_None_iff)
  next
    case (Some x)
    then have "x \<in> set xs" "account_address x = k" by (auto simp: find_Some_iff)
    then show ?thesis using s d Some by auto
  qed
qed

text \<open>A user account filed under its owner, all of whose tokens are the owner's.\<close>

definition filed_user :: "address \<Rightarrow> account \<Rightarrow> bool" where
  "filed_user k a \<longleftrightarrow> wf_account a \<and> acc_account_type a = User \<and> acc_owner_address a = k \<and>
     (\<forall>p t. acc_programs a p = Some t \<longrightarrow> tok_owner_id t = k)"

lemma filed_user_address: "filed_user k a \<Longrightarrow> account_address a = k"
  by (simp add: filed_user_def account_address_def)

lemma filed_user_new: "filed_user k (new_user_account k)"
  by (simp add: filed_user_def new_user_account_def account_new_wf) (simp add: account_new_def)

definition held :: "batcher_env \<Rightarrow> world \<Rightarrow> address \<Rightarrow> address \<Rightarrow> nat" where
  "held env w k p = (case lookup_account env w k of Some a \<Rightarrow> unat (balance_of p a) | None \<Rightarrow> 0)"

lemma increment_nonce_Ok:
  "increment_nonce a = (a', Ok ()) \<Longrightarrow> a' = a\<lparr>acc_nonce := acc_nonce a + 1\<rparr>"
  by (auto simp: increment_nonce_def u256_add_def split: option.splits if_splits)

lemma apply_to_sender_Ok:
  assumes "apply_to_sender env lookup tx = Ok (a', tok)" and "lookup (tx_from tx) = Some a"
    and "filed_user (tx_from tx) a" and "tx_from tx \<noteq> tx_to tx" and "\<not> is_bridge_in (tx_transaction_type tx)"
  shows "unat (balance_of (tx_program_id tx) a') + unat (tx_value tx) = unat (balance_of (tx_program_id tx) a) \<and>
         account_address a' = tx_from tx"
proof -
  let ?a = "a\<lparr>acc_nonce := acc_nonce a + 1\<rparr>" and ?p = "tx_program_id tx"
  have step: "apply_send_transaction tx None ?a = (a', Ok tok)"
    using assms(1,2) by (auto simp: apply_to_sender_def outcome_simps map_err_Ok_iff
        dest!: increment_nonce_Ok split: prod.splits)
  have wf: "wf_account ?a" "acc_programs ?a = acc_programs a" "acc_owner_address ?a = tx_from tx"
      "acc_account_type ?a = User"
    using assms(3) by (auto simp: filed_user_def wf_account_def)
  obtain s where s: "acc_programs a ?p = Some s" "tok_owner_id s = tx_from tx"
  proof (cases "acc_programs a ?p")
    case None
    then show ?thesis using step wf assms(4,5) by (simp add: apply_send_transaction_def)
  qed (use assms(3) in \<open>auto simp: filed_user_def\<close>)
  have le: "tx_value tx \<le> tok_balance s"
    using step wf s assms(4,5) token_try_from_sender [of tx s]
    by (auto simp: apply_send_transaction_def apply_to_held_def split: if_splits)
  obtain s' where "apply_send_transaction tx None ?a = (insert_program ?p s' ?a, Ok s')"
      "tok_balance s' = tok_balance s - tx_value tx"
    using apply_send_sender [of tx ?a s None] wf s le assms(4,5) by auto
  then show ?thesis using step s le wf
    by (auto simp: balance_of_insert balance_of_def account_address_def unat_sub word_le_nat_alt)
qed

lemma apply_to_receiver_Ok:
  assumes "apply_to_receiver lookup tx b = Ok b'" and "filed_user (tx_to tx) b"
    and "tx_from tx \<noteq> tx_to tx" and "\<not> is_bridge_in (tx_transaction_type tx)"
  shows "unat (balance_of (tx_program_id tx) b') = unat (balance_of (tx_program_id tx) b) + unat (tx_value tx) \<and>
         account_address b' = tx_to tx"
proof -
  let ?p = "tx_program_id tx"
  obtain pa r where step: "ignore_err (apply_send_transaction tx pa b) = Ok b'"
    using assms(1) by (auto simp: apply_to_receiver_def split: option.splits if_splits)
  have b: "wf_account b" "acc_owner_address b = tx_to tx" "acc_account_type b = User"
      "\<And>t. acc_programs b ?p = Some t \<Longrightarrow> tok_owner_id t = tx_to tx"
    using assms(2) by (auto simp: filed_user_def)
  have room: "unat (balance_of ?p b) + unat (tx_value tx) < 2 ^ 256"
  proof (cases "acc_programs b ?p")
    case None
    then show ?thesis using u256_fits [of "tx_value tx"] by (simp add: balance_of_def)
  next
    case (Some t)
    then show ?thesis
      using step b assms(3,4) token_try_from_receiver [of tx t]
      by (auto simp: apply_send_transaction_def apply_to_held_def balance_of_def split: if_splits)
  qed
  obtain r' where "apply_send_transaction tx pa b = (insert_program ?p r' b, Ok r')"
      "tok_balance r' = balance_of ?p b + tx_value tx"
    using apply_send_receiver [of tx b pa] b room assms(3,4) by auto
  then show ?thesis using step room b
    by (auto simp: balance_of_insert account_address_def unat_add_u256)
qed

end
