(* ===== verification/Batcher_Theorems.thy ===== *)
theory Batcher_Theorems
  imports Batcher_Model
begin

text \<open>
  What the batcher's operations of theory \<open>Batcher_Model\<close> do to the accounts that later reads see,
  and what becomes of the batches: sends and transfers, failed and applied calls, the rotation of
  batches, settlement and program registration, with a witness of each on a sample world.
\<close>

section \<open>Properties\<close>

text \<open>What an applied send between two addresses leaves for later reads.\<close>

lemma send_read:
  assumes "cache_up env" and "iter_order (bn_it_string env)" and "tx_from tx \<noteq> tx_to tx"
    and "add_transaction_to_account env tx w = Some (w', Ok ())"
    and "\<And>a' tok. apply_to_sender env (lookup_account env w) tx = Ok (a', tok) \<Longrightarrow> account_address a' = tx_from tx"
    and "\<And>b'. apply_to_receiver (lookup_account env w) tx
            (case lookup_account env w (tx_to tx) of Some b \<Rightarrow> b | None \<Rightarrow> new_user_account (tx_to tx)) = Ok b' \<Longrightarrow>
          account_address b' = tx_to tx"
  obtains a' tok b' where "apply_to_sender env (lookup_account env w) tx = Ok (a', tok)"
    and "apply_to_receiver (lookup_account env w) tx
           (case lookup_account env w (tx_to tx) of Some b \<Rightarrow> b | None \<Rightarrow> new_user_account (tx_to tx)) = Ok b'"
    and "\<And>k. lookup_account env w' k =
           (if k = tx_from tx then Some a' else if k = tx_to tx then Some b' else lookup_account env w k)"
proof -
  have look: "lookup_account env v = world_read env v" for v
    using lookup_account_up [OF assms(1)] by blast
  obtain buf tok where buf: "transaction_buffer env (world_read env w) tx = Ok (buf, tok)"
      "\<And>k. world_read env w' k =
         (case find (\<lambda>a. account_address a = k) (rev (map snd (bn_it_string env buf))) of
            Some a \<Rightarrow> Some a | None \<Rightarrow> world_read env w k)"
    using add_transaction_read [OF assms(1,4)] by blast
  obtain a' b' where ab: "apply_to_sender env (world_read env w) tx = Ok (a', tok)"
      "apply_to_receiver (world_read env w) tx
         (case world_read env w (tx_to tx) of Some b \<Rightarrow> b | None \<Rightarrow> new_user_account (tx_to tx)) = Ok b'"
      "buf = [(to_full_string (tx_from tx), a'), (to_full_string (tx_to tx), b')]"
    using buf(1) assms(3) by (auto simp: transaction_buffer_def Let_def outcome_simps)
  have "set (bn_it_string env buf) = set buf"
    using iter_order_set [OF assms(2)] assms(3) by (simp add: ab(3) hm_wf_def)
  then have "set (rev (map snd (bn_it_string env buf))) = {a', b'}"
    by (simp add: ab(3))
  from find_two [OF this] have "world_read env w' k =
      (if k = tx_from tx then Some a' else if k = tx_to tx then Some b' else world_read env w k)" for k
    using assms(3) assms(5,6) ab(1,2) by (simp add: buf(2) look)
  then show thesis using that ab(1,2) look by auto
qed

lemma send_moves:
  assumes "cache_up env" and "iter_order (bn_it_string env)"
    and "tx_from tx \<noteq> tx_to tx" and "\<not> is_bridge_in (tx_transaction_type tx)"
    and "lookup_account env w (tx_from tx) = Some a" and "filed_user (tx_from tx) a"
    and "\<And>b. lookup_account env w (tx_to tx) = Some b \<Longrightarrow> filed_user (tx_to tx) b"
    and "add_transaction_to_account env tx w = Some (w', Ok ())"
  shows "held env w' (tx_from tx) (tx_program_id tx) + unat (tx_value tx) =
           held env w (tx_from tx) (tx_program_id tx) \<and>
         held env w' (tx_to tx) (tx_program_id tx) =
           held env w (tx_to tx) (tx_program_id tx) + unat (tx_value tx) \<and>
         (\<forall>k. k = tx_from tx \<or> k = tx_to tx \<or> lookup_account env w' k = lookup_account env w k)"
proof -
  let ?p = "tx_program_id tx"
  let ?b = "case lookup_account env w (tx_to tx) of Some b \<Rightarrow> b | None \<Rightarrow> new_user_account (tx_to tx)"
  have fb: "filed_user (tx_to tx) ?b"
    using assms(7) filed_user_new by (simp split: option.split)
  note sender = apply_to_sender_Ok [where lookup = "lookup_account env w", OF _ assms(5,6,3,4)]
  note receiver = apply_to_receiver_Ok [where lookup = "lookup_account env w", OF _ fb assms(3,4)]
  obtain a' tok b' where ab: "apply_to_sender env (lookup_account env w) tx = Ok (a', tok)"
      "apply_to_receiver (lookup_account env w) tx ?b = Ok b'"
      "\<And>k. lookup_account env w' k =
         (if k = tx_from tx then Some a' else if k = tx_to tx then Some b' else lookup_account env w k)"
    by (rule send_read [OF assms(1-3,8)]) (use sender receiver in blast)+
  have "held env w (tx_to tx) ?p = unat (balance_of ?p ?b)"
    by (simp add: held_def new_user_account_def account_new_def balance_of_def split: option.split)
  then show ?thesis
    using sender [OF ab(1)] receiver [OF ab(2)] ab(3) assms(3,5) by (auto simp: held_def)
qed

text \<open>
  A send to an account that holds the token under another owner destroys the value: the
  receiving side fails, the error is ignored, and the sender's debit is kept. A program account
  that got the token by a transfer instruction holds it under its deployer's name.
\<close>

theorem send_to_foreign_holding_destroys:
  assumes "cache_up env" and "iter_order (bn_it_string env)"
    and "tx_from tx \<noteq> tx_to tx" and "\<not> is_bridge_in (tx_transaction_type tx)"
    and "lookup_account env w (tx_from tx) = Some a" and "filed_user (tx_from tx) a"
    and "lookup_account env w (tx_to tx) = Some b" and "account_address b = tx_to tx"
    and "acc_programs b (tx_program_id tx) = Some t" and "tok_owner_id t \<notin> {tx_from tx, tx_to tx}"
    and "add_transaction_to_account env tx w = Some (w', Ok ())"
  shows "held env w' (tx_from tx) (tx_program_id tx) + unat (tx_value tx) =
           held env w (tx_from tx) (tx_program_id tx) \<and>
         lookup_account env w' (tx_to tx) = Some b"
proof -
  note sender = apply_to_sender_Ok [where lookup = "lookup_account env w", OF _ assms(5,6,3,4)]
  have "fst (apply_send_transaction tx pa b) = b \<and> is_Err (snd (apply_send_transaction tx pa b))" for pa
    using assms(3,4,9,10) by (auto simp: apply_send_transaction_def apply_to_held_def token_try_from_def)
  moreover have "ignore_err x = Ok (fst x)" if "is_Err (snd x)" for x :: "token account_result"
    using that by (cases x; cases "snd x") auto
  ultimately have "ignore_err (apply_send_transaction tx pa b) = Ok b" for pa by metis
  then have receiver: "b' = b" if "apply_to_receiver (lookup_account env w) tx b = Ok b'" for b'
    using that by (auto simp: apply_to_receiver_def split: option.splits if_splits)
  obtain a' tok b' where ab: "apply_to_sender env (lookup_account env w) tx = Ok (a', tok)"
      "apply_to_receiver (lookup_account env w) tx b = Ok b'"
      "\<And>k. lookup_account env w' k =
         (if k = tx_from tx then Some a' else if k = tx_to tx then Some b' else lookup_account env w k)"
    by (rule send_read [OF assms(1-3,11)]) (use sender receiver assms(7,8) in auto)
  then show ?thesis
    using sender [OF ab(1)] receiver [OF ab(2)] assms(3,5) by (auto simp: held_def)
qed

text \<open>
  The parent batch has room: each account, filed as the capacity test files it, leaves the batch
  built so far below the capacity, and so does the transaction after them.
\<close>

fun room_for :: "batch_codec \<Rightarrow> account list \<Rightarrow> batch \<Rightarrow> bool" where
  "room_for c [] b = True"
| "room_for c (a # as) b =
     (fits c (put_account (to_full_string (acc_owner_address a)) a b) \<and>
      room_for c as (put_account (to_full_string (account_address a)) a b))"

definition filled :: "account list \<Rightarrow> batch \<Rightarrow> batch" where
  "filled as b = fold (\<lambda>a. put_account (to_full_string (account_address a)) a) as b"

definition room_for_all :: "batcher_env \<Rightarrow> transaction \<Rightarrow> account list \<Rightarrow> batch \<Rightarrow> bool" where
  "room_for_all env tx as b \<longleftrightarrow>
     room_for (bn_codec env) as b \<and> fits (bn_codec env) (put_transaction (bn_crypto env) tx (filled as b))"

lemma cache_account_batcher [simp]: "w_batcher (cache_account env a w) = w_batcher w"
  by (simp add: cache_account_def emit_def)

lemma add_accounts_room:
  "room_for (bn_codec env) as (bt_parent (w_batcher w)) \<Longrightarrow>
     \<exists>w'. add_accounts_to_batch env as w = Some (w', Ok ()) \<and>
          bt_parent (w_batcher w') = filled as (bt_parent (w_batcher w)) \<and>
          bt_children (w_batcher w') = bt_children (w_batcher w)"
proof (induction as arbitrary: w)
  case Nil
  then show ?case by (simp add: filled_def)
next
  case (Cons a as)
  let ?b = "bt_parent (w_batcher w)"
  let ?b' = "put_account (to_full_string (account_address a)) a ?b"
  let ?w = "(cache_account env a w)\<lparr>w_batcher := (w_batcher w)\<lparr>bt_parent := ?b'\<rparr>\<rparr>"
  have "insert_account (bn_codec env) a ?b = (?b', Ok ())"
    using Cons.prems by (simp add: insert_account_spec)
  then have "place_account (bn_codec env) a (w_batcher w) = Some ((w_batcher w)\<lparr>bt_parent := ?b'\<rparr>)"
    using place_parent [of "insert_account (bn_codec env) a" "w_batcher w"] by (simp add: place_account_def)
  then have "add_account_to_batch env a w = Some (?w, Ok ())"
    by (simp add: add_account_to_batch_def)
  then show ?case using Cons.IH [of ?w] Cons.prems by (simp add: bbind_def filled_def)
qed

lemma place_transaction_room:
  assumes "fits (bn_codec env) (put_transaction (bn_crypto env) tx (bt_parent (w_batcher w)))"
  shows "\<exists>w'. place_transaction env tx w = Some (w', Ok ())"
proof -
  have "snd (insert_transaction (bn_codec env) (bn_crypto env) tx (bt_parent (w_batcher w))) = Ok ()"
    using assms by (simp add: insert_transaction_spec)
  from place_parent [where ins = "insert_transaction (bn_codec env) (bn_crypto env) tx", OF this]
  show ?thesis by (simp add: place_transaction_def add_transaction_to_batch_def)
qed

lemma cast_or_fail_up:
  "registered (bn_registry env) a \<Longrightarrow> castable (bn_registry env) a \<Longrightarrow>
     cast_or_fail env tx a s m w = Some (emit env a m w, Ok ())"
  by (simp add: cast_or_fail_def)

lemma apply_to_sender_succeeds:
  assumes "lookup (tx_from tx) = Some a" and "filed_user (tx_from tx) a"
    and "tx_from tx \<noteq> tx_to tx" and "\<not> is_bridge_in (tx_transaction_type tx)"
    and "acc_programs a (tx_program_id tx) = Some s" and "tx_value tx \<le> tok_balance s"
    and "unat (acc_nonce a) + 1 < 2 ^ 256"
  shows "\<exists>a' tok. apply_to_sender env lookup tx = Ok (a', tok)"
proof -
  let ?a = "a\<lparr>acc_nonce := acc_nonce a + 1\<rparr>"
  have "increment_nonce a = (?a, Ok ())"
    using assms(7) by (simp add: increment_nonce_def u256_add_def)
  moreover have "wf_account ?a" "acc_programs ?a (tx_program_id tx) = Some s" "tok_owner_id s = tx_from tx"
    using assms(2,5) by (auto simp: filed_user_def wf_account_def)
  ultimately show ?thesis
    using apply_send_sender [of tx ?a s None] assms(1,3,4,6)
    by (auto simp: apply_to_sender_def)
qed

lemma apply_to_receiver_succeeds:
  assumes "filed_user (tx_to tx) b" and "tx_from tx \<noteq> tx_to tx" and "\<not> is_bridge_in (tx_transaction_type tx)"
    and "lookup (tx_program_id tx) \<noteq> None \<or> tx_program_id tx \<in> {eth_addr, verse_addr}"
    and "unat (balance_of (tx_program_id tx) b) + unat (tx_value tx) < 2 ^ 256"
  shows "\<exists>b'. apply_to_receiver lookup tx b = Ok b'"
proof -
  have "\<exists>b' r. apply_send_transaction tx pa b = (b', Ok r)" for pa
    using apply_send_receiver [of tx b pa] assms(1-3,5) by (auto simp: filed_user_def)
  then have "\<exists>b'. ignore_err (apply_send_transaction tx pa b) = Ok b'" for pa
    by (metis ignore_err.simps(1))
  then show ?thesis using assms(4) by (auto simp: apply_to_receiver_def split: option.split)
qed

lemma held_receiver:
  "unat (balance_of p (case lookup_account env w k of Some b \<Rightarrow> b | None \<Rightarrow> new_user_account k)) = held env w k p"
  by (simp add: held_def new_user_account_def account_new_def balance_of_def split: option.split)

lemma transaction_buffer_succeeds:
  assumes "tx_from tx \<noteq> tx_to tx" and "apply_to_sender env lookup tx = Ok (a', tok)"
    and "apply_to_receiver lookup tx (case lookup (tx_to tx) of Some b \<Rightarrow> b | None \<Rightarrow> new_user_account (tx_to tx)) = Ok b'"
  shows "\<exists>buf. transaction_buffer env lookup tx = Ok (buf, tok)"
  using assms by (auto simp: transaction_buffer_def Let_def)

definition reports_up :: "batcher_env \<Rightarrow> bool" where
  "reports_up env \<longleftrightarrow>
     registered (bn_registry env) Scheduler \<and> castable (bn_registry env) Scheduler \<and>
     registered (bn_registry env) PendingTransactions \<and> castable (bn_registry env) PendingTransactions"

lemma add_transaction_returns:
  assumes "transaction_buffer env (lookup_account env w) tx = Ok (buf, tok)" and "reports_up env"
    and "room_for_all env tx (map snd (bn_it_string env buf)) (bt_parent (w_batcher w))"
  shows "\<exists>w'. add_transaction_to_account env tx w = Some (w', Ok ())"
proof -
  let ?as = "map snd (bn_it_string env buf)"
  obtain w1 where w1: "add_accounts_to_batch env ?as w = Some (w1, Ok ())"
      "bt_parent (w_batcher w1) = filled ?as (bt_parent (w_batcher w))"
    using add_accounts_room assms(3) unfolding room_for_all_def by blast
  moreover obtain w2 where "place_transaction env tx w1 = Some (w2, Ok ())"
    using place_transaction_room [of env tx w1] assms(3) w1(2) by (auto simp: room_for_all_def)
  ultimately show ?thesis
    using assms(1,2) by (simp add: add_transaction_to_account_def bbind_def reports_up_def cast_or_fail_up)
qed

lemma send_applies:
  assumes "cache_up env" and "reports_up env" and "iter_order (bn_it_string env)"
    and "tx_from tx \<noteq> tx_to tx" and "\<not> is_bridge_in (tx_transaction_type tx)"
    and "lookup_account env w (tx_from tx) = Some a" and "filed_user (tx_from tx) a"
    and "acc_programs a (tx_program_id tx) = Some s" and "tx_value tx \<le> tok_balance s"
    and "unat (acc_nonce a) + 1 < 2 ^ 256"
    and "\<And>b. lookup_account env w (tx_to tx) = Some b \<Longrightarrow> filed_user (tx_to tx) b"
    and "held env w (tx_to tx) (tx_program_id tx) + unat (tx_value tx) < 2 ^ 256"
    and "lookup_account env w (tx_program_id tx) \<noteq> None \<or> tx_program_id tx \<in> {eth_addr, verse_addr}"
    and "\<And>buf tok. transaction_buffer env (lookup_account env w) tx = Ok (buf, tok) \<Longrightarrow>
           room_for_all env tx (map snd (bn_it_string env buf)) (bt_parent (w_batcher w))"
  shows "\<exists>w'. add_transaction_to_account env tx w = Some (w', Ok ()) \<and>
         held env w' (tx_from tx) (tx_program_id tx) + unat (tx_value tx) =
           held env w (tx_from tx) (tx_program_id tx) \<and>
         held env w' (tx_to tx) (tx_program_id tx) =
           held env w (tx_to tx) (tx_program_id tx) + unat (tx_value tx) \<and>
         (\<forall>k. k = tx_from tx \<or> k = tx_to tx \<or> lookup_account env w' k = lookup_account env w k)"
proof -
  let ?b = "case lookup_account env w (tx_to tx) of Some b \<Rightarrow> b | None \<Rightarrow> new_user_account (tx_to tx)"
  have "filed_user (tx_to tx) ?b"
    using assms(11) filed_user_new by (simp split: option.split)
  then obtain b' where "apply_to_receiver (lookup_account env w) tx ?b = Ok b'"
    using apply_to_receiver_succeeds [of tx ?b "lookup_account env w"] assms(4,5,12,13) by (auto simp: held_receiver)
  moreover obtain a' tok where "apply_to_sender env (lookup_account env w) tx = Ok (a', tok)"
    using apply_to_sender_succeeds [where lookup = "lookup_account env w", OF assms(6,7,4,5,8-10)] by blast
  ultimately obtain buf where "transaction_buffer env (lookup_account env w) tx = Ok (buf, tok)"
    using transaction_buffer_succeeds [OF assms(4)] by blast
  then obtain w' where "add_transaction_to_account env tx w = Some (w', Ok ())"
    using add_transaction_returns assms(2,14) by blast
  then show ?thesis
    using send_moves [OF assms(1,3-7,11)] by blast
qed

text \<open>
  C8: a send is applied, and moves exactly its value: when the sender holds the value, the
  receiver's balance does not overflow, the program is known, the parent batch has room for the two
  accounts and the transaction, and the actors answer, the batcher returns without an error and
  every later read of the account cache sees the value moved from the sender's balance to the
  receiver's, also when the receiver's account did not exist; no other account changes. The
  accounts involved are user accounts that hold tokens in their own name.
\<close>

theorem batcher_send_applies:
  assumes "cache_up env" and "reports_up env" and "iter_order (bn_it_string env)"
    and "tx_from tx \<noteq> tx_to tx" and "\<not> is_bridge_in (tx_transaction_type tx)"
    and "lookup_account env w (tx_from tx) = Some a" and "filed_user (tx_from tx) a"
    and "acc_programs a (tx_program_id tx) = Some s" and "tx_value tx \<le> tok_balance s"
    and "unat (acc_nonce a) + 1 < 2 ^ 256"
    and "\<And>b. lookup_account env w (tx_to tx) = Some b \<Longrightarrow> filed_user (tx_to tx) b"
    and "held env w (tx_to tx) (tx_program_id tx) + unat (tx_value tx) < 2 ^ 256"
    and "lookup_account env w (tx_program_id tx) \<noteq> None \<or> tx_program_id tx \<in> {eth_addr, verse_addr}"
    and "\<And>buf tok. transaction_buffer env (lookup_account env w) tx = Ok (buf, tok) \<Longrightarrow>
           room_for_all env tx (map snd (bn_it_string env buf)) (bt_parent (w_batcher w))"
  shows "\<exists>w'. add_transaction_to_account env tx w = Some (w', Ok ()) \<and>
         held env w' (tx_from tx) (tx_program_id tx) + unat (tx_value tx) =
           held env w (tx_from tx) (tx_program_id tx) \<and>
         held env w' (tx_to tx) (tx_program_id tx) =
           held env w (tx_to tx) (tx_program_id tx) + unat (tx_value tx) \<and>
         (\<forall>k. k = tx_from tx \<or> k = tx_to tx \<or> lookup_account env w' k = lookup_account env w k)"
  by (rule send_applies [OF assms])

section \<open>A sample world\<close>

definition sample_benv :: batcher_env where
  "sample_benv =
     \<lparr>bn_registry = all_up, bn_crypto = sample_crypto, bn_hex = hex_ref, bn_secp_display = (\<lambda>_. ''secp''),
      bn_codec = \<lparr>cd_json_ser = (\<lambda>_. Some []), cd_json_de = (\<lambda>_. None), cd_zlib_enc = Some,
                   cd_zlib_dec = Some, cd_pad = (\<lambda>x. x), cd_unpad = (\<lambda>x. x), cd_b64_enc = bytes_hex,
                   cd_b64_dec = (\<lambda>s. if s = ''h'' then Some (replicate 32 0) else if s = ''i'' then Some [0] else None)\<rparr>,
      bn_cache = sample_env, bn_cache_answers = True, bn_it_address = (\<lambda>m. m), bn_it_string = (\<lambda>m. m),
      bn_parse_inputs = (\<lambda>s. Ok [''contentId'' \<mapsto> J_Str s]), bn_ser_account = (\<lambda>_. None),
      bn_put_fails = (\<lambda>_. False), bn_blob_response = Some\<rparr>"

definition sample_world :: "account list \<Rightarrow> world" where
  "sample_world as = fold (world_write sample_benv) as
     \<lparr>w_cache = cache_new 180 Map.empty, w_batcher = batcher_new, w_out = []\<rparr>"

lemma sample_benv_up [simp]:
  "cache_up sample_benv" "reports_up sample_benv" "iter_order (bn_it_string sample_benv)"
  "iter_order (bn_it_address sample_benv)" "bn_registry sample_benv = all_up" "bn_crypto sample_benv = sample_crypto"
  by (simp_all add: cache_up_def reports_up_def sample_benv_def iter_order_id)

lemma sample_benv_fits [simp]: "fits (bn_codec sample_benv) b"
  by (simp add: fits_def check_size_def encode_batch_def compress_batch_def serialize_batch_def sample_benv_def)

lemma sample_benv_room [simp]: "room_for_all sample_benv tx as b"
proof -
  have "room_for (bn_codec sample_benv) as b" by (induction as arbitrary: b) simp_all
  then show ?thesis by (simp add: room_for_all_def)
qed

lemma sample_world_read [simp]:
  "world_read sample_benv (sample_world as) k = find (\<lambda>a. account_address a = k) (rev as)"
  by (simp add: sample_world_def world.read_fold_write split: option.split)
    (simp add: world_read_def cache_read_def cache_get_def cache_new_def storage_read_def sample_benv_def sample_env_def)

lemma sample_world_lookup [simp]:
  "lookup_account sample_benv (sample_world as) k = find (\<lambda>a. account_address a = k) (rev as)"
  by (simp add: lookup_account_up)

lemma sample_account_address [simp]: "account_address (sample_account own t) = own"
  by (simp add: account_address_def)

lemma sample_account_filed [simp]: "filed_user own (sample_account own (sample_token p own n))"
  by (simp add: filed_user_def)

theorem batcher_send_applies_witness:
  "\<exists>w'. add_transaction_to_account sample_benv sample_send
          (sample_world [sample_account eth_addr (sample_token eth_addr eth_addr 10)]) = Some (w', Ok ()) \<and>
        held sample_benv w' eth_addr eth_addr = 6 \<and> held sample_benv w' verse_addr eth_addr = 4"
proof -
  let ?w = "sample_world [sample_account eth_addr (sample_token eth_addr eth_addr 10)]"
  have "held sample_benv ?w eth_addr eth_addr = 10" "held sample_benv ?w verse_addr eth_addr = 0"
    by (simp_all add: held_def balance_of_def)
  moreover have "\<not> is_bridge_in (tx_transaction_type sample_send)"
    by (simp add: sample_send_def)
  ultimately show ?thesis
    using batcher_send_applies [of sample_benv sample_send ?w
        "sample_account eth_addr (sample_token eth_addr eth_addr 10)" "sample_token eth_addr eth_addr 10"]
    by auto
qed

lemma account_address_insert [simp]: "account_address (insert_program k t a) = account_address a"
  by (simp add: account_address_def split: account_type.split)

abbreviation amt_of :: "u256 option \<Rightarrow> u256" where
  "amt_of am \<equiv> (case am of Some v \<Rightarrow> v | None \<Rightarrow> 0)"

lemma transfer_from_Ok:
  assumes "apply_transfer_from_instruction k am ids a = (a', Ok s')"
  shows "unat (balance_of k a') + unat (amt_of am) = unat (balance_of k a) \<and>
         account_address a' = account_address a"
proof -
  obtain s where s: "acc_programs a k = Some s" "debit_and_remove am ids s = (s', Ok ())" "a' = insert_program k s' a"
    using assms by (auto simp: apply_transfer_from_instruction_def modify_entry_def
        split: option.splits prod.splits outcome.splits)
  then have "amt_of am \<le> tok_balance s \<and> tok_balance s' = tok_balance s - amt_of am"
    by (cases am) (auto simp: debit_and_remove_def opt_amount_def nonempty_ids_def debit_spec
        remove_token_ids_spec outcome_simps split: if_splits)
  then show ?thesis using s
    by (auto simp: balance_of_insert balance_of_def unat_sub word_le_nat_alt)
qed

lemma credit_and_add_Ok:
  "credit_and_add am ids t = (t', Ok ()) \<Longrightarrow> unat (tok_balance t') = unat (tok_balance t) + unat (amt_of am)"
  by (cases am) (auto simp: credit_and_add_def opt_amount_def nonempty_ids_def credit_spec
      add_token_ids_def outcome_simps unat_add_u256 split: if_splits)

lemma transfer_to_Ok:
  assumes "apply_transfer_to_instruction k am ids pa b = (b', Ok r')"
  shows "unat (balance_of k b') = unat (balance_of k b) + unat (amt_of am) \<and>
         account_address b' = account_address b"
proof (cases "acc_programs b k")
  case None
  then obtain m d where "credit_and_add am ids (fresh_token k (acc_owner_address b) m d) = (r', Ok ())"
      "b' = insert_program k r' b"
    using assms by (auto simp: apply_transfer_to_instruction_def store_new_def Let_def
        split: prod.splits outcome.splits)
  then show ?thesis using None credit_and_add_Ok
    by (fastforce simp: balance_of_insert balance_of_def)
next
  case (Some r)
  then have "credit_and_add am ids r = (r', Ok ())" "b' = insert_program k r' b"
    using assms by (auto simp: apply_transfer_to_instruction_def modify_entry_def
        split: prod.splits outcome.splits)
  then show ?thesis using Some credit_and_add_Ok
    by (fastforce simp: balance_of_insert balance_of_def)
qed

text \<open>The account an instruction sees: the buffer's, or else the store's.\<close>

definition seen :: "(address \<Rightarrow> account option) \<Rightarrow> buffer \<Rightarrow> address \<Rightarrow> account option" where
  "seen lookup buf k = (case hm_get buf k of Some a \<Rightarrow> Some a | None \<Rightarrow> lookup k)"

fun resolved :: "transaction \<Rightarrow> address_or_namespace \<Rightarrow> address option" where
  "resolved tx This = Some (tx_to tx)"
| "resolved tx (AON_Address a) = Some a"
| "resolved tx (AON_Namespace n) = None"

lemma get_from_seen:
  "get_transfer_from_account lookup tx aon buf = Ok a \<longleftrightarrow>
     (\<exists>k. resolved tx aon = Some k \<and> seen lookup buf k = Some a)"
  by (cases aon) (auto simp: get_transfer_from_account_def seen_def ok_or_Ok_iff split: option.split)

lemma get_to_seen:
  "get_transfer_to_account lookup tx aon buf =
     (case resolved tx aon of Some k \<Rightarrow> seen lookup buf k | None \<Rightarrow> None)"
  by (cases aon) (auto simp: get_transfer_to_account_def seen_def split: option.split)

lemma add_buffer_seen:
  "seen lookup (add_account_to_batch_buffer a buf) k =
     (if k = account_address a then Some a else seen lookup buf k)"
  by (simp add: add_account_to_batch_buffer_def seen_def hm_get_insert account_address_def
      split: account_type.split)

lemma transfer_into_Ok:
  assumes "transfer_into env lookup t b = Ok b'"
  shows "\<exists>pa r. apply_transfer_to_instruction (ti_token t) (ti_amount t) (ti_ids t) pa b = (b', Ok r)"
  using assms by (auto simp: transfer_into_def custom_Ok outcome_simps split: option.splits if_splits)
    (metis prod.collapse)+

definition seen_balance :: "(address \<Rightarrow> account option) \<Rightarrow> buffer \<Rightarrow> address \<Rightarrow> address \<Rightarrow> nat" where
  "seen_balance lookup buf k p =
     (case seen lookup buf k of Some a \<Rightarrow> unat (balance_of p a) | None \<Rightarrow> 0)"

lemma apply_transfer_Ok:
  assumes "apply_instruction env lookup tx (Transfer t) buf = (buf', Ok ())"
    and "resolved tx (ti_from t) = Some k" and "resolved tx (ti_to t) = Some j"
    and "\<And>a. seen lookup buf k = Some a \<Longrightarrow> account_address a = k"
    and "\<And>b. seen lookup buf j = Some b \<Longrightarrow> account_address b = j"
  shows "\<exists>a' b'. buf' = add_account_to_batch_buffer b' (add_account_to_batch_buffer a' buf) \<and>
           account_address a' = k \<and> account_address b' = j \<and>
           unat (balance_of (ti_token t) a') + unat (amt_of (ti_amount t)) = seen_balance lookup buf k (ti_token t) \<and>
           unat (balance_of (ti_token t) b') = seen_balance lookup buf j (ti_token t) + unat (amt_of (ti_amount t))"
proof -
  obtain a' b' where ab: "apply_transfer_from env lookup tx t buf = Ok a'" "apply_transfer_to env lookup tx t buf = Ok b'"
      "buf' = add_account_to_batch_buffer b' (add_account_to_batch_buffer a' buf)"
    using assms(1) by (auto simp: apply_transfer_instruction_def outcome_simps split: outcome.splits)
  obtain a s where a: "seen lookup buf k = Some a"
      "apply_transfer_from_instruction (ti_token t) (ti_amount t) (ti_ids t) a = (a', Ok s)"
    using ab(1) assms(2)
    by (auto simp: apply_transfer_from_def outcome_simps get_from_seen custom_Ok) (metis prod.collapse)
  define b where "b = (case seen lookup buf j of Some b \<Rightarrow> b | None \<Rightarrow> new_user_account j)"
  have "transfer_into env lookup t b = Ok b'"
    using ab(2) assms(3) by (cases "ti_to t")
      (auto simp: apply_transfer_to_def get_to_seen b_def split: option.splits)
  then obtain pa r where b: "apply_transfer_to_instruction (ti_token t) (ti_amount t) (ti_ids t) pa b = (b', Ok r)"
    using transfer_into_Ok by blast
  have "account_address b = j" "unat (balance_of (ti_token t) b) = seen_balance lookup buf j (ti_token t)"
    using assms(5) by (auto simp: b_def seen_balance_def new_user_account_def account_new_def
        account_address_def balance_of_def split: option.split)
  then show ?thesis
    using ab(3) transfer_from_Ok [OF a(2)] transfer_to_Ok [OF b] a(1) assms(4)
    by (auto simp: seen_balance_def)
qed

text \<open>
  C9: a transfer instruction between two different accounts that the batcher applies moves
  exactly its amount from the one balance to the other, and leaves every other account as the
  instructions before it left it.
\<close>

theorem batcher_transfer_conserves:
  assumes "apply_instruction env lookup tx (Transfer t) buf = (buf', Ok ())"
    and "resolved tx (ti_from t) = Some k" and "resolved tx (ti_to t) = Some j" and "k \<noteq> j"
    and "\<And>a. seen lookup buf k = Some a \<Longrightarrow> account_address a = k"
    and "\<And>b. seen lookup buf j = Some b \<Longrightarrow> account_address b = j"
  shows "seen_balance lookup buf' k (ti_token t) + unat (amt_of (ti_amount t)) = seen_balance lookup buf k (ti_token t) \<and>
         seen_balance lookup buf' j (ti_token t) = seen_balance lookup buf j (ti_token t) + unat (amt_of (ti_amount t)) \<and>
         (\<forall>q. q = k \<or> q = j \<or> seen lookup buf' q = seen lookup buf q)"
  using apply_transfer_Ok [OF assms(1-3,5,6)] assms(4)
  by (auto simp: seen_balance_def add_buffer_seen split: if_splits)

text \<open>
  C40: a transfer instruction from an account to itself that the batcher applies creates tokens:
  both sides start from the account as it was, and the credited copy overwrites the debited one,
  so the balance ends higher by the amount.
\<close>

theorem self_transfer_mints:
  assumes "apply_instruction env lookup tx (Transfer t) buf = (buf', Ok ())"
    and "resolved tx (ti_from t) = Some k" and "resolved tx (ti_to t) = Some k"
    and "\<And>a. seen lookup buf k = Some a \<Longrightarrow> account_address a = k"
  shows "seen_balance lookup buf' k (ti_token t) = seen_balance lookup buf k (ti_token t) + unat (amt_of (ti_amount t))"
  using apply_transfer_Ok [OF assms(1-3,4,4)] by (auto simp: seen_balance_def add_buffer_seen)

text \<open>
  C19: a call one of whose instructions fails changes nothing but the nonce of the called
  program's account: no account of the call is written, no batch takes the transaction, and the
  actor reports the transaction as invalid.
\<close>

theorem failed_call_only_nonce:
  assumes "cache_up env" and "lookup_account env w (tx_to tx) = Some callee"
    and "account_address callee = tx_to tx" and "increment_nonce callee = (callee', Ok ())"
    and "add_account_to_batch env callee' w = Some (w1, Ok ())"
    and "apply_instructions env (lookup_account env w1) tx (out_instructions outs) =
           (buf, Err (BE_FailedTransaction msg tx))"
    and "registered (bn_registry env) PendingTransactions"
    and "tx_transaction_type tx = Call n"
  shows "\<exists>w'. batcher_handle env (B_AppendTransaction tx (Some outs)) w = Some (w', Ok ()) \<and>
           (\<forall>k. lookup_account env w' k =
              (if k = tx_to tx then Some (callee\<lparr>acc_nonce := acc_nonce callee + 1\<rparr>)
               else lookup_account env w k)) \<and>
           w_out w' = w_out w1 @
             send_to (bn_registry env) PendingTransactions (To_Pending (PT_Invalid tx (BatcherCustom msg)))"
proof -
  have look: "lookup_account env v = world_read env v" for v
    using lookup_account_up [OF assms(1)] by blast
  have c': "callee' = callee\<lparr>acc_nonce := acc_nonce callee + 1\<rparr>"
    using increment_nonce_Ok [OF assms(4)] .
  then have "account_address callee' = tx_to tx"
    using assms(3) by (simp add: account_address_def split: account_type.splits)
  then have read: "world_read env w1 k = (if k = tx_to tx then Some callee' else world_read env w k)" for k
    using add_account_read [OF assms(1,5), of k] by simp
  have "apply_instructions_to_accounts env tx outs w = Some (w1, Err (BE_FailedTransaction msg tx))"
    using assms(2,4-6) by (simp add: apply_instructions_to_accounts_def bbind_def)
  then have "batcher_handle env (B_AppendTransaction tx (Some outs)) w =
      Some (emit env PendingTransactions (To_Pending (PT_Invalid tx (BatcherCustom msg))) w1, Ok ())"
    using assms(7,8) by (simp add: run_future_def handle_transaction_error_def)
  then show ?thesis using read c' by (simp add: look emit_def world_read_def)
qed

lemma call_success_read:
  assumes "cache_up env" and "apply_instructions_to_accounts env tx outs w = Some (w', Ok ())"
  shows "\<exists>callee callee' w1 buf.
           world_read env w (tx_to tx) = Some callee \<and> increment_nonce callee = (callee', Ok ()) \<and>
           add_account_to_batch env callee' w = Some (w1, Ok ()) \<and>
           apply_instructions env (world_read env w1) tx (out_instructions outs) = (buf, Ok ()) \<and>
           (\<forall>k. world_read env w' k =
              (case find (\<lambda>a. account_address a = k) (rev (map snd (bn_it_address env buf))) of
                 Some a \<Rightarrow> Some a | None \<Rightarrow> world_read env w1 k))"
proof -
  have look: "lookup_account env v = world_read env v" for v
    using lookup_account_up [OF assms(1)] by blast
  obtain callee where c: "world_read env w (tx_to tx) = Some callee"
    using assms(2) look by (auto simp: apply_instructions_to_accounts_def split: option.splits)
  obtain callee' where c': "increment_nonce callee = (callee', Ok ())"
    using assms(2) look c
    by (auto simp: apply_instructions_to_accounts_def increment_nonce_def split: option.splits)
  then obtain w1 where w1: "add_account_to_batch env callee' w = Some (w1, Ok ())"
    using assms(2) look c by (auto simp: apply_instructions_to_accounts_def bbind_Ok_iff)
  obtain buf where buf: "apply_instructions env (world_read env w1) tx (out_instructions outs) = (buf, Ok ())"
    using assms(2) look c c' w1
    by (auto simp: apply_instructions_to_accounts_def bbind_def split: prod.splits outcome.splits)
  obtain w2 w3 where w3: "add_accounts_to_batch env (map snd (bn_it_address env buf)) w1 = Some (w2, Ok ())"
      "place_transaction env tx w2 = Some (w3, Ok ())" "world_read env w' = world_read env w3"
    using assms(2) look c c' w1 buf
    by (auto simp: apply_instructions_to_accounts_def bbind_Ok_iff Let_def bbind_def [of "add_account_to_batch env callee'"]
        split: if_splits option.splits)
  then show ?thesis
    using c c' w1 buf add_accounts_read [OF assms(1) w3(1)] place_transaction_read [OF w3(2), of env] by auto
qed

definition sample_lookup :: "address \<Rightarrow> account option" where
  "sample_lookup = [eth_addr \<mapsto> sample_account eth_addr (sample_token eth_addr eth_addr 10)]"

lemma new_user_account_sel [simp]:
  "acc_programs (new_user_account k) = Map.empty" "acc_owner_address (new_user_account k) = k"
  "account_address (new_user_account k) = k"
  by (simp_all add: new_user_account_def account_new_def account_address_def)

lemmas transfer_run = apply_transfer_instruction_def apply_transfer_from_def apply_transfer_to_def
  get_from_seen get_transfer_from_account_def get_transfer_to_account_def transfer_into_def
  apply_transfer_from_instruction_def apply_transfer_to_instruction_def custom_def
  modify_entry_def store_new_def Let_def debit_and_remove_def credit_and_add_def opt_amount_def
  nonempty_ids_def debit_spec credit_spec

theorem batcher_transfer_conserves_witness:
  "\<exists>buf. apply_instruction sample_benv sample_lookup sample_send (Transfer sample_transfer) [] = (buf, Ok ()) \<and>
     seen_balance sample_lookup buf eth_addr eth_addr = 6 \<and> seen_balance sample_lookup buf verse_addr eth_addr = 4"
proof -
  have run: "snd (apply_instruction sample_benv sample_lookup sample_send (Transfer sample_transfer) []) = Ok ()"
    by (simp add: sample_transfer_def sample_lookup_def transfer_run outcome_simps)
  moreover have "seen sample_lookup [] eth_addr = Some (sample_account eth_addr (sample_token eth_addr eth_addr 10))"
      "seen sample_lookup [] verse_addr = None"
    by (simp_all add: seen_def sample_lookup_def)
  ultimately show ?thesis
    using batcher_transfer_conserves [of sample_benv sample_lookup sample_send sample_transfer "[]" _ eth_addr verse_addr]
    apply (cases "apply_instruction sample_benv sample_lookup sample_send (Transfer sample_transfer) []")
    apply (auto simp: sample_transfer_def seen_balance_def balance_of_def simp del: apply_instruction.simps)
    done
qed

text \<open>
  An applied call advances the nonce of the called program's account, not of the sender's: when
  its instructions leave both accounts out of the buffer, the sender's account is exactly what it
  was, so the nonce check gives the same signed call the same answer again.
\<close>

theorem applied_call_keeps_sender_nonce:
  assumes "cache_up env" and "tx_from tx \<noteq> tx_to tx"
    and "account_address (the (lookup_account env w (tx_to tx))) = tx_to tx"
    and "apply_instructions_to_accounts env tx outs w = Some (w', Ok ())"
    and "\<And>w1 buf a. apply_instructions env (lookup_account env w1) tx (out_instructions outs) = (buf, Ok ()) \<Longrightarrow>
           a \<in> snd ` set (bn_it_address env buf) \<Longrightarrow> account_address a \<noteq> tx_from tx \<and> account_address a \<noteq> tx_to tx"
  shows "lookup_account env w' (tx_from tx) = lookup_account env w (tx_from tx) \<and>
         acc_nonce (the (lookup_account env w' (tx_to tx))) =
           acc_nonce (the (lookup_account env w (tx_to tx))) + 1"
proof -
  have look: "lookup_account env v = world_read env v" for v
    using lookup_account_up [OF assms(1)] by blast
  obtain callee callee' w1 buf where r: "world_read env w (tx_to tx) = Some callee"
      "increment_nonce callee = (callee', Ok ())" "add_account_to_batch env callee' w = Some (w1, Ok ())"
      "apply_instructions env (world_read env w1) tx (out_instructions outs) = (buf, Ok ())"
      "\<And>k. world_read env w' k = (case find (\<lambda>a. account_address a = k) (rev (map snd (bn_it_address env buf))) of
                 Some a \<Rightarrow> Some a | None \<Rightarrow> world_read env w1 k)"
    using call_success_read [OF assms(1,4)] by blast
  have "find (\<lambda>a. account_address a = k) (rev (map snd (bn_it_address env buf))) = None"
    if "k = tx_from tx \<or> k = tx_to tx" for k
    using assms(5) [of w1 buf] r(4) that look by (auto simp: find_None_iff)
  then have same: "world_read env w' (tx_from tx) = world_read env w1 (tx_from tx)"
      "world_read env w' (tx_to tx) = world_read env w1 (tx_to tx)"
    using r(5) by simp_all
  have c': "callee' = callee\<lparr>acc_nonce := acc_nonce callee + 1\<rparr>"
    using increment_nonce_Ok [OF r(2)] .
  moreover have "account_address callee' = tx_to tx"
    using assms(3) r(1) c' by (simp add: look account_address_def split: account_type.splits)
  ultimately show ?thesis
    using add_account_read [OF assms(1) r(3)] same r(1) assms(2) by (simp add: look)
qed

theorem self_transfer_mints_witness:
  "\<exists>buf. apply_instruction sample_benv sample_lookup sample_send
       (Transfer (sample_transfer\<lparr>ti_to := AON_Address eth_addr\<rparr>)) [] = (buf, Ok ()) \<and>
     seen_balance sample_lookup buf eth_addr eth_addr = 14"
proof -
  let ?t = "sample_transfer\<lparr>ti_to := AON_Address eth_addr\<rparr>"
  have run: "snd (apply_instruction sample_benv sample_lookup sample_send (Transfer ?t) []) = Ok ()"
    by (simp add: sample_transfer_def sample_lookup_def transfer_run outcome_simps)
  moreover have "seen sample_lookup [] eth_addr = Some (sample_account eth_addr (sample_token eth_addr eth_addr 10))"
    by (simp add: seen_def sample_lookup_def)
  ultimately show ?thesis
    using self_transfer_mints [of sample_benv sample_lookup sample_send ?t "[]" _ eth_addr]
    by (cases "apply_instruction sample_benv sample_lookup sample_send (Transfer ?t) []")
      (auto simp: sample_transfer_def seen_balance_def balance_of_def simp del: apply_instruction.simps)
qed

definition sample_program :: account where
  "sample_program = account_new (Program verse_addr) None eth_addr None"

lemma sample_program_sel [simp]: "account_address sample_program = verse_addr" "acc_nonce sample_program = 0"
  "account_address (sample_program\<lparr>acc_nonce := n\<rparr>) = verse_addr"
  by (simp_all add: sample_program_def account_new_def account_address_def)

definition sample_call :: transaction where
  "sample_call = sample_send\<lparr>tx_transaction_type := Call 0\<rparr>"

lemma sample_call_sel [simp]: "tx_from sample_call = eth_addr" "tx_to sample_call = verse_addr"
  "tx_transaction_type sample_call = Call 0"
  by (simp_all add: sample_call_def)

lemma sample_callee_nonce: "increment_nonce sample_program = (sample_program\<lparr>acc_nonce := 1\<rparr>, Ok ())"
  by (simp add: increment_nonce_def u256_add_def)

lemma sample_add_account: "\<exists>w'. add_account_to_batch sample_benv a w = Some (w', Ok ())"
  using add_accounts_room [of sample_benv "[a]" w]
  by (auto simp: bbind_def split: option.splits outcome.splits)

theorem failed_call_only_nonce_witness:
  "\<exists>w'. batcher_handle sample_benv
          (B_AppendTransaction sample_call (Some (sample_outputs sample_call [Burn \<lparr>bi_caller = eth_addr,
             bi_program_id = This, bi_token = eth_addr, bi_from = AON_Address eth_addr,
             bi_amount = Some 1, bi_token_ids = []\<rparr>])))
          (sample_world [sample_program]) = Some (w', Ok ()) \<and>
        lookup_account sample_benv w' verse_addr = Some (sample_program\<lparr>acc_nonce := 1\<rparr>) \<and>
        lookup_account sample_benv w' eth_addr = None"
proof -
  let ?b = "\<lparr>bi_caller = eth_addr,
             bi_program_id = This, bi_token = eth_addr, bi_from = AON_Address eth_addr,
             bi_amount = Some 1, bi_token_ids = []\<rparr>"
  let ?outs = "sample_outputs sample_call [Burn ?b]" and ?w = "sample_world [sample_program]"
  obtain w1 where w1: "add_account_to_batch sample_benv (sample_program\<lparr>acc_nonce := 1\<rparr>) ?w = Some (w1, Ok ())"
    using sample_add_account by blast
  have "lookup_account sample_benv w1 eth_addr = None"
    using add_account_read [OF sample_benv_up(1) w1, of eth_addr]
    by (simp add: lookup_account_up)
  then obtain buf msg where err: "apply_instructions sample_benv (lookup_account sample_benv w1) sample_call
      (out_instructions ?outs) = (buf, Err (BE_FailedTransaction msg sample_call))"
    by (auto simp: apply_instructions_def sample_outputs_def batcher_apply_burn_instruction_def
        get_transfer_from_account_def failed_err_def)
  have "lookup_account sample_benv ?w (tx_to sample_call) = Some sample_program"
      "account_address sample_program = tx_to sample_call"
    by simp_all
  from failed_call_only_nonce [OF sample_benv_up(1) this sample_callee_nonce w1 err]
  obtain w' where "batcher_handle sample_benv (B_AppendTransaction sample_call (Some ?outs)) ?w = Some (w', Ok ())"
      "\<forall>k. lookup_account sample_benv w' k = (if k = tx_to sample_call
         then Some (sample_program\<lparr>acc_nonce := acc_nonce sample_program + 1\<rparr>) else lookup_account sample_benv ?w k)"
    by auto
  then show ?thesis by (intro exI [of _ w']) simp
qed

theorem applied_call_keeps_sender_nonce_witness:
  "\<exists>w'. apply_instructions_to_accounts sample_benv sample_call (sample_outputs sample_call [])
          (sample_world [sample_program, sample_account eth_addr (sample_token eth_addr eth_addr 10)]) = Some (w', Ok ()) \<and>
        lookup_account sample_benv w' eth_addr = Some (sample_account eth_addr (sample_token eth_addr eth_addr 10)) \<and>
        acc_nonce (the (lookup_account sample_benv w' verse_addr)) = 1"
proof -
  let ?u = "sample_account eth_addr (sample_token eth_addr eth_addr 10)"
  let ?w = "sample_world [sample_program, ?u]" and ?p = "sample_program\<lparr>acc_nonce := 1\<rparr>"
  let ?outs = "sample_outputs sample_call []"
  obtain w1 where w1: "add_account_to_batch sample_benv ?p ?w = Some (w1, Ok ())"
    using sample_add_account by blast
  obtain w2 where w2: "place_transaction sample_benv sample_call w1 = Some (w2, Ok ())"
    using place_transaction_room [of sample_benv sample_call w1] by auto
  have "lookup_account sample_benv w2 eth_addr = Some ?u"
    using add_account_read [OF sample_benv_up(1) w1, of eth_addr]
      place_transaction_read [OF w2, of sample_benv]
    by (simp add: lookup_account_up)
  moreover have "bn_it_address sample_benv [] = []" by (simp add: sample_benv_def)
  ultimately have "\<exists>w'. apply_instructions_to_accounts sample_benv sample_call ?outs ?w = Some (w', Ok ())"
    using w1 w2 sample_callee_nonce
    by (simp add: apply_instructions_to_accounts_def bbind_def apply_instructions_def sample_outputs_def
        lookup_account_up Let_def)
  then show ?thesis
    using applied_call_keeps_sender_nonce [of sample_benv sample_call ?w ?outs]
    by (auto simp: apply_instructions_def sample_outputs_def \<open>bn_it_address sample_benv [] = []\<close>)
qed

section \<open>Batches, settlement and registration\<close>

lemma no_addr: "Address [] \<noteq> eth_addr" "Address [] \<noteq> verse_addr" "eth_addr \<noteq> Address []" "verse_addr \<noteq> Address []"
  by (auto simp: eth_addr_def verse_addr_def dest: arg_cong [of _ _ length])

theorem send_to_foreign_holding_destroys_witness:
  "\<exists>w'. add_transaction_to_account sample_benv sample_send
          (sample_world [sample_account eth_addr (sample_token eth_addr eth_addr 10),
             sample_program\<lparr>acc_programs := [eth_addr \<mapsto> sample_token eth_addr (Address []) 3]\<rparr>]) = Some (w', Ok ()) \<and>
        held sample_benv w' eth_addr eth_addr = 6 \<and> held sample_benv w' verse_addr eth_addr = 3"
proof -
  let ?a = "sample_account eth_addr (sample_token eth_addr eth_addr 10)"
  let ?t = "sample_token eth_addr (Address []) 3"
  let ?b = "sample_program\<lparr>acc_programs := [eth_addr \<mapsto> ?t]\<rparr>"
  let ?w = "sample_world [?a, ?b]"
  have b: "account_address ?b = verse_addr"
    by (simp add: sample_program_def account_new_def account_address_def)
  have nb: "\<not> is_bridge_in (tx_transaction_type sample_send)" by (simp add: sample_send_def)
  have "apply_to_receiver (lookup_account sample_benv ?w) sample_send ?b = Ok ?b"
    using nb b by (simp add: apply_to_receiver_def apply_send_transaction_def apply_to_held_def token_try_from_def
        no_addr)
  moreover obtain a' tok where "apply_to_sender sample_benv (lookup_account sample_benv ?w) sample_send = Ok (a', tok)"
    using apply_to_sender_succeeds [of "lookup_account sample_benv ?w" sample_send ?a "sample_token eth_addr eth_addr 10" sample_benv] nb b
    by auto
  ultimately obtain buf where "transaction_buffer sample_benv (lookup_account sample_benv ?w) sample_send = Ok (buf, tok)"
    using transaction_buffer_succeeds [of sample_send sample_benv "lookup_account sample_benv ?w" a' tok ?b] b by auto
  then obtain w' where w': "add_transaction_to_account sample_benv sample_send ?w = Some (w', Ok ())"
    using add_transaction_returns [of sample_benv ?w sample_send buf tok] by auto
  have "held sample_benv w' eth_addr eth_addr + 4 = held sample_benv ?w eth_addr eth_addr \<and>
      lookup_account sample_benv w' verse_addr = Some ?b"
    using send_to_foreign_holding_destroys [of sample_benv sample_send ?w ?a ?b ?t w'] nb b w'
    by (simp add: no_addr)
  then show ?thesis using w' b by (simp add: held_def balance_of_def)
qed

lemma fold_persist:
  "distinct (map fst xs) \<Longrightarrow>
     fold (persist_account env) xs st k =
       (case map_of xs k of
          Some a \<Rightarrow> (case bn_ser_account env a of
                      Some v \<Rightarrow> if bn_put_fails env k then st k else Some v | None \<Rightarrow> st k)
        | None \<Rightarrow> st k)"
proof (induction xs arbitrary: st)
  case (Cons x xs)
  then have "map_of xs (fst x) = None" by (simp add: map_of_eq_None_iff)
  then show ?case using Cons by (auto simp: persist_account_def split: option.split)
qed simp

lemma next_batch_run:
  assumes "\<not> batch_empty (bt_parent (w_batcher w))"
    and "registered (bn_registry env) DaClient" and "castable (bn_registry env) DaClient"
    and "encode_batch (bn_codec env) (bt_parent (w_batcher w)) = Some encoded"
    and "bn_blob_response env encoded = Some request_id"
  shows "\<exists>w'. batcher_handle env B_GetNextBatch w = Some (w', Ok ()) \<and>
     w_cache w' = w_cache (persist_batch env (bt_parent (w_batcher w)) w) \<and>
     bt_cache (w_batcher w') = hm_insert request_id (bt_parent (w_batcher w)) (bt_cache (w_batcher w)) \<and>
     batches (w_batcher w') = (if bt_children (w_batcher w) = [] then [batch_new] else bt_children (w_batcher w)) \<and>
     w_out w' = w_out w @ To_DaClient (D_StoreBatch encoded) #
       (if bt_children (w_batcher w) = [] then [To_DaClient (D_ValidateBlob request_id)] else [])"
  using assms
  by (cases "bt_children (w_batcher w)")
    (auto simp: handle_next_batch_request_def Let_def request_blob_validation_def emit_def send_to_def
      batches_def persist_batch_def)

text \<open>
  C18: the next-batch request stores the parent batch with the data-availability client, keeps it
  under the answered request id, and makes the oldest child the parent, or a new empty batch when
  there is none. Only when there was no child is the validation of the stored blob requested: with
  children waiting, the stored batch is never validated.
\<close>

theorem next_batch_rotates:
  assumes "\<not> batch_empty (bt_parent (w_batcher w))"
    and "registered (bn_registry env) DaClient" and "castable (bn_registry env) DaClient"
    and "encode_batch (bn_codec env) (bt_parent (w_batcher w)) = Some encoded"
    and "bn_blob_response env encoded = Some request_id"
  shows "\<exists>w'. batcher_handle env B_GetNextBatch w = Some (w', Ok ()) \<and>
     hm_get (bt_cache (w_batcher w')) request_id = Some (bt_parent (w_batcher w)) \<and>
     batches (w_batcher w') = (if bt_children (w_batcher w) = [] then [batch_new] else bt_children (w_batcher w)) \<and>
     w_out w' = w_out w @ To_DaClient (D_StoreBatch encoded) #
       (if bt_children (w_batcher w) = [] then [To_DaClient (D_ValidateBlob request_id)] else [])"
  using next_batch_run [OF assms] by (auto simp: hm_get_insert)

text \<open>
  C16: a batch that leaves the batcher is durable: every account of the parent batch whose
  serialisation the store accepts is read back, by its address, from a cache started afresh on the
  store, given that deserialising inverts serialising and the store answers. Accounts outside the
  batch read from the store as before.
\<close>

theorem next_batch_durable:
  assumes "iter_order (bn_it_string env)" and "hm_wf (b_accounts (bt_parent (w_batcher w)))"
    and "\<And>a v. bn_ser_account env a = Some v \<Longrightarrow> env_deserialize (bn_cache env) v = Some a"
    and "\<not> env_store_fails (bn_cache env) (to_full_string k)" and "\<not> bn_put_fails env (to_full_string k)"
    and "\<not> batch_empty (bt_parent (w_batcher w))"
    and "batcher_handle env B_GetNextBatch w = Some (w', r)"
  shows "cache_read (bn_cache env) k (cache_new n (ac_storage (w_cache w'))) =
     (case hm_get (b_accounts (bt_parent (w_batcher w))) (to_full_string k) of
        Some a \<Rightarrow> (if bn_ser_account env a = None
                   then cache_read (bn_cache env) k (cache_new n (ac_storage (w_cache w))) else Some a)
      | None \<Rightarrow> cache_read (bn_cache env) k (cache_new n (ac_storage (w_cache w))))"
proof -
  let ?b = "bt_parent (w_batcher w)"
  have w': "w_cache w' = w_cache (persist_batch env ?b w)"
    using assms(6,7)
    by (auto simp: handle_next_batch_request_def Let_def request_blob_validation_def split: if_splits option.splits list.splits)
  have "map_of (bn_it_string env (b_accounts ?b)) = map_of (b_accounts ?b)"
    and "distinct (map fst (bn_it_string env (b_accounts ?b)))"
    using iter_order_map_of [OF assms(1,2)] assms(1,2) by (auto simp: iter_order_def hm_wf_def)
  then show ?thesis
    using assms(3-5)
    by (auto simp: w' persist_batch_def fold_persist cache_read_def cache_get_def cache_new_def storage_read_def Let_def
        split: option.split)
qed

text \<open>
  C17: a proof for a stored batch settles that batch: after the next-batch request, a verification
  proof with the answered request id and a 32-byte header hash sends the settlement client exactly
  the account keys of the batch that was stored. The batch stays cached: the same proof again
  settles it again.
\<close>

theorem settles_stored_batch:
  assumes "\<not> batch_empty (bt_parent (w_batcher w))"
    and "registered (bn_registry env) DaClient" and "castable (bn_registry env) DaClient"
    and "registered (bn_registry env) EoClient" and "castable (bn_registry env) EoClient"
    and "encode_batch (bn_codec env) (bt_parent (w_batcher w)) = Some encoded"
    and "bn_blob_response env encoded = Some request_id"
    and "cd_b64_dec (bn_codec env) header_hash = Some root" and "length root = 32"
  shows "\<exists>w1 w2 w3. batcher_handle env B_GetNextBatch w = Some (w1, Ok ()) \<and>
     batcher_handle env (B_BlobVerificationProof request_id header_hash blob_index) w1 = Some (w2, Ok ()) \<and>
     batcher_handle env (B_BlobVerificationProof request_id header_hash blob_index) w2 = Some (w3, Ok ()) \<and>
     w_out w2 = w_out w1 @ [To_Eo (Eo_Settle (fst ` set (b_accounts (bt_parent (w_batcher w)))) root blob_index)] \<and>
     w_out w3 = w_out w2 @ [To_Eo (Eo_Settle (fst ` set (b_accounts (bt_parent (w_batcher w)))) root blob_index)]"
proof -
  let ?b = "bt_parent (w_batcher w)"
  let ?m = "To_Eo (Eo_Settle (fst ` set (b_accounts ?b)) root blob_index)"
  have step: "batcher_handle env (B_BlobVerificationProof request_id header_hash blob_index) v = Some (emit env EoClient ?m v, Ok ())"
    if "hm_get (bt_cache (w_batcher v)) request_id = Some ?b" for v
    using that assms(4,8,9) by (simp add: run_future_def handle_blob_verification_proof_def)
  obtain w1 where w1: "batcher_handle env B_GetNextBatch w = Some (w1, Ok ())"
      "hm_get (bt_cache (w_batcher w1)) request_id = Some ?b"
    using next_batch_run [OF assms(1-3,6,7)] by (auto simp: hm_get_insert)
  have "w_out (emit env EoClient ?m v) = w_out v @ [?m]" for v
    using assms(5) by (simp add: emit_def send_to_def)
  then show ?thesis
    using w1 step [OF w1(2)] step [of "emit env EoClient ?m w1"] by auto
qed

text \<open>
  A program id depends on the signer only through the first two and the last two bytes of its
  address: two transactions with the same content id whose signers agree there get the same program
  id, whatever the sixteen bytes between.
\<close>

theorem program_id_ignores_middle_bytes:
  assumes "hex_encode hx = bytes_hex"
    and "tx_sig tx1 = Ok s1" and "sig_recover cr s1 (tx_hash cr tx1) = Ok (Address (x # y # m1 @ [u, v]))"
    and "tx_sig tx2 = Ok s2" and "sig_recover cr s2 (tx_hash cr tx2) = Ok (Address (x # y # m2 @ [u, v]))"
  shows "create_program_id cr hx sd content_id tx1 = create_program_id cr hx sd content_id tx2"
proof -
  have len: "length (bytes_hex bs) = 2 * length bs" for bs
    by (induction bs) (simp_all add: bytes_hex_def byte_hex_def)
  have app: "bytes_hex (xs @ ys) = bytes_hex xs @ bytes_hex ys" for xs ys
    by (simp add: bytes_hex_def)
  have "display_address hx (Address (x # y # m @ [u, v])) = Ok (''0x'' @ bytes_hex [x, y] @ ''...'' @ bytes_hex [u, v])" for m
    using app [of "[x, y]" "m @ [u, v]"] app [of m "[u, v]"] len [of "[x, y]"] len [of m] len [of "[u, v]"]
    by (simp add: display_address_def assms(1) Let_def)
  then show ?thesis using assms(2-5) by (simp add: create_program_id_def)
qed

definition sample_full_world :: "batch list \<Rightarrow> world" where
  "sample_full_world cs = (sample_world [])\<lparr>w_batcher := batcher_new\<lparr>
     bt_parent := put_account (to_full_string eth_addr) (new_user_account eth_addr) batch_new, bt_children := cs\<rparr>\<rparr>"

lemma sample_full_world_sel [simp]:
  "bt_parent (w_batcher (sample_full_world cs)) =
     \<lparr>b_transactions = [], b_accounts = [(to_full_string eth_addr, new_user_account eth_addr)]\<rparr>"
  "bt_children (w_batcher (sample_full_world cs)) = cs" "w_out (sample_full_world cs) = []"
  by (simp_all add: sample_full_world_def sample_world_def batcher_new_def put_account_def batch_new_def)

lemma sample_benv_encode [simp]: "encode_batch (bn_codec sample_benv) b = Some []"
    "bn_blob_response sample_benv s = Some s"
  by (simp_all add: encode_batch_def compress_batch_def serialize_batch_def sample_benv_def bytes_hex_def)

theorem next_batch_rotates_witness:
  "\<exists>w'. batcher_handle sample_benv B_GetNextBatch (sample_full_world [batch_new]) = Some (w', Ok ()) \<and>
     batches (w_batcher w') = [batch_new] \<and> w_out w' = [To_DaClient (D_StoreBatch [])]"
  using next_batch_rotates [of "sample_full_world [batch_new]" sample_benv "[]" "[]"]
  by (auto simp: batch_empty_def simp del: batcher_handle.simps)

theorem settles_stored_batch_witness:
  "\<exists>w1 w2 w3. batcher_handle sample_benv B_GetNextBatch (sample_full_world []) = Some (w1, Ok ()) \<and>
     batcher_handle sample_benv (B_BlobVerificationProof [] ''h'' 0) w1 = Some (w2, Ok ()) \<and>
     batcher_handle sample_benv (B_BlobVerificationProof [] ''h'' 0) w2 = Some (w3, Ok ()) \<and>
     w_out w2 = w_out w1 @ [To_Eo (Eo_Settle {to_full_string eth_addr} (replicate 32 0) 0)] \<and>
     w_out w3 = w_out w2 @ [To_Eo (Eo_Settle {to_full_string eth_addr} (replicate 32 0) 0)]"
proof -
  have "cd_b64_dec (bn_codec sample_benv) ''h'' = Some (replicate 32 0)" by (simp add: sample_benv_def)
  then show ?thesis
    using settles_stored_batch [of "sample_full_world []" sample_benv "[]" "[]" "''h''" "replicate 32 0" 0]
    by (simp add: batch_empty_def del: batcher_handle.simps)
qed

theorem next_batch_durable_witness:
  "\<exists>w'. batcher_handle (sample_benv
            \<lparr>bn_ser_account := (\<lambda>a. if a = new_user_account eth_addr then Some [1] else None),
             bn_cache := sample_env\<lparr>env_deserialize := (\<lambda>_. Some (new_user_account eth_addr))\<rparr>\<rparr>)
          B_GetNextBatch (sample_full_world []) = Some (w', Ok ()) \<and>
        cache_read (sample_env\<lparr>env_deserialize := (\<lambda>_. Some (new_user_account eth_addr))\<rparr>) eth_addr
          (cache_new 180 (ac_storage (w_cache w'))) = Some (new_user_account eth_addr)"
proof -
  let ?c = "sample_env\<lparr>env_deserialize := (\<lambda>_. Some (new_user_account eth_addr))\<rparr>"
  let ?env = "sample_benv\<lparr>bn_ser_account := (\<lambda>a. if a = new_user_account eth_addr then Some [1] else None), bn_cache := ?c\<rparr>"
  have full: "\<not> batch_empty (bt_parent (w_batcher (sample_full_world [])))" by (simp add: batch_empty_def)
  obtain w' where w': "batcher_handle ?env B_GetNextBatch (sample_full_world []) = Some (w', Ok ())"
    using next_batch_run [of "sample_full_world []" ?env "[]" "[]"] full by auto
  have "\<not> env_store_fails ?c s" "\<not> bn_put_fails ?env s" for s
    by (simp_all add: sample_env_def sample_benv_def)
  moreover have "\<And>a v. bn_ser_account ?env a = Some v \<Longrightarrow> env_deserialize (bn_cache ?env) v = Some a"
    by (simp split: if_splits)
  ultimately show ?thesis
    using next_batch_durable [where w = "sample_full_world []" and env = ?env and k = eth_addr and n = 180] w' full
    by (simp add: hm_wf_def del: batcher_handle.simps)
qed

definition signed_with :: "u8 list \<Rightarrow> transaction" where
  "signed_with r = sample_send\<lparr>tx_r := r\<rparr>"

lemma be_bytes_numeral: "be_bytes (numeral k) n = be_bytes (pred_numeral k) (n div 256) @ [of_nat (n mod 256)]"
  by (simp only: numeral_eq_Suc [of k] be_bytes.simps)

lemma signed_with_recover:
  "tx_sig (signed_with r) = Ok \<lparr>sig_r = r, sig_s = tx_s sample_send, sig_v = 27\<rparr>"
  "sig_recover sample_crypto \<lparr>sig_r = r, sig_s = tx_s sample_send, sig_v = 27\<rparr> m = Ok (Address (be_bytes 20 (unat (u256_from_be r))))"
  by (simp_all add: tx_sig_def signed_with_def sample_send_def sig_recover_def in_range_def sample_crypto_def)

theorem program_id_ignores_middle_bytes_witness:
  "create_program_id sample_crypto hex_ref (\<lambda>_. []) ''cid'' (signed_with [1, 0, 0]) =
     create_program_id sample_crypto hex_ref (\<lambda>_. []) ''cid'' (signed_with [2, 0, 0]) \<and>
   sig_recover sample_crypto \<lparr>sig_r = [1, 0, 0], sig_s = tx_s sample_send, sig_v = 27\<rparr> [] \<noteq>
     sig_recover sample_crypto \<lparr>sig_r = [2, 0, 0], sig_s = tx_s sample_send, sig_v = 27\<rparr> []"
proof -
  have addr: "be_bytes 20 (unat (u256_from_be [1, 0, 0])) = 0 # 0 # [0, 0, 0, 0, 0, 0, 0, 0, 0, 0, 0, 0, 0, 0, 0, 1] @ [0, 0]"
       "be_bytes 20 (unat (u256_from_be [2, 0, 0])) = 0 # 0 # [0, 0, 0, 0, 0, 0, 0, 0, 0, 0, 0, 0, 0, 0, 0, 2] @ [0, 0]"
    by (simp_all add: u256_from_be_def be_bytes_numeral)
  then show ?thesis
    using program_id_ignores_middle_bytes [of hex_ref "signed_with [1, 0, 0]" _ sample_crypto 0 0 "[0, 0, 0, 0, 0, 0, 0, 0, 0, 0, 0, 0, 0, 0, 0, 1]" 0 0
        "signed_with [2, 0, 0]" _ "[0, 0, 0, 0, 0, 0, 0, 0, 0, 0, 0, 0, 0, 0, 0, 2]" "\<lambda>_. []" "''cid''"]
    by (simp add: signed_with_recover hex_ref_def)
qed

section \<open>Deposits and reports\<close>

lemma find_one:
  assumes "set xs = {a}"
  shows "find (\<lambda>x. account_address x = k) xs = (if k = account_address a then Some a else None)"
proof (cases "find (\<lambda>x. account_address x = k) xs")
  case (Some x)
  then have "x \<in> set xs" "account_address x = k" by (auto simp: find_Some_iff)
  then show ?thesis using assms Some by auto
qed (use assms in \<open>auto simp: find_None_iff\<close>)

text \<open>A deposit at the batcher: the depositor's account is credited, whether or not it exists.\<close>

lemma deposit_credit:
  assumes "is_bridge_in (tx_transaction_type tx)" and "tx_from tx = tx_to tx" and "filed_user (tx_from tx) a"
    and "unat (balance_of (tx_program_id tx) a) + unat (tx_value tx) < 2 ^ 256"
  shows "\<exists>a' tok. apply_send_transaction tx pa a = (a', Ok tok) \<and> account_address a' = tx_from tx \<and>
     unat (balance_of (tx_program_id tx) a') = unat (balance_of (tx_program_id tx) a) + unat (tx_value tx)"
proof (cases "acc_programs a (tx_program_id tx)")
  case None
  then show ?thesis
    using assms by (simp add: apply_send_transaction_def Let_def token_from_transaction_def balance_of_insert
        account_address_insert filed_user_address) (simp add: balance_of_def)
next
  case (Some t)
  have "tok_owner_id t = tx_from tx" "tok_program_id t = tx_program_id tx"
    using assms(3) Some by (auto simp: filed_user_def wf_account_def)
  moreover have "tok_program_id (extend_from_program pa u) = tok_program_id u"
    "tok_balance (extend_from_program pa u) = tok_balance u" for u
    by (simp_all add: extend_from_program_def split: option.split)
  moreover have "balance_of (tx_program_id tx) a = tok_balance t" by (simp add: balance_of_def Some)
  ultimately show ?thesis
    using assms Some token_try_from_receiver [of tx t] filed_user_address [OF assms(3)]
    by (simp add: apply_send_transaction_def apply_to_held_def Let_def balance_of_insert unat_add_u256)
qed

lemma deposit_applies:
  assumes "cache_up env" and "reports_up env" and "iter_order (bn_it_string env)"
    and "is_bridge_in (tx_transaction_type tx)" and "tx_from tx = tx_to tx"
    and "\<And>a. lookup_account env w (tx_from tx) = Some a \<Longrightarrow> filed_user (tx_from tx) a \<and> unat (acc_nonce a) + 1 < 2 ^ 256"
    and "held env w (tx_from tx) (tx_program_id tx) + unat (tx_value tx) < 2 ^ 256"
    and "\<And>buf tok. transaction_buffer env (lookup_account env w) tx = Ok (buf, tok) \<Longrightarrow>
           room_for_all env tx (map snd (bn_it_string env buf)) (bt_parent (w_batcher w))"
  shows "\<exists>w'. add_transaction_to_account env tx w = Some (w', Ok ()) \<and>
         held env w' (tx_from tx) (tx_program_id tx) =
           held env w (tx_from tx) (tx_program_id tx) + unat (tx_value tx) \<and>
         (\<forall>k. k = tx_from tx \<or> lookup_account env w' k = lookup_account env w k)"
proof -
  let ?p = "tx_program_id tx" and ?f = "tx_from tx"
  have look: "lookup_account env v = world_read env v" for v
    using lookup_account_up [OF assms(1)] by blast
  obtain a' tok where a': "apply_to_sender env (lookup_account env w) tx = Ok (a', tok)" "account_address a' = ?f"
      "unat (balance_of ?p a') = held env w ?f ?p + unat (tx_value tx)"
  proof (cases "lookup_account env w ?f")
    case None
    have "held env w ?f ?p = unat (balance_of ?p (new_user_account ?f))"
      using held_receiver [where p = ?p and env = env and w = w and k = ?f] None by simp
    with None that show ?thesis
      using deposit_credit [OF assms(4,5) filed_user_new, of "lookup_account env w ?p"] assms(4,7)
      by (auto simp: apply_to_sender_def)
  next
    case (Some a)
    let ?a = "a\<lparr>acc_nonce := acc_nonce a + 1\<rparr>"
    have "filed_user ?f ?a" "increment_nonce a = (?a, Ok ())" "balance_of ?p ?a = balance_of ?p a"
      using assms(6) [OF Some] by (auto simp: filed_user_def wf_account_def increment_nonce_def u256_add_def balance_of_def)
    with Some that show ?thesis
      using deposit_credit [OF assms(4,5), of ?a None] assms(7)
      by (auto simp: apply_to_sender_def held_def)
  qed
  let ?buf = "[(to_full_string ?f, a')]"
  have buf: "transaction_buffer env (lookup_account env w) tx = Ok (?buf, tok)"
    using a'(1) assms(4,5) by (simp add: transaction_buffer_def Let_def)
  obtain w' where w': "add_transaction_to_account env tx w = Some (w', Ok ())"
    using add_transaction_returns [OF buf assms(2) assms(8) [OF buf]] by blast
  have "set (bn_it_string env ?buf) = set ?buf"
    using iter_order_set [OF assms(3)] by (simp add: hm_wf_def)
  then have "set (rev (map snd (bn_it_string env ?buf))) = {a'}" by simp
  note one = find_one [OF this]
  have "lookup_account env w' k = (if k = ?f then Some a' else lookup_account env w k)" for k
    using add_transaction_read [OF assms(1) w'] buf one a'(2) by (simp add: look)
  then show ?thesis using w' a'(3) by (auto simp: held_def)
qed

text \<open>What an applied send or deposit sends: the account writes, then the two reports.\<close>

lemma add_account_out:
  "cache_up env \<Longrightarrow> add_account_to_batch env a w = Some (w', r) \<Longrightarrow>
     w_out w' = w_out w @ [To_AccountCache (AC_Write a)]"
  by (auto simp: add_account_to_batch_def cache_account_def cache_up_def emit_def send_to_def Let_def
      split: option.splits)

lemma add_accounts_out:
  assumes "cache_up env"
  shows "add_accounts_to_batch env as w = Some (w', r) \<Longrightarrow>
     w_out w' = w_out w @ map (\<lambda>a. To_AccountCache (AC_Write a)) as"
proof (induction as arbitrary: w)
  case (Cons a as)
  obtain w1 where "add_account_to_batch env a w = Some (w1, Ok ())" "add_accounts_to_batch env as w1 = Some (w', r)"
    using add_accounts_Cons [OF Cons.prems] by blast
  then show ?case using Cons.IH add_account_out [OF assms] by fastforce
qed simp

lemma add_transaction_out:
  assumes "cache_up env" and "add_transaction_to_account env tx w = Some (w', Ok ())"
  obtains as tok where "w_out w' = w_out w @ map (\<lambda>a. To_AccountCache (AC_Write a)) as @
     [To_Scheduler (S_TransactionApplied (hash_string (bn_crypto env) tx) tok), To_Pending (PT_Valid tx None)]"
proof -
  obtain buf tok where buf: "transaction_buffer env (lookup_account env w) tx = Ok (buf, tok)"
    using assms(2) by (auto simp: add_transaction_to_account_def split: outcome.splits)
  let ?as = "map snd (bn_it_string env buf)"
    and ?m = "To_Scheduler (S_TransactionApplied (hash_string (bn_crypto env) tx) tok)"
  obtain w1 w2 w3 where steps: "add_accounts_to_batch env ?as w = Some (w1, Ok ())"
      "place_transaction env tx w1 = Some (w2, Ok ())"
      "cast_or_fail env tx Scheduler ''failed to acquire SchedulerActor'' ?m w2 = Some (w3, Ok ())"
      "cast_or_fail env tx PendingTransactions ''failed to acquire PendingTransactionActor''
         (To_Pending (PT_Valid tx None)) w3 = Some (w', Ok ())"
    using assms(2) buf by (auto simp: add_transaction_to_account_def bbind_Ok_iff)
  have "w_out w2 = w_out w1" using steps(2) by (auto simp: place_transaction_def split: option.splits)
  then have "w_out w' = w_out w @ map (\<lambda>a. To_AccountCache (AC_Write a)) ?as @ [?m, To_Pending (PT_Valid tx None)]"
    using cast_or_fail_Ok [OF steps(3)] cast_or_fail_Ok [OF steps(4)] add_accounts_out [OF assms(1) steps(1)]
    by (simp add: emit_def send_to_def)
  then show thesis by (rule that)
qed

end
