(* ===== verification/Pending_Model.thy ===== *)
theory Pending_Model
  imports Messages_Model
begin

text \<open>
  The pending-transaction actor (crates/actors/src/pending_transactions.rs): the graph of pending
  transactions with its queue per account, the graph of calls waiting for execution with its queue
  per program, and the list of bridge-in transactions already seen. A vertex is shared through a
  lock in the code and held by value here: only the actor takes the locks, and it takes no lock
  twice except where an operation would wait for itself, which is a Panic of the model. The clock
  and the iteration order of the hash maps and sets are parameters (record \<open>pending_env\<close>); the
  subtraction of timestamps wraps, as in a release build.
\<close>

section \<open>Vertices and graphs\<close>

definition PENDING_TIMEOUT :: u64 where
  "PENDING_TIMEOUT = 15000"

record vertex =
  vx_transaction :: transaction
  vx_timestamp :: u64
  vx_outputs :: "outputs option"
  vx_accounts_touched :: "address list"
  vx_dependent_transactions :: "string list"

record pre_call_vertex =
  pv_transaction :: transaction
  pv_program_account :: address
  pv_dependencies :: "string list"

record pre_call_graph =
  pc_vertices :: "(string, pre_call_vertex) hashmap"
  pc_program_index :: "(address, string list) hashmap"

record pending_graph =
  pg_vertices :: "(string, vertex) hashmap"
  pg_account_index :: "(address, string list) hashmap"

record dependency_graphs =
  dg_pending :: pending_graph
  dg_pre_call :: pre_call_graph

record pending_env =
  pe_registry :: registry
  pe_crypto :: crypto
  pe_now :: u64
  pe_it_accounts :: "address list \<Rightarrow> address list"
  pe_it_vertices :: "(string \<times> vertex) list \<Rightarrow> (string \<times> vertex) list"

fun touched_address :: "transaction \<Rightarrow> address_or_namespace \<Rightarrow> address option" where
  "touched_address tx This = Some (tx_to tx)"
| "touched_address tx (AON_Address a) = Some a"
| "touched_address tx (AON_Namespace n) = None"

text \<open>A hash set of addresses is a list without duplicates.\<close>

definition extract_accounts_touched :: "transaction \<Rightarrow> outputs option \<Rightarrow> address list" where
  "extract_accounts_touched tx outs =
     remdups (tx_get_accounts_involved tx @
       (case outs of
          Some o' \<Rightarrow> concat (map (\<lambda>i. List.map_filter (touched_address tx) (get_accounts_involved i))
                       (out_instructions o'))
        | None \<Rightarrow> []))"

definition vertex_new :: "u64 \<Rightarrow> transaction \<Rightarrow> outputs option \<Rightarrow> vertex" where
  "vertex_new now tx outs =
     \<lparr>vx_transaction = tx, vx_timestamp = now, vx_outputs = outs,
      vx_accounts_touched = extract_accounts_touched tx outs, vx_dependent_transactions = []\<rparr>"

definition pre_call_vertex_new :: "transaction \<Rightarrow> pre_call_vertex" where
  "pre_call_vertex_new tx = \<lparr>pv_transaction = tx, pv_program_account = tx_to tx, pv_dependencies = []\<rparr>"

definition pre_call_graph_new :: pre_call_graph where
  "pre_call_graph_new = \<lparr>pc_vertices = [], pc_program_index = []\<rparr>"

definition pending_graph_new :: pending_graph where
  "pending_graph_new = \<lparr>pg_vertices = [], pg_account_index = []\<rparr>"

definition dependency_graphs_new :: dependency_graphs where
  "dependency_graphs_new = \<lparr>dg_pending = pending_graph_new, dg_pre_call = pre_call_graph_new\<rparr>"

definition blocked :: string where
  "blocked = ''a lock is taken twice''"

definition or_default :: "'k \<Rightarrow> ('k, 'v list) hashmap \<Rightarrow> 'v list" where
  "or_default k m = (case hm_get m k of Some v \<Rightarrow> v | None \<Rightarrow> [])"

section \<open>Calls before execution\<close>

definition send_to_executor :: "pending_env \<Rightarrow> transaction \<Rightarrow> message list" where
  "send_to_executor env tx =
     (if registered (pe_registry env) Executor
      then send_to (pe_registry env) Executor (To_Executor (X_Exec tx)) else [])"

text \<open>
  One dependency of a new call. The read guard of the new vertex is held, so a dependency on the
  vertex itself would wait for itself. The id is pushed only when it is in the list already.
\<close>

fun link_calls ::
    "string \<Rightarrow> string list \<Rightarrow> (string, pre_call_vertex) hashmap \<Rightarrow> bool
       \<Rightarrow> (unit, (string, pre_call_vertex) hashmap \<times> bool) outcome" where
  "link_calls tid [] vs has = Ok (vs, has)"
| "link_calls tid (dep # deps) vs has =
     (case hm_get vs dep of
        None \<Rightarrow> link_calls tid deps vs has
      | Some v \<Rightarrow>
          if dep = tid then Panic blocked
          else
            (let v' = (if tid \<in> set (pv_dependencies v)
                       then v\<lparr>pv_dependencies := pv_dependencies v @ [tid]\<rparr> else v)
             in link_calls tid deps (hm_insert dep v' vs) True))"

definition add_call ::
    "pending_env \<Rightarrow> transaction \<Rightarrow> pre_call_graph \<Rightarrow> (unit, pre_call_graph \<times> message list) outcome" where
  "add_call env tx g =
     (let tid = hash_string (pe_crypto env) tx;
          vs = hm_insert tid (pre_call_vertex_new tx) (pc_vertices g);
          deps = or_default (tx_to tx) (pc_program_index g);
          idx = hm_insert (tx_to tx) deps (pc_program_index g)
      in obind (link_calls tid deps vs False) (\<lambda>(vs', has_dependencies).
         Ok (\<lparr>pc_vertices = vs', pc_program_index = idx\<rparr>,
             if has_dependencies then [] else send_to_executor env tx)))"

text \<open>The errors of \<open>handle_completed_exec\<close> are logged by its caller and nothing else.\<close>

definition handle_completed_exec ::
    "pending_env \<Rightarrow> string \<Rightarrow> pre_call_graph \<Rightarrow> pre_call_graph \<times> message list" where
  "handle_completed_exec env hash g =
     (case hm_get (pc_vertices g) hash of
        None \<Rightarrow> (g, [])
      | Some exec_vertex \<Rightarrow>
          (let g' = g\<lparr>pc_vertices := hm_remove hash (pc_vertices g)\<rparr> in
           case pv_dependencies exec_vertex of
             [] \<Rightarrow> (g', [])
           | next # _ \<Rightarrow>
               (case hm_get (pc_vertices g') next of
                  Some next_vtx \<Rightarrow> (g', send_to_executor env (pv_transaction next_vtx))
                | None \<Rightarrow> (g', []))))"

section \<open>Pending transactions\<close>

definition schedule_with_validator :: "pending_env \<Rightarrow> transaction \<Rightarrow> outputs option \<Rightarrow> message list" where
  "schedule_with_validator env tx outs =
     (if registered (pe_registry env) Validator then
        (case tx_transaction_type tx of
           Send _ \<Rightarrow> send_to (pe_registry env) Validator (To_Validator (V_PendingTransaction tx))
         | Call _ \<Rightarrow> send_to (pe_registry env) Validator (To_Validator (V_PendingCall outs tx))
         | BridgeIn _ \<Rightarrow> send_to (pe_registry env) Validator (To_Validator (V_PendingTransaction tx))
         | _ \<Rightarrow> [])
      else [])"

fun link_transactions ::
    "string \<Rightarrow> string list \<Rightarrow> (string, vertex) hashmap \<Rightarrow> bool
       \<Rightarrow> (unit, (string, vertex) hashmap \<times> bool) outcome" where
  "link_transactions tid [] vs has = Ok (vs, has)"
| "link_transactions tid (dep # deps) vs has =
     (case hm_get vs dep of
        None \<Rightarrow> link_transactions tid deps vs has
      | Some v \<Rightarrow>
          if dep = tid then Panic blocked
          else
            (let v' = (if tid \<notin> set (vx_dependent_transactions v)
                       then v\<lparr>vx_dependent_transactions := vx_dependent_transactions v @ [tid]\<rparr> else v)
             in link_transactions tid deps (hm_insert dep v' vs) True))"

text \<open>
  The loop over the accounts of the new vertex. The flag is not reset between accounts, and the id
  joins an account's queue only when the flag is set.
\<close>

fun index_accounts ::
    "string \<Rightarrow> address list \<Rightarrow> pending_graph \<Rightarrow> bool \<Rightarrow> (unit, pending_graph \<times> bool) outcome" where
  "index_accounts tid [] g has = Ok (g, has)"
| "index_accounts tid (account # accounts) g has =
     (let deps = or_default account (pg_account_index g) in
      obind (link_transactions tid deps (pg_vertices g) has) (\<lambda>(vs, has').
      index_accounts tid accounts
        \<lparr>pg_vertices = vs,
         pg_account_index = hm_insert account (if has' then deps @ [tid] else deps) (pg_account_index g)\<rparr> has'))"

definition add_transaction ::
    "pending_env \<Rightarrow> transaction \<Rightarrow> outputs option \<Rightarrow> pending_graph \<Rightarrow> (unit, pending_graph \<times> message list) outcome" where
  "add_transaction env tx outs g =
     (let tid = hash_string (pe_crypto env) tx;
          v = vertex_new (pe_now env) tx outs;
          g' = g\<lparr>pg_vertices := hm_insert tid v (pg_vertices g)\<rparr>
      in obind (index_accounts tid (pe_it_accounts env (vx_accounts_touched v)) g' False) (\<lambda>(g'', has_dependencies).
         Ok (g'', if has_dependencies then [] else schedule_with_validator env tx outs)))"

definition remove_first :: "string \<Rightarrow> string list \<Rightarrow> string list" where
  "remove_first h xs = (case position (\<lambda>x. x = h) xs of Some i \<Rightarrow> remove_at i xs | None \<Rightarrow> xs)"

fun remove_from_queues :: "string \<Rightarrow> address list \<Rightarrow> (address, string list) hashmap \<Rightarrow> (address, string list) hashmap" where
  "remove_from_queues h [] idx = idx"
| "remove_from_queues h (a # as) idx =
     remove_from_queues h as
       (case hm_get idx a of Some q \<Rightarrow> hm_insert a (remove_first h q) idx | None \<Rightarrow> idx)"

text \<open>
  The loop over the other vertices: the hash leaves the list of dependent transactions, and a
  vertex whose list becomes empty is ready.
\<close>

fun unlink_dependents ::
    "string \<Rightarrow> (string \<times> vertex) list \<Rightarrow> (string, vertex) hashmap \<times> string list" where
  "unlink_dependents h [] = ([], [])"
| "unlink_dependents h ((ident, v) # rest) =
     (case unlink_dependents h rest of (vs, ready) \<Rightarrow>
        if h \<in> set (vx_dependent_transactions v) then
          (let ds = remove_first h (vx_dependent_transactions v) in
           ((ident, v\<lparr>vx_dependent_transactions := ds\<rparr>) # vs, if ds = [] then ident # ready else ready))
        else ((ident, v) # vs, ready))"

definition handle_valid :: "pending_env \<Rightarrow> string \<Rightarrow> pending_graph \<Rightarrow> pending_graph \<times> string list" where
  "handle_valid env hash g =
     (case hm_get (pg_vertices g) hash of
        None \<Rightarrow> (g, [])
      | Some validated_vertex \<Rightarrow>
          (case unlink_dependents hash (pe_it_vertices env (hm_remove hash (pg_vertices g))) of
             (vs, ready) \<Rightarrow>
               (\<lparr>pg_vertices = vs,
                 pg_account_index = remove_from_queues hash
                   (pe_it_accounts env (vx_accounts_touched validated_vertex)) (pg_account_index g)\<rparr>, ready)))"

text \<open>The same work on the graph, and a failure message to the scheduler.\<close>

definition handle_invalid ::
    "pending_env \<Rightarrow> string \<Rightarrow> boxed_error \<Rightarrow> pending_graph \<Rightarrow> pending_graph \<times> string list \<times> message list" where
  "handle_invalid env hash e g =
     (case handle_valid env hash g of (g', ready) \<Rightarrow>
        (g', ready,
         if registered (pe_registry env) Scheduler
         then send_to (pe_registry env) Scheduler (To_Scheduler (S_SendTransactionFailure hash e)) else []))"

definition get_transactions :: "pending_graph \<Rightarrow> string list \<Rightarrow> (transaction \<times> outputs option) list" where
  "get_transactions g ids =
     List.map_filter (\<lambda>i. map_option (\<lambda>v. (vx_transaction v, vx_outputs v)) (hm_get (pg_vertices g) i)) ids"

definition schedule_all :: "pending_env \<Rightarrow> (transaction \<times> outputs option) list \<Rightarrow> message list" where
  "schedule_all env ts = concat (map (\<lambda>(tx, outs). schedule_with_validator env tx outs) ts)"

section \<open>Cleaning the graph\<close>

definition queue_fronts :: "(address, string list) hashmap \<Rightarrow> address list \<Rightarrow> string list" where
  "queue_fronts idx as =
     List.map_filter (\<lambda>a. case hm_get idx a of Some (q # _) \<Rightarrow> Some q | _ \<Rightarrow> None) as"

text \<open>The dependents of a timed-out vertex, in order; each changes the queues the next one sees.\<close>

fun ready_dependents ::
    "pending_env \<Rightarrow> string \<Rightarrow> string list \<Rightarrow> pending_graph \<Rightarrow> pending_graph \<times> string list" where
  "ready_dependents env h [] g = (g, [])"
| "ready_dependents env h (dep # deps) g =
     (case hm_get (pg_vertices g) dep of
        None \<Rightarrow> ready_dependents env h deps g
      | Some v \<Rightarrow>
          (let idx = remove_from_queues h (pe_it_accounts env (vx_accounts_touched v)) (pg_account_index g);
               ok = list_all (\<lambda>q. q = dep) (queue_fronts idx (pe_it_accounts env (vx_accounts_touched v)))
           in case ready_dependents env h deps (g\<lparr>pg_account_index := idx\<rparr>) of
                (g', ready) \<Rightarrow> (g', if ok then dep # ready else ready)))"

definition clean_vertex :: "pending_env \<Rightarrow> string \<times> vertex \<Rightarrow> pending_graph \<Rightarrow> pending_graph \<times> message list" where
  "clean_vertex env entry g =
     (case entry of (hash, vtx) \<Rightarrow>
        if pe_now env - vx_timestamp vtx \<ge> PENDING_TIMEOUT then
          (case hm_get (pg_vertices g) hash of
             None \<Rightarrow> (g, [])
           | Some v \<Rightarrow>
               (case ready_dependents env hash (vx_dependent_transactions v)
                       (g\<lparr>pg_vertices := hm_remove hash (pg_vertices g)\<rparr>) of
                  (g', ready) \<Rightarrow> (g', schedule_all env (get_transactions g' ready))))
        else (g, []))"

fun clean_entries :: "pending_env \<Rightarrow> (string \<times> vertex) list \<Rightarrow> pending_graph \<Rightarrow> pending_graph \<times> message list" where
  "clean_entries env [] g = (g, [])"
| "clean_entries env (entry # entries) g =
     (case clean_vertex env entry g of (g', ms) \<Rightarrow>
        (case clean_entries env entries g' of (g'', ms') \<Rightarrow> (g'', ms @ ms')))"

definition clean_graph :: "pending_env \<Rightarrow> pending_graph \<Rightarrow> pending_graph \<times> message list" where
  "clean_graph env g = clean_entries env (pe_it_vertices env (pg_vertices g)) g"

section \<open>The actor\<close>

record pending_state =
  ps_graphs :: dependency_graphs
  ps_bridge_in :: "transaction list"

definition pending_init :: pending_state where
  "pending_init = \<lparr>ps_graphs = dependency_graphs_new, ps_bridge_in = []\<rparr>"

definition with_pending :: "pending_state \<Rightarrow> pending_graph \<Rightarrow> pending_state" where
  "with_pending s g = s\<lparr>ps_graphs := (ps_graphs s)\<lparr>dg_pending := g\<rparr>\<rparr>"

definition with_pre_call :: "pending_state \<Rightarrow> pre_call_graph \<Rightarrow> pending_state" where
  "with_pre_call s g = s\<lparr>ps_graphs := (ps_graphs s)\<lparr>dg_pre_call := g\<rparr>\<rparr>"

definition pending_new ::
    "pending_env \<Rightarrow> transaction \<Rightarrow> outputs option \<Rightarrow> pending_state \<Rightarrow> (unit, pending_state \<times> message list) outcome" where
  "pending_new env tx outs s =
     (if is_bridge_in (tx_transaction_type tx) \<and> tx \<in> set (ps_bridge_in s) then Ok (s, [])
      else
        (let s' = (if is_bridge_in (tx_transaction_type tx)
                   then s\<lparr>ps_bridge_in := ps_bridge_in s @ [tx]\<rparr> else s)
         in obind (add_transaction env tx outs (dg_pending (ps_graphs s'))) (\<lambda>(g, ms).
            Ok (with_pending s' g, ms))))"

definition pending_valid :: "pending_env \<Rightarrow> transaction \<Rightarrow> pending_state \<Rightarrow> pending_state \<times> message list" where
  "pending_valid env tx s =
     (case handle_valid env (hash_string (pe_crypto env) tx) (dg_pending (ps_graphs s)) of
        (g, ready) \<Rightarrow> (with_pending s g, schedule_all env (get_transactions g ready)))"

fun pending_handle ::
    "pending_env \<Rightarrow> pending_message \<Rightarrow> pending_state \<Rightarrow> (unit, pending_state \<times> message list) outcome" where
  "pending_handle env (PT_New tx outs) s = pending_new env tx outs s"
| "pending_handle env (PT_NewCall tx) s =
     obind (add_call env tx (dg_pre_call (ps_graphs s))) (\<lambda>(g, ms). Ok (with_pre_call s g, ms))"
| "pending_handle env (PT_ExecSuccess tx) s =
     (case handle_completed_exec env (hash_string (pe_crypto env) tx) (dg_pre_call (ps_graphs s)) of
        (g, ms) \<Rightarrow> Ok (with_pre_call s g, ms))"
| "pending_handle env (PT_Valid tx cert) s = Ok (pending_valid env tx s)"
| "pending_handle env (PT_Invalid tx e) s =
     (case handle_invalid env (hash_string (pe_crypto env) tx) e (dg_pending (ps_graphs s)) of
        (g, ready, ms) \<Rightarrow> Ok (with_pending s g, ms @ schedule_all env (get_transactions g ready)))"
| "pending_handle env (PT_GetPendingTransaction h) s = Ok (s, [])"
| "pending_handle env (PT_ValidCall outs tx cert) s = Ok (pending_valid env tx s)"
| "pending_handle env PT_CleanGraph s =
     (case clean_graph env (dg_pending (ps_graphs s)) of (g, ms) \<Rightarrow> Ok (with_pending s g, ms))"
| "pending_handle env (PT_Confirmed m hash blob_index) s = Panic ''not yet implemented''"

section \<open>Reachable states\<close>

inductive pending_reachable :: "pending_state \<Rightarrow> bool" where
  init: "pending_reachable pending_init"
| step: "pending_reachable s \<Longrightarrow> iter_order (pe_it_vertices env) \<Longrightarrow>
    pending_handle env m s = Ok (s', out) \<Longrightarrow> pending_reachable s'"

inductive_cases pending_reachableE: "pending_reachable s"

text \<open>A run of the actor: each message is handled in an environment of its own.\<close>

fun pending_run :: "(pending_env \<times> pending_message) list \<Rightarrow> pending_state \<Rightarrow> (unit, pending_state \<times> message list) outcome" where
  "pending_run [] s = Ok (s, [])"
| "pending_run ((env, m) # ms) s =
     obind (pending_handle env m s) (\<lambda>(s', out).
     obind (pending_run ms s') (\<lambda>(s'', out'). Ok (s'', out @ out')))"

section \<open>What the actor amounts to\<close>

text \<open>
  The abstract actor: a map of the pending transactions, a map of the calls given to the executor,
  and the bridge-in transactions seen. Every transaction is passed on when it arrives.
\<close>

record pending_view =
  pw_waiting :: "string \<rightharpoonup> vertex"
  pw_calls :: "string \<rightharpoonup> pre_call_vertex"
  pw_seen :: "transaction list"

definition pending_abs :: "pending_state \<Rightarrow> pending_view" where
  "pending_abs s =
     \<lparr>pw_waiting = hm_get (pg_vertices (dg_pending (ps_graphs s))),
      pw_calls = hm_get (pc_vertices (dg_pre_call (ps_graphs s))), pw_seen = ps_bridge_in s\<rparr>"

definition spec_done :: "pending_env \<Rightarrow> transaction \<Rightarrow> pending_view \<Rightarrow> pending_view" where
  "spec_done env tx v = v\<lparr>pw_waiting := (pw_waiting v)(hash_string (pe_crypto env) tx := None)\<rparr>"

fun pending_spec :: "pending_env \<Rightarrow> pending_message \<Rightarrow> pending_view \<Rightarrow> pending_view \<times> message list" where
  "pending_spec env (PT_New tx outs) v =
     (if is_bridge_in (tx_transaction_type tx) \<and> tx \<in> set (pw_seen v) then (v, [])
      else (v\<lparr>pw_waiting := (pw_waiting v)(hash_string (pe_crypto env) tx \<mapsto> vertex_new (pe_now env) tx outs),
              pw_seen := pw_seen v @ (if is_bridge_in (tx_transaction_type tx) then [tx] else [])\<rparr>,
            schedule_with_validator env tx outs))"
| "pending_spec env (PT_NewCall tx) v =
     (v\<lparr>pw_calls := (pw_calls v)(hash_string (pe_crypto env) tx \<mapsto> pre_call_vertex_new tx)\<rparr>, send_to_executor env tx)"
| "pending_spec env (PT_ExecSuccess tx) v =
     (v\<lparr>pw_calls := (pw_calls v)(hash_string (pe_crypto env) tx := None)\<rparr>, [])"
| "pending_spec env (PT_Valid tx cert) v = (spec_done env tx v, [])"
| "pending_spec env (PT_ValidCall outs tx cert) v = (spec_done env tx v, [])"
| "pending_spec env (PT_Invalid tx e) v =
     (spec_done env tx v,
      if registered (pe_registry env) Scheduler
      then send_to (pe_registry env) Scheduler
        (To_Scheduler (S_SendTransactionFailure (hash_string (pe_crypto env) tx) e)) else [])"
| "pending_spec env (PT_GetPendingTransaction h) v = (v, [])"
| "pending_spec env PT_CleanGraph v =
     (v\<lparr>pw_waiting := (\<lambda>h. case pw_waiting v h of
          Some x \<Rightarrow> if pe_now env - vx_timestamp x \<ge> PENDING_TIMEOUT then None else Some x
        | None \<Rightarrow> None)\<rparr>, [])"
| "pending_spec env (PT_Confirmed m hash i) v = (v, [])"

section \<open>Lemmas\<close>

definition no_queue :: "('k, 'v list) hashmap \<Rightarrow> bool" where
  "no_queue idx \<longleftrightarrow> (\<forall>a q. hm_get idx a = Some q \<longrightarrow> q = [])"

definition idle_graph :: "pending_graph \<Rightarrow> bool" where
  "idle_graph g \<longleftrightarrow> hm_wf (pg_vertices g) \<and> no_queue (pg_account_index g) \<and>
     (\<forall>h v. hm_get (pg_vertices g) h = Some v \<longrightarrow> vx_dependent_transactions v = [])"

definition idle_calls :: "pre_call_graph \<Rightarrow> bool" where
  "idle_calls g \<longleftrightarrow> no_queue (pc_program_index g) \<and>
     (\<forall>h v. hm_get (pc_vertices g) h = Some v \<longrightarrow> pv_dependencies v = [])"

definition idle :: "pending_state \<Rightarrow> bool" where
  "idle s \<longleftrightarrow> idle_graph (dg_pending (ps_graphs s)) \<and> idle_calls (dg_pre_call (ps_graphs s))"

lemma no_queue_default [simp]: "no_queue idx \<Longrightarrow> or_default a idx = []"
  by (auto simp: no_queue_def or_default_def split: option.split)

lemma no_queue_insert: "no_queue idx \<Longrightarrow> no_queue (hm_insert a [] idx)"
  by (simp add: no_queue_def hm_get_insert)

lemma index_accounts_idle:
  "no_queue (pg_account_index g) \<Longrightarrow>
     \<exists>g'. index_accounts tid as g False = Ok (g', False) \<and> pg_vertices g' = pg_vertices g \<and>
          no_queue (pg_account_index g')"
proof (induction as arbitrary: g)
  case (Cons a as)
  then show ?case
    using Cons.IH [of "\<lparr>pg_vertices = pg_vertices g, pg_account_index = hm_insert a [] (pg_account_index g)\<rparr>"]
    by (simp add: no_queue_insert)
qed simp

lemma add_transaction_idle:
  assumes "idle_graph g"
  shows "\<exists>g'. add_transaction env tx outs g = Ok (g', schedule_with_validator env tx outs) \<and> idle_graph g' \<and>
     hm_get (pg_vertices g') = (hm_get (pg_vertices g))(hash_string (pe_crypto env) tx \<mapsto> vertex_new (pe_now env) tx outs)"
proof -
  let ?v = "vertex_new (pe_now env) tx outs" and ?t = "hash_string (pe_crypto env) tx"
  let ?g = "g\<lparr>pg_vertices := hm_insert ?t ?v (pg_vertices g)\<rparr>"
  obtain g' where "index_accounts ?t (pe_it_accounts env (vx_accounts_touched ?v)) ?g False = Ok (g', False)"
      "pg_vertices g' = hm_insert ?t ?v (pg_vertices g)" "no_queue (pg_account_index g')"
    using index_accounts_idle [of ?g ?t "pe_it_accounts env (vx_accounts_touched ?v)"] assms
    by (auto simp: idle_graph_def)
  moreover have "vx_dependent_transactions ?v = []" by (simp add: vertex_new_def)
  ultimately show ?thesis
    using assms
    by (auto simp: add_transaction_def Let_def idle_graph_def hm_get_insert wf_intros fun_eq_iff split: if_splits)
qed

lemma remove_from_queues_idle: "no_queue idx \<Longrightarrow> no_queue (remove_from_queues h as idx)"
proof (induction as arbitrary: idx)
  case (Cons a as)
  show ?case
  proof (cases "hm_get idx a")
    case None
    then show ?thesis using Cons by simp
  next
    case (Some q)
    then have "q = []" using Cons.prems by (auto simp: no_queue_def)
    then have "remove_first h q = []" by (simp add: remove_first_def)
    then show ?thesis using Cons Some by (simp add: no_queue_insert)
  qed
qed simp

lemma unlink_idle:
  "(\<forall>x \<in> set xs. vx_dependent_transactions (snd x) = []) \<Longrightarrow> unlink_dependents h xs = (xs, [])"
  by (induction xs) auto

lemma handle_valid_idle:
  assumes "idle_graph g" and "iter_order (pe_it_vertices env)"
  shows "\<exists>g'. handle_valid env h g = (g', []) \<and> idle_graph g' \<and>
     hm_get (pg_vertices g') = (hm_get (pg_vertices g))(h := None)"
proof (cases "hm_get (pg_vertices g) h")
  case None
  then show ?thesis using assms(1) by (auto simp: handle_valid_def)
next
  case (Some v)
  let ?m = "hm_remove h (pg_vertices g)"
  have m: "hm_wf ?m" "hm_wf (pe_it_vertices env ?m)" "hm_get (pe_it_vertices env ?m) = hm_get ?m"
    using assms iter_order_map_of [OF assms(2), of ?m]
    by (auto simp: idle_graph_def wf_intros iter_order_def hm_wf_def intro: distinct_delete)
  then have "\<forall>x \<in> set (pe_it_vertices env ?m). vx_dependent_transactions (snd x) = []"
    using assms(1) by (auto simp: idle_graph_def hm_wf_def hm_get_remove dest!: map_of_is_SomeI split: if_splits)
  from unlink_idle [OF this] show ?thesis
    using Some m assms(1) remove_from_queues_idle
    by (auto simp: handle_valid_def idle_graph_def hm_get_remove fun_eq_iff split: if_splits)
qed

text \<open>Cleaning an idle graph removes the entries that timed out and sends nothing.\<close>

definition timed_out :: "pending_env \<Rightarrow> vertex \<Rightarrow> bool" where
  "timed_out env v \<longleftrightarrow> pe_now env - vx_timestamp v \<ge> PENDING_TIMEOUT"

lemma idle_graph_remove: "idle_graph g \<Longrightarrow> idle_graph (g\<lparr>pg_vertices := hm_remove h (pg_vertices g)\<rparr>)"
  by (auto simp: idle_graph_def wf_intros hm_get_remove split: if_splits)

lemma clean_vertex_idle:
  assumes "idle_graph g"
  shows "clean_vertex env (h, v) g =
     (if timed_out env v then (if hm_get (pg_vertices g) h = None then g else g\<lparr>pg_vertices := hm_remove h (pg_vertices g)\<rparr>)
      else g, [])"
  using assms
  by (auto simp: clean_vertex_def timed_out_def idle_graph_def schedule_all_def get_transactions_def
      List.map_filter_def split: option.split)

lemma clean_entries_idle:
  "idle_graph g \<Longrightarrow>
     \<exists>g'. clean_entries env es g = (g', []) \<and> idle_graph g' \<and>
       (\<forall>h. hm_get (pg_vertices g') h =
          (if \<exists>v. (h, v) \<in> set es \<and> timed_out env v then None else hm_get (pg_vertices g) h))"
proof (induction es arbitrary: g)
  case (Cons e es)
  obtain h v where e: "e = (h, v)" by force
  let ?g = "fst (clean_vertex env e g)"
  have g: "idle_graph ?g" "snd (clean_vertex env e g) = []"
    "\<And>k. hm_get (pg_vertices ?g) k = (if k = h \<and> timed_out env v then None else hm_get (pg_vertices g) k)"
    using Cons.prems idle_graph_remove [OF Cons.prems] by (auto simp: e clean_vertex_idle hm_get_remove)
  obtain g' where "clean_entries env es ?g = (g', [])" "idle_graph g'"
      "\<forall>h. hm_get (pg_vertices g') h =
         (if \<exists>v. (h, v) \<in> set es \<and> timed_out env v then None else hm_get (pg_vertices ?g) h)"
    using Cons.IH [OF g(1)] by blast
  then show ?case using g by (auto simp: e split: prod.split)
qed simp

lemma clean_graph_idle:
  assumes "idle_graph g" and "iter_order (pe_it_vertices env)"
  shows "\<exists>g'. clean_graph env g = (g', []) \<and> idle_graph g' \<and>
     hm_get (pg_vertices g') = (\<lambda>h. case hm_get (pg_vertices g) h of
        Some v \<Rightarrow> if timed_out env v then None else Some v | None \<Rightarrow> None)"
proof -
  have "set (pe_it_vertices env (pg_vertices g)) = set (pg_vertices g)"
    using assms iter_order_set by (auto simp: idle_graph_def)
  moreover have "(h, v) \<in> set (pg_vertices g) \<longleftrightarrow> hm_get (pg_vertices g) h = Some v" for h v
    using assms(1) by (simp add: idle_graph_def hm_wf_def)
  ultimately show ?thesis
    using clean_entries_idle [OF assms(1), of env "pe_it_vertices env (pg_vertices g)"]
    by (auto simp: clean_graph_def fun_eq_iff split: option.split)
qed

lemma add_call_idle:
  assumes "idle_calls g"
  shows "\<exists>g'. add_call env tx g = Ok (g', send_to_executor env tx) \<and> idle_calls g' \<and>
     hm_get (pc_vertices g') = (hm_get (pc_vertices g))(hash_string (pe_crypto env) tx \<mapsto> pre_call_vertex_new tx)"
  using assms
  by (auto simp: add_call_def idle_calls_def hm_get_insert no_queue_insert pre_call_vertex_new_def fun_eq_iff
      split: if_splits)

lemma completed_exec_idle:
  assumes "idle_calls g"
  shows "\<exists>g'. handle_completed_exec env h g = (g', []) \<and> idle_calls g' \<and>
     hm_get (pc_vertices g') = (hm_get (pc_vertices g))(h := None)"
  using assms
  by (cases "hm_get (pc_vertices g) h")
    (auto simp: handle_completed_exec_def idle_calls_def hm_get_remove Let_def fun_eq_iff split: if_splits list.split)

lemma with_sel [simp]:
  "dg_pending (ps_graphs (with_pending s g)) = g" "dg_pre_call (ps_graphs (with_pending s g)) = dg_pre_call (ps_graphs s)"
  "ps_bridge_in (with_pending s g) = ps_bridge_in s"
  "dg_pre_call (ps_graphs (with_pre_call s c)) = c" "dg_pending (ps_graphs (with_pre_call s c)) = dg_pending (ps_graphs s)"
  "ps_bridge_in (with_pre_call s c) = ps_bridge_in s"
  by (simp_all add: with_pending_def with_pre_call_def)

fun confirmed :: "pending_message \<Rightarrow> bool" where
  "confirmed (PT_Confirmed _ _ _) = True"
| "confirmed _ = False"

lemma pending_done_idle:
  assumes "idle s" and "iter_order (pe_it_vertices env)"
  shows "\<exists>g. handle_valid env (hash_string (pe_crypto env) tx) (dg_pending (ps_graphs s)) = (g, []) \<and>
     idle (with_pending s g) \<and> pending_abs (with_pending s g) = spec_done env tx (pending_abs s)"
  using handle_valid_idle [OF _ assms(2), of "dg_pending (ps_graphs s)" "hash_string (pe_crypto env) tx"] assms(1)
  by (auto simp: idle_def pending_abs_def spec_done_def)

lemma schedule_nothing [simp]: "schedule_all env (get_transactions g []) = []"
  by (simp add: schedule_all_def get_transactions_def List.map_filter_def)

lemma pending_handle_idle:
  assumes "idle s" and "iter_order (pe_it_vertices env)" and "\<not> confirmed m"
  shows "\<exists>s'. pending_handle env m s = Ok (s', snd (pending_spec env m (pending_abs s))) \<and> idle s' \<and>
     pending_abs s' = fst (pending_spec env m (pending_abs s))"
proof (cases m)
  case (PT_New tx outs)
  let ?s = "if is_bridge_in (tx_transaction_type tx) then s\<lparr>ps_bridge_in := ps_bridge_in s @ [tx]\<rparr> else s"
  have g: "dg_pending (ps_graphs ?s) = dg_pending (ps_graphs s)" by simp
  show ?thesis
    using add_transaction_idle [of "dg_pending (ps_graphs s)" env tx outs] assms(1)
    by (auto simp: PT_New pending_new_def idle_def pending_abs_def Let_def)
next
  case (PT_NewCall tx)
  then show ?thesis using add_call_idle [of "dg_pre_call (ps_graphs s)" env tx] assms(1)
    by (auto simp: idle_def pending_abs_def)
next
  case (PT_ExecSuccess tx)
  then show ?thesis
    using completed_exec_idle [of "dg_pre_call (ps_graphs s)" env "hash_string (pe_crypto env) tx"] assms(1)
    by (auto simp: idle_def pending_abs_def)
next
  case PT_CleanGraph
  then show ?thesis using clean_graph_idle [of "dg_pending (ps_graphs s)" env] assms(1,2)
    by (auto simp: idle_def pending_abs_def timed_out_def cong: option.case_cong)
next
  case (PT_Valid tx cert)
  then show ?thesis using pending_done_idle [OF assms(1,2), of tx] by (auto simp: pending_valid_def)
next
  case (PT_ValidCall outs tx cert)
  then show ?thesis using pending_done_idle [OF assms(1,2), of tx] by (auto simp: pending_valid_def)
next
  case (PT_Invalid tx e)
  then show ?thesis using pending_done_idle [OF assms(1,2), of tx] by (auto simp: handle_invalid_def)
qed (use assms in auto)

lemma pending_reachable_idle: "pending_reachable s \<Longrightarrow> idle s"
proof (induction rule: pending_reachable.induct)
  case init
  then show ?case
    by (simp add: idle_def idle_graph_def idle_calls_def no_queue_def pending_init_def dependency_graphs_new_def
        pending_graph_new_def pre_call_graph_new_def)
next
  case (step s env m s' out)
  then show ?case using pending_handle_idle [of s env m] by (cases m) auto
qed

section \<open>Properties\<close>

text \<open>
  C13: in every state the actor can reach, it is the abstract actor: every message but
  \<open>Confirmed\<close> is handled without waiting on a lock, with the same messages and the same
  transactions kept. In particular a new transaction or call is passed on at once, whatever
  accounts or programs the pending ones touch; nothing is ever queued behind another transaction
  and no answer releases one.
\<close>

theorem pending_refines_spec:
  assumes "pending_reachable s" and "iter_order (pe_it_vertices env)" and "\<not> confirmed m"
  shows "\<exists>s'. pending_handle env m s = Ok (s', snd (pending_spec env m (pending_abs s))) \<and>
     pending_abs s' = fst (pending_spec env m (pending_abs s))"
  using pending_handle_idle [OF pending_reachable_idle [OF assms(1)] assms(2,3)] by blast

definition sample_penv :: pending_env where
  "sample_penv = \<lparr>pe_registry = all_up, pe_crypto = sample_crypto, pe_now = 0,
     pe_it_accounts = (\<lambda>xs. xs), pe_it_vertices = (\<lambda>xs. xs)\<rparr>"

text \<open>Two sends from one account: the second is sent to the validator while the first is pending.\<close>

theorem pending_refines_spec_witness:
  "\<exists>s s'. pending_handle sample_penv (PT_New (sample_transaction (Send 0) eth_addr verse_addr eth_addr 4) None) pending_init =
       Ok (s, [To_Validator (V_PendingTransaction (sample_transaction (Send 0) eth_addr verse_addr eth_addr 4))]) \<and>
     pending_handle sample_penv (PT_New (sample_transaction (Send 1) eth_addr verse_addr eth_addr 5) None) s =
       Ok (s', [To_Validator (V_PendingTransaction (sample_transaction (Send 1) eth_addr verse_addr eth_addr 5))])"
proof -
  have order: "iter_order (pe_it_vertices sample_penv)" by (simp add: sample_penv_def iter_order_id)
  let ?t = "sample_transaction (Send 0) eth_addr verse_addr eth_addr 4"
  let ?u = "sample_transaction (Send 1) eth_addr verse_addr eth_addr 5"
  have sched: "schedule_with_validator sample_penv ?t None = [To_Validator (V_PendingTransaction ?t)]"
      "schedule_with_validator sample_penv ?u None = [To_Validator (V_PendingTransaction ?u)]"
    by (simp_all add: schedule_with_validator_def sample_penv_def send_to_def)
  obtain s where s: "pending_handle sample_penv (PT_New ?t None) pending_init = Ok (s, [To_Validator (V_PendingTransaction ?t)])"
    using pending_refines_spec [OF pending_reachable.init order, of "PT_New ?t None"] sched by auto
  then have "pending_reachable s" using pending_reachable.step [OF pending_reachable.init order] by blast
  then show ?thesis
    using pending_refines_spec [OF _ order, of s "PT_New ?u None"] s sched by auto
qed

text \<open>The bridge-in transactions the validator was sent, against those the actor remembers.\<close>

lemma schedule_count:
  "count_list (schedule_with_validator env tx outs) (To_Validator (V_PendingTransaction x)) \<le> 1"
  "tx \<noteq> x \<Longrightarrow> count_list (schedule_with_validator env tx outs) (To_Validator (V_PendingTransaction x)) = 0"
  by (auto simp: schedule_with_validator_def send_to_def split: transaction_type.splits)

lemma spec_count:
  assumes "is_bridge_in (tx_transaction_type x)"
  shows "count_list (snd (pending_spec env m v)) (To_Validator (V_PendingTransaction x)) \<le>
     (if x \<in> set (pw_seen v) then 0 else if x \<in> set (pw_seen (fst (pending_spec env m v))) then 1 else 0) \<and>
     set (pw_seen v) \<subseteq> set (pw_seen (fst (pending_spec env m v)))"
proof (cases m)
  case (PT_New tx outs)
  then show ?thesis using assms schedule_count(1) [where env = env and tx = tx and outs = outs and x = x]
      schedule_count(2) [where env = env and tx = tx and outs = outs and x = x] by auto
qed (auto simp: spec_done_def send_to_executor_def send_to_def)

lemma run_count:
  assumes "is_bridge_in (tx_transaction_type x)" and "\<And>env m. (env, m) \<in> set ms \<Longrightarrow> iter_order (pe_it_vertices env)"
    and "idle s" and "pending_run ms s = Ok (s', out)"
  shows "count_list out (To_Validator (V_PendingTransaction x)) \<le> (if x \<in> set (ps_bridge_in s) then 0 else 1)"
  using assms(2-4)
proof (induction ms arbitrary: s out)
  case (Cons e ms)
  obtain env m where e: "e = (env, m)" by force
  obtain s1 out1 out2 where run: "pending_handle env m s = Ok (s1, out1)" "pending_run ms s1 = Ok (s', out2)"
      "out = out1 @ out2"
    using Cons.prems(3) by (auto simp: e outcome_simps)
  have "\<not> confirmed m" using run(1) by (cases m) auto
  then have idle: "idle s1" "out1 = snd (pending_spec env m (pending_abs s))"
      "pending_abs s1 = fst (pending_spec env m (pending_abs s))"
    using pending_handle_idle [of s env m] Cons.prems(1) [of env m] Cons.prems(2) run(1) by (auto simp: e)
  have seen: "pw_seen (pending_abs s) = ps_bridge_in s" "pw_seen (pending_abs s1) = ps_bridge_in s1"
    by (simp_all add: pending_abs_def)
  have "count_list out2 (To_Validator (V_PendingTransaction x)) \<le> (if x \<in> set (ps_bridge_in s1) then 0 else 1)"
  proof (rule Cons.IH [OF _ idle(1) run(2)])
    show "iter_order (pe_it_vertices env')" if "(env', m') \<in> set ms" for env' m'
      using that Cons.prems(1) [of env' m'] by simp
  qed
  then show ?case
    using spec_count [OF assms(1), where env = env and m = m and v = "pending_abs s"] idle(2,3) seen run(3)
    by (auto split: if_splits)
qed simp

text \<open>
  However messages arrive, the validator is sent a given bridge-in transaction at most once:
  a deposit that the event listener reports again is dropped.
\<close>

theorem bridge_in_validated_once:
  assumes "is_bridge_in (tx_transaction_type x)" and "\<And>env m. (env, m) \<in> set ms \<Longrightarrow> iter_order (pe_it_vertices env)"
    and "pending_run ms pending_init = Ok (s, out)"
  shows "count_list out (To_Validator (V_PendingTransaction x)) \<le> 1"
  using run_count [OF assms(1,2) pending_reachable_idle [OF pending_reachable.init] assms(3)]
  by (simp add: pending_init_def)

theorem bridge_in_validated_once_witness:
  "\<exists>s out. pending_run [(sample_penv, PT_New (sample_transaction (BridgeIn 0) eth_addr eth_addr eth_addr 4) None),
        (sample_penv, PT_New (sample_transaction (BridgeIn 0) eth_addr eth_addr eth_addr 4) None)] pending_init = Ok (s, out) \<and>
     count_list out (To_Validator (V_PendingTransaction (sample_transaction (BridgeIn 0) eth_addr eth_addr eth_addr 4))) \<le> 1"
proof -
  let ?x = "sample_transaction (BridgeIn 0) eth_addr eth_addr eth_addr 4"
  let ?ms = "[(sample_penv, PT_New ?x None), (sample_penv, PT_New ?x None)]"
  have order: "iter_order (pe_it_vertices sample_penv)" by (simp add: sample_penv_def iter_order_id)
  obtain s1 where s1: "pending_handle sample_penv (PT_New ?x None) pending_init = Ok (s1, schedule_with_validator sample_penv ?x None)"
      "idle s1" "pending_abs s1 = fst (pending_spec sample_penv (PT_New ?x None) (pending_abs pending_init))"
    using pending_handle_idle [OF pending_reachable_idle [OF pending_reachable.init] order, of "PT_New ?x None"]
    by (auto simp: pending_abs_def pending_init_def)
  obtain s2 out2 where s2: "pending_handle sample_penv (PT_New ?x None) s1 = Ok (s2, out2)"
    using pending_handle_idle [OF s1(2) order, of "PT_New ?x None"] by auto
  have "pending_run ?ms pending_init = Ok (s2, schedule_with_validator sample_penv ?x None @ out2)"
    using s1(1) s2 by (simp del: pending_handle.simps)
  then show ?thesis
    using bridge_in_validated_once [of ?x ?ms s2] order by auto
qed

end
