(* ===== verification/Engine_Model.thy ===== *)
theory Engine_Model
  imports Messages_Model
begin

text \<open>
  The engine (crates/actors/src/engine.rs): it turns bridge events of the settlement contract into
  bridge-in transactions, passes sends to the pending transactions and calls and registrations to
  the executor, and parses the outputs of an executed call. Each operation returns the messages it
  sent and its result; the handler drops the result, so an error after a message leaves the
  message sent. JSON parsing is a parameter (record \<open>engine_env\<close>), and so is the build feature
  \<open>remote\<close>.
\<close>

section \<open>Environment\<close>

datatype engine_error = EE_Custom string

fun engine_error_to_string :: "engine_error \<Rightarrow> string" where
  "engine_error_to_string (EE_Custom m) = quoted m"

record engine_env =
  ee_registry :: registry
  ee_crypto :: crypto
  ee_hex :: hex_crate
  ee_secp_display :: "secp_error \<Rightarrow> string"
  ee_parse_inputs :: "string \<Rightarrow> (string, string \<rightharpoonup> json) outcome"
  ee_parse_outputs :: "string \<Rightarrow> (string, outputs) outcome"
  ee_remote :: bool

type_synonym engine_result = "message list \<times> (engine_error, unit) outcome"

section \<open>Accounts\<close>

text \<open>The cache is asked for the address in both branches.\<close>

definition engine_get_account :: "(address \<Rightarrow> account option) \<Rightarrow> address \<Rightarrow> account_type \<Rightarrow> account" where
  "engine_get_account lookup address ty =
     (case lookup address of Some account \<Rightarrow> account | None \<Rightarrow> account_new ty None address None)"

definition get_caller_account :: "(address \<Rightarrow> account option) \<Rightarrow> address \<Rightarrow> (engine_error, account) outcome" where
  "get_caller_account lookup address = ok_or (lookup address) (EE_Custom ''caller account does not exist'')"

definition engine_get_program_account ::
    "(address \<Rightarrow> account option) \<Rightarrow> account_type \<Rightarrow> (engine_error, account) outcome" where
  "engine_get_program_account lookup ty =
     (case ty of
        Program program_address \<Rightarrow> ok_or (lookup program_address) (EE_Custom ''caller account does not exist'')
      | User \<Rightarrow> Err (EE_Custom ''caller account does not exist''))"

definition write_to_cache :: "engine_env \<Rightarrow> account \<Rightarrow> message list" where
  "write_to_cache env account =
     (if registered (ee_registry env) AccountCacheActor
      then send_to (ee_registry env) AccountCacheActor (To_AccountCache (AC_Write account)) else [])"

section \<open>Handlers\<close>

text \<open>\<open>where_is(..).ok_or(..)?\<close>, then \<open>cast(..).map_err(..)?\<close>.\<close>

definition cast_checked :: "engine_env \<Rightarrow> actor_type \<Rightarrow> string \<Rightarrow> message \<Rightarrow> engine_result" where
  "cast_checked env a missing m =
     (if \<not> registered (ee_registry env) a then ([], Err (EE_Custom missing))
      else if \<not> castable (ee_registry env) a
      then ([], Err (EE_Custom (error_to_string (ee_secp_display env) (MessagingErr (actor_type_to_string a)))))
      else ([m], Ok ()))"

definition set_pending_transaction :: "engine_env \<Rightarrow> transaction \<Rightarrow> outputs option \<Rightarrow> engine_result" where
  "set_pending_transaction env tx outs =
     cast_checked env PendingTransactions ''unable to acquire pending transactions actor''
       (To_Pending (PT_New tx outs))"

definition bridge_transaction :: "bridge_event \<Rightarrow> transaction" where
  "bridge_transaction event =
     \<lparr>tx_transaction_type = BridgeIn (be_bridge_event_id event), tx_from = be_user event,
      tx_to = be_user event, tx_program_id = be_program_id event, tx_op = '''', tx_inputs = '''',
      tx_value = be_amount event, tx_nonce = be_bridge_event_id event, tx_v = 0,
      tx_r = replicate 32 0, tx_s = replicate 32 0\<rparr>"

text \<open>An event that cannot be passed on ends the loop: the events after it are lost.\<close>

fun handle_bridge_event :: "engine_env \<Rightarrow> bridge_event list \<Rightarrow> engine_result" where
  "handle_bridge_event env [] = ([], Ok ())"
| "handle_bridge_event env (event # events) =
     (case set_pending_transaction env (bridge_transaction event) None of
        (ms, Ok _) \<Rightarrow> (case handle_bridge_event env events of (ms', r) \<Rightarrow> (ms @ ms', r))
      | (ms, r) \<Rightarrow> (ms, r))"

definition inform_executor :: "engine_env \<Rightarrow> executor_message \<Rightarrow> engine_result" where
  "inform_executor env m =
     cast_checked env Executor ''engine.rs 161: Error: unable to acquire executor'' (To_Executor m)"

definition engine_handle_call :: "engine_env \<Rightarrow> transaction \<Rightarrow> engine_result" where
  "engine_handle_call env tx = inform_executor env (X_Set tx)"

definition engine_handle_send :: "engine_env \<Rightarrow> transaction \<Rightarrow> engine_result" where
  "engine_handle_send env tx = set_pending_transaction env tx None"

definition required_content_id :: "engine_env \<Rightarrow> transaction \<Rightarrow> (engine_error, string) outcome" where
  "required_content_id env tx =
     obind (map_err EE_Custom (ee_parse_inputs env (tx_inputs tx))) (\<lambda>json.
     case json ''contentId'' of
       Some (J_Str h) \<Rightarrow> Ok h
     | Some _ \<Rightarrow> Err (EE_Custom ''contentId is incorrect type'')
     | None \<Rightarrow> Err (EE_Custom ''contentId is required''))"

definition handle_register_program :: "engine_env \<Rightarrow> transaction \<Rightarrow> engine_result" where
  "handle_register_program env tx =
     (if length (tx_hash (ee_crypto env) tx) \<noteq> 32
      then ([], Panic ''source slice length does not match destination slice length'')
      else
        (case obind (required_content_id env tx) (\<lambda>content_id.
                obind (map_err (\<lambda>e. EE_Custom (error_to_string (ee_secp_display env) e))
                  (create_program_id (ee_crypto env) (ee_hex env) (ee_secp_display env) content_id tx)) (\<lambda>program_id.
                Ok (content_id, program_id))) of
           Ok (content_id, program_id) \<Rightarrow>
             inform_executor env
               (if ee_remote env then X_Retrieve tx content_id program_id else X_Create tx content_id)
         | Err e \<Rightarrow> ([], Err e)
         | Panic p \<Rightarrow> ([], Panic p)))"

definition respond_with_error :: "engine_env \<Rightarrow> string \<Rightarrow> string \<Rightarrow> string \<Rightarrow> message list" where
  "respond_with_error env hash outs err =
     (if registered (ee_registry env) Scheduler
      then send_to (ee_registry env) Scheduler (To_Scheduler (S_CallTransactionFailure hash outs err)) else [])"

definition call_success :: "engine_env \<Rightarrow> transaction \<Rightarrow> string \<Rightarrow> engine_result" where
  "call_success env tx outs =
     (case map_err EE_Custom (ee_parse_outputs env outs) of
        Err e \<Rightarrow>
          (respond_with_error env (hash_string (ee_crypto env) tx) outs (engine_error_to_string e), Err e)
      | Panic p \<Rightarrow> ([], Panic p)
      | Ok parsed_outputs \<Rightarrow>
          cast_checked env PendingTransactions ''unable to acquire PendingTransactions Actor''
            (To_Pending (PT_New tx (Some parsed_outputs))))"

text \<open>An error is answered here too, after \<open>call_success\<close> may have answered it already.\<close>

definition handle_call_success :: "engine_env \<Rightarrow> transaction \<Rightarrow> string \<Rightarrow> string \<Rightarrow> engine_result" where
  "handle_call_success env tx transaction_hash outs =
     (case call_success env tx outs of
        (ms, Err e) \<Rightarrow> (ms @ respond_with_error env transaction_hash outs (engine_error_to_string e), Ok ())
      | (ms, r) \<Rightarrow> (ms, r))"

fun engine_handle :: "engine_env \<Rightarrow> engine_message \<Rightarrow> engine_result" where
  "engine_handle env (E_BridgeEvents log) =
     (case handle_bridge_event env log of (ms, Err e) \<Rightarrow> (ms, Ok ()) | (ms, r) \<Rightarrow> (ms, r))"
| "engine_handle env E_SettlementEvents = ([], Ok ())"
| "engine_handle env (E_Cache address account) = (write_to_cache env account, Ok ())"
| "engine_handle env (E_Call tx) = engine_handle_call env tx"
| "engine_handle env (E_Send tx) = engine_handle_send env tx"
| "engine_handle env (E_RegisterProgram tx) = handle_register_program env tx"
| "engine_handle env (E_CallSuccess tx transaction_hash outs) = handle_call_success env tx transaction_hash outs"
| "engine_handle env (E_RegistrationSuccess transaction_hash) = ([], Panic ''not yet implemented'')"

section \<open>Lemmas\<close>

definition engine_up :: "engine_env \<Rightarrow> bool" where
  "engine_up env \<longleftrightarrow> (\<forall>a. registered (ee_registry env) a \<and> castable (ee_registry env) a)"

lemma cast_checked_up: "engine_up env \<Longrightarrow> cast_checked env a s m = ([m], Ok ())"
  by (simp add: cast_checked_def engine_up_def)

lemma bridge_events_up:
  "engine_up env \<Longrightarrow>
     handle_bridge_event env events = (map (\<lambda>e. To_Pending (PT_New (bridge_transaction e) None)) events, Ok ())"
  by (induction events) (simp_all add: set_pending_transaction_def cast_checked_up)

section \<open>Properties\<close>

text \<open>
  A batch of bridge events becomes one bridge-in transaction each, in the order of the
  events, when the pending transactions take messages; when they do not, none is passed on and
  the actor goes on. Two events give the same transaction exactly when they agree on the event
  id, the user, the program and the amount: the token id and the token type of an event are
  ignored.
\<close>

theorem bridge_events_forwarded:
  "fst (engine_handle env (E_BridgeEvents events)) =
     (if registered (ee_registry env) PendingTransactions \<and> castable (ee_registry env) PendingTransactions
      then map (\<lambda>e. To_Pending (PT_New (bridge_transaction e) None)) events else []) \<and>
   snd (engine_handle env (E_BridgeEvents events)) = Ok () \<and>
   (bridge_transaction e1 = bridge_transaction e2 \<longleftrightarrow>
      be_bridge_event_id e1 = be_bridge_event_id e2 \<and> be_user e1 = be_user e2 \<and>
      be_program_id e1 = be_program_id e2 \<and> be_amount e1 = be_amount e2)"
proof -
  have "handle_bridge_event env events =
      (map (\<lambda>e. To_Pending (PT_New (bridge_transaction e) None)) events, Ok ())"
    if "registered (ee_registry env) PendingTransactions" "castable (ee_registry env) PendingTransactions"
    using that by (induction events) (simp_all add: set_pending_transaction_def cast_checked_def)
  moreover have "fst (handle_bridge_event env events) = [] \<and>
      (snd (handle_bridge_event env events) = Ok () \<or> is_Err (snd (handle_bridge_event env events)))"
    if "\<not> (registered (ee_registry env) PendingTransactions \<and> castable (ee_registry env) PendingTransactions)"
    using that by (cases events) (auto simp: set_pending_transaction_def cast_checked_def)
  ultimately show ?thesis
    by (cases "snd (handle_bridge_event env events)")
      (auto simp: bridge_transaction_def split: prod.splits outcome.splits)
qed

text \<open>
  Outputs of a call that do not parse are answered with a failure for the transaction, twice:
  by \<open>call_success\<close> and again by its caller; nothing is passed on. Outputs that parse are passed
  on to the pending transactions with the call, and nothing is answered.
\<close>

theorem call_outputs_verdict:
  assumes "engine_up env" and "\<And>p. ee_parse_outputs env outs \<noteq> Panic p"
  shows "engine_handle env (E_CallSuccess tx hash outs) =
     (case ee_parse_outputs env outs of
        Ok parsed \<Rightarrow> ([To_Pending (PT_New tx (Some parsed))], Ok ())
      | Err m \<Rightarrow> ([To_Scheduler (S_CallTransactionFailure (hash_string (ee_crypto env) tx) outs (quoted m)),
                  To_Scheduler (S_CallTransactionFailure hash outs (quoted m))], Ok ())
      | Panic p \<Rightarrow> ([], Panic p))"
  using assms
  by (cases "ee_parse_outputs env outs")
    (auto simp: handle_call_success_def call_success_def cast_checked_up respond_with_error_def send_to_def
      engine_up_def)

definition sample_eenv :: engine_env where
  "sample_eenv = \<lparr>ee_registry = all_up, ee_crypto = sample_crypto, ee_hex = hex_ref, ee_secp_display = (\<lambda>_. ''secp''),
     ee_parse_inputs = (\<lambda>s. Ok [''contentId'' \<mapsto> J_Str s]), ee_parse_outputs = (\<lambda>s. Err ''eof''), ee_remote = False\<rparr>"

lemma sample_eenv_sel [simp]:
  "engine_up sample_eenv" "ee_crypto sample_eenv = sample_crypto" "ee_hex sample_eenv = hex_ref"
  "ee_parse_outputs sample_eenv s = Err ''eof''" "ee_parse_inputs sample_eenv s = Ok [''contentId'' \<mapsto> J_Str s]"
  by (simp_all add: engine_up_def sample_eenv_def)

theorem call_outputs_verdict_witness:
  "fst (engine_handle sample_eenv (E_CallSuccess default_transaction ''0x'' ''{'')) =
     [To_Scheduler (S_CallTransactionFailure (hash_string sample_crypto default_transaction) ''{'' (quoted ''eof'')),
      To_Scheduler (S_CallTransactionFailure ''0x'' ''{'' (quoted ''eof''))]"
  using call_outputs_verdict [of sample_eenv "''{''" default_transaction "''0x''"]
  by simp

text \<open>
  A registration reaches the executor exactly when its inputs parse with a string content
  id and the signature recovers to an address; in every other case nothing is sent, to the
  executor or to the client.
\<close>

theorem registration_forwarded_iff:
  assumes "engine_up env" and "length (tx_hash (ee_crypto env) tx) = 32"
  shows "fst (engine_handle env (E_RegisterProgram tx)) \<noteq> [] \<longleftrightarrow>
     (\<exists>json cid pid. ee_parse_inputs env (tx_inputs tx) = Ok json \<and> json ''contentId'' = Some (J_Str cid) \<and>
        create_program_id (ee_crypto env) (ee_hex env) (ee_secp_display env) cid tx = Ok pid)"
proof -
  have cid: "required_content_id env tx = Ok cid \<longleftrightarrow>
      (\<exists>json. ee_parse_inputs env (tx_inputs tx) = Ok json \<and> json ''contentId'' = Some (J_Str cid))" for cid
    by (cases "ee_parse_inputs env (tx_inputs tx)")
      (auto simp: required_content_id_def split: option.splits json.splits)
  have "fst (handle_register_program env tx) \<noteq> [] \<longleftrightarrow>
      (\<exists>cid pid. required_content_id env tx = Ok cid \<and>
         create_program_id (ee_crypto env) (ee_hex env) (ee_secp_display env) cid tx = Ok pid)"
    using assms
    by (cases "required_content_id env tx")
      (auto simp: handle_register_program_def inform_executor_def cast_checked_up outcome_simps
        split: outcome.split)
  then show ?thesis by (auto simp: cid)
qed

theorem registration_forwarded_iff_witness:
  "fst (engine_handle sample_eenv (E_RegisterProgram (default_transaction\<lparr>tx_v := 27\<rparr>))) \<noteq> []"
proof -
  have "length (tx_hash (ee_crypto sample_eenv) (default_transaction\<lparr>tx_v := 27\<rparr>)) = 32"
    by (simp add: tx_hash_def sample_crypto_def)
  from registration_forwarded_iff [OF sample_eenv_sel(1) this] show ?thesis
    using sample_program_id by simp
qed

end
