(* ===== verification/Executor_Model.thy ===== *)
theory Executor_Model
  imports Messages_Model
begin

text \<open>
  The executor (crates/actors/src/executor.rs, the build without the \<open>remote\<close> feature) and the task
  that runs a program's container (\<open>run_container\<close> of crates/compute/src/compute.rs). The state is
  the map of join handles of the containers started, by program id and transaction hash. What the
  file system, the container runtime and the content store answer are parameters (records
  \<open>container_io\<close> and \<open>executor_env\<close>). A handle is the value its task ends with: \<open>Ok\<close> and \<open>Err\<close>
  are the task's result, \<open>Panic\<close> the join error of a task that was aborted.
\<close>

section \<open>Running a container\<close>

text \<open>
  The answers to one run, as the text of the error or nothing; the text is the \<open>Debug\<close> form that
  the code puts in its own message.
\<close>

record container_io =
  io_temp_dir :: string
  io_create_dir :: "string option"
  io_file_exists :: bool
  io_clear_file :: "string option"
  io_create_file :: "string option"
  io_spawn :: "string option"
  io_has_stdin :: bool
  io_inputs_json :: "string option"
  io_join_writer :: "string option"
  io_wait :: "string + bool"
  io_open :: "string option"
  io_read :: "string + string"
  io_cast_error :: string
  io_remove :: "string option"

definition io_step :: "string \<Rightarrow> string option \<Rightarrow> (string, unit) outcome" where
  "io_step msg e = (case e of None \<Rightarrow> Ok () | Some text \<Rightarrow> Err (msg @ text))"

definition temp_file_path :: "container_io \<Rightarrow> string \<Rightarrow> string" where
  "temp_file_path io container_id = io_temp_dir io @ ''/lasr/'' @ container_id @ ''.out''"

text \<open>
  From the temporary file to the output that is read back. A failure to write the inputs to the
  container is dropped; only the task that writes can fail the run.
\<close>

definition container_outputs :: "container_io \<Rightarrow> string \<Rightarrow> (string, string) outcome" where
  "container_outputs io container_id =
     (let path = quoted (temp_file_path io container_id) in
      obind (io_step (''Error creating temp conatiner path '' @ path @ '': '') (io_create_dir io)) (\<lambda>_.
      obind (if io_file_exists io
             then io_step (''Error writing container metadata to '' @ path @ '': '') (io_clear_file io)
             else Ok ()) (\<lambda>_.
      obind (io_step (''Error creating temp container file in path '' @ path @ '':  '') (io_create_file io)) (\<lambda>_.
      obind (io_step (''Error executing runsc command for '' @ container_id @ '': '') (io_spawn io)) (\<lambda>_.
      obind (if io_has_stdin io then Ok ()
             else Err ''unable to acquire child stdin, compute.rs: 120'') (\<lambda>_.
      obind (io_step '''' (io_inputs_json io)) (\<lambda>_.
      obind (io_step ''Unable to join async handle: '' (io_join_writer io)) (\<lambda>_.
      obind (case io_wait io of
               Inl e \<Rightarrow> Err (''Error retrieving child status: '' @ e)
             | Inr success \<Rightarrow> if success then Ok () else Err ''runsc command failed'') (\<lambda>_.
      obind (io_step (''Failed to open '' @ path @ '': '') (io_open io)) (\<lambda>_.
      case io_read io of
        Inl e \<Rightarrow> Err (''Failed to parse '' @ e)
      | Inr outs \<Rightarrow>
          if outs = '''' then Err ''temporary file is empty after container execution''
          else Ok outs))))))))))"

text \<open>
  The spawned task: the messages it sends and the value its handle yields. The executor is told
  about a run only when there is an output.
\<close>

definition run_container ::
    "registry \<Rightarrow> container_io \<Rightarrow> string \<Rightarrow> string \<Rightarrow> transaction option \<Rightarrow> string option
       \<Rightarrow> message list \<times> (string, string) outcome" where
  "run_container reg io content_id program_id tx transaction_hash =
     (case container_outputs io content_id of
        Ok outs \<Rightarrow>
          if \<not> registered reg Executor
          then ([], Err ''unable to acquire Executor actor from inside container execution thread'')
          else if \<not> castable reg Executor
          then ([], Err (''Failed to cast message to executor: '' @ io_cast_error io))
          else ([To_Executor (X_Results tx content_id program_id transaction_hash)],
                obind (io_step (''Error removing temp container file ''
                         @ quoted (temp_file_path io content_id) @ '': '') (io_remove io)) (\<lambda>_. Ok outs))
      | r \<Rightarrow> ([], r))"

section \<open>State and messages\<close>

type_synonym handles = "(string \<times> string, (string, string) outcome) hashmap"

record executor_env =
  xe_registry :: registry
  xe_crypto :: crypto
  xe_hex :: hex_crate
  xe_secp_display :: "secp_error \<Rightarrow> string"
  xe_lookup :: "address \<Rightarrow> account option"
  xe_pinned :: "string \<Rightarrow> bool"
  xe_pin :: "string \<Rightarrow> string option"
  xe_bundle :: "string \<Rightarrow> string option"
  xe_container :: "string \<Rightarrow> inputs \<Rightarrow> container_io"

text \<open>The \<open>Debug\<close> form of \<open>std::io::Error::new(ErrorKind::Other, text)\<close>.\<close>

definition debug_io_error :: "string \<Rightarrow> string" where
  "debug_io_error text = ''Custom { kind: Other, error: '' @ quoted text @ '' }''"

definition executor_cast ::
    "executor_env \<Rightarrow> actor_type \<Rightarrow> string \<Rightarrow> message \<Rightarrow> message list \<times> (string, unit) outcome" where
  "executor_cast env a missing m =
     (if \<not> registered (xe_registry env) a then ([], Err missing)
      else if \<not> castable (xe_registry env) a
      then ([], Err (error_to_string (xe_secp_display env) (MessagingErr (actor_type_to_string a))))
      else ([m], Ok ()))"

definition parse_inputs ::
    "executor_env \<Rightarrow> transaction \<Rightarrow> string \<Rightarrow> string \<Rightarrow> (string, inputs) outcome" where
  "parse_inputs env tx op inputs =
     (case xe_lookup env (tx_to tx) of
        Some program_account \<Rightarrow>
          Ok \<lparr>in_version = 1, in_account_info = program_account, in_transaction = tx, in_op = op, in_inputs = inputs\<rparr>
      | None \<Rightarrow> Err (''program account '' @ to_full_string (tx_to tx) @ '' does not exist''))"

definition set_pending_call :: "executor_env \<Rightarrow> transaction \<Rightarrow> message list \<times> (string, unit) outcome" where
  "set_pending_call env tx =
     (if \<not> registered (xe_registry env) PendingTransactions
      then ([], Err ''unable to acquire PendingTransactions actor'')
      else (send_to (xe_registry env) PendingTransactions (To_Pending (PT_NewCall tx)), Ok ()))"

text \<open>The requirements of an operation are only logged.\<close>

fun handle_prerequisites :: "required list \<Rightarrow> (string, string list) outcome" where
  "handle_prerequisites [] = Ok []"
| "handle_prerequisites (Req_Call c oc p i op # reqs) = handle_prerequisites reqs"
| "handle_prerequisites (Req_Read r c # reqs) = handle_prerequisites reqs"
| "handle_prerequisites (Req_Lock a p # reqs) = handle_prerequisites reqs"
| "handle_prerequisites (Req_Unlock a p # reqs) = handle_prerequisites reqs"

definition registration_error :: "executor_env \<Rightarrow> string \<Rightarrow> string \<Rightarrow> message list \<times> (string, unit) outcome" where
  "registration_error env transaction_hash error_string =
     executor_cast env Scheduler ''unable to acquire Scheduler''
       (To_Scheduler (S_RegistrationFailure transaction_hash error_string))"

definition registration_success :: "executor_env \<Rightarrow> transaction \<Rightarrow> message list \<times> (string, unit) outcome" where
  "registration_success env tx =
     executor_cast env Batcher ''unable to acquire batcher'' (To_Batcher (B_AppendTransaction tx None))"

definition execution_success ::
    "executor_env \<Rightarrow> transaction \<Rightarrow> string \<Rightarrow> message list \<times> (string, unit) outcome" where
  "execution_success env tx outs =
     (case executor_cast env PendingTransactions ''unable to acquire PendingTransactions actor''
             (To_Pending (PT_ExecSuccess tx)) of
        (ms, Ok _) \<Rightarrow>
          (case executor_cast env Engine ''Unable to acquire Engine actor''
                  (To_Engine (E_CallSuccess tx (hash_string (xe_crypto env) tx) outs)) of
             (ms', r) \<Rightarrow> (ms @ ms', r))
      | (ms, r) \<Rightarrow> (ms, r))"

definition execution_error :: "executor_env \<Rightarrow> string \<Rightarrow> string \<Rightarrow> message list \<times> (string, unit) outcome" where
  "execution_error env transaction_hash err =
     executor_cast env Scheduler ''Unable to acquire Engine actor''
       (To_Scheduler (S_CallTransactionFailure transaction_hash '''' err))"

definition call_queued_for_exec :: "executor_env \<Rightarrow> transaction \<Rightarrow> message list \<times> (string, unit) outcome" where
  "call_queued_for_exec env tx =
     executor_cast env Scheduler ''Unable to acquire Scheduler actor''
       (To_Scheduler (S_CallTransactionAsyncPending (hash_string (xe_crypto env) tx)))"

section \<open>The futures\<close>

text \<open>
  Registration. A pinning failure is reported and the bundle is made all the same. A panic ends
  the future with the messages sent before it.
\<close>

definition executor_create :: "executor_env \<Rightarrow> transaction \<Rightarrow> string \<Rightarrow> message list \<times> (string, unit) outcome" where
  "executor_create env tx content_id =
     (let hash = hash_string (xe_crypto env) tx;
          pin = (if xe_pinned env content_id then []
                 else case xe_pin env content_id of
                        None \<Rightarrow> []
                      | Some e \<Rightarrow> fst (registration_error env hash e))
      in case xe_bundle env content_id of
           Some e \<Rightarrow> (pin @ fst (registration_error env hash e), Ok ())
         | None \<Rightarrow>
             (case create_program_id (xe_crypto env) (xe_hex env) (xe_secp_display env) content_id tx of
                Ok program_id \<Rightarrow> (pin @ fst (registration_success env tx), Ok ())
              | Err e \<Rightarrow>
                  (pin @ fst (registration_error env hash (error_to_string (xe_secp_display env) e)), Ok ())
              | Panic p \<Rightarrow> (pin, Panic p)))"

definition executor_set :: "executor_env \<Rightarrow> transaction \<Rightarrow> message list" where
  "executor_set env tx =
     (let hash = hash_string (xe_crypto env) tx in
      case xe_lookup env (tx_program_id tx) of
        None \<Rightarrow> fst (execution_error env hash ''program account does not exist, unable to execute'')
      | Some account \<Rightarrow>
          (case parse_inputs env tx (tx_op tx) (tx_inputs tx) of
             Ok inputs \<Rightarrow>
               (case set_pending_call env tx of
                  (ms, Err e) \<Rightarrow>
                    ms @ fst (execution_error env hash
                      (''unable to set transaction in pending: '' @ debug_io_error e))
                | (ms, _) \<Rightarrow> ms @ fst (call_queued_for_exec env tx))
           | Err e \<Rightarrow>
               fst (execution_error env hash (''unable to set transaction in pending: '' @ debug_io_error e))
           | Panic p \<Rightarrow> []))"

definition container_content_id :: "account \<Rightarrow> address \<Rightarrow> string" where
  "container_content_id account program_id =
     (case acc_program_account_metadata account ''content_id'' of
        Some cid \<Rightarrow> cid | None \<Rightarrow> to_full_string program_id)"

text \<open>The task of the container runs to its end; the engine is locked until the handle is stored.\<close>

definition executor_exec :: "executor_env \<Rightarrow> transaction \<Rightarrow> handles \<Rightarrow> handles \<times> message list" where
  "executor_exec env tx hs =
     (let hash = hash_string (xe_crypto env) tx; program_id = tx_program_id tx in
      case xe_lookup env program_id of
        None \<Rightarrow> (hs, fst (execution_error env hash ''program account does not exist, unable to execute''))
      | Some account \<Rightarrow>
          (case parse_inputs env tx (tx_op tx) (tx_inputs tx) of
             Ok inputs \<Rightarrow>
               (let content_id = container_content_id account program_id in
                case run_container (xe_registry env) (xe_container env content_id inputs) content_id
                       (to_full_string program_id) (Some tx) (Some hash) of
                  (ms, handle) \<Rightarrow> (hm_insert (to_full_string program_id, hash) handle hs, ms))
           | Err e \<Rightarrow> (hs, fst (execution_error env hash e))
           | Panic p \<Rightarrow> (hs, [])))"

definition executor_results ::
    "executor_env \<Rightarrow> transaction option \<Rightarrow> string \<Rightarrow> string option \<Rightarrow> handles \<Rightarrow> handles \<times> message list" where
  "executor_results env transaction program_id transaction_hash hs =
     (case transaction_hash of
        None \<Rightarrow> (hs, [])
      | Some hash \<Rightarrow>
          (case hm_get hs (program_id, hash) of
             None \<Rightarrow> (hs, [])
           | Some handle \<Rightarrow>
               (hm_remove (program_id, hash) hs,
                case handle of
                  Ok output \<Rightarrow>
                    (case transaction of
                       Some tx \<Rightarrow> fst (execution_success env tx output)
                     | None \<Rightarrow> [])
                | Err e \<Rightarrow> fst (execution_error env hash e)
                | Panic e \<Rightarrow> fst (execution_error env hash e))))"

fun executor_handle ::
    "executor_env \<Rightarrow> executor_message \<Rightarrow> handles \<Rightarrow> handles \<times> message list \<times> (string, unit) outcome" where
  "executor_handle env (X_Create tx content_id) hs = (hs, executor_create env tx content_id)"
| "executor_handle env (X_Set tx) hs = (hs, executor_set env tx, Ok ())"
| "executor_handle env (X_Exec tx) hs = (case executor_exec env tx hs of (hs', ms) \<Rightarrow> (hs', ms, Ok ()))"
| "executor_handle env (X_Results tx content_id program_id hash) hs =
     (case executor_results env tx program_id hash hs of (hs', ms) \<Rightarrow> (hs', ms, Ok ()))"
| "executor_handle env (X_Retrieve tx content_id program_id) hs = (hs, [], Ok ())"
| "executor_handle env (X_Start content_id) hs = (hs, [], Ok ())"
| "executor_handle env (X_Kill content_id) hs = (hs, [], Ok ())"
| "executor_handle env (X_Delete content_id) hs = (hs, [], Ok ())"
| "executor_handle env (X_PollJobStatus job_id) hs = (hs, [], Ok ())"

section \<open>Lemmas\<close>

definition executor_up :: "executor_env \<Rightarrow> bool" where
  "executor_up env \<longleftrightarrow> (\<forall>a. registered (xe_registry env) a \<and> castable (xe_registry env) a)"

lemma executor_cast_up: "executor_up env \<Longrightarrow> executor_cast env a s m = ([m], Ok ())"
  by (simp add: executor_cast_def executor_up_def)

lemmas executor_reports = registration_error_def registration_success_def execution_success_def
  execution_error_def call_queued_for_exec_def

lemma execution_success_up:
  "executor_up env \<Longrightarrow> execution_success env tx outs =
     ([To_Pending (PT_ExecSuccess tx), To_Engine (E_CallSuccess tx (hash_string (xe_crypto env) tx) outs)], Ok ())"
  by (simp add: execution_success_def executor_cast_up)

lemma run_container_silent_iff:
  assumes "executor_up env"
  shows "fst (run_container (xe_registry env) io cid pid tx h) = [] \<longleftrightarrow> \<not> is_Ok (container_outputs io cid)"
  using assms by (cases "container_outputs io cid") (auto simp: run_container_def executor_up_def)

lemma io_step_safe [simp]: "safe (\<lambda>_. True) (io_step msg e)"
  by (simp add: io_step_def split: option.split)

lemma container_outputs_safe: "safe (\<lambda>_. True) (container_outputs io cid)"
  unfolding container_outputs_def Let_def
  by (intro safe_obind [where Q = "\<lambda>_. True"]) (simp_all split: sum.split)

text \<open>What is sent about executed calls, and the executions asked for.\<close>

definition call_successes :: "message list \<Rightarrow> nat" where
  "call_successes out = length (filter (\<lambda>m. \<exists>tx h outs. m = To_Engine (E_CallSuccess tx h outs)) out)"

fun is_exec :: "executor_message \<Rightarrow> bool" where
  "is_exec (X_Exec tx) = True"
| "is_exec _ = False"

fun executor_run ::
    "(executor_env \<times> executor_message) list \<Rightarrow> handles \<Rightarrow> handles \<times> message list" where
  "executor_run [] hs = (hs, [])"
| "executor_run ((env, m) # ms) hs =
     (case executor_handle env m hs of (hs', out, r) \<Rightarrow>
        case executor_run ms hs' of (hs'', out') \<Rightarrow> (hs'', out @ out'))"

lemma call_successes_simps [simp]:
  "call_successes [] = 0" "call_successes (xs @ ys) = call_successes xs + call_successes ys"
  "call_successes (To_Scheduler m # out) = call_successes out"
  "call_successes (To_Pending p # out) = call_successes out"
  "call_successes (To_Batcher b # out) = call_successes out"
  "call_successes (To_Executor x # out) = call_successes out"
  by (simp_all add: call_successes_def)

lemma executor_cast_successes: "call_successes (fst (executor_cast env a s m)) \<le> call_successes [m]"
  by (simp add: executor_cast_def)

lemma executor_reports_successes [simp]:
  "call_successes (fst (registration_error env h e)) = 0" "call_successes (fst (registration_success env tx)) = 0"
  "call_successes (fst (execution_error env h e)) = 0" "call_successes (fst (call_queued_for_exec env tx)) = 0"
  "call_successes (fst (set_pending_call env tx)) = 0"
  by (simp_all add: executor_reports executor_cast_def set_pending_call_def send_to_def)

lemma execution_success_successes: "call_successes (fst (execution_success env tx outs)) \<le> 1"
  by (auto simp: execution_success_def executor_cast_def call_successes_def)

lemma run_container_successes [simp]: "call_successes (fst (run_container reg io cid pid tx h)) = 0"
  by (auto simp: run_container_def split: outcome.splits)

lemma length_hm_remove: "hm_get m k = Some v \<Longrightarrow> length (hm_remove k m) + 1 \<le> length m"
proof (induction m)
  case (Cons e m)
  then show ?case using length_delete_le [of k m] by (cases e) (auto split: if_splits)
qed simp

lemma executor_handle_balance:
  "call_successes (fst (snd (executor_handle env m hs))) + length (fst (executor_handle env m hs)) \<le>
     length hs + (if is_exec m then 1 else 0)"
proof (cases m)
  case (X_Exec tx)
  have len: "length (hm_insert k v hs) \<le> length hs + 1" for k and v :: "(string, string) outcome"
    by (induction hs) auto
  show ?thesis
    using len by (auto simp: X_Exec executor_exec_def Let_def case_prod_beta split: option.split outcome.split)
next
  case (X_Results tx cid pid h)
  show ?thesis
  proof (cases "\<exists>hash. h = Some hash \<and> hm_get hs (pid, hash) \<noteq> None")
    case True
    then obtain hash v where h: "h = Some hash" "hm_get hs (pid, hash) = Some v" by auto
    have "call_successes (snd (executor_results env tx pid h hs)) \<le> 1"
      using execution_success_successes
      by (auto simp: executor_results_def h split: outcome.split option.split)
    then show ?thesis using length_hm_remove [OF h(2)]
      by (auto simp: X_Results executor_results_def h case_prod_beta)
  qed (auto simp: X_Results executor_results_def split: option.split)
next
  case (X_Create tx cid)
  then show ?thesis by (auto simp: executor_create_def Let_def split: option.split outcome.split)
next
  case (X_Set tx)
  then show ?thesis
    by (auto simp: executor_set_def Let_def case_prod_beta set_pending_call_def send_to_def
        split: option.split outcome.split)
qed auto

lemma executor_run_balance:
  "call_successes (snd (executor_run ms hs)) + length (fst (executor_run ms hs)) \<le>
     length hs + length (filter (\<lambda>e. is_exec (snd e)) ms)"
proof (induction ms arbitrary: hs)
  case (Cons e ms)
  obtain env m where e: "e = (env, m)" by force
  show ?case
    using executor_handle_balance [of env m hs] Cons.IH [of "fst (executor_handle env m hs)"]
    by (auto simp: e case_prod_beta split: if_splits)
qed simp

section \<open>Properties\<close>

text \<open>
  However the messages arrive, the executor reports at most as many successful calls as
  executions it was asked for: the handle of a container is used up by the first result.
\<close>

theorem executed_at_most_once:
  "call_successes (snd (executor_run ms [])) \<le> length (filter (\<lambda>e. is_exec (snd e)) ms)"
  using executor_run_balance [of ms "[]"] by simp

text \<open>
  C23: an execution whose container leaves an output, and whose temporary file is removed, sends
  the executor one result message; handling it reports the transaction to the pending
  transactions and the output to the engine, and frees the handle. When the container fails at any
  step (it cannot be started, it exits with an error, its output is empty), nothing at all is sent:
  neither the scheduler nor the pending transactions learn of it, and the handle with the error
  stays in the executor for good.
\<close>

theorem execution_verdict:
  assumes "executor_up env" and "xe_lookup env (tx_program_id tx) = Some account"
    and "parse_inputs env tx (tx_op tx) (tx_inputs tx) = Ok inputs"
    and "cid = container_content_id account (tx_program_id tx)" and "io = xe_container env cid inputs"
    and "h = hash_string (xe_crypto env) tx" and "key = (to_full_string (tx_program_id tx), h)"
    and "hm_get hs key = None"
  shows "case container_outputs io cid of
           Ok outs \<Rightarrow> io_remove io = None \<longrightarrow>
             executor_handle env (X_Exec tx) hs =
               (hm_insert key (Ok outs) hs, [To_Executor (X_Results (Some tx) cid (fst key) (Some h))], Ok ()) \<and>
             executor_handle env (X_Results (Some tx) cid (fst key) (Some h)) (hm_insert key (Ok outs) hs) =
               (hs, [To_Pending (PT_ExecSuccess tx), To_Engine (E_CallSuccess tx h outs)], Ok ())
         | r \<Rightarrow> executor_handle env (X_Exec tx) hs = (hm_insert key r hs, [], Ok ())"
proof -
  have up: "registered (xe_registry env) Executor" "castable (xe_registry env) Executor"
    using assms(1) by (simp_all add: executor_up_def)
  have exec: "executor_handle env (X_Exec tx) hs =
      (case run_container (xe_registry env) io cid (fst key) (Some tx) (Some h) of
         (ms, handle) \<Rightarrow> (hm_insert key handle hs, ms, Ok ()))"
    using assms(2-7) by (simp add: executor_exec_def Let_def case_prod_beta)
  have "hm_remove key (hm_insert key v hs) = hs" for v :: "(string, string) outcome"
    using assms(8) by (induction hs) (auto split: if_splits)
  then show ?thesis
    using exec up execution_success_up [OF assms(1), of tx] assms(6,7)
    by (auto simp: run_container_def executor_results_def io_step_def hm_get_insert split: outcome.split)
qed

text \<open>
  A registration is appended to the batch exactly when its content could be bundled and its
  program id computed, and a failure is reported exactly when pinning, bundling or computing the id
  failed. So after a failed pin the client is told of a failure and the program is registered all
  the same; nothing looks at the type of the transaction.
\<close>

theorem registration_verdict:
  assumes "executor_up env" and "h = hash_string (xe_crypto env) tx"
    and "\<And>p. create_program_id (xe_crypto env) (xe_hex env) (xe_secp_display env) cid tx \<noteq> Panic p"
    and "out = fst (executor_create env tx cid)"
    and "registered_ok \<longleftrightarrow> xe_bundle env cid = None \<and>
           is_Ok (create_program_id (xe_crypto env) (xe_hex env) (xe_secp_display env) cid tx)"
  shows "(To_Batcher (B_AppendTransaction tx None) \<in> set out \<longleftrightarrow> registered_ok) \<and>
     ((\<exists>e. To_Scheduler (S_RegistrationFailure h e) \<in> set out) \<longleftrightarrow>
        \<not> xe_pinned env cid \<and> xe_pin env cid \<noteq> None \<or> \<not> registered_ok)"
  using assms
  by (cases "xe_bundle env cid";
      cases "create_program_id (xe_crypto env) (xe_hex env) (xe_secp_display env) cid tx")
    (auto simp: executor_create_def executor_reports executor_cast_up Let_def split: option.splits)

section \<open>Witnesses\<close>

definition sample_io :: "(string + bool) \<Rightarrow> string \<Rightarrow> container_io" where
  "sample_io status output =
     \<lparr>io_temp_dir = ''/tmp'', io_create_dir = None, io_file_exists = False, io_clear_file = None,
      io_create_file = None, io_spawn = None, io_has_stdin = True, io_inputs_json = None, io_join_writer = None,
      io_wait = status, io_open = None, io_read = Inr output, io_cast_error = '''', io_remove = None\<rparr>"

definition sample_xenv :: "(string + bool) \<Rightarrow> executor_env" where
  "sample_xenv status =
     \<lparr>xe_registry = all_up, xe_crypto = sample_crypto, xe_hex = hex_ref, xe_secp_display = (\<lambda>_. ''secp''),
      xe_lookup = (\<lambda>a. Some (account_new (Program a) None a None)), xe_pinned = (\<lambda>_. False),
      xe_pin = (\<lambda>_. Some ''offline''), xe_bundle = (\<lambda>_. None), xe_container = (\<lambda>_ _. sample_io status ''{}'')\<rparr>"

lemma sample_xenv_sel [simp]:
  "executor_up (sample_xenv r)" "xe_crypto (sample_xenv r) = sample_crypto" "xe_hex (sample_xenv r) = hex_ref"
  "xe_lookup (sample_xenv r) a = Some (account_new (Program a) None a None)"
  "xe_container (sample_xenv r) cid i = sample_io r ''{}''" "xe_pinned (sample_xenv r) cid = False"
  "xe_pin (sample_xenv r) cid = Some ''offline''" "xe_bundle (sample_xenv r) cid = None"
  by (simp_all add: executor_up_def sample_xenv_def)

lemma sample_io_outputs:
  "container_outputs (sample_io r ''{}'') cid =
     (case r of Inr True \<Rightarrow> Ok ''{}'' | Inr False \<Rightarrow> Err ''runsc command failed''
      | Inl e \<Rightarrow> Err (''Error retrieving child status: '' @ e))" "io_remove (sample_io r out) = None"
  by (auto simp: container_outputs_def sample_io_def io_step_def Let_def split: sum.split)

text \<open>A container that exits with an error: no message at all.\<close>

theorem execution_verdict_witness:
  "\<exists>key. executor_handle (sample_xenv (Inr False)) (X_Exec default_transaction) [] =
     ([(key, Err ''runsc command failed'')], [], Ok ())"
  using execution_verdict [of "sample_xenv (Inr False)" default_transaction
      "account_new (Program (tx_program_id default_transaction)) None (tx_program_id default_transaction) None"
      _ _ _ _ _ "[]"]
  by (simp add: parse_inputs_def sample_io_outputs)

theorem registration_verdict_witness:
  "To_Batcher (B_AppendTransaction (default_transaction\<lparr>tx_v := 27\<rparr>) None) \<in>
     set (fst (executor_create (sample_xenv (Inr True)) (default_transaction\<lparr>tx_v := 27\<rparr>) ''cid'')) \<and>
   (\<exists>e. To_Scheduler (S_RegistrationFailure (hash_string sample_crypto (default_transaction\<lparr>tx_v := 27\<rparr>)) e) \<in>
     set (fst (executor_create (sample_xenv (Inr True)) (default_transaction\<lparr>tx_v := 27\<rparr>) ''cid'')))"
proof -
  let ?tx = "default_transaction\<lparr>tx_v := 27\<rparr>" and ?env = "sample_xenv (Inr True)"
  obtain pid where pid: "create_program_id (xe_crypto ?env) (xe_hex ?env) (xe_secp_display ?env) ''cid'' ?tx = Ok pid"
    using sample_program_id by auto
  show ?thesis
    using registration_verdict [of ?env _ ?tx "''cid''" _ True] pid by auto
qed

end
