(* ===== verification/Scheduler_Model.thy ===== *)
theory Scheduler_Model
  imports Messages_Model
begin

text \<open>
  The task scheduler (crates/actors/src/scheduler.rs): it hands requests to the engine and keeps
  the reply port of each under the hash of its transaction, until a message about the transaction
  answers it. A port is a number; a reply to a client that has gone is lost. The messages that the
  actor ignores are \<open>RegistrationFailure\<close> and those no other component of the model sends.
\<close>

section \<open>State and operations\<close>

type_synonym reply_map = "(string, nat) hashmap"

record scheduler_env =
  se_registry :: registry
  se_crypto :: crypto
  se_secp_display :: "secp_error \<Rightarrow> string"
  se_lookup :: "address \<Rightarrow> account option"

text \<open>
  \<open>handle_call\<close>, \<open>handle_send\<close> and \<open>handle_register_program\<close>: find the engine and cast; the
  handler drops their error.
\<close>

definition to_engine :: "scheduler_env \<Rightarrow> engine_message \<Rightarrow> message list" where
  "to_engine env m =
     (if registered (se_registry env) Engine then send_to (se_registry env) Engine (To_Engine m) else [])"

definition handle_get_account_request :: "scheduler_env \<Rightarrow> address \<Rightarrow> nat \<Rightarrow> message list" where
  "handle_get_account_request env address rpc_reply =
     (case se_lookup env address of
        Some account \<Rightarrow> [Rpc_Reply rpc_reply (Inr (GetAccountResponse account))]
      | None \<Rightarrow> [Rpc_Reply rpc_reply (Inl
          ''unable to find account for address {address:?} in Persistence Store or Protocol Cache'')])"

text \<open>\<open>if let Some(reply_port) = state.remove(&transaction_hash)\<close>, then the reply.\<close>

definition reply_to :: "string \<Rightarrow> transaction_response \<Rightarrow> reply_map \<Rightarrow> reply_map \<times> message list" where
  "reply_to hash response state =
     (case hm_get state hash of
        Some reply_port \<Rightarrow> (hm_remove hash state, [Rpc_Reply reply_port (Inr response)])
      | None \<Rightarrow> (state, []))"

fun scheduler_handle :: "scheduler_env \<Rightarrow> scheduler_message \<Rightarrow> reply_map \<Rightarrow> reply_map \<times> message list" where
  "scheduler_handle env (S_Call tx rpc_reply) state =
     (hm_insert (hash_string (se_crypto env) tx) rpc_reply state, to_engine env (E_Call tx))"
| "scheduler_handle env (S_Send tx rpc_reply) state =
     (hm_insert (hash_string (se_crypto env) tx) rpc_reply state, to_engine env (E_Send tx))"
| "scheduler_handle env (S_RegisterProgram tx rpc_reply) state =
     (hm_insert (hash_string (se_crypto env) tx) rpc_reply state, to_engine env (E_RegisterProgram tx))"
| "scheduler_handle env (S_GetAccount address rpc_reply) state =
     (state, handle_get_account_request env address rpc_reply)"
| "scheduler_handle env (S_TransactionApplied hash tok) state = reply_to hash (SendResponse tok) state"
| "scheduler_handle env (S_SendTransactionFailure hash e) state =
     reply_to hash (TransactionError (error_to_string (se_secp_display env) e)) state"
| "scheduler_handle env (S_RegistrationSuccess tx program_id) state =
     reply_to (hash_string (se_crypto env) tx)
       (RegisterProgramResponse (Some (to_full_string program_id))) state"
| "scheduler_handle env (S_CallTransactionAsyncPending hash) state =
     reply_to hash (AsyncCallResponse hash) state"
| "scheduler_handle env (S_CallTransactionApplied hash account) state =
     reply_to hash (CallResponse account) state"
| "scheduler_handle env (S_CallTransactionFailure hash outs e) state =
     reply_to hash (TransactionError
       (''Transaction '' @ hash @ '' failed due to '' @ e @ '': '' @ outs)) state"
| "scheduler_handle env (S_RegistrationFailure hash e) state = (state, [])"

fun scheduler_run ::
    "scheduler_env \<Rightarrow> scheduler_message list \<Rightarrow> reply_map \<Rightarrow> reply_map \<times> message list" where
  "scheduler_run env [] state = (state, [])"
| "scheduler_run env (m # ms) state =
     (case scheduler_handle env m state of (s', out) \<Rightarrow>
        case scheduler_run env ms s' of (s'', out') \<Rightarrow> (s'', out @ out'))"

section \<open>Lemmas\<close>

text \<open>The port a message hands over, the transaction it registers, and the one it is about.\<close>

fun port_of :: "scheduler_message \<Rightarrow> nat option" where
  "port_of (S_Call tx p) = Some p"
| "port_of (S_Send tx p) = Some p"
| "port_of (S_RegisterProgram tx p) = Some p"
| "port_of (S_GetAccount a p) = Some p"
| "port_of _ = None"

fun hash_of :: "crypto \<Rightarrow> scheduler_message \<Rightarrow> string option" where
  "hash_of cr (S_Call tx p) = Some (hash_string cr tx)"
| "hash_of cr (S_Send tx p) = Some (hash_string cr tx)"
| "hash_of cr (S_RegisterProgram tx p) = Some (hash_string cr tx)"
| "hash_of cr (S_GetAccount a p) = None"
| "hash_of cr (S_TransactionApplied h tok) = Some h"
| "hash_of cr (S_SendTransactionFailure h e) = Some h"
| "hash_of cr (S_CallTransactionApplied h a) = Some h"
| "hash_of cr (S_CallTransactionFailure h out e) = Some h"
| "hash_of cr (S_CallTransactionAsyncPending h) = Some h"
| "hash_of cr (S_RegistrationSuccess tx p) = Some (hash_string cr tx)"
| "hash_of cr (S_RegistrationFailure h e) = None"

definition replies :: "nat \<Rightarrow> message list \<Rightarrow> nat" where
  "replies p out = length (filter (\<lambda>m. \<exists>r. m = Rpc_Reply p r) out)"

definition holders :: "nat \<Rightarrow> reply_map \<Rightarrow> nat" where
  "holders p state = length (filter (\<lambda>e. snd e = p) state)"

definition submissions :: "nat \<Rightarrow> scheduler_message list \<Rightarrow> nat" where
  "submissions p ms = length (filter (\<lambda>m. port_of m = Some p) ms)"

lemma replies_simps [simp]:
  "replies p [] = 0" "replies p (xs @ ys) = replies p xs + replies p ys"
  "replies p (Rpc_Reply q r # out) = (if p = q then 1 else 0) + replies p out"
  "replies p (to_engine env m) = 0"
  by (auto simp: replies_def to_engine_def send_to_def)

lemma holders_insert: "holders p (hm_insert k q state) \<le> holders p state + (if q = p then 1 else 0)"
  by (induction state) (auto simp: holders_def)

lemma holders_remove: "holders p (hm_remove k state) \<le> holders p state"
  by (induction state) (auto simp: holders_def)

lemma holders_remove_get:
  "hm_get state k = Some p \<Longrightarrow> holders p (hm_remove k state) + 1 \<le> holders p state"
proof (induction state)
  case (Cons e es)
  then show ?case using holders_remove [of p k es] by (cases e) (auto simp: holders_def split: if_splits)
qed simp

lemma reply_to_balance:
  "holders p (fst (reply_to h r state)) + replies p (snd (reply_to h r state)) \<le> holders p state"
proof (cases "hm_get state h")
  case (Some q)
  then show ?thesis using holders_remove_get [OF Some] holders_remove [of p h state]
    by (auto simp: reply_to_def)
qed (simp add: reply_to_def)

lemma handle_balance:
  "holders p (fst (scheduler_handle env m state)) + replies p (snd (scheduler_handle env m state)) \<le>
     holders p state + (if port_of m = Some p then 1 else 0)"
proof (cases m)
  case (S_Call tx q)
  then show ?thesis using holders_insert [of p "hash_string (se_crypto env) tx" q state] by auto
next
  case (S_Send tx q)
  then show ?thesis using holders_insert [of p "hash_string (se_crypto env) tx" q state] by auto
next
  case (S_RegisterProgram tx q)
  then show ?thesis using holders_insert [of p "hash_string (se_crypto env) tx" q state] by auto
qed (auto simp: reply_to_balance handle_get_account_request_def split: option.split)

lemma run_Cons:
  "fst (scheduler_run env (m # ms) state) = fst (scheduler_run env ms (fst (scheduler_handle env m state)))"
  "snd (scheduler_run env (m # ms) state) =
     snd (scheduler_handle env m state) @ snd (scheduler_run env ms (fst (scheduler_handle env m state)))"
  by (simp_all split: prod.split)

lemma run_balance:
  "holders p (fst (scheduler_run env ms state)) + replies p (snd (scheduler_run env ms state)) \<le>
     holders p state + submissions p ms"
proof (induction ms arbitrary: state)
  case Nil
  then show ?case by simp
next
  case (Cons m ms)
  show ?case
    using Cons.IH [of "fst (scheduler_handle env m state)"] handle_balance [of p env m state]
    unfolding run_Cons by (simp add: submissions_def split: if_splits)
qed

lemma other_hash_get:
  "hash_of (se_crypto env) m \<noteq> Some h \<Longrightarrow> hm_get (fst (scheduler_handle env m state)) h = hm_get state h"
  by (cases m) (auto simp: hm_get_insert reply_to_def hm_get_remove split: option.split)

lemma run_other_hash_get:
  "\<forall>m \<in> set ms. hash_of (se_crypto env) m \<noteq> Some h \<Longrightarrow>
     hm_get (fst (scheduler_run env ms state)) h = hm_get state h"
proof (induction ms arbitrary: state)
  case (Cons m ms)
  then show ?case using other_hash_get [of env m h state] unfolding run_Cons by simp
qed simp

lemma run_snoc:
  "snd (scheduler_run env (ms @ [m]) state) =
     snd (scheduler_run env ms state) @ snd (scheduler_handle env m (fst (scheduler_run env ms state)))"
  by (induction ms arbitrary: state) (simp_all only: run_Cons append_Cons append_Nil append_assoc, simp)

section \<open>Properties\<close>

text \<open>
  A client's port is answered at most once per request it was sent with: however messages
  arrive, from whatever state that does not hold the port, the number of replies to a port is at
  most the number of requests that name it. Two failure messages for one call give one reply.
\<close>

theorem scheduler_replies_once:
  assumes "holders p state = 0"
  shows "replies p (snd (scheduler_run env ms state)) \<le> submissions p ms"
  using run_balance [of p env ms state] assms by simp

definition sample_senv :: scheduler_env where
  "sample_senv = \<lparr>se_registry = all_up, se_crypto = sample_crypto, se_secp_display = (\<lambda>_. ''secp''),
     se_lookup = Map.empty\<rparr>"

theorem scheduler_replies_once_witness:
  "replies 7 (snd (scheduler_run sample_senv
     [S_Call default_transaction 7, S_CallTransactionFailure (hash_string sample_crypto default_transaction) [] [],
      S_CallTransactionFailure (hash_string sample_crypto default_transaction) [] []] [])) \<le> 1"
  using scheduler_replies_once [of 7 "[]" sample_senv
     "[S_Call default_transaction 7, S_CallTransactionFailure (hash_string sample_crypto default_transaction) [] [],
      S_CallTransactionFailure (hash_string sample_crypto default_transaction) [] []]"]
  by (simp add: holders_def submissions_def del: scheduler_run.simps)

text \<open>
  A request gets its answer: after a send or call with a port, and any messages about other
  transactions, the message that the batcher applied it is answered to that port, with its token
  or account.
\<close>

theorem scheduler_answers:
  assumes "m = S_Send tx p \<or> m = S_Call tx p"
    and "\<forall>m' \<in> set ms. hash_of (se_crypto env) m' \<noteq> Some (hash_string (se_crypto env) tx)"
  shows "Rpc_Reply p (Inr (SendResponse tok)) \<in>
           set (snd (scheduler_run env (m # ms @ [S_TransactionApplied (hash_string (se_crypto env) tx) tok]) state)) \<and>
         Rpc_Reply p (Inr (CallResponse account)) \<in>
           set (snd (scheduler_run env (m # ms @ [S_CallTransactionApplied (hash_string (se_crypto env) tx) account]) state))"
proof -
  let ?h = "hash_string (se_crypto env) tx"
  let ?s = "fst (scheduler_run env (m # ms) state)"
  have "hm_get ?s ?h = Some p"
    using assms run_other_hash_get [OF assms(2), of "hm_insert ?h p state"] unfolding run_Cons
    by (auto simp: hm_get_insert)
  then have "Rpc_Reply p (Inr r) \<in> set (snd (reply_to ?h r ?s))" for r
    by (simp add: reply_to_def)
  then show ?thesis
    using run_snoc [of env "m # ms" _ state] by (simp del: scheduler_run.simps)
qed

theorem scheduler_answers_witness:
  "Rpc_Reply 7 (Inr (SendResponse (sample_token eth_addr eth_addr 1))) \<in>
     set (snd (scheduler_run sample_senv [S_Send default_transaction 7, S_GetAccount eth_addr 8,
       S_TransactionApplied (hash_string sample_crypto default_transaction) (sample_token eth_addr eth_addr 1)] []))"
  using scheduler_answers [of "S_Send default_transaction 7" default_transaction 7 "[S_GetAccount eth_addr 8]" sample_senv
      "sample_token eth_addr eth_addr 1" "[]" "account_new User None eth_addr None"]
  by (simp add: sample_senv_def del: scheduler_run.simps)

lemma no_holder_after_insert:
  assumes "hm_wf state" and "holders p state \<le> 1" and "hm_get state k = Some p" and "q \<noteq> p"
  shows "holders p (hm_insert k q state) = 0"
  using assms
proof (induction state)
  case (Cons e es)
  show ?case
  proof (cases "snd e = p")
    case True
    then have none: "holders p es = 0" using Cons.prems(2) by (simp add: holders_def)
    then have "hm_get es k \<noteq> Some p"
      by (metis (mono_tags, lifting) filter_empty_conv holders_def length_0_conv map_of_SomeD snd_conv)
    then have "fst e = k" using Cons.prems(3) by (cases e) (simp split: if_splits)
    then show ?thesis using none Cons.prems(4) by (cases e) (simp add: holders_def)
  next
    case False
    then have "fst e \<noteq> k" using Cons.prems(3) by (cases e) (auto split: if_splits)
    then show ?thesis using Cons False by (cases e) (auto simp: holders_def hm_wf_def)
  qed
qed simp

text \<open>
  A request sent again takes its first sender's port: when the same transaction comes in with
  another port before it is answered, the first port is dropped, and nothing that happens later is
  answered to it.
\<close>

theorem resubmission_drops_port:
  assumes "holders p state = 0" and "hm_wf state" and "p \<noteq> q" and "submissions p ms = 0"
  shows "replies p (snd (scheduler_run env (S_Send tx p # S_Send tx q # ms) state)) = 0"
proof -
  let ?h = "hash_string (se_crypto env) tx"
  let ?s = "hm_insert ?h p state"
  have "holders p ?s \<le> 1" using holders_insert [of p ?h p state] assms(1) by simp
  moreover have "hm_wf ?s" using assms(2) by (rule hm_wf_insert)
  ultimately have "holders p (hm_insert ?h q ?s) = 0"
    using no_holder_after_insert [of ?s p ?h q] assms(3) by (simp add: hm_get_insert)
  then show ?thesis
    using run_balance [of p env ms "hm_insert ?h q ?s"] assms(4) unfolding run_Cons by simp
qed

theorem resubmission_drops_port_witness:
  "replies 7 (snd (scheduler_run sample_senv [S_Send default_transaction 7, S_Send default_transaction 8,
     S_TransactionApplied (hash_string sample_crypto default_transaction) (sample_token eth_addr eth_addr 1)] [])) = 0"
  using resubmission_drops_port [of 7 "[]" 8 "[S_TransactionApplied (hash_string sample_crypto default_transaction)
      (sample_token eth_addr eth_addr 1)]" sample_senv default_transaction]
  by (simp add: holders_def submissions_def del: scheduler_run.simps)

end
