(* ===== verification/Rpc_Model.thy ===== *)
theory Rpc_Model
  imports Scheduler_Model
begin

text \<open>
  The JSON-RPC server (crates/actors/src/rpc_server.rs) and the response handlers it uses
  (\<open>create_handler!\<close> and \<open>handle_actor_response\<close> of crates/actors/src/helpers.rs). A method first
  casts a request to the server's own actor, which passes it to the scheduler; it then waits for
  the answer on the request's port. What comes back on the port, or that nothing does within the
  15 seconds, is an argument (datatype \<open>received\<close>). Serialisation to JSON and the \<open>Display\<close> texts
  of third-party errors are parameters (record \<open>rpc_env\<close>).
\<close>

section \<open>Requests\<close>

datatype rpc_code = INTERNAL_ERROR_CODE | INVALID_PARAMS_CODE

datatype rpc_error = RpcError (rpc_code: rpc_code) (rpc_message: string)

datatype rpc_request_method =
  RM_Call transaction | RM_Send transaction | RM_RegisterProgram transaction | RM_GetAccount address

text \<open>The answer to a request is a value or the description of an \<open>RpcResponseError\<close>.\<close>

datatype rpc_actor_message =
  RpcMessage_Request rpc_request_method nat
| RpcMessage_Response "string + transaction_response" "nat option"

record rpc_env =
  rp_registry :: registry
  rp_hex :: hex_crate
  rp_hex_display :: "from_hex_error \<Rightarrow> string"
  rp_secp_display :: "secp_error \<Rightarrow> string"
  rp_error_display :: "rpc_error \<Rightarrow> string"
  rp_account_json :: "account \<Rightarrow> (string, string) outcome"
  rp_token_json :: "token \<Rightarrow> (string, string) outcome"

definition cast_error_text :: "rpc_env \<Rightarrow> actor_type \<Rightarrow> string" where
  "cast_error_text env a = error_to_string (rp_secp_display env) (MessagingErr (actor_type_to_string a))"

text \<open>\<open>Display\<close> of an \<open>RpcResponseError\<close>, which writes its \<open>Debug\<close> form.\<close>

definition rpc_response_error_to_string :: "string \<Rightarrow> string" where
  "rpc_response_error_to_string description = ''RpcResponseError { description: '' @ quoted description @ '' }''"

fun scheduler_request :: "rpc_request_method \<Rightarrow> nat \<Rightarrow> scheduler_message" where
  "scheduler_request (RM_Call tx) reply = S_Call tx reply"
| "scheduler_request (RM_Send tx) reply = S_Send tx reply"
| "scheduler_request (RM_RegisterProgram tx) reply = S_RegisterProgram tx reply"
| "scheduler_request (RM_GetAccount address) reply = S_GetAccount address reply"

definition handle_request_method ::
    "rpc_env \<Rightarrow> rpc_request_method \<Rightarrow> nat \<Rightarrow> message list \<times> (string, unit) outcome" where
  "handle_request_method env method reply =
     (if \<not> registered (rp_registry env) Scheduler
      then ([], Err (rp_error_display env (RpcError INTERNAL_ERROR_CODE ''unable to acquire scheduler'')))
      else if \<not> castable (rp_registry env) Scheduler
      then ([], Err (cast_error_text env Scheduler))
      else ([To_Scheduler (scheduler_request method reply)], Ok ()))"

text \<open>The actor of the server; the error of a handler ends the actor.\<close>

fun rpc_actor_handle :: "rpc_env \<Rightarrow> rpc_actor_message \<Rightarrow> message list \<times> (string, unit) outcome" where
  "rpc_actor_handle env (RpcMessage_Request method reply) = handle_request_method env method reply"
| "rpc_actor_handle env (RpcMessage_Response response reply) =
     (case reply of
        None \<Rightarrow> ([], Err (rp_error_display env (RpcError INTERNAL_ERROR_CODE
                  ''Unable to acquire rpc reply sender in RpcMessage::Response'')))
      | Some port \<Rightarrow> ([Rpc_Reply port response], Ok ()))"

text \<open>
  \<open>send_rpc_.._method_to_self\<close>: the request reaches the server's actor or fails with a
  description. The address of \<open>getAccount\<close> is parsed here.
\<close>

definition send_method_to_self :: "rpc_env \<Rightarrow> rpc_request_method \<Rightarrow> nat \<Rightarrow> (string, rpc_actor_message) outcome" where
  "send_method_to_self env method reply =
     (if castable (rp_registry env) RpcServer then Ok (RpcMessage_Request method reply)
      else Err (cast_error_text env RpcServer))"

definition send_rpc_get_account_method_to_self ::
    "rpc_env \<Rightarrow> string \<Rightarrow> nat \<Rightarrow> (string, rpc_actor_message) outcome" where
  "send_rpc_get_account_method_to_self env address reply =
     obind (map_err (rp_hex_display env) (from_str (rp_hex env) address)) (\<lambda>a.
     send_method_to_self env (RM_GetAccount a) reply)"

section \<open>Answers\<close>

datatype received = Replied "string + transaction_response" | ChannelClosed string | TimedOut

text \<open>The handlers of \<open>create_handler!\<close>; the method's name is part of the error text.\<close>

definition invalid_type :: "rpc_env \<Rightarrow> string \<Rightarrow> string" where
  "invalid_type env name =
     rp_error_display env (RpcError INVALID_PARAMS_CODE
       (''received an invalid type in response to RPC `'' @ name @ ''` method''))"

definition any_handler ::
    "rpc_env \<Rightarrow> string \<Rightarrow> string + transaction_response \<Rightarrow> (string, transaction_response) outcome" where
  "any_handler env name response =
     (case response of Inr resp \<Rightarrow> Ok resp | Inl e \<Rightarrow> Err (invalid_type env name))"

definition get_account_handler ::
    "rpc_env \<Rightarrow> string + transaction_response \<Rightarrow> (string, transaction_response) outcome" where
  "get_account_handler env response =
     (case response of
        Inr (GetAccountResponse account) \<Rightarrow> Ok (GetAccountResponse account)
      | _ \<Rightarrow> Err (invalid_type env ''getAccount''))"

definition handle_actor_response ::
    "(string + transaction_response \<Rightarrow> (string, transaction_response) outcome) \<Rightarrow> received
       \<Rightarrow> (string, transaction_response) outcome" where
  "handle_actor_response handler r =
     (case r of
        Replied response \<Rightarrow> handler response
      | ChannelClosed e \<Rightarrow> Err e
      | TimedOut \<Rightarrow> Err ''rpc request timed out, this does not mean your request failed'')"

text \<open>The error of the wait is wrapped twice: once with a prefix, once more as it is shown.\<close>

definition wait_for ::
    "rpc_env \<Rightarrow> (string + transaction_response \<Rightarrow> (string, transaction_response) outcome) \<Rightarrow> received
       \<Rightarrow> (rpc_error, transaction_response) outcome" where
  "wait_for env handler r =
     map_err (\<lambda>e. RpcError INTERNAL_ERROR_CODE
         (rp_error_display env (RpcError INTERNAL_ERROR_CODE (''Error: '' @ e))))
       (handle_actor_response handler r)"

definition internal :: "(string, 'a) outcome \<Rightarrow> (rpc_error, 'a) outcome" where
  "internal r = map_err (RpcError INTERNAL_ERROR_CODE) r"

definition transaction_error :: "string \<Rightarrow> rpc_error" where
  "transaction_error description = RpcError INTERNAL_ERROR_CODE (''Error: '' @ description)"

definition rpc_call :: "rpc_env \<Rightarrow> received \<Rightarrow> (rpc_error, string) outcome" where
  "rpc_call env r =
     obind (wait_for env (any_handler env ''call'') r) (\<lambda>resp.
     case resp of
       AsyncCallResponse transaction_hash \<Rightarrow> Ok transaction_hash
     | CallResponse account \<Rightarrow> internal (rp_account_json env account)
     | TransactionError description \<Rightarrow> Err (transaction_error description)
     | _ \<Rightarrow> Err (RpcError INVALID_PARAMS_CODE ''invalid response to `call` method''))"

definition rpc_send :: "rpc_env \<Rightarrow> received \<Rightarrow> (rpc_error, string) outcome" where
  "rpc_send env r =
     obind (wait_for env (any_handler env ''send'') r) (\<lambda>resp.
     case resp of
       SendResponse tok \<Rightarrow> internal (rp_token_json env tok)
     | TransactionError description \<Rightarrow> Err (transaction_error description)
     | _ \<Rightarrow> Err (RpcError INVALID_PARAMS_CODE ''invalid response to `send` method''))"

definition rpc_register_program :: "rpc_env \<Rightarrow> received \<Rightarrow> (rpc_error, string) outcome" where
  "rpc_register_program env r =
     obind (wait_for env (any_handler env ''registerProgram'') r) (\<lambda>resp.
     case resp of
       RegisterProgramResponse (Some program_id) \<Rightarrow> Ok program_id
     | RegisterProgramResponse None \<Rightarrow>
         Err (RpcError INTERNAL_ERROR_CODE ''program registeration failed to return program_id'')
     | TransactionError description \<Rightarrow> Err (transaction_error description)
     | _ \<Rightarrow> Err (RpcError INVALID_PARAMS_CODE ''received invalid response for `registerProgram` method''))"

definition rpc_get_account :: "rpc_env \<Rightarrow> received \<Rightarrow> (rpc_error, string) outcome" where
  "rpc_get_account env r =
     obind (wait_for env (get_account_handler env) r) (\<lambda>resp.
     case resp of
       GetAccountResponse account \<Rightarrow> internal (rp_account_json env account)
     | _ \<Rightarrow> Err (RpcError INVALID_PARAMS_CODE ''invalid response to `getAccount` methond''))"

text \<open>
  A method as its client sees it: the request must reach the server's actor, then the answer
  counts.
\<close>

definition rpc_method ::
    "(string, rpc_actor_message) outcome \<Rightarrow> (rpc_error, string) outcome \<Rightarrow> (rpc_error, string) outcome" where
  "rpc_method request answer =
     obind (map_err (\<lambda>e. RpcError INTERNAL_ERROR_CODE (rpc_response_error_to_string e)) request) (\<lambda>_. answer)"

section \<open>Lemmas\<close>

lemma wait_for_Ok:
  "wait_for env h r = Ok resp \<longleftrightarrow> (\<exists>response. r = Replied response \<and> h response = Ok resp)"
  by (cases r) (auto simp: wait_for_def handle_actor_response_def map_err_Ok_iff)

lemma any_handler_Ok: "any_handler env n response = Ok resp \<longleftrightarrow> response = Inr resp"
  by (auto simp: any_handler_def split: sum.split)

lemma get_account_handler_Ok:
  "get_account_handler env response = Ok resp \<longleftrightarrow> (\<exists>a. response = Inr (GetAccountResponse a) \<and> resp = GetAccountResponse a)"
  by (auto simp: get_account_handler_def split: sum.split transaction_response.split)

lemma internal_Ok: "internal r = Ok s \<longleftrightarrow> r = Ok s"
  by (simp add: internal_def map_err_Ok_iff)

lemmas answer_simps = wait_for_Ok any_handler_Ok get_account_handler_Ok internal_Ok obind_Ok_iff

lemmas rpc_answers = rpc_call_def rpc_send_def rpc_register_program_def rpc_get_account_def

lemma from_str_full:
  assumes "hex_laws hx" and "wf_address a"
  shows "from_str hx (to_full_string a) = Ok a"
proof -
  obtain bs where a: "a = Address bs" and len: "length bs = 20"
    using assms(2) by (cases a) (auto simp: wf_address_def)
  then show ?thesis
    using bytes_hex_not_short [OF len] assms(1)
    by (auto simp: a from_str_def to_full_string_def lower_hex_def hex_decode_bytes_hex)
qed

section \<open>Properties\<close>

text \<open>
  A client is told success only on the answer that belongs to its method, in time, and then
  gets what the answer carries: the hash of a call that waits for its execution or the account of
  one that was applied, the sender's token, the program id, the account. An error, an answer of
  another kind, a closed port and a timeout are errors to every method.
\<close>

theorem rpc_success_iff:
  "(rpc_call env r = Ok s \<longleftrightarrow>
      r = Replied (Inr (AsyncCallResponse s)) \<or>
      (\<exists>a. r = Replied (Inr (CallResponse a)) \<and> rp_account_json env a = Ok s)) \<and>
   (rpc_send env r = Ok s \<longleftrightarrow> (\<exists>tok. r = Replied (Inr (SendResponse tok)) \<and> rp_token_json env tok = Ok s)) \<and>
   (rpc_register_program env r = Ok s \<longleftrightarrow> r = Replied (Inr (RegisterProgramResponse (Some s)))) \<and>
   (rpc_get_account env r = Ok s \<longleftrightarrow>
      (\<exists>a. r = Replied (Inr (GetAccountResponse a)) \<and> rp_account_json env a = Ok s))"
proof (cases "\<exists>resp. r = Replied (Inr resp)")
  case True
  then obtain resp where r: "r = Replied (Inr resp)" by blast
  show ?thesis unfolding r by (cases resp) (auto simp: answer_simps rpc_answers split: option.split)
qed (auto simp: answer_simps rpc_answers)

text \<open>
  \<open>getAccount\<close> through the server and the scheduler: the client gets the account of the address
  it names exactly when the text parses as an address, the account exists and it serialises. For an
  unknown account the reason the scheduler gives is dropped: the client is told that the answer
  had an invalid type.
\<close>

theorem get_account_end_to_end:
  assumes "castable (rp_registry env) RpcServer" and "registered (rp_registry env) Scheduler"
    and "castable (rp_registry env) Scheduler" and "from_str (rp_hex env) text = Ok address"
  shows "\<exists>answer.
     obind (send_rpc_get_account_method_to_self env text port) (\<lambda>m. Ok (fst (rpc_actor_handle env m))) =
       Ok [To_Scheduler (S_GetAccount address port)] \<and>
     scheduler_handle senv (S_GetAccount address port) st = (st, [Rpc_Reply port answer]) \<and>
     rpc_method (send_rpc_get_account_method_to_self env text port) (rpc_get_account env (Replied answer)) =
       (case se_lookup senv address of
          Some account \<Rightarrow> internal (rp_account_json env account)
        | None \<Rightarrow> Err (RpcError INTERNAL_ERROR_CODE (rp_error_display env
                   (RpcError INTERNAL_ERROR_CODE (''Error: '' @ invalid_type env ''getAccount'')))))"
  using assms
  by (auto simp: send_rpc_get_account_method_to_self_def send_method_to_self_def handle_request_method_def
      handle_get_account_request_def rpc_method_def rpc_get_account_def wait_for_def handle_actor_response_def
      get_account_handler_def split: option.split)

definition sample_renv :: rpc_env where
  "sample_renv = \<lparr>rp_registry = all_up, rp_hex = hex_ref, rp_hex_display = (\<lambda>_. ''hex''),
     rp_secp_display = (\<lambda>_. ''secp''), rp_error_display = rpc_message,
     rp_account_json = (\<lambda>_. Ok ''{}''), rp_token_json = (\<lambda>_. Ok ''{}'')\<rparr>"

theorem get_account_end_to_end_witness:
  "\<exists>answer. scheduler_handle \<lparr>se_registry = all_up, se_crypto = sample_crypto, se_secp_display = (\<lambda>_. ''secp''),
         se_lookup = (\<lambda>_. None)\<rparr> (S_GetAccount verse_addr 7) [] = ([], [Rpc_Reply 7 answer]) \<and>
     rpc_method (send_rpc_get_account_method_to_self sample_renv (to_full_string verse_addr) 7)
       (rpc_get_account sample_renv (Replied answer)) =
     Err (RpcError INTERNAL_ERROR_CODE
       ''Error: received an invalid type in response to RPC `getAccount` method'')"
proof -
  have "from_str (rp_hex sample_renv) (to_full_string verse_addr) = Ok verse_addr"
    using from_str_full [OF hex_laws_ref, of verse_addr]
    by (simp add: sample_renv_def wf_address_def verse_addr_def)
  from get_account_end_to_end [OF _ _ _ this, of 7] show ?thesis
    by (force simp: sample_renv_def invalid_type_def)
qed

end
