(* ===== verification/System_Model.thy ===== *)
theory System_Model
  imports Batcher_Theorems Pending_Model Engine_Model Executor_Model Rpc_Model
begin

text \<open>
  The node: the scheduler, the engine, the pending transactions, the validator, the executor and
  the batcher with the account cache, as one transition system. The state holds the state of each
  actor, the messages in flight, and a log of every message sent so far. A step delivers one
  message in flight to its actor, which runs its handler to the end and puts what it sends in
  flight; loses one; or takes a message from outside (a client's request, bridge events, a timer,
  a proof from the data-availability client). Messages are delivered in any order, which includes
  the order of each mailbox. The account cache's writes take effect when they are sent, so their
  delivery changes nothing. The futures of the engine, the validator, the executor and the batcher
  run in one loop, which a panic of one of them ends for all. The actors share one environment
  (record \<open>system_env\<close>).
\<close>

section \<open>The actors' environments\<close>

record system_env =
  sn_batcher :: batcher_env
  sn_it_accounts :: "address list \<Rightarrow> address list"
  sn_it_vertices :: "(string \<times> vertex) list \<Rightarrow> (string \<times> vertex) list"
  sn_parse_outputs :: "string \<Rightarrow> (string, outputs) outcome"
  sn_pinned :: "string \<Rightarrow> bool"
  sn_pin :: "string \<Rightarrow> string option"
  sn_bundle :: "string \<Rightarrow> string option"
  sn_container :: "string \<Rightarrow> inputs \<Rightarrow> container_io"

definition scheduler_of :: "system_env \<Rightarrow> world \<Rightarrow> scheduler_env" where
  "scheduler_of env w =
     \<lparr>se_registry = bn_registry (sn_batcher env), se_crypto = bn_crypto (sn_batcher env),
      se_secp_display = bn_secp_display (sn_batcher env), se_lookup = lookup_account (sn_batcher env) w\<rparr>"

definition pending_of :: "system_env \<Rightarrow> u64 \<Rightarrow> pending_env" where
  "pending_of env now =
     \<lparr>pe_registry = bn_registry (sn_batcher env), pe_crypto = bn_crypto (sn_batcher env), pe_now = now,
      pe_it_accounts = sn_it_accounts env, pe_it_vertices = sn_it_vertices env\<rparr>"

definition validator_of :: "system_env \<Rightarrow> validator_env" where
  "validator_of env =
     \<lparr>ve_registry = bn_registry (sn_batcher env), ve_crypto = bn_crypto (sn_batcher env),
      ve_hex = bn_hex (sn_batcher env), ve_secp_display = bn_secp_display (sn_batcher env)\<rparr>"

definition engine_of :: "system_env \<Rightarrow> engine_env" where
  "engine_of env =
     \<lparr>ee_registry = bn_registry (sn_batcher env), ee_crypto = bn_crypto (sn_batcher env),
      ee_hex = bn_hex (sn_batcher env), ee_secp_display = bn_secp_display (sn_batcher env),
      ee_parse_inputs = bn_parse_inputs (sn_batcher env), ee_parse_outputs = sn_parse_outputs env,
      ee_remote = False\<rparr>"

definition executor_of :: "system_env \<Rightarrow> world \<Rightarrow> executor_env" where
  "executor_of env w =
     \<lparr>xe_registry = bn_registry (sn_batcher env), xe_crypto = bn_crypto (sn_batcher env),
      xe_hex = bn_hex (sn_batcher env), xe_secp_display = bn_secp_display (sn_batcher env),
      xe_lookup = lookup_account (sn_batcher env) w, xe_pinned = sn_pinned env, xe_pin = sn_pin env,
      xe_bundle = sn_bundle env, xe_container = sn_container env\<rparr>"

lemmas env_defs = scheduler_of_def pending_of_def validator_of_def engine_of_def executor_of_def

section \<open>State and steps\<close>

record system =
  sy_replies :: reply_map
  sy_pending :: pending_state
  sy_handles :: handles
  sy_world :: world
  sy_futures :: bool
  sy_net :: "message list"
  sy_log :: "message list"

definition post :: "message list \<Rightarrow> system \<Rightarrow> system" where
  "post ms sys = sys\<lparr>sy_net := sy_net sys @ ms, sy_log := sy_log sys @ ms\<rparr>"

text \<open>
  The messages whose handler puts a future in a pool of the node, to be run by the one loop over the
  pools. The validator's future hands its checks to threads of its own; they are taken as part of it.
\<close>

fun pooled :: "message \<Rightarrow> bool" where
  "pooled (To_Validator m) = True"
| "pooled (To_Batcher m) \<longleftrightarrow> m \<noteq> B_GetNextBatch"
| "pooled (To_Engine (E_Cache address account)) = False"
| "pooled (To_Engine (E_RegistrationSuccess transaction_hash)) = False"
| "pooled (To_Engine m) = True"
| "pooled (To_Executor m) = True"
| "pooled _ = False"

text \<open>A panic in the loop ends it, and nothing starts it again. A panic elsewhere ends one actor.\<close>

definition note_panic :: "message \<Rightarrow> ('e, unit) outcome \<Rightarrow> system \<Rightarrow> system" where
  "note_panic m r sys =
     (case r of Panic p \<Rightarrow> if pooled m then sys\<lparr>sy_futures := False\<rparr> else sys | _ \<Rightarrow> sys)"

text \<open>
  One message and the future it makes, run to the end; None when that does not return, which only
  the search for a batch and a \<open>Confirmed\<close> message can do. A panic leaves what was sent before it.
  An actor that ends with an error or a panic is started again by its supervisor; that its mailbox
  is gone then is among the losses of messages below. Replies and messages to the clients of the
  chain and of the data-availability layer leave the node.
\<close>

fun handle_message :: "system_env \<Rightarrow> u64 \<Rightarrow> message \<Rightarrow> system \<Rightarrow> system option" where
  "handle_message env now (To_Scheduler m) sys =
     (case scheduler_handle (scheduler_of env (sy_world sys)) m (sy_replies sys) of
        (st, ms) \<Rightarrow> Some (post ms (sys\<lparr>sy_replies := st\<rparr>)))"
| "handle_message env now (To_Pending m) sys =
     (case pending_handle (pending_of env now) m (sy_pending sys) of
        Ok (st, ms) \<Rightarrow> Some (post ms (sys\<lparr>sy_pending := st\<rparr>))
      | _ \<Rightarrow> None)"
| "handle_message env now (To_Validator m) sys =
     Some (post (validator_handle (validator_of env) (lookup_account (sn_batcher env) (sy_world sys)) m) sys)"
| "handle_message env now (To_Batcher m) sys =
     (case batcher_handle (sn_batcher env) m ((sy_world sys)\<lparr>w_out := []\<rparr>) of
        None \<Rightarrow> None
      | Some (w, r) \<Rightarrow> Some (note_panic (To_Batcher m) r (post (w_out w) (sys\<lparr>sy_world := w\<rparr>))))"
| "handle_message env now (To_Engine m) sys =
     (case engine_handle (engine_of env) m of (ms, r) \<Rightarrow> Some (note_panic (To_Engine m) r (post ms sys)))"
| "handle_message env now (To_Executor m) sys =
     (case executor_handle (executor_of env (sy_world sys)) m (sy_handles sys) of
        (hs, ms, r) \<Rightarrow> Some (note_panic (To_Executor m) r (post ms (sys\<lparr>sy_handles := hs\<rparr>))))"
| "handle_message env now (To_AccountCache m) sys = Some sys"
| "handle_message env now (To_DaClient m) sys = Some sys"
| "handle_message env now (To_Eo m) sys = Some sys"
| "handle_message env now (Rpc_Reply port answer) sys = Some sys"

text \<open>One delivery: when the loop has ended, the future of a message is put in its pool and never run.\<close>

definition deliver :: "system_env \<Rightarrow> u64 \<Rightarrow> message \<Rightarrow> system \<Rightarrow> system option" where
  "deliver env now m sys = (if pooled m \<and> \<not> sy_futures sys then Some sys else handle_message env now m sys)"

lemma deliver_handles [simp]:
  "sy_futures sys \<Longrightarrow> deliver env now m sys = handle_message env now m sys"
  "\<not> pooled m \<Longrightarrow> deliver env now m sys = handle_message env now m sys"
  by (simp_all add: deliver_def)

lemma note_panic_sel [simp]:
  "note_panic m (Ok u) sys = sys" "note_panic m (Err e) sys = sys"
  "sy_net (note_panic m r sys) = sy_net sys" "sy_log (note_panic m r sys) = sy_log sys"
  "sy_pending (note_panic m r sys) = sy_pending sys" "sy_world (note_panic m r sys) = sy_world sys"
  by (simp_all add: note_panic_def split: outcome.split)

text \<open>What comes from outside: clients through the RPC server, the chain listener, timers, proofs.\<close>

fun external :: "message \<Rightarrow> bool" where
  "external (To_Scheduler (S_Call tx port)) = True"
| "external (To_Scheduler (S_Send tx port)) = True"
| "external (To_Scheduler (S_RegisterProgram tx port)) = True"
| "external (To_Scheduler (S_GetAccount address port)) = True"
| "external (To_Engine (E_BridgeEvents events)) = True"
| "external (To_Engine E_SettlementEvents) = True"
| "external (To_Pending PT_CleanGraph) = True"
| "external (To_Batcher B_GetNextBatch) = True"
| "external (To_Batcher (B_BlobVerificationProof request_id header_hash blob_index)) = True"
| "external _ = False"

definition take_msg :: "message \<Rightarrow> system \<Rightarrow> system" where
  "take_msg m sys = sys\<lparr>sy_net := remove1 m (sy_net sys)\<rparr>"

inductive system_step :: "system_env \<Rightarrow> system \<Rightarrow> system \<Rightarrow> bool" for env where
  inject: "external m \<Longrightarrow> system_step env sys (post [m] sys)"
| deliver: "m \<in> set (sy_net sys) \<Longrightarrow> deliver env now m (take_msg m sys) = Some sys' \<Longrightarrow> system_step env sys sys'"
| lose: "m \<in> set (sy_net sys) \<Longrightarrow> system_step env sys (take_msg m sys)"

definition system_init :: "world \<Rightarrow> system" where
  "system_init w =
     \<lparr>sy_replies = [], sy_pending = pending_init, sy_handles = [], sy_world = w, sy_futures = True,
      sy_net = [], sy_log = []\<rparr>"

inductive system_reachable :: "system_env \<Rightarrow> system \<Rightarrow> bool" for env where
  init: "system_reachable env (system_init w)"
| step: "system_reachable env sys \<Longrightarrow> system_step env sys sys' \<Longrightarrow> system_reachable env sys'"

text \<open>Nothing is in flight and the loop over the futures runs.\<close>

definition at_rest :: "system \<Rightarrow> bool" where
  "at_rest sys \<longleftrightarrow> sy_net sys = [] \<and> sy_futures sys"

text \<open>The oldest message first, at most \<open>n\<close> deliveries, until nothing is in flight.\<close>

fun drain :: "system_env \<Rightarrow> u64 \<Rightarrow> nat \<Rightarrow> system \<Rightarrow> system option" where
  "drain env now n sys =
     (case sy_net sys of
        [] \<Rightarrow> Some sys
      | m # _ \<Rightarrow>
          (case n of
             0 \<Rightarrow> None
           | Suc k \<Rightarrow>
               (case deliver env now m (take_msg m sys) of
                  None \<Rightarrow> None
                | Some sys' \<Rightarrow> drain env now k sys')))"

declare drain.simps [simp del]

end
