(* ===== verification/System_Theorems.thy ===== *)
theory System_Theorems
  imports System_Model
begin

text \<open>
  What holds of the node as a whole (theory \<open>System_Model\<close>): which messages each actor can send,
  how often a deposit can reach the batcher whatever the order of delivery, and what becomes of a
  client's request from its submission to the reply.
\<close>

section \<open>What the batcher sends\<close>

named_theorems quiet_intros

text \<open>
  The batcher sends nothing to the validator, the executor, the engine or itself. An operation
  keeps that of the messages sent so far; the rules follow the shape of the batcher's definitions.
\<close>

fun quiet :: "message \<Rightarrow> bool" where
  "quiet (To_Pending m) = True"
| "quiet (To_Scheduler m) = True"
| "quiet (To_AccountCache m) = True"
| "quiet (To_DaClient m) = True"
| "quiet (To_Eo m) = True"
| "quiet _ = False"

definition calm :: "world \<Rightarrow> bool" where
  "calm w \<longleftrightarrow> list_all quiet (w_out w)"

definition keeps_calm :: "world \<Rightarrow> (world \<times> 'r) option \<Rightarrow> bool" where
  "keeps_calm w x \<longleftrightarrow> (calm w \<longrightarrow> (\<forall>w' r. x = Some (w', r) \<longrightarrow> calm w'))"

lemma keeps_calmD: "keeps_calm w x \<Longrightarrow> x = Some (w', r) \<Longrightarrow> calm w \<Longrightarrow> calm w'"
  by (simp add: keeps_calm_def)

lemma calm_emit: "quiet m \<Longrightarrow> calm w \<Longrightarrow> calm (emit env a m w)"
  by (simp add: calm_def emit_def send_to_def)

lemma calm_None [quiet_intros]: "keeps_calm w None"
  and calm_same [quiet_intros]: "keeps_calm w (Some (w, r))"
  and calm_emitted [quiet_intros]: "quiet m \<Longrightarrow> keeps_calm w (Some (emit env a m w, r))"
  by (simp_all add: keeps_calm_def calm_emit)

lemma calm_bbind [quiet_intros]:
  assumes "keeps_calm w (m w)" and "\<And>a w1. keeps_calm w1 (f a w1)"
  shows "keeps_calm w (bbind m f w)"
proof (cases "m w")
  case (Some x)
  obtain w1 r where x: "x = (w1, r)" by force
  show ?thesis
  proof (cases r)
    case (Ok a)
    have "calm w \<Longrightarrow> calm w1" using assms(1) by (simp add: keeps_calm_def Some x)
    moreover have "bbind m f w = f a w1" by (simp add: bbind_def Some x Ok)
    ultimately show ?thesis using assms(2) [of w1 a] unfolding keeps_calm_def by metis
  qed (use assms(1) in \<open>simp_all add: keeps_calm_def bbind_def Some x\<close>)
qed (simp add: bbind_def keeps_calm_def)

lemma calm_if [quiet_intros]: "keeps_calm w x \<Longrightarrow> keeps_calm w y \<Longrightarrow> keeps_calm w (if c then x else y)"
  by simp

lemma calm_option [quiet_intros]:
  "keeps_calm w x \<Longrightarrow> (\<And>a. keeps_calm w (f a)) \<Longrightarrow> keeps_calm w (case opt of None \<Rightarrow> x | Some a \<Rightarrow> f a)"
  by (simp split: option.split)

lemma calm_outcome [quiet_intros]:
  "(\<And>a. keeps_calm w (f a)) \<Longrightarrow> (\<And>e. keeps_calm w (g e)) \<Longrightarrow> (\<And>p. keeps_calm w (h p)) \<Longrightarrow>
     keeps_calm w (case r of Ok a \<Rightarrow> f a | Err e \<Rightarrow> g e | Panic p \<Rightarrow> h p)"
  by (simp split: outcome.split)

lemma calm_prod [quiet_intros]: "(\<And>a b. keeps_calm w (f a b)) \<Longrightarrow> keeps_calm w (case x of (a, b) \<Rightarrow> f a b)"
  by (simp split: prod.split)

lemma calm_pure [quiet_intros]: "keeps_calm w (pure_op r w)"
  by (simp add: keeps_calm_def pure_op_def)

lemma calm_add_account [quiet_intros]: "keeps_calm w (add_account_to_batch env a w)"
  by (auto simp: keeps_calm_def calm_def add_account_to_batch_def cache_account_def Let_def emit_def send_to_def
      split: option.splits if_splits)

lemma calm_add_accounts [quiet_intros]: "keeps_calm w (add_accounts_to_batch env as w)"
  by (induction as arbitrary: w) (auto intro: quiet_intros)

lemma calm_place [quiet_intros]: "keeps_calm w (place_transaction env tx w)"
  by (auto simp: keeps_calm_def calm_def place_transaction_def split: option.splits)

lemma calm_cast [quiet_intros]: "quiet m \<Longrightarrow> keeps_calm w (cast_or_fail env tx a s m w)"
  by (simp add: cast_or_fail_def quiet_intros)

lemma calm_add_transaction [quiet_intros]: "keeps_calm w (add_transaction_to_account env tx w)"
  unfolding add_transaction_to_account_def by (intro quiet_intros) simp_all

lemma calm_registration [quiet_intros]: "keeps_calm w (apply_program_registration env tx w)"
  unfolding apply_program_registration_def by (intro quiet_intros) simp_all

lemma calm_instructions [quiet_intros]: "keeps_calm w (apply_instructions_to_accounts env tx outs w)"
  unfolding apply_instructions_to_accounts_def Let_def
  by (intro quiet_intros) (simp_all add: keeps_calm_def calm_emit)

lemma calm_next_batch [quiet_intros]: "keeps_calm w (handle_next_batch_request env w)"
  by (auto simp: handle_next_batch_request_def Let_def keeps_calm_def calm_def persist_batch_def
      request_blob_validation_def emit_def send_to_def split: option.splits list.splits if_splits)

lemma calm_proof [quiet_intros]: "keeps_calm w (handle_blob_verification_proof env rid h i w)"
  unfolding handle_blob_verification_proof_def by (intro quiet_intros) simp_all

lemma calm_run_future: "(\<And>w. keeps_calm w (fut w)) \<Longrightarrow> calm w \<Longrightarrow> run_future env fut w = Some (w', r) \<Longrightarrow> calm w'"
  by (auto simp: run_future_def handle_transaction_error_def keeps_calm_def calm_emit
      split: option.splits prod.splits outcome.splits batcher_error.splits if_splits)

lemma batcher_calm:
  assumes "calm w" and "batcher_handle env m w = Some (w', r)"
  shows "calm w'"
proof -
  note fut = calm_run_future [OF _ assms(1)]
  note futs = fut [where fut = "add_transaction_to_account env tx" for tx, OF calm_add_transaction]
    fut [where fut = "apply_program_registration env tx" for tx, OF calm_registration]
    fut [where fut = "apply_instructions_to_accounts env tx outs" for tx outs, OF calm_instructions]
    fut [where fut = "handle_blob_verification_proof env rid h i" for rid h i, OF calm_proof]
  show ?thesis
  proof (cases m)
    case B_GetNextBatch
    then show ?thesis using assms keeps_calmD [OF calm_next_batch] by auto
  next
    case (B_BlobVerificationProof rid h i)
    then show ?thesis using assms(2) futs(4) by simp
  next
    case (B_AppendTransaction tx outs)
    then show ?thesis
      using assms futs(1-3) by (cases "tx_transaction_type tx"; cases outs) simp_all
  qed
qed

section \<open>What the actors send\<close>

definition num :: "(message \<Rightarrow> bool) \<Rightarrow> message list \<Rightarrow> nat" where
  "num P ms = length (filter P ms)"

definition validates :: "transaction \<Rightarrow> message \<Rightarrow> bool" where
  "validates x m \<longleftrightarrow> m = To_Validator (V_PendingTransaction x)"

definition validates_call :: "transaction \<Rightarrow> message \<Rightarrow> bool" where
  "validates_call x m \<longleftrightarrow> (\<exists>outs. m = To_Validator (V_PendingCall outs x))"

definition appends :: "transaction \<Rightarrow> message \<Rightarrow> bool" where
  "appends x m \<longleftrightarrow> (\<exists>outs. m = To_Batcher (B_AppendTransaction x outs))"

definition creates :: "transaction \<Rightarrow> message \<Rightarrow> bool" where
  "creates x m \<longleftrightarrow> (\<exists>cid. m = To_Executor (X_Create x cid))"

lemmas kinds = validates_def validates_call_def appends_def creates_def

lemma num_simps [simp]:
  "num P [] = 0" "num P (m # ms) = (if P m then 1 else 0) + num P ms" "num P (xs @ ys) = num P xs + num P ys"
  by (simp_all add: num_def)

lemma num_remove1: "m \<in> set ms \<Longrightarrow> num P (remove1 m ms) + (if P m then 1 else 0) = num P ms"
  by (induction ms) auto

text \<open>Neither for the validator nor for the batcher.\<close>

fun plain :: "message \<Rightarrow> bool" where
  "plain (To_Validator m) = False"
| "plain (To_Batcher m) = False"
| "plain _ = True"

lemma plain_num:
  assumes "list_all plain ms"
  shows "num (validates x) ms = 0" "num (validates_call x) ms = 0" "num (appends x) ms = 0"
  using assms by (induction ms) (auto simp: kinds)

lemma quiet_plain: "list_all quiet ms \<Longrightarrow> list_all plain ms"
proof -
  have "plain m" if "quiet m" for m using that by (cases m) simp_all
  then show "list_all quiet ms \<Longrightarrow> list_all plain ms" by (auto simp: list_all_iff)
qed

lemma scheduler_plain: "list_all plain (snd (scheduler_handle env m st))"
  by (cases m) (auto simp: to_engine_def send_to_def handle_get_account_request_def reply_to_def split: option.split)

lemma cast_checked_plain: "plain m \<Longrightarrow> list_all plain (fst (cast_checked env a s m))"
  by (simp add: cast_checked_def)

lemma bridge_plain: "list_all plain (fst (handle_bridge_event env events))"
  by (induction events)
    (auto simp: set_pending_transaction_def cast_checked_def split: outcome.splits prod.splits if_splits)

lemma engine_plain: "list_all plain (fst (engine_handle env m))"
proof (cases m)
  case (E_BridgeEvents events)
  then show ?thesis using bridge_plain [of env events] by (auto split: prod.split outcome.split)
next
  case (E_RegisterProgram tx)
  then show ?thesis
    by (auto simp: handle_register_program_def inform_executor_def cast_checked_plain split: outcome.split)
next
  case (E_CallSuccess tx h outs)
  then show ?thesis
    by (auto simp: handle_call_success_def call_success_def respond_with_error_def send_to_def cast_checked_def
        split: outcome.split)
qed (auto simp: engine_handle_call_def engine_handle_send_def inform_executor_def set_pending_transaction_def
      cast_checked_plain write_to_cache_def send_to_def)

lemma executor_cast_plain: "plain m \<Longrightarrow> list_all plain (fst (executor_cast env a s m))"
  by (simp add: executor_cast_def)

lemma executor_plain:
  "\<not> (\<exists>tx cid. m = X_Create tx cid) \<Longrightarrow> list_all plain (fst (snd (executor_handle env m hs)))"
proof (cases m)
  case (X_Set tx)
  then show ?thesis
    by (auto simp: executor_set_def execution_error_def call_queued_for_exec_def set_pending_call_def send_to_def
        executor_cast_plain Let_def split: option.split outcome.split)
next
  case (X_Exec tx)
  then show ?thesis
    by (auto simp: executor_exec_def execution_error_def run_container_def executor_cast_plain Let_def
        split: option.split outcome.split)
next
  case (X_Results tx cid pid h)
  then show ?thesis
    by (auto simp: executor_results_def execution_error_def execution_success_def executor_cast_def
        split: option.split outcome.split)
qed auto

text \<open>At most one request to append \<open>tx\<close>, no other request to append, and nothing to the validator.\<close>

definition one_append :: "transaction \<Rightarrow> message list \<Rightarrow> bool" where
  "one_append tx ms \<longleftrightarrow> list_all plain ms \<or> (\<exists>outs xs ys. list_all plain xs \<and> list_all plain ys \<and>
     ms = xs @ To_Batcher (B_AppendTransaction tx outs) # ys)"

lemma one_append_num:
  assumes "one_append tx ms"
  shows "num (validates x) ms = 0" "num (validates_call x) ms = 0" "num (appends x) ms \<le> (if tx = x then 1 else 0)"
  using assms plain_num by (auto simp: one_append_def kinds)

lemma one_append_plain: "list_all plain ms \<Longrightarrow> one_append tx ms"
  by (simp add: one_append_def)

lemma one_append_last:
  "list_all plain xs \<Longrightarrow> ms = [] \<or> ms = [To_Batcher (B_AppendTransaction tx outs)] \<Longrightarrow> one_append tx (xs @ ms)"
  unfolding one_append_def by (metis append_Nil2 list.pred_inject(1))

lemma append_cases:
  "fst (append_to_batcher env tx outs) = [] \<or>
   fst (append_to_batcher env tx outs) = [To_Batcher (B_AppendTransaction tx outs)]"
  by (simp add: append_to_batcher_def)

lemma one_append_batcher: "one_append tx (fst (append_to_batcher env tx outs))"
  using one_append_last [of "[]"] append_cases [of env tx outs] by fastforce

lemma reject_plain: "list_all plain (fst (reject env tx e))"
  by (simp add: reject_def send_to_def)

lemma executor_create_appends: "one_append tx (fst (executor_create env tx cid))"
proof -
  have err: "list_all plain (fst (registration_error env h e))" for h e
    by (simp add: registration_error_def executor_cast_plain)
  have ok: "fst (registration_success env tx) = [] \<or>
      fst (registration_success env tx) = [To_Batcher (B_AppendTransaction tx None)]"
    by (simp add: registration_success_def executor_cast_def)
  show ?thesis
    using one_append_last [OF _ ok] one_append_last [OF _ ok, of "[]"]
    by (auto simp: executor_create_def err Let_def intro: one_append_plain split: option.split outcome.split)
qed

lemma instructions_plain: "list_all plain (fst (validate_instructions env tx caller accts is))"
  by (induction "is") (auto simp: reject_plain split: outcome.split)

lemma validate_call_appends: "one_append tx (fst (validate_call env accts outs tx))"
  using one_append_last [OF instructions_plain append_cases, where outs = "Some outs"] instructions_plain
  by (auto simp: validate_call_def case_prod_beta reject_plain intro: one_append_plain split: outcome.split option.split)

lemma validate_send_appends: "one_append tx (fst (validate_send env tx a))"
  by (auto simp: validate_send_def Let_def reject_plain intro: one_append_plain one_append_batcher
      split: outcome.split option.split)

lemma pending_transaction_appends: "one_append tx (fst (pending_transaction env lookup tx))"
  by (cases "tx_transaction_type tx")
    (auto simp: pending_transaction_def validate_bridge_in_def
      intro: one_append_plain one_append_batcher validate_send_appends split: option.split)

fun about :: "validator_message \<Rightarrow> transaction" where
  "about (V_PendingTransaction tx) = tx"
| "about (V_PendingCall outs tx) = tx"
| "about (V_PendingRegistration tx) = tx"

lemma validator_appends: "one_append (about m) (validator_handle env lookup m)"
  by (cases m)
    (auto simp: pending_call_def send_to_def
      intro: one_append_plain pending_transaction_appends validate_call_appends split: option.split)

section \<open>Deposits\<close>

lemma pending_num:
  assumes "is_bridge_in (tx_transaction_type x)" and "idle s" and "iter_order (pe_it_vertices env)"
    and "pending_handle env m s = Ok (s', ms)"
  shows "idle s' \<and> num (validates_call x) ms = 0 \<and> num (appends x) ms = 0 \<and>
     num (validates x) ms \<le> (if x \<in> set (ps_bridge_in s) then 0 else if x \<in> set (ps_bridge_in s') then 1 else 0) \<and>
     set (ps_bridge_in s) \<subseteq> set (ps_bridge_in s')"
proof -
  have "\<not> confirmed m" using assms(4) by (cases m) auto
  then have spec: "idle s'" "ms = snd (pending_spec env m (pending_abs s))"
      "pending_abs s' = fst (pending_spec env m (pending_abs s))"
    using pending_handle_idle [OF assms(2,3), of m] assms(4) by auto
  have seen: "pw_seen (pending_abs s) = ps_bridge_in s" "pw_seen (pending_abs s') = ps_bridge_in s'"
    by (simp_all add: pending_abs_def)
  have "num (validates x) ms = count_list ms (To_Validator (V_PendingTransaction x))" for ms
    by (induction ms) (auto simp: validates_def)
  moreover have "num (validates_call x) (schedule_with_validator env tx outs) = 0"
    "num (appends x) (schedule_with_validator env tx outs) = 0" for tx outs
    using assms(1) by (auto simp: schedule_with_validator_def send_to_def kinds split: transaction_type.split)
  then have "num (validates_call x) ms = 0 \<and> num (appends x) ms = 0"
    by (cases m) (auto simp: spec(2) send_to_executor_def send_to_def kinds)
  ultimately show ?thesis
    using spec_count [OF assms(1), where env = env and m = m and v = "pending_abs s"] spec seen
    by (auto split: if_splits)
qed

definition seen :: "system \<Rightarrow> transaction set" where
  "seen sys = set (ps_bridge_in (sy_pending sys))"

lemma post_sel [simp]:
  "sy_net (post ms sys) = sy_net sys @ ms" "sy_log (post ms sys) = sy_log sys @ ms"
  "sy_pending (post ms sys) = sy_pending sys" "seen (post ms sys) = seen sys" "sy_world (post ms sys) = sy_world sys"
  "sy_replies (post ms sys) = sy_replies sys" "sy_handles (post ms sys) = sy_handles sys"
  "sy_futures (post ms sys) = sy_futures sys"
  by (simp_all add: post_def seen_def)

text \<open>One delivery, as far as the deposit \<open>x\<close> is concerned.\<close>

definition delivery :: "transaction \<Rightarrow> message \<Rightarrow> system \<Rightarrow> system \<Rightarrow> bool" where
  "delivery x m sys sys' \<longleftrightarrow> (\<exists>ms. sy_net sys' = sy_net sys @ ms \<and> sy_log sys' = sy_log sys @ ms \<and>
     num (validates_call x) ms = 0 \<and> num (appends x) ms \<le> (if validates x m \<or> creates x m then 1 else 0) \<and>
     num (validates x) ms \<le> (if x \<in> seen sys then 0 else if x \<in> seen sys' then 1 else 0)) \<and>
     idle (sy_pending sys') \<and> seen sys \<subseteq> seen sys'"

lemma delivery_plain:
  "list_all plain ms \<Longrightarrow> sy_net sys' = sy_net sys @ ms \<Longrightarrow> sy_log sys' = sy_log sys @ ms \<Longrightarrow>
     sy_pending sys' = sy_pending sys \<Longrightarrow> idle (sy_pending sys) \<Longrightarrow> delivery x m sys sys'"
  using plain_num [of ms x] by (auto simp: delivery_def seen_def)

lemma delivery_append:
  "one_append tx ms \<Longrightarrow> sy_net sys' = sy_net sys @ ms \<Longrightarrow> sy_log sys' = sy_log sys @ ms \<Longrightarrow>
     sy_pending sys' = sy_pending sys \<Longrightarrow> idle (sy_pending sys) \<Longrightarrow>
     (tx = x \<Longrightarrow> validates x m \<or> creates x m) \<Longrightarrow> delivery x m sys sys'"
  using one_append_num [of tx ms x] by (auto simp: delivery_def seen_def split: if_splits)

lemma handle_message_delivery:
  assumes "is_bridge_in (tx_transaction_type x)" and "idle (sy_pending sys)" and "iter_order (sn_it_vertices env)"
    and "\<not> validates_call x m" and "handle_message env now m sys = Some sys'"
  shows "delivery x m sys sys'"
proof (cases m)
  case (To_Scheduler s)
  then show ?thesis using assms(2,5)
    by (auto simp: case_prod_beta
        intro!: delivery_plain [OF scheduler_plain [of "scheduler_of env (sy_world sys)" s "sy_replies sys"]])
next
  case (To_Pending p)
  obtain st ms where st: "pending_handle (pending_of env now) p (sy_pending sys) = Ok (st, ms)"
      "sys' = post ms (sys\<lparr>sy_pending := st\<rparr>)"
    using assms(5) To_Pending by (auto split: outcome.splits)
  have "iter_order (pe_it_vertices (pending_of env now))" using assms(3) by (simp add: pending_of_def)
  from pending_num [OF assms(1,2) this st(1)] show ?thesis
    by (auto simp: delivery_def st(2) seen_def intro!: exI [of _ ms] split: if_splits)
next
  case (To_Validator v)
  have "validates x m" if "about v = x" "validator_handle e lookup v \<noteq> []" for e lookup
    using that assms(4) by (cases v) (auto simp: To_Validator kinds)
  then show ?thesis using assms(2,5)
    by (cases "validator_handle (validator_of env) (lookup_account (sn_batcher env) (sy_world sys)) v = []")
      (auto simp: To_Validator intro: delivery_append [OF validator_appends] delivery_plain [of "[]"])
next
  case (To_Batcher b)
  obtain w r where w: "batcher_handle (sn_batcher env) b ((sy_world sys)\<lparr>w_out := []\<rparr>) = Some (w, r)"
      "sys' = note_panic m r (post (w_out w) (sys\<lparr>sy_world := w\<rparr>))"
    using assms(5) To_Batcher by (auto split: option.splits)
  have "calm w" using batcher_calm [OF _ w(1)] by (simp add: calm_def)
  then show ?thesis using assms(2)
    by (auto simp: w(2) calm_def intro!: delivery_plain [OF quiet_plain])
next
  case (To_Engine e)
  then show ?thesis using assms(2,5) by (auto simp: case_prod_beta intro!: delivery_plain [OF engine_plain])
next
  case (To_Executor e)
  show ?thesis
  proof (cases "\<exists>tx cid. e = X_Create tx cid")
    case True
    then show ?thesis using assms(2,5)
      by (auto simp: To_Executor kinds case_prod_beta intro!: delivery_append [OF executor_create_appends])
  next
    case False
    from executor_plain [OF this] show ?thesis
      using assms(2,5) by (auto simp: To_Executor case_prod_beta intro!: delivery_plain)
  qed
qed (use assms(2,5) in \<open>auto intro: delivery_plain [of "[]"]\<close>)

lemma deliver_delivery:
  assumes "is_bridge_in (tx_transaction_type x)" and "idle (sy_pending sys)" and "iter_order (sn_it_vertices env)"
    and "\<not> validates_call x m" and "deliver env now m sys = Some sys'"
  shows "delivery x m sys sys'"
proof (cases "pooled m \<and> \<not> sy_futures sys")
  case True
  then have "sys' = sys" using assms(5) by (simp add: deliver_def)
  then show ?thesis using delivery_plain [of "[]" sys sys x m] assms(2) by simp
next
  case False
  then show ?thesis using handle_message_delivery [OF assms(1-4)] assms(5) by (auto simp: deliver_def split: if_splits)
qed

text \<open>
  The bookkeeping of a deposit: the validator was asked at most once, and every request to append
  it stems from one to validate it or from one to register it as a program.
\<close>

definition deposit_inv :: "transaction \<Rightarrow> system \<Rightarrow> bool" where
  "deposit_inv x sys \<longleftrightarrow> idle (sy_pending sys) \<and> num (validates_call x) (sy_net sys) = 0 \<and>
     num (validates x) (sy_log sys) \<le> (if x \<in> seen sys then 1 else 0) \<and>
     num (appends x) (sy_log sys) + num (validates x) (sy_net sys) + num (creates x) (sy_net sys) \<le>
       num (validates x) (sy_log sys) + num (creates x) (sy_log sys)"

lemma take_msg_sel [simp]:
  "sy_log (take_msg m sys) = sy_log sys" "sy_pending (take_msg m sys) = sy_pending sys"
  "seen (take_msg m sys) = seen sys" "sy_net (take_msg m sys) = remove1 m (sy_net sys)"
  "sy_world (take_msg m sys) = sy_world sys" "sy_replies (take_msg m sys) = sy_replies sys"
  "sy_handles (take_msg m sys) = sy_handles sys" "sy_futures (take_msg m sys) = sy_futures sys"
  by (simp_all add: take_msg_def seen_def)

lemma take_msg_inv:
  assumes "deposit_inv x sys" and "m \<in> set (sy_net sys)"
  shows "deposit_inv x (take_msg m sys)"
    and "num (appends x) (sy_log sys) + num (validates x) (remove1 m (sy_net sys)) +
         num (creates x) (remove1 m (sy_net sys)) + (if validates x m \<or> creates x m then 1 else 0) \<le>
         num (validates x) (sy_log sys) + num (creates x) (sy_log sys)"
    and "\<not> validates_call x m"
  using assms(1) num_remove1 [OF assms(2), of "validates x"] num_remove1 [OF assms(2), of "creates x"]
    num_remove1 [OF assms(2), of "validates_call x"]
  by (auto simp: deposit_inv_def validates_def creates_def split: if_splits)

lemma delivery_inv:
  assumes "deposit_inv x sys" and "m \<in> set (sy_net sys)" and "delivery x m (take_msg m sys) sys'"
  shows "deposit_inv x sys'"
proof -
  obtain ms where ms: "sy_net sys' = remove1 m (sy_net sys) @ ms" "sy_log sys' = sy_log sys @ ms"
      "num (validates_call x) ms = 0" "num (appends x) ms \<le> (if validates x m \<or> creates x m then 1 else 0)"
      "num (validates x) ms \<le> (if x \<in> seen sys then 0 else if x \<in> seen sys' then 1 else 0)"
      "idle (sy_pending sys')" "seen sys \<subseteq> seen sys'"
    using assms(3) by (auto simp: delivery_def)
  have "num (validates x) (sy_log sys) \<le> (if x \<in> seen sys then 1 else 0)"
    using assms(1) by (simp add: deposit_inv_def)
  then have "num (validates x) (sy_log sys') \<le> (if x \<in> seen sys' then 1 else 0)"
    using ms(2,5,7) by (auto split: if_splits)
  moreover have "num (validates_call x) (sy_net sys') = 0"
    using take_msg_inv(1) [OF assms(1,2)] ms(1,3) by (simp add: deposit_inv_def)
  ultimately show ?thesis
    using take_msg_inv(2) [OF assms(1,2)] ms(1,2,4,6) by (simp add: deposit_inv_def)
qed

lemma external_num:
  "external m \<Longrightarrow> \<not> validates x m \<and> \<not> validates_call x m \<and> \<not> appends x m \<and> \<not> creates x m"
  by (auto simp: kinds)

lemma system_deposit_inv:
  assumes "is_bridge_in (tx_transaction_type x)" and "iter_order (sn_it_vertices env)"
  shows "system_reachable env sys \<Longrightarrow> deposit_inv x sys"
proof (induction rule: system_reachable.induct)
  case (init w)
  then show ?case
    using pending_reachable_idle [OF pending_reachable.init]
    by (simp add: deposit_inv_def system_init_def)
next
  case (step sys sys')
  from step.hyps(2) show ?case
  proof cases
    case (inject m)
    then show ?thesis using step.IH external_num [of m x] by (simp add: deposit_inv_def)
  next
    case (deliver m now)
    have "idle (sy_pending (take_msg m sys))" using step.IH by (simp add: deposit_inv_def)
    from deliver_delivery [OF assms(1) this assms(2) take_msg_inv(3) [OF step.IH deliver(1)] deliver(2)]
    show ?thesis by (rule delivery_inv [OF step.IH deliver(1)])
  next
    case (lose m)
    then show ?thesis using take_msg_inv(1) [OF step.IH] by simp
  qed
qed

text \<open>
  C4: in every execution of the node, with messages delivered in any order and lost at will, the
  batcher is asked to apply a given deposit at most once more than the executor was asked to
  register that transaction as a program. So without registrations a deposit the chain reports
  any number of times is credited at most once.
\<close>

theorem deposit_applied_once:
  assumes "system_reachable env sys" and "iter_order (sn_it_vertices env)"
    and "is_bridge_in (tx_transaction_type x)"
  shows "num (appends x) (sy_log sys) \<le> 1 + num (creates x) (sy_log sys)"
  using system_deposit_inv [OF assms(3,2,1)] by (auto simp: deposit_inv_def split: if_splits)

section \<open>From request to reply\<close>

definition node_up :: "system_env \<Rightarrow> bool" where
  "node_up env \<longleftrightarrow>
     (\<forall>a. registered (bn_registry (sn_batcher env)) a \<and> castable (bn_registry (sn_batcher env)) a) \<and>
     bn_cache_answers (sn_batcher env)"

definition runs_to :: "system_env \<Rightarrow> u64 \<Rightarrow> system \<Rightarrow> system \<Rightarrow> bool" where
  "runs_to env now sys sys' \<longleftrightarrow> (\<exists>n. drain env now n sys = Some sys')"

lemma runs_done: "sy_net sys = [] \<Longrightarrow> runs_to env now sys sys"
  by (simp add: runs_to_def drain.simps)

lemma runs_step:
  assumes "sy_net sys = m # ms" and "deliver env now m (sys\<lparr>sy_net := ms\<rparr>) = Some sys1" and "runs_to env now sys1 sys'"
  shows "runs_to env now sys sys'"
proof -
  obtain n where "drain env now n sys1 = Some sys'" using assms(3) by (auto simp: runs_to_def)
  then have "drain env now (Suc n) sys = Some sys'"
    using assms(1,2) by (simp add: drain.simps [of _ _ "Suc n"] take_msg_def)
  then show ?thesis unfolding runs_to_def by blast
qed

lemma runs_writes:
  "sy_net sys = map (\<lambda>a. To_AccountCache (AC_Write a)) as @ ms \<Longrightarrow> runs_to env now (sys\<lparr>sy_net := ms\<rparr>) sys' \<Longrightarrow>
     runs_to env now sys sys'"
proof (induction as arbitrary: sys)
  case (Cons a as)
  then show ?case using Cons.IH [of "sys\<lparr>sy_net := map (\<lambda>a. To_AccountCache (AC_Write a)) as @ ms\<rparr>"]
    by (auto intro: runs_step)
next
  case Nil
  then have eq: "sys\<lparr>sy_net := ms\<rparr> = sys" by simp
  show ?case using Nil(2) unfolding eq .
qed

lemma drain_reachable:
  "system_reachable env sys \<Longrightarrow> drain env now n sys = Some sys' \<Longrightarrow> system_reachable env sys' \<and> sy_net sys' = []"
proof (induction n arbitrary: sys)
  case (Suc n)
  show ?case
  proof (cases "sy_net sys")
    case Nil
    then show ?thesis using Suc.prems by (simp add: drain.simps)
  next
    case (Cons m ms)
    then obtain sys1 where "deliver env now m (take_msg m sys) = Some sys1" "drain env now n sys1 = Some sys'"
      using Suc.prems by (auto simp: drain.simps [of _ _ "Suc n"] split: option.splits)
    moreover from this(1) have "system_step env sys sys1"
      by (rule system_step.deliver [rotated]) (simp add: Cons)
    then have "system_reachable env sys1" by (rule system_reachable.step [OF Suc.prems(1)])
    ultimately show ?thesis using Suc.IH by blast
  qed
qed (auto simp: drain.simps split: list.splits)

definition direct :: "transaction \<Rightarrow> bool" where
  "direct tx \<longleftrightarrow> (\<exists>n. tx_transaction_type tx = Send n) \<or> is_bridge_in (tx_transaction_type tx)"

text \<open>A transaction the batcher applies is answered and leaves the node at rest.\<close>

lemma applied_runs:
  assumes "node_up env" and "iter_order (sn_it_vertices env)" and "idle (sy_pending sys)"
    and "sy_net sys = [To_Batcher (B_AppendTransaction tx None)] \<and> sy_futures sys" and "direct tx"
    and "add_transaction_to_account (sn_batcher env) tx ((sy_world sys)\<lparr>w_out := []\<rparr>) = Some (w, Ok ())"
  shows "\<exists>sys' tok. runs_to env now sys sys' \<and> sy_world sys' = w \<and> at_rest sys' \<and>
     (\<forall>port. hm_get (sy_replies sys) (hash_string (bn_crypto (sn_batcher env)) tx) = Some port \<longrightarrow>
        Rpc_Reply port (Inr (SendResponse tok)) \<in> set (sy_log sys'))"
proof -
  let ?h = "hash_string (bn_crypto (sn_batcher env)) tx" and ?pe = "pending_of env now"
  have "cache_up (sn_batcher env)" using assms(1) by (simp add: node_up_def cache_up_def)
  then obtain as tok where out: "w_out w = map (\<lambda>a. To_AccountCache (AC_Write a)) as @
      [To_Scheduler (S_TransactionApplied ?h tok), To_Pending (PT_Valid tx None)]"
    using add_transaction_out [OF _ assms(6)] by auto
  obtain st where st: "pending_handle ?pe (PT_Valid tx None) (sy_pending sys) = Ok (st, [])"
    using pending_handle_idle [OF assms(3), of ?pe "PT_Valid tx None"] assms(2) by (auto simp: pending_of_def)
  obtain rm replies where reply: "reply_to ?h (SendResponse tok) (sy_replies sys) = (rm, replies)" by fastforce
  have replies: "replies = (case hm_get (sy_replies sys) ?h of Some port \<Rightarrow> [Rpc_Reply port (Inr (SendResponse tok))] | None \<Rightarrow> [])"
    using reply by (auto simp: reply_to_def split: option.splits)
  let ?sys = "sys\<lparr>sy_world := w, sy_net := w_out w, sy_log := sy_log sys @ w_out w\<rparr>"
  let ?sys1 = "?sys\<lparr>sy_replies := rm, sy_log := sy_log sys @ w_out w @ replies\<rparr>"
  let ?final = "?sys1\<lparr>sy_pending := st, sy_net := []\<rparr>"
  have "runs_to env now (?sys1\<lparr>sy_pending := st, sy_net := replies\<rparr>) ?final"
  proof (cases "hm_get (sy_replies sys) ?h")
    case (Some port)
    then show ?thesis
      by (intro runs_step [where m = "Rpc_Reply port (Inr (SendResponse tok))" and ms = "[]", OF _ _ runs_done])
        (simp_all add: replies)
  qed (simp add: replies runs_done)
  then have "runs_to env now (?sys1\<lparr>sy_net := To_Pending (PT_Valid tx None) # replies\<rparr>) ?final"
    by (rule runs_step [where m = "To_Pending (PT_Valid tx None)" and ms = replies, rotated 2])
      (simp_all add: st post_def del: pending_handle.simps)
  then have "runs_to env now (?sys\<lparr>sy_net := drop (length as) (w_out w)\<rparr>) ?final"
    by (rule runs_step [where m = "To_Scheduler (S_TransactionApplied ?h tok)"
          and ms = "[To_Pending (PT_Valid tx None)]", rotated 2])
      (simp_all add: out post_def reply)
  then have "runs_to env now ?sys ?final"
    by (rule runs_writes [rotated]) (simp add: out)
  then have "runs_to env now sys ?final"
  proof (rule runs_step [rotated 2])
    show "sy_net sys = To_Batcher (B_AppendTransaction tx None) # []" by (rule conjunct1 [OF assms(4)])
    have "batcher_handle (sn_batcher env) (B_AppendTransaction tx None) ((sy_world sys)\<lparr>w_out := []\<rparr>) = Some (w, Ok ())"
      using assms(5,6) by (cases "tx_transaction_type tx") (auto simp: direct_def run_future_def)
    then show "deliver env now (To_Batcher (B_AppendTransaction tx None)) (sys\<lparr>sy_net := []\<rparr>) = Some ?sys"
      using assms(4) by (simp add: post_def del: batcher_handle.simps)
  qed
  then show ?thesis using assms(4) by (intro exI [of _ ?final] exI [of _ tok]) (simp add: replies at_rest_def)
qed

lemma reachable_idle:
  assumes "system_reachable env sys" and "iter_order (sn_it_vertices env)"
  shows "idle (sy_pending sys)"
  using system_deposit_inv [of "default_transaction\<lparr>tx_transaction_type := BridgeIn 0\<rparr>", OF _ assms(2,1)]
  by (simp add: deposit_inv_def)

lemma lookup_out [simp]: "lookup_account env (w\<lparr>w_out := ms\<rparr>) = lookup_account env w"
  by (simp add: lookup_account_def fun_eq_iff)

lemma held_out [simp]: "held env (w\<lparr>w_out := ms\<rparr>) k p = held env w k p"
  by (simp add: held_def)

text \<open>
  A new send or deposit that the validator lets through and the batcher applies runs from the
  pending transactions through the validator and the batcher to the end.
\<close>

lemma pending_runs:
  assumes "node_up env" and "iter_order (sn_it_vertices env)" and "idle (sy_pending sys)"
    and "sy_net sys = [To_Pending (PT_New tx None)] \<and> sy_futures sys"
    and "direct tx" and "is_bridge_in (tx_transaction_type tx) \<Longrightarrow> tx \<notin> seen sys"
    and "fst (pending_transaction (validator_of env) (lookup_account (sn_batcher env) (sy_world sys)) tx) =
           [To_Batcher (B_AppendTransaction tx None)]"
    and "add_transaction_to_account (sn_batcher env) tx ((sy_world sys)\<lparr>w_out := []\<rparr>) = Some (w, Ok ())"
  shows "\<exists>sys' tok. runs_to env now sys sys' \<and> sy_world sys' = w \<and> at_rest sys' \<and>
     (\<forall>port. hm_get (sy_replies sys) (hash_string (bn_crypto (sn_batcher env)) tx) = Some port \<longrightarrow>
        Rpc_Reply port (Inr (SendResponse tok)) \<in> set (sy_log sys'))"
proof -
  let ?pe = "pending_of env now"
  have up: "registered (bn_registry (sn_batcher env)) a" "castable (bn_registry (sn_batcher env)) a" for a
    using assms(1) by (simp_all add: node_up_def)
  have sched: "schedule_with_validator ?pe tx None = [To_Validator (V_PendingTransaction tx)]"
    using assms(5) up by (cases "tx_transaction_type tx")
      (auto simp: direct_def schedule_with_validator_def pending_of_def send_to_def)
  have "snd (pending_spec ?pe (PT_New tx None) (pending_abs (sy_pending sys))) = [To_Validator (V_PendingTransaction tx)]"
    using assms(6) sched by (auto simp: seen_def pending_abs_def)
  then obtain st where st: "pending_handle ?pe (PT_New tx None) (sy_pending sys) =
      Ok (st, [To_Validator (V_PendingTransaction tx)])" "idle st"
    using pending_handle_idle [OF assms(3), of ?pe "PT_New tx None"] assms(2) by (auto simp: pending_of_def)
  let ?v = "To_Validator (V_PendingTransaction tx)" and ?b = "To_Batcher (B_AppendTransaction tx None)"
  let ?sys = "sys\<lparr>sy_pending := st, sy_net := [?b], sy_log := sy_log sys @ [?v, ?b]\<rparr>"
  obtain sys' tok where sys': "runs_to env now ?sys sys'" "sy_world sys' = w" "at_rest sys'"
      "\<forall>port. hm_get (sy_replies sys) (hash_string (bn_crypto (sn_batcher env)) tx) = Some port \<longrightarrow>
         Rpc_Reply port (Inr (SendResponse tok)) \<in> set (sy_log sys')"
    using applied_runs [OF assms(1,2), of ?sys tx w now] st(2) assms(4,5,8) by auto
  have "runs_to env now (sys\<lparr>sy_pending := st, sy_net := [?v], sy_log := sy_log sys @ [?v]\<rparr>) sys'"
    by (rule runs_step [where m = ?v and ms = "[]", OF _ _ sys'(1)]) (simp_all add: assms(4,7) post_def)
  then have "runs_to env now sys sys'"
    by (rule runs_step [where m = "To_Pending (PT_New tx None)" and ms = "[]", rotated 2])
      (simp_all add: assms(4) st(1) post_def del: pending_handle.simps)
  then show ?thesis using sys'(2-4) by blast
qed

text \<open>The same for a transaction submitted through \<open>send\<close>: the client is answered.\<close>

lemma direct_end_to_end:
  assumes "system_reachable env sys" and "at_rest sys" and "node_up env" and "iter_order (sn_it_vertices env)"
    and "direct tx" and "is_bridge_in (tx_transaction_type tx) \<Longrightarrow> tx \<notin> seen sys"
    and "fst (pending_transaction (validator_of env) (lookup_account (sn_batcher env) (sy_world sys)) tx) =
           [To_Batcher (B_AppendTransaction tx None)]"
    and "add_transaction_to_account (sn_batcher env) tx ((sy_world sys)\<lparr>w_out := []\<rparr>) = Some (w, Ok ())"
  shows "\<exists>k sys' tok. drain env now k (post [To_Scheduler (S_Send tx port)] sys) = Some sys' \<and> at_rest sys' \<and>
     Rpc_Reply port (Inr (SendResponse tok)) \<in> set (sy_log sys') \<and> sy_world sys' = w"
proof -
  let ?h = "hash_string (bn_crypto (sn_batcher env)) tx"
  let ?log = "[To_Scheduler (S_Send tx port), To_Engine (E_Send tx), To_Pending (PT_New tx None)]"
  let ?sys = "sys\<lparr>sy_replies := hm_insert ?h port (sy_replies sys), sy_net := [To_Pending (PT_New tx None)],
      sy_log := sy_log sys @ ?log\<rparr>"
  have up: "registered (bn_registry (sn_batcher env)) a" "castable (bn_registry (sn_batcher env)) a" for a
    using assms(3) by (simp_all add: node_up_def)
  have "seen ?sys = seen sys" by (simp add: seen_def)
  then obtain sys' tok where sys': "runs_to env now ?sys sys'" "sy_world sys' = w" "at_rest sys'"
      "Rpc_Reply port (Inr (SendResponse tok)) \<in> set (sy_log sys')"
    using pending_runs [OF assms(3,4), of ?sys tx w now] reachable_idle [OF assms(1,4)] assms(2,5-8)
    by (auto simp: hm_get_insert at_rest_def)
  from sys'(1) have "runs_to env now (sys\<lparr>sy_replies := hm_insert ?h port (sy_replies sys), sy_net := [To_Engine (E_Send tx)],
      sy_log := sy_log sys @ take 2 ?log\<rparr>) sys'"
    by (rule runs_step [where m = "To_Engine (E_Send tx)" and ms = "[]", rotated 2])
      (use assms(2) in \<open>simp_all add: at_rest_def engine_handle_send_def set_pending_transaction_def cast_checked_def engine_of_def up post_def\<close>)
  then have "runs_to env now (post [To_Scheduler (S_Send tx port)] sys) sys'"
    by (rule runs_step [where m = "To_Scheduler (S_Send tx port)" and ms = "[]", rotated 2])
      (use assms(2) in \<open>simp_all add: at_rest_def scheduler_of_def to_engine_def send_to_def up post_def\<close>)
  then show ?thesis using sys' unfolding runs_to_def by blast
qed

lemma send_runs:
  assumes "system_reachable env sys" and "at_rest sys" and "node_up env" and "iter_order (sn_it_vertices env)"
    and "benv = sn_batcher env" and "w = sy_world sys" and "iter_order (bn_it_string benv)"
    and "tx_transaction_type tx = Send n" and "tx_from tx \<noteq> tx_to tx"
    and "tx_recover (bn_crypto benv) tx = Ok (tx_from tx)"
    and "lookup_account benv w (tx_from tx) = Some a" and "filed_user (tx_from tx) a"
    and "acc_programs a (tx_program_id tx) = Some s" and "tx_value tx \<le> tok_balance s"
    and "unat (acc_nonce a) < unat (tx_nonce tx) \<or> (acc_nonce a = 0 \<and> tx_nonce tx = 0)"
    and "\<And>b. lookup_account benv w (tx_to tx) = Some b \<Longrightarrow> filed_user (tx_to tx) b"
    and "held benv w (tx_to tx) (tx_program_id tx) + unat (tx_value tx) < 2 ^ 256"
    and "lookup_account benv w (tx_program_id tx) \<noteq> None \<or> tx_program_id tx \<in> {eth_addr, verse_addr}"
    and "\<And>buf tok. transaction_buffer benv (lookup_account benv w) tx = Ok (buf, tok) \<Longrightarrow>
           room_for_all benv tx (map snd (bn_it_string benv buf)) (bt_parent (w_batcher w))"
  shows "\<exists>k sys' tok. drain env now k (post [To_Scheduler (S_Send tx port)] sys) = Some sys' \<and> at_rest sys' \<and>
     Rpc_Reply port (Inr (SendResponse tok)) \<in> set (sy_log sys') \<and>
     held benv (sy_world sys') (tx_from tx) (tx_program_id tx) + unat (tx_value tx) =
       held benv w (tx_from tx) (tx_program_id tx) \<and>
     held benv (sy_world sys') (tx_to tx) (tx_program_id tx) =
       held benv w (tx_to tx) (tx_program_id tx) + unat (tx_value tx) \<and>
     (\<forall>x. x = tx_from tx \<or> x = tx_to tx \<or> lookup_account benv (sy_world sys') x = lookup_account benv w x)"
proof -
  have up: "cache_up benv" "reports_up benv" "actors_up (validator_of env)"
    using assms(3,5) by (simp_all add: node_up_def cache_up_def reports_up_def actors_up_def validator_of_def)
  have direct: "direct tx" "\<not> is_bridge_in (tx_transaction_type tx)" using assms(8) by (simp_all add: direct_def)
  let ?w = "w\<lparr>w_out := []\<rparr>"
  have "unat (acc_nonce a) + 1 < 2 ^ 256"
    using assms(15) u256_fits [of "tx_nonce tx"] by auto
  then have "\<exists>w'. add_transaction_to_account benv tx ?w = Some (w', Ok ()) \<and>
      held benv w' (tx_from tx) (tx_program_id tx) + unat (tx_value tx) = held benv ?w (tx_from tx) (tx_program_id tx) \<and>
      held benv w' (tx_to tx) (tx_program_id tx) = held benv ?w (tx_to tx) (tx_program_id tx) + unat (tx_value tx) \<and>
      (\<forall>x. x = tx_from tx \<or> x = tx_to tx \<or> lookup_account benv w' x = lookup_account benv ?w x)"
    by (intro send_applies [where a = a and s = s, OF up(1,2) assms(7,9) direct(2)])
      (use assms(11-14,16-19) in simp_all)
  then obtain w' where w': "add_transaction_to_account benv tx ?w = Some (w', Ok ())"
      "held benv w' (tx_from tx) (tx_program_id tx) + unat (tx_value tx) = held benv w (tx_from tx) (tx_program_id tx)"
      "held benv w' (tx_to tx) (tx_program_id tx) = held benv w (tx_to tx) (tx_program_id tx) + unat (tx_value tx)"
      "\<forall>x. x = tx_from tx \<or> x = tx_to tx \<or> lookup_account benv w' x = lookup_account benv w x"
    by auto
  have "verify_signature (ve_crypto (validator_of env)) tx = Ok ()"
    using assms(5,10) by (simp add: validator_of_def verify_signature_iff_recover')
  then have "fst (validate_send (validator_of env) tx a) = [To_Batcher (B_AppendTransaction tx None)]"
    using validate_send_cases [OF up(3), of tx a] assms(5,10,13-15)
    by (auto simp: validator_of_def word_le_nat_alt)
  then have "fst (pending_transaction (validator_of env) (lookup_account (sn_batcher env) (sy_world sys)) tx) =
      [To_Batcher (B_AppendTransaction tx None)]"
    using assms(5,6,8,11) by (simp add: pending_transaction_def)
  from direct_end_to_end [OF assms(1-4) direct(1) _ this] w' direct(2) assms(5,6) show ?thesis by fastforce
qed

text \<open>
  C1: a send from the client's request to its answer. From every state of the node at rest (nothing
  in flight, the loop over the futures not ended by a panic), when the actors are up, the sender's
  account holds the value and signed the transaction with an acceptable nonce, and the batcher has
  room, delivering the messages in order ends after finitely many deliveries: the client is answered with a token on its port, the value has moved from the
  sender to the receiver, no other account has changed, and the node is at rest again.
\<close>

theorem send_end_to_end:
  assumes "system_reachable env sys" and "at_rest sys" and "node_up env" and "iter_order (sn_it_vertices env)"
    and "benv = sn_batcher env" and "w = sy_world sys" and "iter_order (bn_it_string benv)"
    and "tx_transaction_type tx = Send n" and "tx_from tx \<noteq> tx_to tx"
    and "tx_recover (bn_crypto benv) tx = Ok (tx_from tx)"
    and "lookup_account benv w (tx_from tx) = Some a" and "filed_user (tx_from tx) a"
    and "acc_programs a (tx_program_id tx) = Some s" and "tx_value tx \<le> tok_balance s"
    and "unat (acc_nonce a) < unat (tx_nonce tx) \<or> (acc_nonce a = 0 \<and> tx_nonce tx = 0)"
    and "\<And>b. lookup_account benv w (tx_to tx) = Some b \<Longrightarrow> filed_user (tx_to tx) b"
    and "held benv w (tx_to tx) (tx_program_id tx) + unat (tx_value tx) < 2 ^ 256"
    and "lookup_account benv w (tx_program_id tx) \<noteq> None \<or> tx_program_id tx \<in> {eth_addr, verse_addr}"
    and "\<And>buf tok. transaction_buffer benv (lookup_account benv w) tx = Ok (buf, tok) \<Longrightarrow>
           room_for_all benv tx (map snd (bn_it_string benv buf)) (bt_parent (w_batcher w))"
  shows "\<exists>k sys' tok. drain env now k (post [To_Scheduler (S_Send tx port)] sys) = Some sys' \<and> at_rest sys' \<and>
     Rpc_Reply port (Inr (SendResponse tok)) \<in> set (sy_log sys') \<and>
     held benv (sy_world sys') (tx_from tx) (tx_program_id tx) + unat (tx_value tx) =
       held benv w (tx_from tx) (tx_program_id tx) \<and>
     held benv (sy_world sys') (tx_to tx) (tx_program_id tx) =
       held benv w (tx_to tx) (tx_program_id tx) + unat (tx_value tx) \<and>
     (\<forall>x. x = tx_from tx \<or> x = tx_to tx \<or> lookup_account benv (sy_world sys') x = lookup_account benv w x)"
  by (rule send_runs [OF assms])

text \<open>
  C24: a client mints tokens. A transaction of type \<open>BridgeIn\<close> that a client submits with \<open>send\<close>
  (no event of the chain, any bytes as its signature) is credited to the account it names as sender
  and receiver, for any program and any value that does not overflow the balance, and the client is
  told success: the scheduler and the engine do not look at the type of a submitted transaction,
  and the validator checks of a deposit only that the sender is the receiver.
\<close>

theorem client_forges_deposit:
  assumes "system_reachable env sys" and "at_rest sys" and "node_up env" and "iter_order (sn_it_vertices env)"
    and "benv = sn_batcher env" and "w = sy_world sys" and "iter_order (bn_it_string benv)"
    and "is_bridge_in (tx_transaction_type tx)" and "tx_from tx = tx_to tx" and "tx \<notin> seen sys"
    and "\<And>a. lookup_account benv w (tx_from tx) = Some a \<Longrightarrow> filed_user (tx_from tx) a \<and> unat (acc_nonce a) + 1 < 2 ^ 256"
    and "held benv w (tx_from tx) (tx_program_id tx) + unat (tx_value tx) < 2 ^ 256"
    and "\<And>buf tok. transaction_buffer benv (lookup_account benv w) tx = Ok (buf, tok) \<Longrightarrow>
           room_for_all benv tx (map snd (bn_it_string benv buf)) (bt_parent (w_batcher w))"
  shows "\<exists>k sys' tok. drain env now k (post [To_Scheduler (S_Send tx port)] sys) = Some sys' \<and> at_rest sys' \<and>
     Rpc_Reply port (Inr (SendResponse tok)) \<in> set (sy_log sys') \<and>
     held benv (sy_world sys') (tx_from tx) (tx_program_id tx) =
       held benv w (tx_from tx) (tx_program_id tx) + unat (tx_value tx)"
proof -
  have up: "cache_up benv" "reports_up benv" "actors_up (validator_of env)"
    using assms(3,5) by (simp_all add: node_up_def cache_up_def reports_up_def actors_up_def validator_of_def)
  let ?w = "w\<lparr>w_out := []\<rparr>"
  have "\<exists>w'. add_transaction_to_account benv tx ?w = Some (w', Ok ()) \<and>
      held benv w' (tx_from tx) (tx_program_id tx) = held benv ?w (tx_from tx) (tx_program_id tx) + unat (tx_value tx) \<and>
      (\<forall>x. x = tx_from tx \<or> lookup_account benv w' x = lookup_account benv ?w x)"
    by (intro deposit_applies [OF up(1,2) assms(7-9)]) (use assms(11-13) in simp_all)
  moreover have "fst (pending_transaction (validator_of env) (lookup_account (sn_batcher env) (sy_world sys)) tx) =
      [To_Batcher (B_AppendTransaction tx None)]"
    using assms(8,9) append_up [OF up(3), of tx None]
    by (cases "tx_transaction_type tx") (simp_all add: pending_transaction_def validate_bridge_in_def)
  moreover have "direct tx" using assms(8) by (simp add: direct_def)
  ultimately show ?thesis
    using direct_end_to_end [OF assms(1-4), of tx] assms(5,6,10) by fastforce
qed

section \<open>Witnesses\<close>

definition sample_node_env :: system_env where
  "sample_node_env =
     \<lparr>sn_batcher = sample_benv, sn_it_accounts = (\<lambda>xs. xs), sn_it_vertices = (\<lambda>xs. xs),
      sn_parse_outputs = (\<lambda>_. Err ''eof''), sn_pinned = (\<lambda>_. True), sn_pin = (\<lambda>_. None), sn_bundle = (\<lambda>_. None),
      sn_container = (\<lambda>_ _. sample_io (Inr True) ''{}'')\<rparr>"

lemma sample_node_env_sel [simp]:
  "sn_batcher sample_node_env = sample_benv" "node_up sample_node_env" "iter_order (sn_it_vertices sample_node_env)"
  by (simp_all add: sample_node_env_def node_up_def iter_order_id) (simp add: sample_benv_def)

lemma system_init_sel [simp]:
  "at_rest (system_init w)" "sy_net (system_init w) = []" "sy_world (system_init w) = w" "seen (system_init w) = {}"
  by (simp_all add: system_init_def at_rest_def seen_def pending_init_def)

definition sample_deposit :: transaction where
  "sample_deposit = sample_transaction (BridgeIn 0) eth_addr eth_addr eth_addr 4"

lemma sample_deposit_sel [simp]:
  "tx_transaction_type sample_deposit = BridgeIn 0" "tx_from sample_deposit = eth_addr" "tx_to sample_deposit = eth_addr"
  "tx_program_id sample_deposit = eth_addr" "tx_value sample_deposit = 4"
  by (simp_all add: sample_deposit_def)

text \<open>A world with one account that holds ten: the client sends itself a deposit of four.\<close>

abbreviation sample_holder :: world where
  "sample_holder \<equiv> sample_world [sample_account eth_addr (sample_token eth_addr eth_addr 10)]"

lemma sample_holder_held [simp]:
  "held sample_benv sample_holder eth_addr eth_addr = 10" "held sample_benv sample_holder verse_addr eth_addr = 0"
  by (simp_all add: held_def balance_of_def)

theorem client_forges_deposit_witness:
  "\<exists>k sys' tok. drain sample_node_env 0 k (post [To_Scheduler (S_Send sample_deposit 7)] (system_init sample_holder)) = Some sys' \<and>
     Rpc_Reply 7 (Inr (SendResponse tok)) \<in> set (sy_log sys') \<and> held sample_benv (sy_world sys') eth_addr eth_addr = 14"
  using client_forges_deposit [OF system_reachable.init, of sample_holder sample_node_env sample_benv sample_holder sample_deposit 0 7]
  by auto

theorem send_end_to_end_witness:
  "\<exists>k sys' tok. drain sample_node_env 0 k (post [To_Scheduler (S_Send sample_send 7)] (system_init sample_holder)) = Some sys' \<and>
     Rpc_Reply 7 (Inr (SendResponse tok)) \<in> set (sy_log sys') \<and> held sample_benv (sy_world sys') eth_addr eth_addr = 6 \<and>
     held sample_benv (sy_world sys') verse_addr eth_addr = 4"
proof -
  have ty: "tx_transaction_type sample_send = Send 0" by (simp add: sample_send_def)
  have "\<exists>k sys' tok. drain sample_node_env 0 k (post [To_Scheduler (S_Send sample_send 7)] (system_init sample_holder)) = Some sys' \<and>
      at_rest sys' \<and> Rpc_Reply 7 (Inr (SendResponse tok)) \<in> set (sy_log sys') \<and>
      held sample_benv (sy_world sys') (tx_from sample_send) (tx_program_id sample_send) + unat (tx_value sample_send) =
        held sample_benv sample_holder (tx_from sample_send) (tx_program_id sample_send) \<and>
      held sample_benv (sy_world sys') (tx_to sample_send) (tx_program_id sample_send) =
        held sample_benv sample_holder (tx_to sample_send) (tx_program_id sample_send) + unat (tx_value sample_send) \<and>
      (\<forall>x. x = tx_from sample_send \<or> x = tx_to sample_send \<or>
         lookup_account sample_benv (sy_world sys') x = lookup_account sample_benv sample_holder x)"
    by (rule send_end_to_end [OF system_reachable.init, where n = 0
          and a = "sample_account eth_addr (sample_token eth_addr eth_addr 10)" and s = "sample_token eth_addr eth_addr 10"])
      (use ty sample_send_recover in simp_all)
  then show ?thesis by fastforce
qed

theorem deposit_applied_once_witness:
  "\<exists>sys tok. system_reachable sample_node_env sys \<and> Rpc_Reply 7 (Inr (SendResponse tok)) \<in> set (sy_log sys) \<and>
     num (appends sample_deposit) (sy_log sys) \<le> 1 + num (creates sample_deposit) (sy_log sys)"
proof -
  obtain w where "add_transaction_to_account sample_benv sample_deposit (sample_holder\<lparr>w_out := []\<rparr>) = Some (w, Ok ())"
    using deposit_applies [of sample_benv sample_deposit "sample_holder\<lparr>w_out := []\<rparr>"] by auto
  moreover have "fst (pending_transaction (validator_of sample_node_env) f sample_deposit) =
      [To_Batcher (B_AppendTransaction sample_deposit None)]" for f
    by (simp add: pending_transaction_def validate_bridge_in_def append_to_batcher_def validator_of_def)
  ultimately obtain k sys tok where
      "drain sample_node_env 0 k (post [To_Scheduler (S_Send sample_deposit 7)] (system_init sample_holder)) = Some sys"
      "Rpc_Reply 7 (Inr (SendResponse tok)) \<in> set (sy_log sys)"
    using direct_end_to_end [OF system_reachable.init, of sample_holder sample_node_env sample_deposit w 0 7]
    by (auto simp: direct_def)
  moreover have "system_reachable sample_node_env (post [To_Scheduler (S_Send sample_deposit 7)] (system_init sample_holder))"
    by (rule system_reachable.step [OF system_reachable.init system_step.inject]) simp
  ultimately show ?thesis
    using drain_reachable deposit_applied_once [of sample_node_env sys sample_deposit] by fastforce
qed

end
