(* ===== verification/Listener_Model.thy ===== *)
theory Listener_Model
  imports Messages_Model
begin

text \<open>
  The listener for the chain's events (crates/eo_listener/src/lib.rs), the loop that drives it and
  the actor that turns its logs into messages for the engine (crates/actors/src/eo_server.rs), and
  how it is set up when the node starts (crates/node/src/main.rs). For each of the two events it
  watches, the listener keeps the blocks whose logs it has processed, the filter of its next query,
  and the block number of its last poll. The answers of the chain and of the file system, the
  decoding of a log and the binary encoding of the saved state are parameters. A block number is a
  natural number below \<open>2 ^ 64\<close>; the addition of block numbers aborts where it does not fit.
\<close>

section \<open>The listener\<close>

record eth_log =
  el_block_number :: "nat option"
  el_topics :: "u8 list list"
  el_data :: "u8 list"

datatype abi_token =
  T_Address address | T_Uint u256 | T_String string | T_FixedBytes "u8 list" | T_Array "abi_token list"
| T_Bool bool | T_Bytes "u8 list"

text \<open>A decoded log: its parameters by name, in order.\<close>

type_synonym parsed_log = "(string \<times> abi_token) list"

datatype event_type = Bridge | Settlement

text \<open>The upper end of a filter is a number or the latest block.\<close>

record block_filter =
  fl_from :: nat
  fl_to :: "nat option"

record watch =
  wt_processed_blocks :: "nat list"
  wt_filter :: block_filter
  wt_current_filter_block :: nat

record eo_server =
  es_bridge :: watch
  es_settled :: watch

record blocks_processed =
  bp_bridge :: "nat option"
  bp_settle :: "nat option"
  bp_bridge_processed :: "nat list"
  bp_settled_processed :: "nat list"

definition default_blocks_processed :: blocks_processed where
  "default_blocks_processed =
     \<lparr>bp_bridge = None, bp_settle = None, bp_bridge_processed = [], bp_settled_processed = []\<rparr>"

record listener_env =
  li_address_ok :: bool
  li_parse :: "event_type \<Rightarrow> eth_log \<Rightarrow> (string, parsed_log) outcome"
  li_ser :: "blocks_processed \<Rightarrow> u8 list option"
  li_de :: "u8 list \<Rightarrow> blocks_processed option"

text \<open>\<open>log_handler!\<close>: a failed query counts as no logs.\<close>

definition log_handler :: "string + eth_log list \<Rightarrow> eth_log list" where
  "log_handler logs = (case logs of Inr l \<Rightarrow> l | Inl _ \<Rightarrow> [])"

definition u64_add :: "nat \<Rightarrow> nat \<Rightarrow> ('e, nat) outcome" where
  "u64_add a b = (if a + b < 2 ^ 64 then Ok (a + b) else Panic ''arithmetic operation overflow'')"

text \<open>A \<open>BTreeSet\<close> of block numbers is a sorted list without duplicates.\<close>

definition btree_extend :: "nat list \<Rightarrow> nat list \<Rightarrow> nat list" where
  "btree_extend s bs = fold insort_insert bs s"

definition btree_last :: "nat list \<Rightarrow> nat option" where
  "btree_last s = (if s = [] then None else Some (last s))"

text \<open>
  The loop over the logs of one query: the first log without a block number, or that does not
  decode, ends it with an error, and nothing is recorded as processed.
\<close>

fun parse_events ::
    "listener_env \<Rightarrow> event_type \<Rightarrow> eth_log list \<Rightarrow> (string, (nat \<times> parsed_log) list) outcome" where
  "parse_events env ty [] = Ok []"
| "parse_events env ty (event # events) =
     obind (ok_or (el_block_number event) ''Log missing block number'') (\<lambda>block_number.
     obind (li_parse env ty event) (\<lambda>log.
     obind (parse_events env ty events) (\<lambda>rest.
     Ok ((block_number, log) # rest))))"

definition process_events ::
    "listener_env \<Rightarrow> event_type \<Rightarrow> eth_log list \<Rightarrow> watch \<Rightarrow> (watch, string, parsed_log list) mutres" where
  "process_events env ty events w =
     (case parse_events env ty events of
        Ok logs \<Rightarrow> (w\<lparr>wt_processed_blocks := btree_extend (wt_processed_blocks w) (map fst logs)\<rparr>, Ok (map snd logs))
      | Err e \<Rightarrow> (w, Err e)
      | Panic p \<Rightarrow> (w, Panic p))"

definition handle_bridge_events ::
    "listener_env \<Rightarrow> eth_log list \<Rightarrow> eo_server \<Rightarrow> (eo_server, string, parsed_log list) mutres" where
  "handle_bridge_events env events self =
     (case process_events env Bridge events (es_bridge self) of (w, r) \<Rightarrow> (self\<lparr>es_bridge := w\<rparr>, r))"

definition handle_settlement_events ::
    "listener_env \<Rightarrow> eth_log list \<Rightarrow> eo_server \<Rightarrow> (eo_server, string, parsed_log list) mutres" where
  "handle_settlement_events env events self =
     (case process_events env Settlement events (es_settled self) of (w, r) \<Rightarrow> (self\<lparr>es_settled := w\<rparr>, r))"

text \<open>
  The next filter starts after the last processed block and ends one block after the number of the
  poll before this one; then this poll's number is kept. The caller drops the error of an
  address that does not parse, which leaves the filter as it is.
\<close>

definition increment_filter :: "listener_env \<Rightarrow> nat \<Rightarrow> watch \<Rightarrow> (watch, string, unit) mutres" where
  "increment_filter env block_number w =
     (if \<not> li_address_ok env then (w, Err ''invalid contract address'')
      else
        (case obind (u64_add (case btree_last (wt_processed_blocks w) of Some b \<Rightarrow> b | None \<Rightarrow> 0) 1) (\<lambda>from_block.
              obind (u64_add (wt_current_filter_block w) 1) (\<lambda>to_block.
              Ok \<lparr>fl_from = from_block, fl_to = Some to_block\<rparr>)) of
           Ok new_filter \<Rightarrow> (w\<lparr>wt_current_filter_block := block_number, wt_filter := new_filter\<rparr>, Ok ())
         | Err e \<Rightarrow> (w, Err e)
         | Panic p \<Rightarrow> (w, Panic p)))"

definition increment_bridge_filter :: "listener_env \<Rightarrow> nat \<Rightarrow> eo_server \<Rightarrow> (eo_server, string, unit) mutres" where
  "increment_bridge_filter env block_number self =
     (case increment_filter env block_number (es_bridge self) of (w, r) \<Rightarrow> (self\<lparr>es_bridge := w\<rparr>, r))"

definition increment_blob_filter :: "listener_env \<Rightarrow> nat \<Rightarrow> eo_server \<Rightarrow> (eo_server, string, unit) mutres" where
  "increment_blob_filter env block_number self =
     (case increment_filter env block_number (es_settled self) of (w, r) \<Rightarrow> (self\<lparr>es_settled := w\<rparr>, r))"

text \<open>An error of the increment is dropped, a panic is not.\<close>

fun after_increment :: "('s, string, unit) mutres \<Rightarrow> 'a \<Rightarrow> ('s, string, 'a) mutres" where
  "after_increment (s, Panic p) a = (s, Panic p)"
| "after_increment (s, _) a = (s, Ok a)"

definition process_logs ::
    "listener_env \<Rightarrow> event_type \<Rightarrow> string + nat \<Rightarrow> string + eth_log list \<Rightarrow> eo_server
       \<Rightarrow> (eo_server, string, parsed_log list) mutres" where
  "process_logs env ty block_number logs self =
     (case block_number of
        Inl e \<Rightarrow> (self, Err (''Error attempting to get block number: '' @ e))
      | Inr n \<Rightarrow>
          (case ty of
             Bridge \<Rightarrow>
               and_then (handle_bridge_events env (log_handler logs) self)
                 (\<lambda>s parsed. after_increment (increment_bridge_filter env n s) parsed)
           | Settlement \<Rightarrow>
               and_then (handle_settlement_events env (log_handler logs) self)
                 (\<lambda>s parsed. after_increment (increment_blob_filter env n s) parsed)))"

section \<open>The loop around the listener\<close>

text \<open>
  One round: the answer of the listener (or a timeout), the message to the actor when there are
  logs, and the state saved to a file, whose new bytes are written over the old ones without
  cutting the rest off. Whether the actor takes the message is part of the answer: when it has
  stopped, the failure is logged, and the state counts the logs as processed and is saved all the
  same. The copy in the persistent store is read and not changed.
\<close>

datatype listener_round = Timed_Out | Answered event_type "string + nat" "string + eth_log list" bool

definition save_blocks_processed :: "listener_env \<Rightarrow> eo_server \<Rightarrow> u8 list \<Rightarrow> u8 list" where
  "save_blocks_processed env self file =
     (case li_ser env
        \<lparr>bp_bridge = Some (wt_current_filter_block (es_bridge self)),
         bp_settle = Some (wt_current_filter_block (es_settled self)),
         bp_bridge_processed = wt_processed_blocks (es_bridge self),
         bp_settled_processed = wt_processed_blocks (es_settled self)\<rparr> of
        Some bytes \<Rightarrow> bytes @ drop (length bytes) file
      | None \<Rightarrow> file)"

fun eo_server_round ::
    "listener_env \<Rightarrow> listener_round \<Rightarrow> eo_server \<Rightarrow> u8 list
       \<Rightarrow> (eo_server \<times> u8 list, string, (event_type \<times> parsed_log list) list) mutres" where
  "eo_server_round env Timed_Out self file = ((self, file), Ok [])"
| "eo_server_round env (Answered ty block_number logs taken) self file =
     (case process_logs env ty block_number logs self of
        (s, Ok log) \<Rightarrow>
          if log \<noteq> []
          then ((s, save_blocks_processed env s file), Ok (if taken then [(ty, log)] else [])) else ((s, file), Ok [])
      | (s, Err e) \<Rightarrow> ((s, file), Ok [])
      | (s, Panic p) \<Rightarrow> ((s, file), Panic p))"

section \<open>Start of the node\<close>

definition load_processed_blocks :: "listener_env \<Rightarrow> u8 list option \<Rightarrow> u8 list option \<Rightarrow> blocks_processed option" where
  "load_processed_blocks env file stored =
     li_de env (case (case file of
                        None \<Rightarrow> None
                      | Some buf \<Rightarrow> if buf \<noteq> [] then Some buf else stored) of
                  Some bytes \<Rightarrow> bytes | None \<Rightarrow> [])"

definition watch_from :: "nat option \<Rightarrow> nat list \<Rightarrow> watch" where
  "watch_from from_block processed =
     (let b = (case from_block of Some n \<Rightarrow> n | None \<Rightarrow> 0) in
      \<lparr>wt_processed_blocks = processed, wt_filter = \<lparr>fl_from = b, fl_to = None\<rparr>, wt_current_filter_block = b\<rparr>)"

definition setup_eo_server :: "listener_env \<Rightarrow> u8 list option \<Rightarrow> u8 list option \<Rightarrow> (string, eo_server) outcome" where
  "setup_eo_server env file stored =
     (if \<not> li_address_ok env then Err ''invalid contract address''
      else
        (let blocks_processed = (case load_processed_blocks env file stored of
                                   Some b \<Rightarrow> b | None \<Rightarrow> default_blocks_processed) in
         Ok \<lparr>es_bridge = watch_from (bp_bridge blocks_processed) (bp_bridge_processed blocks_processed),
             es_settled = watch_from (bp_settle blocks_processed) (bp_settled_processed blocks_processed)\<rparr>))"

section \<open>From logs to events\<close>

text \<open>
  The actor sorts the logs of bridge events by their event id and fills one builder, log after log;
  a parameter that a log does not have keeps the value of the log before it. Sorting is by a
  parameter, any function that sorts by that key.
\<close>

fun into_uint :: "abi_token \<Rightarrow> u256 option" where
  "into_uint (T_Uint n) = Some n"
| "into_uint _ = None"

fun into_address :: "abi_token \<Rightarrow> address option" where
  "into_address (T_Address a) = Some a"
| "into_address _ = None"

fun into_string :: "abi_token \<Rightarrow> string option" where
  "into_string (T_String s) = Some s"
| "into_string _ = None"

fun into_array :: "abi_token \<Rightarrow> abi_token list option" where
  "into_array (T_Array ts) = Some ts"
| "into_array _ = None"

fun into_fixed_bytes :: "abi_token \<Rightarrow> u8 list option" where
  "into_fixed_bytes (T_FixedBytes bs) = Some bs"
| "into_fixed_bytes _ = None"

record bridge_event_builder =
  eb_user :: "address option"
  eb_program_id :: "address option"
  eb_amount :: "u256 option"
  eb_token_id :: "u256 option"
  eb_token_type :: "string option"
  eb_bridge_event_id :: "u256 option"

definition new_bridge_event_builder :: bridge_event_builder where
  "new_bridge_event_builder =
     \<lparr>eb_user = None, eb_program_id = None, eb_amount = None, eb_token_id = None, eb_token_type = None,
      eb_bridge_event_id = None\<rparr>"

definition bad_param :: "string \<Rightarrow> string" where
  "bad_param name = ''Unable to parse log param value into type: '' @ name"

definition set_bridge_param ::
    "string \<times> abi_token \<Rightarrow> bridge_event_builder \<Rightarrow> (string, bridge_event_builder) outcome" where
  "set_bridge_param param b =
     (case param of (name, v) \<Rightarrow>
        if name = ''user'' then
          obind (ok_or (into_address v) (bad_param name)) (\<lambda>x. Ok (b\<lparr>eb_user := Some x\<rparr>))
        else if name = ''tokenAddress'' then
          obind (ok_or (into_address v) (bad_param name)) (\<lambda>x. Ok (b\<lparr>eb_program_id := Some x\<rparr>))
        else if name = ''amount'' then
          obind (ok_or (into_uint v) (bad_param name)) (\<lambda>x. Ok (b\<lparr>eb_amount := Some x\<rparr>))
        else if name = ''tokenId'' then
          obind (ok_or (into_uint v) (bad_param name)) (\<lambda>x. Ok (b\<lparr>eb_token_id := Some x\<rparr>))
        else if name = ''tokenType'' then
          obind (ok_or (into_string v) (bad_param name)) (\<lambda>x. Ok (b\<lparr>eb_token_type := Some x\<rparr>))
        else if name = ''bridgeEventId'' then
          obind (ok_or (into_uint v) (bad_param name)) (\<lambda>x. Ok (b\<lparr>eb_bridge_event_id := Some x\<rparr>))
        else Ok b)"

fun set_bridge_params ::
    "parsed_log \<Rightarrow> bridge_event_builder \<Rightarrow> (string, bridge_event_builder) outcome" where
  "set_bridge_params [] b = Ok b"
| "set_bridge_params (p # ps) b = obind (set_bridge_param p b) (set_bridge_params ps)"

definition not_initialized :: "string \<Rightarrow> string" where
  "not_initialized field = CHR 0x60 # field @ CHR 0x60 # '' must be initialized''"

definition bridge_event_build :: "bridge_event_builder \<Rightarrow> (string, bridge_event) outcome" where
  "bridge_event_build b =
     obind (ok_or (eb_user b) (not_initialized ''user'')) (\<lambda>u.
     obind (ok_or (eb_program_id b) (not_initialized ''program_id'')) (\<lambda>p.
     obind (ok_or (eb_amount b) (not_initialized ''amount'')) (\<lambda>a.
     obind (ok_or (eb_token_id b) (not_initialized ''token_id'')) (\<lambda>i.
     obind (ok_or (eb_token_type b) (not_initialized ''token_type'')) (\<lambda>t.
     obind (ok_or (eb_bridge_event_id b) (not_initialized ''bridge_event_id'')) (\<lambda>e.
     Ok \<lparr>be_user = u, be_program_id = p, be_amount = a, be_token_id = i, be_token_type = t,
         be_bridge_event_id = e\<rparr>))))))"

fun bridge_events_from ::
    "parsed_log list \<Rightarrow> bridge_event_builder \<Rightarrow> (string, bridge_event list) outcome" where
  "bridge_events_from [] b = Ok []"
| "bridge_events_from (log # logs) b =
     obind (set_bridge_params log b) (\<lambda>b'.
     obind (bridge_event_build b') (\<lambda>be.
     obind (bridge_events_from logs b') (\<lambda>bes. Ok (be # bes))))"

definition bridge_event_id_of :: "parsed_log \<Rightarrow> u256 option" where
  "bridge_event_id_of log =
     (case find (\<lambda>p. fst p = ''bridgeEventId'') log of Some p \<Rightarrow> into_uint (snd p) | None \<Rightarrow> None)"

definition parse_bridge_log ::
    "(parsed_log list \<Rightarrow> parsed_log list) \<Rightarrow> parsed_log list \<Rightarrow> (string, bridge_event list) outcome" where
  "parse_bridge_log srt logs = bridge_events_from (srt logs) new_bridge_event_builder"

record settlement_event =
  st_accounts :: "abi_token list"
  st_batch_header_hash :: "u8 list"
  st_blob_index :: u256
  st_settlement_event_id :: u256

record settlement_event_builder =
  sb_accounts :: "abi_token list option"
  sb_batch_header_hash :: "u8 list option"
  sb_blob_index :: "u256 option"
  sb_settlement_event_id :: "u256 option"

definition set_settlement_param ::
    "string \<times> abi_token \<Rightarrow> settlement_event_builder \<Rightarrow> (string, settlement_event_builder) outcome" where
  "set_settlement_param param b =
     (case param of (name, v) \<Rightarrow>
        if name = ''user'' then
          obind (ok_or (into_array v) (bad_param name)) (\<lambda>x. Ok (b\<lparr>sb_accounts := Some x\<rparr>))
        else if name = ''batchHeaderHash'' then
          obind (ok_or (into_fixed_bytes v) (bad_param name)) (\<lambda>x. Ok (b\<lparr>sb_batch_header_hash := Some x\<rparr>))
        else if name = ''blobIndex'' then
          obind (ok_or (into_uint v) (bad_param name)) (\<lambda>x. Ok (b\<lparr>sb_blob_index := Some x\<rparr>))
        else if name = ''blobEventId'' then
          obind (ok_or (into_uint v) (bad_param name)) (\<lambda>x. Ok (b\<lparr>sb_settlement_event_id := Some x\<rparr>))
        else Ok b)"

fun set_settlement_params ::
    "parsed_log \<Rightarrow> settlement_event_builder \<Rightarrow> (string, settlement_event_builder) outcome" where
  "set_settlement_params [] b = Ok b"
| "set_settlement_params (p # ps) b = obind (set_settlement_param p b) (set_settlement_params ps)"

definition settlement_event_build :: "settlement_event_builder \<Rightarrow> (string, settlement_event) outcome" where
  "settlement_event_build b =
     obind (ok_or (sb_accounts b) (not_initialized ''accounts'')) (\<lambda>a.
     obind (ok_or (sb_batch_header_hash b) (not_initialized ''batch_header_hash'')) (\<lambda>h.
     obind (ok_or (sb_blob_index b) (not_initialized ''blob_index'')) (\<lambda>i.
     obind (ok_or (sb_settlement_event_id b) (not_initialized ''settlement_event_id'')) (\<lambda>e.
     Ok \<lparr>st_accounts = a, st_batch_header_hash = h, st_blob_index = i, st_settlement_event_id = e\<rparr>))))"

fun settlement_events_from ::
    "parsed_log list \<Rightarrow> settlement_event_builder \<Rightarrow> (string, settlement_event list) outcome" where
  "settlement_events_from [] b = Ok []"
| "settlement_events_from (log # logs) b =
     obind (set_settlement_params log b) (\<lambda>b'.
     obind (settlement_event_build b') (\<lambda>se.
     obind (settlement_events_from logs b') (\<lambda>ses. Ok (se # ses))))"

definition parse_settlement_log :: "parsed_log list \<Rightarrow> (string, settlement_event list) outcome" where
  "parse_settlement_log logs =
     settlement_events_from logs
       \<lparr>sb_accounts = None, sb_batch_header_hash = None, sb_blob_index = None, sb_settlement_event_id = None\<rparr>"

definition handle_eo_event :: "registry \<Rightarrow> engine_message \<Rightarrow> message list" where
  "handle_eo_event reg m = (if registered reg Engine then send_to reg Engine (To_Engine m) else [])"

text \<open>An error of the parsing is logged, and every event of the message is lost.\<close>

definition handle_log ::
    "registry \<Rightarrow> (parsed_log list \<Rightarrow> parsed_log list) \<Rightarrow> parsed_log list \<Rightarrow> event_type \<Rightarrow> message list" where
  "handle_log reg srt log ty =
     (case ty of
        Bridge \<Rightarrow>
          (case parse_bridge_log srt log of
             Ok events \<Rightarrow> handle_eo_event reg (E_BridgeEvents events)
           | _ \<Rightarrow> [])
      | Settlement \<Rightarrow>
          (case parse_settlement_log log of
             Ok events \<Rightarrow> handle_eo_event reg E_SettlementEvents
           | _ \<Rightarrow> []))"

text \<open>The actor's handler; a bridge request and every other message are only logged.\<close>

datatype eo_server_message = Eo_Log "parsed_log list" event_type | Eo_Bridge | Eo_Unhandled

fun eo_server_handle ::
    "registry \<Rightarrow> (parsed_log list \<Rightarrow> parsed_log list) \<Rightarrow> eo_server_message \<Rightarrow> message list" where
  "eo_server_handle reg srt (Eo_Log log log_type) = handle_log reg srt log log_type"
| "eo_server_handle reg srt Eo_Bridge = []"
| "eo_server_handle reg srt Eo_Unhandled = []"

section \<open>The contract's events\<close>

text \<open>
  The names of the parameters of the two events in the contract's interface
  (\<open>EO_CONTRACT_ABI_JSON\<close>), and the log of a deposit, decoded with them.
\<close>

definition bridge_event_inputs :: "string list" where
  "bridge_event_inputs = [''user'', ''tokenAddress'', ''amount'', ''tokenId'', ''tokenType'', ''bridgeEventId'']"

definition blob_index_settled_inputs :: "string list" where
  "blob_index_settled_inputs = [''accounts'', ''batchHeaderHash'', ''blobIndex'', ''blobEventId'']"

definition bridge_log_of :: "bridge_event \<Rightarrow> parsed_log" where
  "bridge_log_of be = zip bridge_event_inputs
     [T_Address (be_user be), T_Address (be_program_id be), T_Uint (be_amount be), T_Uint (be_token_id be),
      T_String (be_token_type be), T_Uint (be_bridge_event_id be)]"

text \<open>The deposits that messages carry to the engine.\<close>

fun engine_deposits :: "message list \<Rightarrow> bridge_event list" where
  "engine_deposits [] = []"
| "engine_deposits (To_Engine (E_BridgeEvents bes) # ms) = bes @ engine_deposits ms"
| "engine_deposits (_ # ms) = engine_deposits ms"

section \<open>Polling a chain\<close>

text \<open>
  The chain answers a query with its logs in the filter's range up to its head, in the order of
  their blocks, or fails; a poll names the head at the time of the query and the block number
  asked for afterwards. The actor takes the messages of the loop.
\<close>

definition block_of :: "eth_log \<Rightarrow> nat" where
  "block_of l = (case el_block_number l of Some b \<Rightarrow> b | None \<Rightarrow> 0)"

definition in_filter :: "block_filter \<Rightarrow> nat \<Rightarrow> nat \<Rightarrow> bool" where
  "in_filter f head b \<longleftrightarrow> fl_from f \<le> b \<and> b \<le> head \<and> (case fl_to f of Some t \<Rightarrow> b \<le> t | None \<Rightarrow> True)"

definition get_logs :: "eth_log list \<Rightarrow> nat \<Rightarrow> block_filter \<Rightarrow> eth_log list" where
  "get_logs chain head f = filter (\<lambda>l. in_filter f head (block_of l)) chain"

datatype poll = Poll event_type nat nat | Failed_Query event_type nat | No_Block_Number event_type | Poll_Timeout

definition watched :: "event_type \<Rightarrow> eo_server \<Rightarrow> watch" where
  "watched ty self = (case ty of Bridge \<Rightarrow> es_bridge self | Settlement \<Rightarrow> es_settled self)"

fun answer :: "eth_log list \<Rightarrow> eo_server \<Rightarrow> poll \<Rightarrow> listener_round" where
  "answer chain self (Poll ty head n) = Answered ty (Inr n) (Inr (get_logs chain head (wt_filter (watched ty self)))) True"
| "answer chain self (Failed_Query ty n) = Answered ty (Inr n) (Inl []) True"
| "answer chain self (No_Block_Number ty) = Answered ty (Inl []) (Inl []) True"
| "answer chain self Poll_Timeout = Timed_Out"

text \<open>Two chains of logs, one for each event, and the rounds of the loop on them.\<close>

fun poll_type :: "poll \<Rightarrow> event_type" where
  "poll_type (Poll ty head n) = ty"
| "poll_type (Failed_Query ty n) = ty"
| "poll_type (No_Block_Number ty) = ty"
| "poll_type Poll_Timeout = Bridge"

fun listen ::
    "listener_env \<Rightarrow> (event_type \<Rightarrow> eth_log list) \<Rightarrow> poll list \<Rightarrow> eo_server \<times> u8 list
       \<Rightarrow> (eo_server \<times> u8 list, string, (event_type \<times> parsed_log list) list) mutres" where
  "listen env chain [] sf = (sf, Ok [])"
| "listen env chain (p # ps) sf =
     and_then (eo_server_round env (answer (chain (poll_type p)) (fst sf) p) (fst sf) (snd sf)) (\<lambda>sf' out.
     and_then (listen env chain ps sf') (\<lambda>sf'' out'. (sf'', Ok (out @ out'))))"

definition delivered :: "event_type \<Rightarrow> (event_type \<times> parsed_log list) list \<Rightarrow> parsed_log list" where
  "delivered ty out = concat (map snd (filter (\<lambda>m. fst m = ty) out))"

text \<open>A chain as the theorems assume it: blocks in order and in range, every log decodes.\<close>

definition good_chain :: "listener_env \<Rightarrow> event_type \<Rightarrow> (eth_log \<Rightarrow> parsed_log) \<Rightarrow> eth_log list \<Rightarrow> bool" where
  "good_chain env ty dec chain \<longleftrightarrow> li_address_ok env \<and> sorted (map block_of chain) \<and>
     list_all (\<lambda>l. el_block_number l \<noteq> None \<and> 1 \<le> block_of l \<and> block_of l + 1 < 2 ^ 64 \<and>
       li_parse env ty l = Ok (dec l)) chain"

fun poll_ok :: "poll \<Rightarrow> bool" where
  "poll_ok (Poll ty head n) \<longleftrightarrow> n + 1 < 2 ^ 64"
| "poll_ok (Failed_Query ty n) \<longleftrightarrow> n + 1 < 2 ^ 64"
| "poll_ok (No_Block_Number ty) \<longleftrightarrow> True"
| "poll_ok Poll_Timeout \<longleftrightarrow> True"

end
