(* ===== verification/Listener_Theorems.thy ===== *)
theory Listener_Theorems
  imports Listener_Model "HOL-Library.Multiset"
begin

text \<open>
  What the listener delivers: that the logs handed to the actor are those of the chain, in order and
  once, when a log is delivered at the latest, what a restart from the saved file does, what an
  undecodable log does, and which deposits reach the engine.
\<close>

section \<open>Lemmas\<close>

lemma btree_extend_set: "set (btree_extend s bs) = set s \<union> set bs"
  unfolding btree_extend_def by (induction bs arbitrary: s) (auto simp: set_insort_insert)

lemma btree_extend_sorted: "sorted s \<Longrightarrow> sorted (btree_extend s bs)"
  unfolding btree_extend_def by (induction bs arbitrary: s) (auto simp: sorted_insort_insert)

lemma last_Max: "sorted s \<Longrightarrow> s \<noteq> [] \<Longrightarrow> last s = Max (set s)"
  by (cases s rule: rev_cases) (auto simp: sorted_append intro!: Max_eqI [symmetric])

text \<open>The highest block whose logs are processed.\<close>

definition highest :: "nat list \<Rightarrow> nat" where
  "highest s = (case btree_last s of Some b \<Rightarrow> b | None \<Rightarrow> 0)"

lemma highest_extend:
  assumes "sorted s" and "\<forall>b\<in>set bs. highest s < b" and "bs \<noteq> []"
  shows "highest (btree_extend s bs) \<in> set bs" and "\<forall>b\<in>set bs. b \<le> highest (btree_extend s bs)"
proof -
  let ?t = "btree_extend s bs"
  have ne: "?t \<noteq> []" using btree_extend_set [of s bs] assms(3) by auto
  have M: "highest ?t = Max (set s \<union> set bs)"
    using ne last_Max [OF btree_extend_sorted [OF assms(1)] ne] by (simp add: highest_def btree_last_def btree_extend_set)
  then show le: "\<forall>b\<in>set bs. b \<le> highest ?t" by simp
  have "highest ?t \<in> set s \<union> set bs" unfolding M by (rule Max_in) (use assms(3) in auto)
  moreover have "x \<le> highest s" if "x \<in> set s" for x
    using that last_Max [OF assms(1)] by (auto simp: highest_def btree_last_def)
  moreover obtain b where "b \<in> set bs" using assms(3) by (cases bs) auto
  ultimately show "highest ?t \<in> set bs" using le assms(2) by (meson Un_iff leD le_trans)
qed

lemma btree_extend_Nil [simp]: "btree_extend s [] = s"
  by (simp add: btree_extend_def)

lemma filter_sorted_split:
  assumes "sorted (map f xs)" and "a \<le> (c :: nat)"
  shows "filter (\<lambda>x. f x \<le> c) xs = filter (\<lambda>x. f x \<le> a) xs @ filter (\<lambda>x. a < f x \<and> f x \<le> c) xs"
  using assms
proof (induction xs)
  case (Cons x xs)
  have "filter (\<lambda>x. f x \<le> a) xs = []" if "a < f x" using Cons.prems(1) that by (auto simp: filter_empty_conv)
  then show ?case using Cons by auto
qed simp

text \<open>One poll of one event's logs on the part of the state that belongs to the event.\<close>

definition watch_step ::
    "listener_env \<Rightarrow> event_type \<Rightarrow> nat \<Rightarrow> eth_log list \<Rightarrow> watch \<Rightarrow> (watch, string, parsed_log list) mutres" where
  "watch_step env ty n events w =
     and_then (process_events env ty events w) (\<lambda>w' parsed. after_increment (increment_filter env n w') parsed)"

definition set_watch :: "event_type \<Rightarrow> watch \<Rightarrow> eo_server \<Rightarrow> eo_server" where
  "set_watch ty w self = (case ty of Bridge \<Rightarrow> self\<lparr>es_bridge := w\<rparr> | Settlement \<Rightarrow> self\<lparr>es_settled := w\<rparr>)"

lemma watched_set_watch [simp]: "watched ty' (set_watch ty w self) = (if ty' = ty then w else watched ty' self)"
  by (cases ty; cases ty') (simp_all add: watched_def set_watch_def)

lemma process_logs_watch:
  "process_logs env ty (Inr n) logs self =
     (case watch_step env ty n (log_handler logs) (watched ty self) of (w, r) \<Rightarrow> (set_watch ty w self, r))"
  by (cases ty)
    (auto simp: process_logs_def handle_bridge_events_def handle_settlement_events_def watched_def watch_step_def
      process_events_def increment_bridge_filter_def increment_blob_filter_def increment_filter_def set_watch_def
      split: outcome.split)

lemma parse_events_good:
  assumes "list_all (\<lambda>l. el_block_number l \<noteq> None \<and> li_parse env ty l = Ok (dec l)) events"
  shows "parse_events env ty events = Ok (map (\<lambda>l. (block_of l, dec l)) events)"
  using assms by (induction events) (auto simp: block_of_def)

lemma watch_step_good:
  assumes "list_all (\<lambda>l. el_block_number l \<noteq> None \<and> li_parse env ty l = Ok (dec l)) events"
    and "li_address_ok env" and "wt_current_filter_block w + 1 < 2 ^ 64"
    and "highest (btree_extend (wt_processed_blocks w) (map block_of events)) + 1 < 2 ^ 64"
  shows "watch_step env ty n events w =
     (\<lparr>wt_processed_blocks = btree_extend (wt_processed_blocks w) (map block_of events),
       wt_filter = \<lparr>fl_from = highest (btree_extend (wt_processed_blocks w) (map block_of events)) + 1,
                    fl_to = Some (wt_current_filter_block w + 1)\<rparr>,
       wt_current_filter_block = n\<rparr>, Ok (map dec events))"
  using assms
  by (simp add: watch_step_def process_events_def parse_events_good increment_filter_def u64_add_def highest_def comp_def)

text \<open>The block numbers of the state leave room for the additions.\<close>

definition bounded_watch :: "watch \<Rightarrow> bool" where
  "bounded_watch w \<longleftrightarrow> sorted (wt_processed_blocks w) \<and> list_all (\<lambda>b. b + 1 < 2 ^ 64) (wt_processed_blocks w) \<and>
     wt_current_filter_block w + 1 < 2 ^ 64"

definition advance :: "nat \<Rightarrow> eth_log list \<Rightarrow> watch \<Rightarrow> watch" where
  "advance n N w =
     (let P = btree_extend (wt_processed_blocks w) (map block_of N) in
      \<lparr>wt_processed_blocks = P, wt_filter = \<lparr>fl_from = highest P + 1, fl_to = Some (wt_current_filter_block w + 1)\<rparr>,
       wt_current_filter_block = n\<rparr>)"

lemma highest_less: "list_all (\<lambda>b. b + 1 < (M :: nat)) s \<Longrightarrow> 1 < M \<Longrightarrow> highest s + 1 < M"
  by (auto simp: highest_def btree_last_def list_all_iff)

lemma advance_bounded:
  assumes "good_chain env ty dec chain" and "bounded_watch w" and "n + 1 < 2 ^ 64" and "set N \<subseteq> set chain"
  shows "bounded_watch (advance n N w)"
  using assms btree_extend_sorted [of "wt_processed_blocks w" "map block_of N"]
  by (auto simp: bounded_watch_def advance_def good_chain_def Let_def list_all_iff btree_extend_set)

lemma watch_step_advance:
  assumes "good_chain env ty dec chain" and "bounded_watch w" and "set N \<subseteq> set chain"
  shows "watch_step env ty n N w = (advance n N w, Ok (map dec N))"
proof -
  have "list_all (\<lambda>b. b + 1 < 2 ^ 64) (btree_extend (wt_processed_blocks w) (map block_of N))"
    using assms by (auto simp: list_all_iff btree_extend_set good_chain_def bounded_watch_def)
  then have "highest (btree_extend (wt_processed_blocks w) (map block_of N)) + 1 < 2 ^ 64"
    by (rule highest_less) simp
  then show ?thesis
    unfolding advance_def Let_def
    by (intro watch_step_good) (use assms in \<open>auto simp: list_all_iff good_chain_def bounded_watch_def\<close>)
qed

text \<open>
  The state of one event's listener beside what it has delivered: all logs from block \<open>lo\<close> up to the
  highest processed block, and the filter asks for exactly those after it.
\<close>

definition tracks :: "(eth_log \<Rightarrow> parsed_log) \<Rightarrow> eth_log list \<Rightarrow> nat \<Rightarrow> watch \<Rightarrow> parsed_log list \<Rightarrow> bool" where
  "tracks dec chain lo w D \<longleftrightarrow>
     bounded_watch w \<and> lo \<le> highest (wt_processed_blocks w) + 1 \<and>
     list_all (\<lambda>l. fl_from (wt_filter w) \<le> block_of l \<longleftrightarrow> highest (wt_processed_blocks w) < block_of l) chain \<and>
     D = map dec (filter (\<lambda>l. lo \<le> block_of l \<and> block_of l \<le> highest (wt_processed_blocks w)) chain)"

lemma filter_range_split:
  assumes "sorted (map f xs)" and "a \<le> (c :: nat)" and "lo \<le> a + 1"
  shows "filter (\<lambda>x. lo \<le> f x \<and> f x \<le> c) xs =
     filter (\<lambda>x. lo \<le> f x \<and> f x \<le> a) xs @ filter (\<lambda>x. a < f x \<and> f x \<le> c) xs"
proof -
  let ?ys = "filter (\<lambda>x. lo \<le> f x) xs"
  have "sorted (map f ?ys)" using assms(1) by (rule sorted_filter)
  from filter_sorted_split [OF this assms(2)] have
    "filter (\<lambda>x. f x \<le> c) ?ys = filter (\<lambda>x. f x \<le> a) ?ys @ filter (\<lambda>x. a < f x \<and> f x \<le> c) ?ys" .
  moreover have "filter (\<lambda>x. lo \<le> f x \<and> a < f x \<and> f x \<le> c) xs = filter (\<lambda>x. a < f x \<and> f x \<le> c) xs"
    by (rule filter_cong) (use assms(3) in auto)
  ultimately show ?thesis by simp
qed

text \<open>What a query adds to the processed blocks, and which logs it has read when it has read any.\<close>

lemma get_logs_highest:
  fixes head
  assumes "tracks dec chain lo w D"
  defines "N \<equiv> get_logs chain head (wt_filter w)"
    and "h \<equiv> highest (btree_extend (wt_processed_blocks w) (map block_of (get_logs chain head (wt_filter w))))"
  shows "highest (wt_processed_blocks w) \<le> h" and "\<forall>l\<in>set N. block_of l \<le> h"
    and "N = filter (\<lambda>l. highest (wt_processed_blocks w) < block_of l \<and> block_of l \<le> h) chain"
proof -
  let ?P = "wt_processed_blocks w"
  have iff: "fl_from (wt_filter w) \<le> block_of l \<longleftrightarrow> highest ?P < block_of l" if "l \<in> set chain" for l
    using assms(1) that by (simp add: tracks_def list_all_iff)
  have lt: "\<forall>b\<in>set (map block_of N). highest ?P < b"
    using iff by (auto simp: N_def get_logs_def in_filter_def)
  have srt: "sorted ?P" using assms(1) by (simp add: tracks_def bounded_watch_def)
  have "highest ?P \<le> h \<and> (\<forall>l\<in>set N. block_of l \<le> h) \<and>
    N = filter (\<lambda>l. highest ?P < block_of l \<and> block_of l \<le> h) chain"
  proof (cases "N = []")
    case True
    then show ?thesis by (auto simp: h_def N_def [symmetric] filter_empty_conv)
  next
    case False
    then have ne: "map block_of N \<noteq> []" by simp
    note hx = highest_extend [OF srt lt ne, unfolded N_def, folded h_def]
    obtain l0 where l0: "l0 \<in> set N" "block_of l0 = h" using hx(1) by (auto simp: N_def)
    have in0: "in_filter (wt_filter w) head h" using l0 by (auto simp: N_def get_logs_def)
    have "N = filter (\<lambda>l. highest ?P < block_of l \<and> block_of l \<le> h) chain"
      unfolding N_def get_logs_def
    proof (rule filter_cong [OF refl])
      fix l assume "l \<in> set chain"
      then show "in_filter (wt_filter w) head (block_of l) \<longleftrightarrow> highest ?P < block_of l \<and> block_of l \<le> h"
        using iff [of l] in0 hx(2) by (auto simp: in_filter_def N_def get_logs_def split: option.splits)
    qed
    moreover have "\<forall>l\<in>set N. block_of l \<le> h" using hx(2) by (simp add: N_def)
    moreover have "highest ?P \<le> h" using lt l0 by auto
    ultimately show ?thesis by blast
  qed
  then show "highest ?P \<le> h" "\<forall>l\<in>set N. block_of l \<le> h"
    "N = filter (\<lambda>l. highest ?P < block_of l \<and> block_of l \<le> h) chain" by blast+
qed

lemma advance_tracks:
  assumes "good_chain env ty dec chain" and "tracks dec chain lo w D" and "n + 1 < 2 ^ 64"
    and "N = get_logs chain head (wt_filter w) \<or> N = []"
  shows "tracks dec chain lo (advance n N w) (D @ map dec N)"
    and "\<forall>l\<in>set N. block_of l \<le> highest (wt_processed_blocks (advance n N w))"
proof -
  let ?P = "wt_processed_blocks w" and ?P' = "btree_extend (wt_processed_blocks w) (map block_of N)"
  have t: "bounded_watch w" "lo \<le> highest ?P + 1"
    "D = map dec (filter (\<lambda>l. lo \<le> block_of l \<and> block_of l \<le> highest ?P) chain)"
    using assms(2) by (auto simp: tracks_def)
  have h: "highest ?P \<le> highest ?P'" "\<forall>l\<in>set N. block_of l \<le> highest ?P'"
    "N = filter (\<lambda>l. highest ?P < block_of l \<and> block_of l \<le> highest ?P') chain"
    using assms(4) get_logs_highest [OF assms(2)] by (auto simp: filter_empty_conv)
  then show "\<forall>l\<in>set N. block_of l \<le> highest (wt_processed_blocks (advance n N w))"
    by (simp add: advance_def Let_def)
  have sub: "set N \<subseteq> set chain" using assms(4) by (auto simp: get_logs_def)
  have D: "map dec (filter (\<lambda>l. lo \<le> block_of l \<and> block_of l \<le> highest ?P') chain) = D @ map dec N"
    unfolding t(3) map_append [symmetric]
    by (subst (2) h(3), rule arg_cong [where f = "map dec"], rule filter_range_split)
      (use assms(1) h(1) t(2) in \<open>auto simp: good_chain_def\<close>)
  show "tracks dec chain lo (advance n N w) (D @ map dec N)"
    unfolding tracks_def D [symmetric] using advance_bounded [OF assms(1) t(1) assms(3) sub] h(1) t(2)
    by (simp add: list_all_iff Suc_le_eq advance_def Let_def)
qed

text \<open>Both chains decode, and the two parts of the state are in range.\<close>

definition listens :: "listener_env \<Rightarrow> (event_type \<Rightarrow> eth_log \<Rightarrow> parsed_log) \<Rightarrow> (event_type \<Rightarrow> eth_log list) \<Rightarrow> bool" where
  "listens env dec chain \<longleftrightarrow> good_chain env Bridge (dec Bridge) (chain Bridge) \<and>
     good_chain env Settlement (dec Settlement) (chain Settlement)"

lemma listensD: "listens env dec chain \<Longrightarrow> good_chain env ty (dec ty) (chain ty)"
  by (cases ty) (simp_all add: listens_def)

definition bounded_server :: "eo_server \<Rightarrow> bool" where
  "bounded_server self \<longleftrightarrow> bounded_watch (es_bridge self) \<and> bounded_watch (es_settled self)"

lemma bounded_serverD: "bounded_server self \<Longrightarrow> bounded_watch (watched ty self)"
  by (cases ty) (simp_all add: bounded_server_def watched_def)

lemma bounded_set_watch: "bounded_server self \<Longrightarrow> bounded_watch w \<Longrightarrow> bounded_server (set_watch ty w self)"
  by (cases ty) (simp_all add: bounded_server_def set_watch_def)

lemma delivered_append [simp]: "delivered ty (xs @ ys) = delivered ty xs @ delivered ty ys"
  by (simp add: delivered_def)

lemma delivered_Nil [simp]: "delivered ty [] = []"
  by (simp add: delivered_def)

definition round_out :: "event_type \<Rightarrow> parsed_log list \<Rightarrow> (event_type \<times> parsed_log list) list" where
  "round_out ty log = (if log = [] then [] else [(ty, log)])"

lemma delivered_round_out [simp]: "delivered ty' (round_out ty log) = (if ty' = ty then log else [])"
  by (simp add: delivered_def round_out_def)

lemma round_advance:
  assumes "good_chain env ty dec chain" and "bounded_watch (watched ty self)" and "set (log_handler logs) \<subseteq> set chain"
  shows "eo_server_round env (Answered ty (Inr n) logs True) self file =
     (let self' = set_watch ty (advance n (log_handler logs) (watched ty self)) self in
      ((self', if log_handler logs = [] then file else save_blocks_processed env self' file),
       Ok (round_out ty (map dec (log_handler logs)))))"
  using watch_step_advance [OF assms]
  by (simp add: process_logs_watch round_out_def Let_def)

text \<open>
  What one round keeps, for every answer of the chain: it does not abort, the delivered logs stay in
  step with the state, and the file is saved when, and only when, there are logs.
\<close>

definition round_kept ::
    "listener_env \<Rightarrow> (event_type \<Rightarrow> eth_log \<Rightarrow> parsed_log) \<Rightarrow> (event_type \<Rightarrow> eth_log list) \<Rightarrow> eo_server \<times> u8 list
       \<Rightarrow> eo_server \<times> u8 list \<Rightarrow> (event_type \<times> parsed_log list) list \<Rightarrow> bool" where
  "round_kept env dec chain sf sf' out \<longleftrightarrow>
     bounded_server (fst sf') \<and>
     (\<forall>ty lo D. tracks (dec ty) (chain ty) lo (watched ty (fst sf)) D \<longrightarrow>
        tracks (dec ty) (chain ty) lo (watched ty (fst sf')) (D @ delivered ty out)) \<and>
     (if out = [] then snd sf' = snd sf \<and>
        (\<forall>ty. wt_processed_blocks (watched ty (fst sf')) = wt_processed_blocks (watched ty (fst sf)))
      else snd sf' = save_blocks_processed env (fst sf') (snd sf))"

lemma round_kept_refl: "bounded_server (fst sf) \<Longrightarrow> round_kept env dec chain sf sf []"
  by (simp add: round_kept_def)

lemma round_kept_advance:
  assumes "listens env dec chain" and "bounded_server self" and "n + 1 < 2 ^ 64"
    and "N = get_logs (chain ty) head (wt_filter (watched ty self)) \<or> N = []" and "log_handler logs = N"
  shows "\<exists>sf' out. eo_server_round env (Answered ty (Inr n) logs True) self file = (sf', Ok out) \<and>
    round_kept env dec chain (self, file) sf' out"
proof -
  let ?w = "advance n N (watched ty self)"
  let ?s = "set_watch ty ?w self"
  have sub: "set N \<subseteq> set (chain ty)" using assms(4) by (auto simp: get_logs_def)
  note good = listensD [OF assms(1), of ty] and b = bounded_serverD [OF assms(2)]
  have "bounded_server ?s" by (rule bounded_set_watch [OF assms(2) advance_bounded [OF good b assms(3) sub]])
  moreover have "tracks (dec ty') (chain ty') lo (watched ty' ?s) (D @ delivered ty' (round_out ty (map (dec ty) N)))"
    if "tracks (dec ty') (chain ty') lo (watched ty' self) D" for ty' lo D
    using that advance_tracks(1) [OF good _ assms(3,4)] by (cases "ty' = ty") simp_all
  ultimately show ?thesis
    using round_advance [OF good b, of logs] sub assms(5)
    by (auto simp: round_kept_def Let_def round_out_def advance_def)
qed

lemma round_kept_poll:
  assumes "listens env dec chain" and "bounded_server self" and "poll_ok p"
  shows "\<exists>sf' out. eo_server_round env (answer (chain (poll_type p)) self p) self file = (sf', Ok out) \<and>
    round_kept env dec chain (self, file) sf' out"
proof (cases p)
  case (Poll ty head n)
  then show ?thesis using round_kept_advance [OF assms(1,2) _ disjI1 [OF refl], of n "Inr _"] assms(3)
    by (simp del: eo_server_round.simps add: log_handler_def)
next
  case (Failed_Query ty n)
  then show ?thesis using round_kept_advance [OF assms(1,2) _ disjI2 [OF refl], of n "Inl []"] assms(3)
    by (simp del: eo_server_round.simps add: log_handler_def)
next
  case (No_Block_Number ty)
  then show ?thesis using assms(2) by (simp add: process_logs_def round_kept_refl)
next
  case Poll_Timeout
  then show ?thesis using assms(2) by (simp add: round_kept_refl)
qed

text \<open>The saved blocks are those of the state, and the saved poll numbers are in range.\<close>

definition saved_blocks :: "event_type \<Rightarrow> blocks_processed \<Rightarrow> nat list" where
  "saved_blocks ty bp = (case ty of Bridge \<Rightarrow> bp_bridge_processed bp | Settlement \<Rightarrow> bp_settled_processed bp)"

definition saved_poll :: "event_type \<Rightarrow> blocks_processed \<Rightarrow> nat" where
  "saved_poll ty bp =
     (case (case ty of Bridge \<Rightarrow> bp_bridge bp | Settlement \<Rightarrow> bp_settle bp) of Some n \<Rightarrow> n | None \<Rightarrow> 0)"

definition saved :: "listener_env \<Rightarrow> u8 list \<Rightarrow> eo_server \<Rightarrow> bool" where
  "saved env file self \<longleftrightarrow>
     (\<exists>bp. li_de env file = Some bp \<and>
        (\<forall>ty. saved_blocks ty bp = wt_processed_blocks (watched ty self) \<and> saved_poll ty bp + 1 < 2 ^ 64))"

text \<open>The encoding of the state reads back, whatever bytes follow it.\<close>

definition codec :: "listener_env \<Rightarrow> bool" where
  "codec env \<longleftrightarrow> (\<forall>bp. \<exists>bytes. li_ser env bp = Some bytes \<and> (\<forall>rest. li_de env (bytes @ rest) = Some bp))"

lemma save_saved:
  assumes "codec env" and "bounded_server self"
  shows "saved env (save_blocks_processed env self file) self"
proof -
  let ?bp = "\<lparr>bp_bridge = Some (wt_current_filter_block (es_bridge self)),
    bp_settle = Some (wt_current_filter_block (es_settled self)),
    bp_bridge_processed = wt_processed_blocks (es_bridge self),
    bp_settled_processed = wt_processed_blocks (es_settled self)\<rparr>"
  obtain bytes where "li_ser env ?bp = Some bytes" "\<forall>rest. li_de env (bytes @ rest) = Some ?bp"
    using assms(1) by (auto simp: codec_def)
  moreover have "saved_blocks ty ?bp = wt_processed_blocks (watched ty self) \<and> saved_poll ty ?bp + 1 < 2 ^ 64" for ty
    using assms(2)
    by (cases ty) (simp_all add: saved_blocks_def saved_poll_def watched_def bounded_server_def bounded_watch_def)
  ultimately show ?thesis by (simp add: saved_def save_blocks_processed_def)
qed

lemma listen_kept:
  assumes "listens env dec chain" and "bounded_server (fst sf)" and "list_all poll_ok ps"
  shows "\<exists>sf' out. listen env chain ps sf = (sf', Ok out) \<and> bounded_server (fst sf') \<and>
    (\<forall>ty lo D. tracks (dec ty) (chain ty) lo (watched ty (fst sf)) D \<longrightarrow>
       tracks (dec ty) (chain ty) lo (watched ty (fst sf')) (D @ delivered ty out)) \<and>
    (codec env \<longrightarrow> saved env (snd sf) (fst sf) \<or> out \<noteq> [] \<longrightarrow> saved env (snd sf') (fst sf'))"
  using assms(2,3)
proof (induction ps arbitrary: sf)
  case (Cons p ps)
  obtain sf1 out1 where r: "eo_server_round env (answer (chain (poll_type p)) (fst sf) p) (fst sf) (snd sf) = (sf1, Ok out1)"
    and k: "round_kept env dec chain sf sf1 out1"
    using round_kept_poll [OF assms(1) Cons.prems(1), of p "snd sf"] Cons.prems(2) by auto
  have "bounded_server (fst sf1)" using k by (simp add: round_kept_def)
  then obtain sf2 out2 where l: "listen env chain ps sf1 = (sf2, Ok out2)" "bounded_server (fst sf2)"
    "\<And>ty lo D. tracks (dec ty) (chain ty) lo (watched ty (fst sf1)) D \<Longrightarrow>
       tracks (dec ty) (chain ty) lo (watched ty (fst sf2)) (D @ delivered ty out2)"
    "codec env \<Longrightarrow> saved env (snd sf1) (fst sf1) \<or> out2 \<noteq> [] \<Longrightarrow> saved env (snd sf2) (fst sf2)"
    using Cons.IH [of sf1] Cons.prems(2) by auto
  have t: "tracks (dec ty) (chain ty) lo (watched ty (fst sf2)) (D @ delivered ty (out1 @ out2))"
    if "tracks (dec ty) (chain ty) lo (watched ty (fst sf)) D" for ty lo D
    using k l(3) [of ty lo "D @ delivered ty out1"] that by (simp add: round_kept_def)
  have s: "saved env (snd sf1) (fst sf1)" if "codec env" and "saved env (snd sf) (fst sf) \<or> out1 \<noteq> []"
  proof (cases "out1 = []")
    case True
    with k have "snd sf1 = snd sf"
      "\<forall>ty. wt_processed_blocks (watched ty (fst sf1)) = wt_processed_blocks (watched ty (fst sf))"
      unfolding round_kept_def by simp_all
    then show ?thesis using that True by (simp add: saved_def)
  qed (use k that save_saved in \<open>auto simp: round_kept_def\<close>)
  have "listen env chain (p # ps) sf = (sf2, Ok (out1 @ out2))" using r l(1) by simp
  then show ?case using l(2,4) s t by fastforce
qed simp

lemma fresh_tracks:
  assumes "load_processed_blocks env file stored = None" and "setup_eo_server env file stored = Ok self"
    and "good_chain env ty dec chain"
  shows "bounded_server self" and "tracks dec chain 0 (watched ty self) []"
  using assms
  by (cases ty; auto simp: setup_eo_server_def bounded_server_def bounded_watch_def watch_from_def watched_def tracks_def
      default_blocks_processed_def highest_def btree_last_def good_chain_def list_all_iff filter_empty_conv split: if_splits)+

lemma and_then_assoc: "and_then (and_then m f) g = and_then m (\<lambda>s a. and_then (f s a) g)"
  by (cases m; cases "snd m") auto

lemma listen_append:
  "listen env chain (ps @ qs) sf =
     and_then (listen env chain ps sf) (\<lambda>sf' out.
     and_then (listen env chain qs sf') (\<lambda>sf'' out'. (sf'', Ok (out @ out'))))"
proof (induction ps arbitrary: sf)
  case Nil
  show ?case by (cases "listen env chain qs sf"; cases "snd (listen env chain qs sf)") auto
qed (simp add: and_then_assoc)

text \<open>A poll that does not concern an event leaves the event's part of the state as it is.\<close>

fun quiet :: "event_type \<Rightarrow> poll \<Rightarrow> bool" where
  "quiet ty (Poll ty' head n) \<longleftrightarrow> ty' \<noteq> ty"
| "quiet ty (Failed_Query ty' n) \<longleftrightarrow> ty' \<noteq> ty"
| "quiet ty (No_Block_Number ty') \<longleftrightarrow> True"
| "quiet ty Poll_Timeout \<longleftrightarrow> True"

lemma round_other:
  assumes "eo_server_round env (Answered ty' (Inr n) logs True) self file = (sf', Ok out)" and "ty' \<noteq> ty"
  shows "watched ty (fst sf') = watched ty self"
  using assms by (auto simp: process_logs_watch split: prod.splits outcome.splits if_splits)

lemma round_quiet:
  assumes "eo_server_round env (answer chain self p) self file = (sf', Ok out)" and "quiet ty p"
  shows "watched ty (fst sf') = watched ty self"
proof (cases p)
  case (No_Block_Number ty')
  then show ?thesis using assms by (auto simp: process_logs_def)
qed (use assms round_other in \<open>auto simp del: eo_server_round.simps(2)\<close>)

lemma listen_quiet:
  assumes "listen env chain ps sf = (sf', Ok out)" and "list_all (quiet ty) ps"
  shows "watched ty (fst sf') = watched ty (fst sf)"
  using assms by (induction ps arbitrary: sf sf' out) (auto simp: outcome_simps dest!: round_quiet)

lemma listen_poll:
  assumes "listens env dec chain" and "bounded_server (fst sf)" and "listen env chain [Poll ty head n] sf = (sf', Ok out)"
  shows "watched ty (fst sf') = advance n (get_logs (chain ty) head (wt_filter (watched ty (fst sf)))) (watched ty (fst sf))"
proof -
  have "set (log_handler (Inr (get_logs (chain ty) head (wt_filter (watched ty (fst sf)))))) \<subseteq> set (chain ty)"
    by (auto simp: log_handler_def get_logs_def)
  from round_advance [OF listensD [OF assms(1)] bounded_serverD [OF assms(2)] this] show ?thesis
    using assms(3) by (auto simp: outcome_simps log_handler_def Let_def simp del: eo_server_round.simps)
qed

lemma listen_Ok:
  assumes "listens env dec chain" and "listen env chain ps sf = (sf', Ok out)"
    and "bounded_server (fst sf)" and "list_all poll_ok ps"
  shows "bounded_server (fst sf')"
    and "tracks (dec ty) (chain ty) lo (watched ty (fst sf)) D \<Longrightarrow>
      tracks (dec ty) (chain ty) lo (watched ty (fst sf')) (D @ delivered ty out)"
  using listen_kept [OF assms(1,3,4)] assms(2) by auto

lemma poll_reaches:
  assumes "listens env dec chain" and "bounded_server (fst sf)" and "n + 1 < 2 ^ 64"
    and "listen env chain [Poll ty head n] sf = (sf', Ok out)"
    and "tracks (dec ty) (chain ty) lo (watched ty (fst sf)) D"
    and "l \<in> set (chain ty)" and "block_of l \<le> head" and "fl_to (wt_filter (watched ty (fst sf))) = Some t" and "block_of l \<le> t"
  shows "block_of l \<le> highest (wt_processed_blocks (watched ty (fst sf')))"
proof -
  let ?w = "watched ty (fst sf)"
  let ?N = "get_logs (chain ty) head (wt_filter ?w)"
  have w': "watched ty (fst sf') = advance n ?N ?w" by (rule listen_poll [OF assms(1,2,4)])
  show ?thesis
  proof (cases "block_of l \<le> highest (wt_processed_blocks ?w)")
    case True
    then show ?thesis
      unfolding w' using get_logs_highest(1) [OF assms(5), of head] by (simp add: advance_def Let_def)
  next
    case False
    then have "l \<in> set ?N"
      using assms(5-9) by (auto simp: get_logs_def in_filter_def tracks_def list_all_iff)
    then show ?thesis
      unfolding w' using advance_tracks(2) [OF listensD [OF assms(1)] assms(5,3) disjI1 [OF refl]] by blast
  qed
qed

lemma poll_to:
  assumes "listens env dec chain" and "bounded_server (fst sf)" and "listen env chain [Poll ty head n] sf = (sf', Ok out)"
  shows "wt_current_filter_block (watched ty (fst sf')) = n"
    and "fl_to (wt_filter (watched ty (fst sf'))) = Some (wt_current_filter_block (watched ty (fst sf)) + 1)"
  unfolding listen_poll [OF assms] by (simp_all add: advance_def Let_def)

lemma setup_watched:
  assumes "setup_eo_server env (Some file) stored = Ok self" and "li_de env file = Some bp" and "file \<noteq> []"
  shows "watched ty self =
    \<lparr>wt_processed_blocks = saved_blocks ty bp, wt_filter = \<lparr>fl_from = saved_poll ty bp, fl_to = None\<rparr>,
     wt_current_filter_block = saved_poll ty bp\<rparr>"
  using assms
  by (cases ty) (auto simp: setup_eo_server_def load_processed_blocks_def watch_from_def watched_def saved_blocks_def
      saved_poll_def Let_def split: if_splits)

text \<open>The first poll after a restart: the filter starts at the saved poll number.\<close>

lemma restart_tracks:
  assumes "good_chain env ty dec chain" and "bounded_watch w" and "n + 1 < 2 ^ 64"
    and "wt_filter w = \<lparr>fl_from = c, fl_to = None\<rparr>" and "highest (wt_processed_blocks w) \<le> head"
  defines "N \<equiv> get_logs chain head (wt_filter w)"
  shows "tracks dec chain (if N = [] then highest (wt_processed_blocks w) + 1 else c) (advance n N w) (map dec N)"
proof -
  let ?P = "wt_processed_blocks w" and ?P' = "btree_extend (wt_processed_blocks w) (map block_of N)"
  have N: "N = filter (\<lambda>l. c \<le> block_of l \<and> block_of l \<le> head) chain"
    by (auto simp: N_def get_logs_def in_filter_def assms(4))
  have b: "bounded_watch (advance n N w)"
    by (rule advance_bounded [OF assms(1-3)]) (auto simp: N)
  have frm: "list_all (\<lambda>l. highest ?P' + 1 \<le> block_of l \<longleftrightarrow> highest ?P' < block_of l) chain"
    by (auto simp: list_all_iff)
  show ?thesis
  proof (cases "N = []")
    case True
    then show ?thesis using b frm by (auto simp: tracks_def advance_def Let_def filter_empty_conv)
  next
    case False
    have srt: "sorted ?P'" "?P' \<noteq> []"
      using assms(2) False btree_extend_sorted btree_extend_set [of ?P "map block_of N"]
      by (auto simp: bounded_watch_def)
    then have M: "highest ?P' = Max (set ?P \<union> block_of ` set N)"
      using last_Max [OF srt] by (simp add: highest_def btree_last_def btree_extend_set)
    have le: "block_of l \<le> highest ?P'" if "l \<in> set N" for l unfolding M by (rule Max_ge) (use that in auto)
    have "highest ?P' \<le> head"
    proof -
      have "highest ?P' \<in> set ?P \<union> block_of ` set N" unfolding M by (rule Max_in) (use False in auto)
      moreover have "x \<le> highest ?P" if "x \<in> set ?P" for x
        using that assms(2) last_Max [of ?P] by (auto simp: highest_def btree_last_def bounded_watch_def)
      ultimately show ?thesis using assms(5) by (auto simp: N dest: le_trans)
    qed
    then have "N = filter (\<lambda>l. c \<le> block_of l \<and> block_of l \<le> highest ?P') chain"
      using le by (subst N, intro filter_cong [OF refl]) (auto simp: N)
    moreover obtain l where "l \<in> set N" using False by (cases N) auto
    then have "c \<le> highest ?P'" using le [of l] by (auto simp: N)
    ultimately show ?thesis using b frm False by (simp add: tracks_def advance_def Let_def)
  qed
qed

lemma parse_events_OkD:
  assumes "parse_events env ty events = Ok logs"
  shows "map fst logs = map block_of events"
    and "\<forall>m\<in>set (map snd logs). \<exists>l\<in>set events. li_parse env ty l = Ok m"
    and "\<forall>l\<in>set events. \<exists>m. li_parse env ty l = Ok m"
  using assms
  by (induction events arbitrary: logs) (fastforce simp: outcome_simps block_of_def)+

text \<open>All processed blocks are below \<open>b\<close>, and the filter does not start above it.\<close>

definition below :: "nat \<Rightarrow> watch \<Rightarrow> bool" where
  "below b w \<longleftrightarrow> list_all (\<lambda>x. x < b) (wt_processed_blocks w) \<and> fl_from (wt_filter w) \<le> b"

lemma increment_filter_below:
  assumes "list_all (\<lambda>x. x < b) (wt_processed_blocks w)" and "fl_from (wt_filter w) \<le> b" and "1 \<le> b"
  shows "below b (fst (increment_filter env n w))"
  using assms
  by (auto simp: below_def increment_filter_def u64_add_def btree_last_def list_all_iff Suc_le_eq split: outcome.splits)

lemma fst_after_increment [simp]: "fst (after_increment m a) = fst m"
  by (cases m; cases "snd m") auto

lemma watch_step_below:
  assumes "below b w" and "1 \<le> b" and "l \<in> set chain" and "block_of l = b" and "\<nexists>m. li_parse env ty l = Ok m"
    and "N = get_logs chain head (wt_filter w) \<or> N = []" and "watch_step env ty n N w = (w', r)"
  shows "below b w'" and "r = Ok ms \<Longrightarrow> \<forall>m\<in>set ms. \<exists>l'\<in>set chain. block_of l' < b \<and> li_parse env ty l' = Ok m"
proof -
  have "below b w' \<and> (\<forall>ms. r = Ok ms \<longrightarrow> (\<forall>m\<in>set ms. \<exists>l'\<in>set chain. block_of l' < b \<and> li_parse env ty l' = Ok m))"
  proof (cases "parse_events env ty N")
    case (Ok logs)
    note d = parse_events_OkD [OF Ok]
    have "l \<notin> set N" using d(3) assms(5) by auto
    then have less: "\<forall>l'\<in>set N. l' \<in> set chain \<and> block_of l' < b"
      using assms(1,3,4,6) by (auto simp: get_logs_def in_filter_def below_def split: option.splits)
    let ?v = "w\<lparr>wt_processed_blocks := btree_extend (wt_processed_blocks w) (map block_of N)\<rparr>"
    have w: "(w', r) = after_increment (increment_filter env n ?v) (map snd logs)"
      using assms(7) Ok d(1) by (simp add: watch_step_def process_events_def)
    have "below b (fst (increment_filter env n ?v))"
      by (rule increment_filter_below) (use assms(1,2) less in \<open>auto simp: below_def list_all_iff btree_extend_set\<close>)
    then have "below b w'" using w by (metis fst_after_increment fst_conv)
    moreover have "ms = map snd logs" if "r = Ok ms" for ms
      using w that by (cases "increment_filter env n ?v"; cases "snd (increment_filter env n ?v)") auto
    ultimately show ?thesis using d(2) less by fastforce
  qed (use assms(1,7) in \<open>auto simp: watch_step_def process_events_def\<close>)
  then show "below b w'" "r = Ok ms \<Longrightarrow> \<forall>m\<in>set ms. \<exists>l'\<in>set chain. block_of l' < b \<and> li_parse env ty l' = Ok m"
    by blast+
qed

lemma round_other_delivers:
  assumes "eo_server_round env (Answered ty' (Inr n) logs True) self file = (sf', Ok out)" and "ty' \<noteq> ty"
  shows "delivered ty out = []"
  using assms by (auto simp: delivered_def split: prod.splits outcome.splits if_splits)

lemma quiet_delivers:
  assumes "eo_server_round env (answer chain self p) self file = (sf', Ok out)" and "quiet ty p"
  shows "delivered ty out = []"
proof (cases p)
  case (No_Block_Number ty')
  then show ?thesis using assms by (auto simp: process_logs_def)
qed (use assms round_other_delivers in \<open>auto simp del: eo_server_round.simps(2)\<close>)

text \<open>A log that does not decode, in block \<open>b\<close> of the chain of its event.\<close>

definition undecodable :: "listener_env \<Rightarrow> event_type \<Rightarrow> eth_log list \<Rightarrow> nat \<Rightarrow> bool" where
  "undecodable env ty chain b \<longleftrightarrow> 1 \<le> b \<and> (\<exists>l\<in>set chain. block_of l = b \<and> (\<nexists>m. li_parse env ty l = Ok m))"

definition older :: "listener_env \<Rightarrow> event_type \<Rightarrow> eth_log list \<Rightarrow> nat \<Rightarrow> parsed_log list \<Rightarrow> bool" where
  "older env ty chain b ms \<longleftrightarrow> (\<forall>m\<in>set ms. \<exists>l\<in>set chain. block_of l < b \<and> li_parse env ty l = Ok m)"

lemma round_below:
  assumes "eo_server_round env (Answered ty (Inr n) logs True) self file = (sf', Ok out)"
    and "below b (watched ty self)" and "undecodable env ty chain b"
    and "log_handler logs = get_logs chain head (wt_filter (watched ty self)) \<or> log_handler logs = []"
  shows "below b (watched ty (fst sf')) \<and> older env ty chain b (delivered ty out)"
proof -
  obtain w' r where w: "watch_step env ty n (log_handler logs) (watched ty self) = (w', r)" by fastforce
  have u: "below b w'" "r = Ok ms \<Longrightarrow> older env ty chain b ms" for ms
    using watch_step_below [OF assms(2) _ _ _ _ assms(4) w] assms(3) by (auto simp: undecodable_def older_def)
  show ?thesis
    using assms(1) u w
    by (auto simp: process_logs_watch delivered_def older_def split: outcome.splits if_splits)
qed

lemma round_below_poll:
  assumes "eo_server_round env (answer (chain (poll_type p)) self p) self file = (sf', Ok out)"
    and "below b (watched ty self)" and "undecodable env ty (chain ty) b"
  shows "below b (watched ty (fst sf')) \<and> older env ty (chain ty) b (delivered ty out)"
proof (cases "quiet ty p")
  case True
  then show ?thesis using round_quiet [OF assms(1)] quiet_delivers [OF assms(1)] assms(2) by (simp add: older_def)
next
  case False
  then have "(\<exists>head n. p = Poll ty head n) \<or> (\<exists>n. p = Failed_Query ty n)" by (cases p) auto
  then show ?thesis
    using round_below [OF _ assms(2,3), where logs = "Inr _"] round_below [OF _ assms(2,3), where logs = "Inl []"] assms(1)
    by (elim disjE exE; simp add: log_handler_def del: eo_server_round.simps; blast)
qed

lemma listen_below:
  assumes "listen env chain ps sf = (sf', Ok out)"
    and "below b (watched ty (fst sf))" and "undecodable env ty (chain ty) b"
  shows "below b (watched ty (fst sf')) \<and> older env ty (chain ty) b (delivered ty out)"
  using assms
proof (induction ps arbitrary: sf out)
  case (Cons p ps)
  then obtain s1 o1 o2 where "eo_server_round env (answer (chain (poll_type p)) (fst sf) p) (fst sf) (snd sf) = (s1, Ok o1)"
    "listen env chain ps s1 = (sf', Ok o2)" "out = o1 @ o2" by (auto simp: outcome_simps)
  then show ?case using round_below_poll [of env chain p "fst sf" "snd sf" s1 o1 b ty] Cons.IH [of s1 o2] Cons.prems
    by (auto simp: older_def)
qed (simp add: older_def)

lemma listen_exactly_once:
  assumes "load_processed_blocks env file stored = None" and "setup_eo_server env file stored = Ok self"
    and "listens env dec chain" and "list_all poll_ok ps"
  shows "\<exists>self' file' out. listen env chain ps (self, bytes) = ((self', file'), Ok out) \<and>
    (\<forall>ty. delivered ty out = map (dec ty) (filter (\<lambda>l. block_of l \<le> highest (wt_processed_blocks (watched ty self'))) (chain ty)))"
proof -
  note f = fresh_tracks [OF assms(1,2) listensD [OF assms(3)]]
  obtain sf' out where "listen env chain ps (self, bytes) = (sf', Ok out)"
    "\<forall>ty. tracks (dec ty) (chain ty) 0 (watched ty (fst sf')) ([] @ delivered ty out)"
    using listen_kept [OF assms(3) _ assms(4), of "(self, bytes)"] f by fastforce
  then show ?thesis by (cases sf') (auto simp: tracks_def)
qed

text \<open>What \<open>sort_unstable_by\<close> promises: the same logs, in the order of their event ids.\<close>

definition sorts_logs :: "(parsed_log list \<Rightarrow> parsed_log list) \<Rightarrow> bool" where
  "sorts_logs srt \<longleftrightarrow> (\<forall>logs. mset (srt logs) = mset logs \<and>
     sorted_wrt (\<lambda>a b. case bridge_event_id_of b of None \<Rightarrow> bridge_event_id_of a = None
       | Some y \<Rightarrow> (case bridge_event_id_of a of None \<Rightarrow> True | Some x \<Rightarrow> x \<le> y)) (srt logs))"

section \<open>A sample chain\<close>

text \<open>An encoding of the saved blocks, numbers in unary, that reads back whatever follows it.\<close>

definition put_nat :: "nat \<Rightarrow> u8 list" where
  "put_nat n = replicate n 1 @ [0]"

fun get_nat :: "u8 list \<Rightarrow> (nat \<times> u8 list) option" where
  "get_nat [] = None"
| "get_nat (b # bs) = (if b = 0 then Some (0, bs) else map_option (\<lambda>(n, r). (Suc n, r)) (get_nat bs))"

fun get_nats :: "nat \<Rightarrow> u8 list \<Rightarrow> nat list option" where
  "get_nats 0 bs = Some []"
| "get_nats (Suc k) bs = (case get_nat bs of None \<Rightarrow> None | Some (n, r) \<Rightarrow> map_option ((#) n) (get_nats k r))"

definition flatten_blocks :: "blocks_processed \<Rightarrow> nat list" where
  "flatten_blocks bp =
     (case bp_bridge bp of None \<Rightarrow> [0, 0] | Some n \<Rightarrow> [1, n]) @ (case bp_settle bp of None \<Rightarrow> [0, 0] | Some n \<Rightarrow> [1, n]) @
     [length (bp_bridge_processed bp)] @ bp_bridge_processed bp @ bp_settled_processed bp"

fun unflatten_blocks :: "nat list \<Rightarrow> blocks_processed option" where
  "unflatten_blocks (fb # b # fs # s # k # ns) =
     Some \<lparr>bp_bridge = (if fb = 0 then None else Some b), bp_settle = (if fs = 0 then None else Some s),
           bp_bridge_processed = take k ns, bp_settled_processed = drop k ns\<rparr>"
| "unflatten_blocks _ = None"

definition sample_ser :: "blocks_processed \<Rightarrow> u8 list option" where
  "sample_ser bp = (let ns = flatten_blocks bp in Some (put_nat (length ns) @ concat (map put_nat ns)))"

definition sample_de :: "u8 list \<Rightarrow> blocks_processed option" where
  "sample_de bs = (case get_nat bs of None \<Rightarrow> None | Some (k, r) \<Rightarrow> Option.bind (get_nats k r) unflatten_blocks)"

lemma get_put_nat [simp]: "get_nat (put_nat n @ r) = Some (n, r)"
  by (induction n) (simp_all add: put_nat_def)

lemma get_put_nats [simp]: "get_nats (length ns) (concat (map put_nat ns) @ r) = Some ns"
  by (induction ns) simp_all

lemma unflatten_flatten [simp]: "unflatten_blocks (flatten_blocks bp) = Some bp"
  by (simp add: flatten_blocks_def split: option.split)

definition sample_event :: "eth_log \<Rightarrow> bridge_event" where
  "sample_event l =
     \<lparr>be_user = Address (replicate 20 1), be_program_id = Address (replicate 20 2), be_amount = 5, be_token_id = 0,
      be_token_type = ''ERC20'', be_bridge_event_id = of_nat (block_of l)\<rparr>"

definition sample_dec :: "event_type \<Rightarrow> eth_log \<Rightarrow> parsed_log" where
  "sample_dec ty l = (case ty of Bridge \<Rightarrow> bridge_log_of (sample_event l) | Settlement \<Rightarrow> [])"

definition sample_listener :: listener_env where
  "sample_listener =
     \<lparr>li_address_ok = True, li_parse = (\<lambda>ty l. if el_data l = [] then Ok (sample_dec ty l) else Err ''invalid data''),
      li_ser = sample_ser, li_de = sample_de\<rparr>"

definition sample_log :: "nat \<Rightarrow> eth_log" where
  "sample_log b = \<lparr>el_block_number = Some b, el_topics = [], el_data = []\<rparr>"

fun sample_chain :: "event_type \<Rightarrow> eth_log list" where
  "sample_chain Bridge = [sample_log 1, sample_log 3, sample_log 4]"
| "sample_chain Settlement = []"

definition fresh_eo_server :: eo_server where
  "fresh_eo_server = \<lparr>es_bridge = watch_from None [], es_settled = watch_from None []\<rparr>"

lemma sample_codec: "codec sample_listener"
  by (simp add: codec_def sample_listener_def sample_ser_def sample_de_def Let_def)

lemma sample_no_file: "load_processed_blocks sample_listener (Some []) None = None" "li_de sample_listener [] = None"
  by (simp_all add: load_processed_blocks_def sample_listener_def sample_de_def)

lemma sample_setup: "setup_eo_server sample_listener (Some []) None = Ok fresh_eo_server"
  using sample_no_file(1)
  by (simp add: setup_eo_server_def fresh_eo_server_def default_blocks_processed_def) (simp add: sample_listener_def)

lemma sample_listens: "listens sample_listener sample_dec sample_chain"
  by (simp add: listens_def good_chain_def sample_listener_def sample_log_def block_of_def)

definition sample_sort :: "parsed_log list \<Rightarrow> parsed_log list" where
  "sample_sort = sort_key (\<lambda>l. case bridge_event_id_of l of None \<Rightarrow> 0 | Some x \<Rightarrow> unat x + 1)"

lemma sample_sorts: "sorts_logs sample_sort"
proof -
  let ?k = "\<lambda>l. case bridge_event_id_of l of None \<Rightarrow> 0 | Some x \<Rightarrow> unat x + 1"
  have "sorted_wrt (\<lambda>a b. case bridge_event_id_of b of None \<Rightarrow> bridge_event_id_of a = None
      | Some y \<Rightarrow> (case bridge_event_id_of a of None \<Rightarrow> True | Some x \<Rightarrow> x \<le> y)) (sort_key ?k logs)" for logs
    by (rule sorted_wrt_mono_rel [OF _ sorted_sort_key [of ?k logs, unfolded sorted_map]])
      (auto simp: word_le_nat_alt split: option.splits)
  then show ?thesis by (simp add: sorts_logs_def sample_sort_def)
qed

text \<open>A poll whose query is answered at block 1, and whose block number is asked for at block 4.\<close>

definition sample_after :: eo_server where
  "sample_after = set_watch Bridge (advance 4 [sample_log 1] (es_bridge fresh_eo_server)) fresh_eo_server"

lemma sample_get_logs: "get_logs (sample_chain Bridge) 1 (wt_filter (watched Bridge fresh_eo_server)) = [sample_log 1]"
  by (simp add: get_logs_def in_filter_def watched_def fresh_eo_server_def watch_from_def sample_log_def block_of_def)

lemma sample_run:
  "listen sample_listener sample_chain [Poll Bridge 1 4] (fresh_eo_server, []) =
     ((sample_after, save_blocks_processed sample_listener sample_after []), Ok [(Bridge, [sample_dec Bridge (sample_log 1)])])"
proof -
  have b: "bounded_watch (watched Bridge fresh_eo_server)"
    by (simp add: bounded_watch_def watched_def fresh_eo_server_def watch_from_def)
  have "set (log_handler (Inr [sample_log 1])) \<subseteq> set (sample_chain Bridge)" by (simp add: log_handler_def)
  from round_advance [OF listensD [OF sample_listens] b this] show ?thesis
    using sample_get_logs by (simp add: sample_after_def log_handler_def round_out_def watched_def Let_def del: eo_server_round.simps sample_chain.simps)
qed

lemma sample_after_highest: "highest (wt_processed_blocks (watched Bridge sample_after)) = 1"
  by (simp add: sample_after_def advance_def Let_def fresh_eo_server_def watch_from_def btree_extend_def sample_log_def
      block_of_def highest_def btree_last_def insort_insert_key_def)

section \<open>Properties\<close>

text \<open>
  A round whose message the actor does not take leaves the listener and its file as if it had: the
  logs count as processed and are not handed over again.\<close>

theorem untaken_logs_lost:
  assumes "eo_server_round env (Answered ty block_number logs True) self file = (sf', Ok out)"
  shows "eo_server_round env (Answered ty block_number logs False) self file = (sf', Ok [])"
  using assms by (auto split: prod.splits outcome.splits if_splits)

text \<open>
  A log reaches the actor: three polls of an event, with no other poll of it between them, hand
  over every log in a block that is at most the head of the last query and at most one above the
  number of the first poll, whatever happened before.\<close>

theorem listener_delivers:
  assumes "load_processed_blocks env file stored = None" and "setup_eo_server env file stored = Ok self"
    and "listens env dec chain"
    and "list_all poll_ok (ps @ Poll ty h1 n1 # qs @ Poll ty h2 n2 # rs @ [Poll ty h3 n3])"
    and "list_all (quiet ty) (qs @ rs)"
    and "l \<in> set (chain ty)" and "block_of l \<le> h3" and "block_of l \<le> n1 + 1"
  shows "\<exists>sf' out. listen env chain (ps @ Poll ty h1 n1 # qs @ Poll ty h2 n2 # rs @ [Poll ty h3 n3]) (self, bytes) = (sf', Ok out) \<and>
    dec ty l \<in> set (delivered ty out)"
proof -
  let ?ps = "ps @ [Poll ty h1 n1] @ qs @ [Poll ty h2 n2] @ rs @ [Poll ty h3 n3]"
  note f = fresh_tracks [OF assms(1,2) listensD [OF assms(3), of ty]]
    and ok = listen_Ok [OF assms(3)] and good = assms(4)
  obtain s6 out where run: "listen env chain ?ps (self, bytes) = (s6, Ok out)"
    and t6: "tracks (dec ty) (chain ty) 0 (watched ty (fst s6)) (delivered ty out)"
    using listen_kept [OF assms(3) _ assms(4), of "(self, bytes)"] f by fastforce
  obtain s1 o1 s2 o2 s3 o3 s4 o4 s5 o5 o6 where
    r: "listen env chain ps (self, bytes) = (s1, Ok o1)" "listen env chain [Poll ty h1 n1] s1 = (s2, Ok o2)"
      "listen env chain qs s2 = (s3, Ok o3)" "listen env chain [Poll ty h2 n2] s3 = (s4, Ok o4)"
      "listen env chain rs s4 = (s5, Ok o5)" "listen env chain [Poll ty h3 n3] s5 = (s6, Ok o6)"
    using run unfolding listen_append and_then_Ok_iff by blast
  have b1: "bounded_server (fst s1)" using ok(1) [OF r(1)] f(1) good by simp
  have b2: "bounded_server (fst s2)" using ok(1) [OF r(2) b1] good by simp
  have b3: "bounded_server (fst s3)" using ok(1) [OF r(3) b2] good by simp
  have b4: "bounded_server (fst s4)" using ok(1) [OF r(4) b3] good by simp
  have b5: "bounded_server (fst s5)" using ok(1) [OF r(5) b4] good by simp
  have to: "fl_to (wt_filter (watched ty (fst s5))) = Some (n1 + 1)"
    using poll_to(2) [OF assms(3) b3 r(4)] poll_to(1) [OF assms(3) b1 r(2)] listen_quiet [OF r(3)] listen_quiet [OF r(5)]
      assms(5) by simp
  have "list_all poll_ok (ps @ [Poll ty h1 n1] @ qs @ [Poll ty h2 n2] @ rs)" using good by simp
  moreover have "listen env chain (ps @ [Poll ty h1 n1] @ qs @ [Poll ty h2 n2] @ rs) (self, bytes) = (s5, Ok (o1 @ o2 @ o3 @ o4 @ o5))"
    unfolding listen_append by (simp only: r and_then.simps)
  ultimately have t5: "\<exists>D. tracks (dec ty) (chain ty) 0 (watched ty (fst s5)) D"
    using ok(2) [of _ "(self, bytes)"] f by fastforce
  have "block_of l \<le> highest (wt_processed_blocks (watched ty (fst s6)))"
    using t5 poll_reaches [OF assms(3) b5 _ r(6) _ assms(6,7) to assms(8)] good by auto
  then have "dec ty l \<in> set (delivered ty out)" using t6 assms(6) by (auto simp: tracks_def)
  then show ?thesis using run by auto
qed

theorem listener_delivers_witness:
  "\<exists>sf' out. listen sample_listener sample_chain
      ([] @ Poll Bridge 1 4 # [Poll_Timeout] @ Poll Bridge 4 4 # [Poll Settlement 4 4] @ [Poll Bridge 4 5]) (fresh_eo_server, []) = (sf', Ok out) \<and>
    sample_dec Bridge (sample_log 3) \<in> set (delivered Bridge out)"
  by (rule listener_delivers [OF sample_no_file(1) sample_setup sample_listens])
    (simp_all add: sample_log_def block_of_def)

text \<open>
  C6: What a restart resumes from. After a run that saved its blocks, the node starts again from
  the file, and the first query of an event reaches at least the highest block processed before.
  If that query finds logs from the saved poll number on, the logs handed over after the restart
  are those from the saved poll number on, so those between the highest processed block and that
  number are lost, and one in a block that is both is handed over a second time; only if it finds
  none, they are those after the highest processed block.\<close>

theorem restart_resumes:
  assumes "codec env" and "li_de env [] = None"
    and "load_processed_blocks env file stored = None" and "setup_eo_server env file stored = Ok self"
    and "listens env dec chain" and "list_all poll_ok ps" and "list_all poll_ok (Poll ty h n # qs)"
    and "listen env chain ps (self, bytes) = ((self', file'), Ok out)" and "out \<noteq> []"
    and "highest (wt_processed_blocks (watched ty self')) \<le> h"
  shows "\<exists>bp self2 sf3 out2. li_de env file' = Some bp \<and> setup_eo_server env (Some file') stored' = Ok self2 \<and>
    listen env chain (Poll ty h n # qs) (self2, file') = (sf3, Ok out2) \<and>
    delivered ty out2 = map (dec ty) (filter (\<lambda>l.
      (if get_logs (chain ty) h \<lparr>fl_from = saved_poll ty bp, fl_to = None\<rparr> = []
       then highest (wt_processed_blocks (watched ty self')) + 1 else saved_poll ty bp) \<le> block_of l \<and>
      block_of l \<le> highest (wt_processed_blocks (watched ty (fst sf3)))) (chain ty))"
proof -
  note good = listensD [OF assms(5), of ty]
  have "bounded_server self' \<and> saved env file' self'"
    using listen_kept [OF assms(5) _ assms(6), of "(self, bytes)"] fresh_tracks(1) [OF assms(3,4) good] assms(1,8,9) by auto
  then obtain bp where b: "bounded_server self'" and bp: "li_de env file' = Some bp"
    and sv: "\<And>t. saved_blocks t bp = wt_processed_blocks (watched t self') \<and> saved_poll t bp + 1 < 2 ^ 64"
    by (auto simp: saved_def)
  have ne: "file' \<noteq> []" using bp assms(2) by auto
  obtain self2 where s2: "setup_eo_server env (Some file') stored' = Ok self2"
    using good by (auto simp: setup_eo_server_def good_chain_def Let_def)
  note w = setup_watched [OF s2 bp ne]
  have bw: "bounded_watch (watched t self2)" for t
    using bounded_serverD [OF b, of t] sv [of t] by (simp add: w bounded_watch_def)
  have b2: "bounded_server self2" using bw [of Bridge] bw [of Settlement] by (simp add: bounded_server_def watched_def)
  let ?N = "get_logs (chain ty) h (wt_filter (watched ty self2))"
  let ?lo = "if ?N = [] then highest (wt_processed_blocks (watched ty self2)) + 1 else saved_poll ty bp"
  obtain s3 out3 where l1: "listen env chain [Poll ty h n] (self2, file') = (s3, Ok out3)"
    and b3: "bounded_server (fst s3)"
    using listen_kept [OF assms(5), of "(self2, file')" "[Poll ty h n]"] b2 assms(7) by auto
  have "delivered ty out3 = map (dec ty) ?N"
    using round_advance [OF good bw, of "Inr ?N" n file'] l1
    by (auto simp: outcome_simps log_handler_def Let_def get_logs_def simp del: eo_server_round.simps)
  moreover have "tracks (dec ty) (chain ty) ?lo (advance n ?N (watched ty self2)) (map (dec ty) ?N)"
    by (rule restart_tracks [OF good bw]) (use assms(7,10) sv in \<open>auto simp: w\<close>)
  ultimately have t3: "tracks (dec ty) (chain ty) ?lo (watched ty (fst s3)) (delivered ty out3)"
    using listen_poll [OF assms(5) _ l1] b2 by simp
  obtain s4 out4 where l2: "listen env chain qs s3 = (s4, Ok out4)"
    and t4: "tracks (dec ty) (chain ty) ?lo (watched ty (fst s4)) (delivered ty (out3 @ out4))"
    using listen_kept [OF assms(5) b3, of qs] t3 assms(7) by fastforce
  have "listen env chain (Poll ty h n # qs) (self2, file') = (s4, Ok (out3 @ out4))"
    using listen_append [of env chain "[Poll ty h n]" qs "(self2, file')"] l1 l2 by simp
  moreover have "wt_filter (watched ty self2) = \<lparr>fl_from = saved_poll ty bp, fl_to = None\<rparr>"
    "wt_processed_blocks (watched ty self2) = wt_processed_blocks (watched ty self')"
    using sv [of ty] by (simp_all add: w)
  ultimately show ?thesis
    using bp s2 t4 by (intro exI conjI) (assumption+, simp only: tracks_def)
qed

theorem restart_resumes_witness:
  "\<exists>bp self2 sf3 out2. li_de sample_listener (save_blocks_processed sample_listener sample_after []) = Some bp \<and>
    setup_eo_server sample_listener (Some (save_blocks_processed sample_listener sample_after [])) None = Ok self2 \<and>
    listen sample_listener sample_chain [Poll Bridge 4 4, Poll Bridge 5 5] (self2, save_blocks_processed sample_listener sample_after []) = (sf3, Ok out2) \<and>
    delivered Bridge out2 = map (sample_dec Bridge) (filter (\<lambda>l.
      (if get_logs (sample_chain Bridge) 4 \<lparr>fl_from = saved_poll Bridge bp, fl_to = None\<rparr> = []
       then highest (wt_processed_blocks (watched Bridge sample_after)) + 1 else saved_poll Bridge bp) \<le> block_of l \<and>
      block_of l \<le> highest (wt_processed_blocks (watched Bridge (fst sf3)))) (sample_chain Bridge))"
  by (rule restart_resumes [OF sample_codec sample_no_file(2) sample_no_file(1) sample_setup sample_listens _ _ sample_run])
    (simp_all add: sample_after_highest)

text \<open>
  C7: A log that does not decode holds everything back: from a start without saved blocks, for any
  polls, every log handed over for its event comes from an earlier block, however far the chain
  has grown.\<close>

theorem undecodable_log_blocks:
  assumes "load_processed_blocks env file stored = None" and "setup_eo_server env file stored = Ok self"
    and "undecodable env ty (chain ty) b" and "listen env chain ps (self, bytes) = (sf', Ok out)"
  shows "highest (wt_processed_blocks (watched ty (fst sf'))) < b \<and> older env ty (chain ty) b (delivered ty out)"
proof -
  have "below b (watched ty self)"
    using assms(1,2) by (cases ty) (auto simp: setup_eo_server_def watch_from_def watched_def below_def
        default_blocks_processed_def Let_def split: if_splits)
  with listen_below [OF assms(4) _ assms(3)] have *: "below b (watched ty (fst sf'))" "older env ty (chain ty) b (delivered ty out)"
    by simp_all
  moreover have "0 < b" using assms(3) by (simp add: undecodable_def)
  ultimately show ?thesis by (auto simp: below_def highest_def btree_last_def list_all_iff)
qed

theorem undecodable_log_blocks_witness:
  "\<exists>sf' out. listen sample_listener (\<lambda>_. [(sample_log 2)\<lparr>el_data := [1]\<rparr>]) [Poll Bridge 5 5] (fresh_eo_server, []) = (sf', Ok out) \<and>
    highest (wt_processed_blocks (watched Bridge (fst sf'))) < 2 \<and>
    older sample_listener Bridge [(sample_log 2)\<lparr>el_data := [1]\<rparr>] 2 (delivered Bridge out)"
proof -
  have u: "undecodable sample_listener Bridge [(sample_log 2)\<lparr>el_data := [1]\<rparr>] 2"
    by (simp add: undecodable_def sample_listener_def sample_log_def block_of_def)
  have run: "listen sample_listener (\<lambda>_. [(sample_log 2)\<lparr>el_data := [1]\<rparr>]) [Poll Bridge 5 5] (fresh_eo_server, []) = ((fresh_eo_server, []), Ok [])"
    by (simp add: process_logs_def handle_bridge_events_def process_events_def log_handler_def get_logs_def in_filter_def
        watched_def fresh_eo_server_def watch_from_def sample_log_def block_of_def sample_listener_def)
  show ?thesis using undecodable_log_blocks [OF sample_no_file(1) sample_setup u run] run by blast
qed

lemma set_bridge_params_log_of:
  "set_bridge_params (bridge_log_of be) b =
     Ok \<lparr>eb_user = Some (be_user be), eb_program_id = Some (be_program_id be), eb_amount = Some (be_amount be),
         eb_token_id = Some (be_token_id be), eb_token_type = Some (be_token_type be),
         eb_bridge_event_id = Some (be_bridge_event_id be)\<rparr>"
  by (simp add: bridge_log_of_def bridge_event_inputs_def set_bridge_param_def)

lemma bridge_events_from_log_of: "bridge_events_from (map bridge_log_of bes) b = Ok bes"
  by (induction bes arbitrary: b) (simp_all add: set_bridge_params_log_of bridge_event_build_def)

lemma bridge_event_id_log_of: "bridge_event_id_of (bridge_log_of be) = Some (be_bridge_event_id be)"
  by (simp add: bridge_event_id_of_def bridge_log_of_def bridge_event_inputs_def)

lemma bridge_log_of_inj: "inj bridge_log_of"
  by (rule injI) (auto simp: bridge_log_of_def bridge_event_inputs_def intro: bridge_event.equality)

lemma sorted_logs_of:
  assumes "sorts_logs srt"
  obtains bes' where "srt (map bridge_log_of bes) = map bridge_log_of bes'" and "mset bes' = mset bes"
    and "sorted_wrt (\<lambda>a b. be_bridge_event_id a \<le> be_bridge_event_id b) bes'"
proof -
  have m: "mset (srt (map bridge_log_of bes)) = mset (map bridge_log_of bes)"
    and s: "sorted_wrt (\<lambda>a b. case bridge_event_id_of b of None \<Rightarrow> bridge_event_id_of a = None
       | Some y \<Rightarrow> (case bridge_event_id_of a of None \<Rightarrow> True | Some x \<Rightarrow> x \<le> y)) (srt (map bridge_log_of bes))"
    using assms unfolding sorts_logs_def by blast+
  have "set (srt (map bridge_log_of bes)) = set (map bridge_log_of bes)" using m by (metis set_mset_mset)
  then have "\<forall>x\<in>set (srt (map bridge_log_of bes)). \<exists>be. x = bridge_log_of be" by auto
  then obtain bes' where eq: "srt (map bridge_log_of bes) = map bridge_log_of bes'"
    unfolding ex_map_conv [symmetric] by blast
  have "inj (image_mset bridge_log_of)" by (rule multiset.inj_map [OF bridge_log_of_inj])
  then have "mset bes' = mset bes" using m unfolding eq mset_map by (rule injD)
  moreover have "sorted_wrt (\<lambda>a b. be_bridge_event_id a \<le> be_bridge_event_id b) bes'"
    using s unfolding eq by (simp add: sorted_wrt_map bridge_event_id_log_of)
  ultimately show thesis using that eq by blast
qed

lemma handle_log_bridge:
  assumes "sorts_logs srt" and "registered reg Engine" and "castable reg Engine"
  obtains bes' where "handle_log reg srt (map bridge_log_of bes) Bridge = [To_Engine (E_BridgeEvents bes')]"
    and "mset bes' = mset bes" and "sorted_wrt (\<lambda>a b. be_bridge_event_id a \<le> be_bridge_event_id b) bes'"
proof -
  obtain bes' where "srt (map bridge_log_of bes) = map bridge_log_of bes'" and b: "mset bes' = mset bes"
    "sorted_wrt (\<lambda>a b. be_bridge_event_id a \<le> be_bridge_event_id b) bes'"
    by (rule sorted_logs_of [OF assms(1)])
  then have "handle_log reg srt (map bridge_log_of bes) Bridge = [To_Engine (E_BridgeEvents bes')]"
    using assms(2,3)
    by (simp add: handle_log_def parse_bridge_log_def bridge_events_from_log_of handle_eo_event_def send_to_def)
  then show thesis using b by (rule that)
qed

lemma engine_deposits_append [simp]: "engine_deposits (xs @ ys) = engine_deposits xs @ engine_deposits ys"
  by (induction xs rule: engine_deposits.induct) simp_all

lemma handle_log_settlement_deposits: "engine_deposits (handle_log reg srt log Settlement) = []"
  by (auto simp: handle_log_def handle_eo_event_def send_to_def split: outcome.split)

definition eo_messages :: "registry \<Rightarrow> (parsed_log list \<Rightarrow> parsed_log list) \<Rightarrow> (event_type \<times> parsed_log list) list \<Rightarrow> message list" where
  "eo_messages reg srt out = concat (map (\<lambda>(ty, log). eo_server_handle reg srt (Eo_Log log ty)) out)"

lemma eo_messages_deposits:
  assumes "sorts_logs srt" and "registered reg Engine" and "castable reg Engine"
    and "delivered Bridge out = map bridge_log_of bes"
  shows "mset (engine_deposits (eo_messages reg srt out)) = mset bes"
  using assms(4)
proof (induction out arbitrary: bes)
  case (Cons m out)
  obtain ty log where m: "m = (ty, log)" by (cases m)
  show ?case
  proof (cases ty)
    case Bridge
    then have "log @ delivered Bridge out = map bridge_log_of bes" using Cons.prems by (simp add: m delivered_def)
    then obtain b1 b2 where b: "bes = b1 @ b2" "log = map bridge_log_of b1" "delivered Bridge out = map bridge_log_of b2"
      unfolding append_eq_map_conv by blast
    obtain b1' where "handle_log reg srt log Bridge = [To_Engine (E_BridgeEvents b1')]" "mset b1' = mset b1"
      using handle_log_bridge [OF assms(1-3), of b1] b(2) by metis
    then show ?thesis using Cons.IH [OF b(3)] Bridge b(1) by (simp add: eo_messages_def m)
  next
    case Settlement
    then have "delivered Bridge out = map bridge_log_of bes" using Cons.prems by (simp add: m delivered_def)
    from Cons.IH [OF this] show ?thesis
      using Settlement by (simp add: eo_messages_def m handle_log_settlement_deposits)
  qed
qed (simp add: eo_messages_def)

text \<open>
  C5: Every deposit event of the chain up to the highest processed block reaches the engine exactly
  once: the deposits in the messages the actor sends, over any series of polls with failed
  queries among them, are those events, as a multiset.\<close>

theorem deposits_reach_engine_once:
  assumes "load_processed_blocks env file stored = None" and "setup_eo_server env file stored = Ok self"
    and "listens env dec chain" and "list_all poll_ok ps"
    and "\<And>l. dec Bridge l = bridge_log_of (ev l)"
    and "sorts_logs srt" and "registered reg Engine" and "castable reg Engine"
  shows "\<exists>self' file' out. listen env chain ps (self, bytes) = ((self', file'), Ok out) \<and>
    mset (engine_deposits (eo_messages reg srt out)) =
    mset (map ev (filter (\<lambda>l. block_of l \<le> highest (wt_processed_blocks (es_bridge self'))) (chain Bridge)))"
proof -
  obtain self' file' out where run: "listen env chain ps (self, bytes) = ((self', file'), Ok out)"
    and d: "delivered Bridge out = map (dec Bridge) (filter (\<lambda>l. block_of l \<le> highest (wt_processed_blocks (watched Bridge self'))) (chain Bridge))"
    using listen_exactly_once [OF assms(1-4)] by blast
  have "delivered Bridge out = map bridge_log_of (map ev (filter (\<lambda>l. block_of l \<le> highest (wt_processed_blocks (es_bridge self'))) (chain Bridge)))"
    unfolding d by (simp add: assms(5) watched_def)
  from eo_messages_deposits [OF assms(6-8) this] run show ?thesis by blast
qed

theorem deposits_reach_engine_once_witness:
  "\<exists>self' file' out. listen sample_listener sample_chain [Poll Bridge 1 4, Poll_Timeout, Poll Bridge 5 6] (fresh_eo_server, []) = ((self', file'), Ok out) \<and>
    mset (engine_deposits (eo_messages all_up sample_sort out)) =
    mset (map sample_event (filter (\<lambda>l. block_of l \<le> highest (wt_processed_blocks (es_bridge self'))) (sample_chain Bridge)))"
  by (rule deposits_reach_engine_once [OF sample_no_file(1) sample_setup sample_listens _ _ sample_sorts])
    (simp_all add: sample_dec_def)

text \<open>
  No settlement reaches the engine: a log decoded with the parameter names of the contract's
  event never makes a settlement event, since the actor looks for the accounts under another name.\<close>

theorem settlement_logs_dropped:
  assumes "logs \<noteq> []" and "map fst (hd logs) = blob_index_settled_inputs"
  shows "handle_log reg srt logs Settlement = []"
proof -
  obtain log rest where l: "logs = log # rest" using assms(1) by (cases logs) auto
  have "sb_accounts b' = sb_accounts b"
    if "set_settlement_params ps b = Ok b'" and "''user'' \<notin> fst ` set ps" for ps b b'
    using that
    by (induction ps arbitrary: b) (fastforce simp: outcome_simps set_settlement_param_def split: if_splits)+
  moreover have "''user'' \<notin> fst ` set log"
  proof -
    have "fst ` set log = set blob_index_settled_inputs" using assms(2) l by (metis list.sel(1) list.set_map)
    then show ?thesis by (simp add: blob_index_settled_inputs_def)
  qed
  ultimately have "sb_accounts b' = sb_accounts b" if "set_settlement_params log b = Ok b'" for b b'
    using that by blast
  then have "parse_settlement_log logs \<noteq> Ok es" for es
    by (auto simp: parse_settlement_log_def l outcome_simps settlement_event_build_def)
  then show ?thesis by (auto simp: handle_log_def split: outcome.split)
qed

theorem settlement_logs_dropped_witness:
  "handle_log all_up sample_sort [zip blob_index_settled_inputs [T_FixedBytes [1], T_FixedBytes [2], T_Uint 3, T_Uint 4]] Settlement = []"
  by (rule settlement_logs_dropped) (simp_all add: blob_index_settled_inputs_def)

end
