(* ===== verification/Deposit_Theorems.thy ===== *)
theory Deposit_Theorems
  imports System_Theorems Listener_Theorems
begin

text \<open>
  The path of a deposit: from a log of the chain, through the actor that turns it into an event, the
  engine, the pending transactions, the validator and the batcher, to the balance of the depositor.
\<close>

text \<open>
  C2: A deposit on the chain is credited. From every state of the node at rest in which the deposit
  was not seen, when the actors are up and the batcher has room, the log of the deposit, handed to the
  node, ends after finitely many deliveries with the amount added to the depositor's balance of the
  program's token, every other account unchanged and the node at rest again.\<close>

theorem deposit_end_to_end:
  assumes "system_reachable env sys" and "at_rest sys" and "node_up env" and "iter_order (sn_it_vertices env)"
    and "benv = sn_batcher env" and "w = sy_world sys" and "iter_order (bn_it_string benv)" and "sorts_logs srt"
    and "bridge_transaction be \<notin> seen sys"
    and "\<And>a. lookup_account benv w (be_user be) = Some a \<Longrightarrow> filed_user (be_user be) a \<and> unat (acc_nonce a) + 1 < 2 ^ 256"
    and "held benv w (be_user be) (be_program_id be) + unat (be_amount be) < 2 ^ 256"
    and "\<And>buf tok. transaction_buffer benv (lookup_account benv w) (bridge_transaction be) = Ok (buf, tok) \<Longrightarrow>
           room_for_all benv (bridge_transaction be) (map snd (bn_it_string benv buf)) (bt_parent (w_batcher w))"
  shows "\<exists>k sys'. drain env now k
      (post (eo_server_handle (bn_registry benv) srt (Eo_Log [bridge_log_of be] Bridge)) sys) = Some sys' \<and> at_rest sys' \<and>
    held benv (sy_world sys') (be_user be) (be_program_id be) = held benv w (be_user be) (be_program_id be) + unat (be_amount be) \<and>
    (\<forall>x. x = be_user be \<or> lookup_account benv (sy_world sys') x = lookup_account benv w x)"
proof -
  let ?tx = "bridge_transaction be" and ?reg = "bn_registry (sn_batcher env)"
  have tx: "is_bridge_in (tx_transaction_type ?tx)" "tx_from ?tx = be_user be" "tx_to ?tx = be_user be"
      "tx_program_id ?tx = be_program_id be" "tx_value ?tx = be_amount be"
    by (simp_all add: bridge_transaction_def)
  have up: "registered ?reg a" "castable ?reg a" "cache_up benv" "reports_up benv" "actors_up (validator_of env)"
      "engine_up (engine_of env)" for a
    using assms(3,5) by (simp_all add: node_up_def cache_up_def reports_up_def actors_up_def validator_of_def engine_up_def engine_of_def)
  let ?w = "w\<lparr>w_out := []\<rparr>"
  have "\<exists>w'. add_transaction_to_account benv ?tx ?w = Some (w', Ok ()) \<and>
      held benv w' (tx_from ?tx) (tx_program_id ?tx) = held benv ?w (tx_from ?tx) (tx_program_id ?tx) + unat (tx_value ?tx) \<and>
      (\<forall>x. x = tx_from ?tx \<or> lookup_account benv w' x = lookup_account benv ?w x)"
    by (intro deposit_applies [OF up(3,4) assms(7) tx(1)]) (use assms(10-12) tx in simp_all)
  then obtain w' where w': "add_transaction_to_account benv ?tx ?w = Some (w', Ok ())"
      "held benv w' (be_user be) (be_program_id be) = held benv w (be_user be) (be_program_id be) + unat (be_amount be)"
      "\<forall>x. x = be_user be \<or> lookup_account benv w' x = lookup_account benv w x"
    by (auto simp: tx)
  have valid: "fst (pending_transaction (validator_of env) (lookup_account (sn_batcher env) (sy_world sys)) ?tx) =
      [To_Batcher (B_AppendTransaction ?tx None)]"
    using tx(1) append_up [OF up(5), of ?tx None]
    by (cases "tx_transaction_type ?tx") (simp_all add: tx pending_transaction_def validate_bridge_in_def)
  let ?e = "To_Engine (E_BridgeEvents [be])" and ?p = "To_Pending (PT_New ?tx None)"
  have msg: "eo_server_handle ?reg srt (Eo_Log [bridge_log_of be] Bridge) = [?e]"
    using handle_log_bridge [OF assms(8) up(1,2), of "[be]"] by auto
  let ?sys = "sys\<lparr>sy_net := [?p], sy_log := sy_log sys @ [?e, ?p]\<rparr>"
  have "seen ?sys = seen sys" "direct ?tx" by (simp_all add: seen_def direct_def tx)
  then obtain sys' where sys': "runs_to env now ?sys sys'" "sy_world sys' = w'" "at_rest sys'"
    using pending_runs [OF assms(3,4), of ?sys ?tx w' now] reachable_idle [OF assms(1,4)] assms(2,5,6,9) w'(1) valid by (auto simp: at_rest_def)
  have "runs_to env now (post [?e] sys) sys'"
    by (rule runs_step [where m = ?e and ms = "[]", OF _ _ sys'(1)])
      (use assms(2) in \<open>simp_all add: at_rest_def bridge_events_up [OF up(6)] post_def del: handle_bridge_event.simps\<close>)
  then show ?thesis using sys' w' msg unfolding runs_to_def assms(5) by auto
qed

definition sample_bridge_event :: bridge_event where
  "sample_bridge_event =
     \<lparr>be_user = eth_addr, be_program_id = eth_addr, be_amount = 4, be_token_id = 0, be_token_type = ''ETH'', be_bridge_event_id = 1\<rparr>"

theorem deposit_end_to_end_witness:
  "\<exists>k sys'. drain sample_node_env 0 k
      (post (eo_server_handle (bn_registry sample_benv) sample_sort (Eo_Log [bridge_log_of sample_bridge_event] Bridge))
        (system_init sample_holder)) = Some sys' \<and> at_rest sys' \<and>
    held sample_benv (sy_world sys') eth_addr eth_addr = 14"
proof -
  have "bridge_transaction sample_bridge_event \<notin> seen (system_init sample_holder)"
    by (simp add: seen_def system_init_def pending_init_def)
  moreover have "be_user sample_bridge_event = eth_addr" "be_program_id sample_bridge_event = eth_addr"
    "be_amount sample_bridge_event = 4" by (simp_all add: sample_bridge_event_def)
  ultimately show ?thesis
    using deposit_end_to_end [OF system_reachable.init, of sample_holder sample_node_env sample_benv sample_holder
        sample_sort sample_bridge_event 0] sample_sorts
    by auto
qed

end
