(* ===== verification/Settlement_Model.thy ===== *)
theory Settlement_Model
  imports Batch_Model "HOL-Library.List_Lexorder" "HOL-Library.Char_ord"
begin

text \<open>
  The two actors that carry a batch out of the node: the data-availability client
  (crates/actors/src/da_client.rs), which disperses a batch, waits for its proof and reads accounts
  back, and the settlement client (crates/actors/src/eo_client.rs), which calls the contract with
  the accounts of a stored batch and asks again after a timeout. The answers of the two services,
  the parser of the web3 crate's addresses and the order of a hash set are parameters. The cache of
  pending blobs (crates/actors/src/blob_cache.rs) is here too.
\<close>

section \<open>The data-availability client\<close>

text \<open>Of a status only whether it is \<open>BlobResult::Confirmed\<close> is looked at, and its proof.\<close>

record 'p blob_status =
  bs_confirmed :: bool
  bs_proof :: "'p option"

text \<open>
  \<open>poll_blob_status\<close>: the answer to the \<open>n\<close>-th question decides whether to ask again, to send the
  proof, or to stop. A value that is not there is a poll that never ends; the inner value is the proof
  sent to the batcher, if any.
\<close>

partial_function (option) poll_blob_status ::
    "(nat \<Rightarrow> string + 'p blob_status) \<Rightarrow> nat \<Rightarrow> 'p option option" where
  "poll_blob_status answers n =
     (case answers n of
        Inl e \<Rightarrow> Some None
      | Inr status \<Rightarrow>
          if \<not> bs_confirmed status then poll_blob_status answers (Suc n)
          else Some (bs_proof status))"

record 'p da_env =
  da_disperse :: "string \<Rightarrow> string + string"
  da_status :: "string \<Rightarrow> nat \<Rightarrow> string + 'p blob_status"
  da_retrieve :: "string \<Rightarrow> nat \<Rightarrow> string + string"
  da_blob_data :: "string \<Rightarrow> string option"
  da_b64 :: "u8 list \<Rightarrow> string"
  da_codec :: batch_codec

text \<open>\<open>retrieve_account\<close>: the account sent back, or nothing sent when the blob is not there or does not decode.\<close>

definition retrieve_account :: "'p da_env \<Rightarrow> address \<Rightarrow> u8 list \<Rightarrow> nat \<Rightarrow> account option option" where
  "retrieve_account env address batch_header_hash blob_index =
     (case da_retrieve env (da_b64 env batch_header_hash) blob_index of
        Inl e \<Rightarrow> None
      | Inr blob \<Rightarrow>
          (case da_blob_data env blob of
             None \<Rightarrow> None
           | Some data \<Rightarrow>
               (case decode_batch (da_codec env) data of
                  None \<Rightarrow> None
                | Some batch \<Rightarrow> Some (get_user_account address batch))))"

datatype da_client_message =
  DA_StoreBatch string | DA_ValidateBlob string | DA_RetrieveAccount address "u8 list" nat
| DA_RetrieveTransaction | DA_RetrieveContract | DA_Other

text \<open>What the reply channel of a message gets: nothing when it is dropped, or when the poll never ends.\<close>

datatype 'p da_reply = R_Blob "string + string" | R_Proof string 'p | R_Account "account option"

definition store_batch :: "'p da_env \<Rightarrow> string \<Rightarrow> 'p da_reply option" where
  "store_batch env batch = Some (R_Blob (da_disperse env batch))"

definition validate_blob :: "'p da_env \<Rightarrow> string \<Rightarrow> 'p da_reply option" where
  "validate_blob env request_id =
     (case poll_blob_status (da_status env request_id) 0 of
        Some (Some proof) \<Rightarrow> Some (R_Proof request_id proof)
      | _ \<Rightarrow> None)"

fun da_client_handle :: "'p da_env \<Rightarrow> da_client_message \<Rightarrow> 'p da_reply option" where
  "da_client_handle env (DA_StoreBatch batch) = store_batch env batch"
| "da_client_handle env (DA_ValidateBlob request_id) = validate_blob env request_id"
| "da_client_handle env (DA_RetrieveAccount address h i) = map_option R_Account (retrieve_account env address h i)"
| "da_client_handle env DA_RetrieveTransaction = None"
| "da_client_handle env DA_RetrieveContract = None"
| "da_client_handle env DA_Other = None"

section \<open>The cache of pending blobs\<close>

record blob_cache =
  bc_queue :: "(string, address set \<times> transaction set) hashmap"
  bc_receivers :: nat

definition blob_cache_new :: blob_cache where
  "blob_cache_new = \<lparr>bc_queue = [], bc_receivers = 0\<rparr>"

definition handle_queue_removal :: "string \<Rightarrow> blob_cache \<Rightarrow> blob_cache" where
  "handle_queue_removal request_id c = c\<lparr>bc_queue := hm_remove request_id (bc_queue c)\<rparr>"

text \<open>The queue is written before the client is asked, so it keeps the entry when the client is missing.\<close>

definition handle_queue_write ::
    "registry \<Rightarrow> string \<Rightarrow> address set \<Rightarrow> transaction set \<Rightarrow> blob_cache
       \<Rightarrow> (blob_cache, string, unit) mutres \<times> message list" where
  "handle_queue_write reg request_id accounts transactions c =
     (let c' = c\<lparr>bc_queue := hm_insert request_id (accounts, transactions) (bc_queue c),
                 bc_receivers := bc_receivers c + 1\<rparr> in
      if \<not> registered reg DaClient then ((c', Err ''PendingBlobError''), [])
      else if \<not> castable reg DaClient then ((c', Err ''Messaging failed''), [])
      else ((c', Ok ()), [To_DaClient (D_ValidateBlob request_id)]))"

section \<open>Checksum addresses\<close>

definition ascii_upper :: "char \<Rightarrow> char" where
  "ascii_upper c = (if 97 \<le> (of_char c :: nat) \<and> (of_char c :: nat) \<le> 122 then char_of (of_char c - 32 :: nat) else c)"

definition ascii_lower :: "char \<Rightarrow> char" where
  "ascii_lower c = (if 65 \<le> (of_char c :: nat) \<and> (of_char c :: nat) \<le> 90 then char_of (of_char c + 32 :: nat) else c)"

definition is_ascii_digit :: "char \<Rightarrow> bool" where
  "is_ascii_digit c \<longleftrightarrow> 48 \<le> (of_char c :: nat) \<and> (of_char c :: nat) \<le> 57"

definition checksum_char :: "u8 list \<Rightarrow> nat \<Rightarrow> char \<Rightarrow> (string, char) outcome" where
  "checksum_char hash i c =
     (if is_ascii_digit c then Ok c
      else if length hash \<le> i div 2 then Panic ''index out of bounds''
      else if drop_bit 4 (hash ! (i div 2)) \<ge> 8 \<and> i mod 2 = 0 \<or> and (hash ! (i div 2)) 0x0f \<ge> 8 \<and> i mod 2 \<noteq> 0
      then Ok (ascii_upper c) else Ok (ascii_lower c))"

fun checksum_chars :: "u8 list \<Rightarrow> nat \<Rightarrow> string \<Rightarrow> (string, string) outcome" where
  "checksum_chars hash i [] = Ok []"
| "checksum_chars hash i (c # cs) =
     obind (checksum_char hash i c) (\<lambda>d. obind (checksum_chars hash (Suc i) cs) (\<lambda>ds. Ok (d # ds)))"

definition to_checksum_address :: "crypto \<Rightarrow> hex_crate \<Rightarrow> u8 list \<Rightarrow> (string, string) outcome" where
  "to_checksum_address cr hx bytes =
     (let hex_address = map ascii_lower (hex_encode hx bytes) in
      obind (checksum_chars (keccak256 cr (str_bytes hex_address)) 0 hex_address) (\<lambda>s. Ok (''0x'' @ s)))"

definition parse_checksum_address ::
    "crypto \<Rightarrow> hex_crate \<Rightarrow> (string \<Rightarrow> u8 list option) \<Rightarrow> address \<Rightarrow> (string, u8 list) outcome" where
  "parse_checksum_address cr hx h160 a =
     obind (to_checksum_address cr hx (addr_inner a)) (\<lambda>s. ok_or (h160 s) ''Internal Web3 error'')"

section \<open>The settlement client\<close>

record client_env =
  ce_registry :: registry
  ce_crypto :: crypto
  ce_hex :: hex_crate
  ce_h160 :: "string \<Rightarrow> u8 list option"
  ce_order :: "string set \<Rightarrow> string list"

record settle_call =
  sc_accounts :: "u8 list list"
  sc_batch_header_hash :: "u8 list"
  sc_blob_index :: nat
  sc_gas :: u256

fun settle_addresses :: "client_env \<Rightarrow> string list \<Rightarrow> (string, u8 list list) outcome" where
  "settle_addresses env [] = Ok []"
| "settle_addresses env (a # as) =
     (case from_hex (ce_hex env) a of
        Ok addr \<Rightarrow>
          (case parse_checksum_address (ce_crypto env) (ce_hex env) (ce_h160 env) addr of
             Ok eth \<Rightarrow> obind (settle_addresses env as) (\<lambda>eths. Ok (eth # eths))
           | Err _ \<Rightarrow> settle_addresses env as
           | Panic p \<Rightarrow> Panic p)
      | Err _ \<Rightarrow> settle_addresses env as
      | Panic p \<Rightarrow> Panic p)"

text \<open>The product is of machine words of 64 bits.\<close>

definition settle_gas :: "nat \<Rightarrow> (string, u256) outcome" where
  "settle_gas n_accounts =
     (if 50000 * n_accounts < 2 ^ 64 then Ok (of_nat (50000 * n_accounts) + 100000)
      else Panic ''attempt to multiply with overflow'')"

definition settle_call_of ::
    "client_env \<Rightarrow> string set \<Rightarrow> u8 list \<Rightarrow> nat \<Rightarrow> (string, settle_call) outcome" where
  "settle_call_of env accounts h i =
     obind (settle_addresses env (ce_order env accounts)) (\<lambda>addresses.
     obind (settle_gas (length addresses)) (\<lambda>gas.
     Ok \<lparr>sc_accounts = addresses, sc_batch_header_hash = h, sc_blob_index = i, sc_gas = gas\<rparr>))"

text \<open>The answer to a call: a transaction with the answers to the questions for its receipt (the status, when
  there is one), an error, or none in time.\<close>

datatype call_answer = Sent "nat \<Rightarrow> (nat option) option" | Call_Error string | Elapsed

partial_function (option) wait_receipt :: "(nat \<Rightarrow> 'r option) \<Rightarrow> nat \<Rightarrow> 'r option" where
  "wait_receipt answers n = (case answers n of Some r \<Rightarrow> Some r | None \<Rightarrow> wait_receipt answers (Suc n))"

datatype eo_client_message =
  EC_Settle "string set" "u8 list" nat | EC_SettleSuccess "u8 list" nat "string set"
| EC_SettleFailure "u8 list" nat "string set" | EC_SettleTimedOut "u8 list" nat "string set"
| EC_GetContractBlobIndex | EC_Other

text \<open>The task of a call: the message it casts to the client when it ends, if it ends.\<close>

fun settle_message :: "call_answer \<Rightarrow> string set \<Rightarrow> u8 list \<Rightarrow> nat \<Rightarrow> eo_client_message option" where
  "settle_message (Sent receipts) accounts h i =
     (case wait_receipt receipts 0 of
        None \<Rightarrow> None
      | Some status \<Rightarrow>
          Some (if status = Some 1 then EC_SettleSuccess h i accounts else EC_SettleFailure h i accounts))"
| "settle_message (Call_Error e) accounts h i = Some (EC_SettleFailure h i accounts)"
| "settle_message Elapsed accounts h i = Some (EC_SettleTimedOut h i accounts)"

definition self_cast :: "client_env \<Rightarrow> eo_client_message option \<Rightarrow> eo_client_message list" where
  "self_cast env m = (case m of Some m \<Rightarrow> if castable (ce_registry env) EoClient then [m] else [] | None \<Rightarrow> [])"

type_synonym pending_settlements = "(u8 list \<times> nat, unit) hashmap"

definition insert_pending :: "u8 list \<times> nat \<Rightarrow> pending_settlements \<Rightarrow> pending_settlements" where
  "insert_pending blob_info pending = hm_insert blob_info () pending"

definition remove_pending :: "u8 list \<times> nat \<Rightarrow> pending_settlements \<Rightarrow> pending_settlements" where
  "remove_pending blob_info pending = hm_remove blob_info pending"

text \<open>
  \<open>settle\<close> with \<open>settle_batch\<close>: the handle of the task is kept, also when the task aborts before its call.
\<close>

definition settle ::
    "client_env \<Rightarrow> call_answer \<Rightarrow> string set \<Rightarrow> u8 list \<Rightarrow> nat \<Rightarrow> pending_settlements
       \<Rightarrow> pending_settlements \<times> settle_call list \<times> eo_client_message list" where
  "settle env ans accounts h i pending =
     (if \<not> registered (ce_registry env) EoClient then (pending, [], [])
      else
        (let pending' = insert_pending (h, i) pending in
         case settle_call_of env accounts h i of
           Ok c \<Rightarrow> (pending', [c], self_cast env (settle_message ans accounts h i))
         | _ \<Rightarrow> (pending', [], [])))"

definition settle_success :: "u8 list \<Rightarrow> nat \<Rightarrow> pending_settlements \<Rightarrow> pending_settlements" where
  "settle_success h i pending = remove_pending (h, i) pending"

fun eo_client_handle ::
    "client_env \<Rightarrow> call_answer \<Rightarrow> eo_client_message \<Rightarrow> pending_settlements
       \<Rightarrow> pending_settlements \<times> settle_call list \<times> eo_client_message list" where
  "eo_client_handle env ans (EC_Settle accounts h i) pending = settle env ans accounts h i pending"
| "eo_client_handle env ans (EC_SettleSuccess h i accounts) pending = (settle_success h i pending, [], [])"
| "eo_client_handle env ans (EC_SettleFailure h i accounts) pending = (pending, [], [])"
| "eo_client_handle env ans (EC_SettleTimedOut h i accounts) pending =
     (pending, [], self_cast env (Some (EC_Settle accounts h i)))"
| "eo_client_handle env ans EC_GetContractBlobIndex pending = (pending, [], [])"
| "eo_client_handle env ans EC_Other pending = (pending, [], [])"

section \<open>Queries of the contract\<close>

text \<open>What the requester is sent; nothing for a blob with a zero hash, or for another kind of token.\<close>

datatype eo_answer =
  AccountBlobIndexAcquired address "u8 list" nat | AccountBlobIndexNotFound address
| AccountBalanceAcquired address address "u256 option" | NftHoldingsAcquired address address "u256 list option"

record contract_view =
  cv_blob_index :: "address \<Rightarrow> (u8 list \<times> nat) option"
  cv_eth_balance :: "address \<Rightarrow> u256 option"
  cv_erc20_balance :: "address \<Rightarrow> address \<Rightarrow> u256 option"
  cv_erc721_holdings :: "address \<Rightarrow> address \<Rightarrow> u256 list option"

definition get_account_blob_index :: "contract_view \<Rightarrow> address \<Rightarrow> eo_answer option" where
  "get_account_blob_index cv address =
     (case cv_blob_index cv address of
        Some (batch_header_hash, blob_index) \<Rightarrow>
          if \<not> list_all (\<lambda>b. b = 0) batch_header_hash
          then Some (AccountBlobIndexAcquired address batch_header_hash blob_index) else None
      | None \<Rightarrow> Some (AccountBlobIndexNotFound address))"

definition get_account_balance :: "contract_view \<Rightarrow> address \<Rightarrow> address \<Rightarrow> nat \<Rightarrow> eo_answer option" where
  "get_account_balance cv program_id address token_type =
     (if token_type = 0 then Some (AccountBalanceAcquired program_id address (cv_eth_balance cv address))
      else if token_type = 1 then Some (AccountBalanceAcquired program_id address (cv_erc20_balance cv program_id address))
      else if token_type = 2 then Some (NftHoldingsAcquired program_id address (cv_erc721_holdings cv program_id address))
      else None)"

section \<open>A run of the client\<close>

text \<open>
  The client works off its mailbox in order; every request to settle takes the next answer of the
  chain, and the run stops at a request when the answers are used up. The result is what is left of
  the mailbox, the handles kept, and the calls made.
\<close>

fun is_settle :: "eo_client_message \<Rightarrow> bool" where
  "is_settle (EC_Settle accounts h i) \<longleftrightarrow> True"
| "is_settle _ \<longleftrightarrow> False"

fun weight :: "eo_client_message \<Rightarrow> nat" where
  "weight (EC_SettleTimedOut h i accounts) = 2"
| "weight _ = 1"

function client_run ::
    "client_env \<Rightarrow> call_answer list \<Rightarrow> eo_client_message list \<Rightarrow> pending_settlements
       \<Rightarrow> eo_client_message list \<times> pending_settlements \<times> settle_call list" where
  "client_run env answers [] pending = ([], pending, [])"
| "client_run env answers (m # ms) pending =
     (if is_settle m then
        (case answers of
           [] \<Rightarrow> (m # ms, pending, [])
         | ans # rest \<Rightarrow>
             (case eo_client_handle env ans m pending of (pending', calls, out) \<Rightarrow>
              case client_run env rest (ms @ out) pending' of (left, p, log) \<Rightarrow> (left, p, calls @ log)))
      else
        (case eo_client_handle env Elapsed m pending of (pending', calls, out) \<Rightarrow>
         case client_run env answers (ms @ out) pending' of (left, p, log) \<Rightarrow> (left, p, calls @ log)))"
  by pat_completeness auto

section \<open>Lemmas\<close>

lemma self_cast_weight: "sum_list (map weight (self_cast env m)) \<le> 2"
  by (cases m; cases "the m") (auto simp: self_cast_def split: option.split)

lemma handle_weight:
  assumes "(p', calls, out) = eo_client_handle env ans m p"
  shows "sum_list (map weight out) < (if is_settle m then 3 else weight m)"
  using assms le_less_trans [OF self_cast_weight, of 3]
  by (cases m) (auto simp: settle_def Let_def self_cast_def split: if_splits outcome.splits)

termination client_run
  by (relation "measure (\<lambda>(env, answers, ms, p). 3 * length answers + sum_list (map weight ms))")
    (auto dest!: handle_weight split: if_splits)

lemma wait_receipt_reaches:
  assumes "answers (n + k) = Some r" and "\<forall>j<k. answers (n + j) = None"
  shows "wait_receipt answers n = Some r"
  using assms
proof (induction k arbitrary: n)
  case (Suc k)
  have "answers n = None" using Suc.prems(2) [rule_format, of 0] by simp
  moreover have "wait_receipt answers (Suc n) = Some r" using Suc.prems by (intro Suc.IH) (auto simp: less_Suc_eq_0_disj)
  ultimately show ?case by (subst wait_receipt.simps) simp
qed (subst wait_receipt.simps, simp)

lemma poll_blob_status_reaches:
  assumes "\<forall>j<k. \<exists>st. answers (n + j) = Inr st \<and> \<not> bs_confirmed st"
  shows "poll_blob_status answers n = poll_blob_status answers (n + k)"
  using assms
proof (induction k arbitrary: n)
  case (Suc k)
  obtain st where "answers n = Inr st" "\<not> bs_confirmed st" using Suc.prems [rule_format, of 0] by auto
  then have "poll_blob_status answers n = poll_blob_status answers (Suc n)" by (subst poll_blob_status.simps) simp
  also have "\<dots> = poll_blob_status answers (Suc n + k)" using Suc.prems by (intro Suc.IH) auto
  finally show ?case by simp
qed simp

lemma poll_blob_status_SomeD:
  assumes "poll_blob_status answers n = Some r"
  shows "\<exists>k. (\<forall>j<k. \<exists>st. answers (n + j) = Inr st \<and> \<not> bs_confirmed st) \<and>
    (case answers (n + k) of Inl e \<Rightarrow> r = None | Inr st \<Rightarrow> bs_confirmed st \<and> r = bs_proof st)"
proof (induction rule: poll_blob_status.raw_induct [OF _ assms])
  case (1 f answers n r)
  show ?case
  proof (cases "\<exists>st. answers n = Inr st \<and> \<not> bs_confirmed st")
    case True
    then obtain k where k: "\<forall>j<k. \<exists>st. answers (Suc n + j) = Inr st \<and> \<not> bs_confirmed st"
      "case answers (Suc n + k) of Inl e \<Rightarrow> r = None | Inr st \<Rightarrow> bs_confirmed st \<and> r = bs_proof st"
    proof -
      from True 1(2) have "f answers (Suc n) = Some r" by auto
      from 1(1) [OF this] that show thesis by auto
    qed
    then show ?thesis using True by (intro exI [of _ "Suc k"]) (auto simp: less_Suc_eq_0_disj)
  next
    case False
    then show ?thesis using 1(2) by (intro exI [of _ 0]) (auto split: sum.splits if_splits)
  qed
qed

definition undecided :: "(nat \<Rightarrow> string + 'p blob_status) \<Rightarrow> nat \<Rightarrow> bool" where
  "undecided answers j \<longleftrightarrow> (\<exists>st. answers j = Inr st \<and> \<not> bs_confirmed st)"

lemma poll_blob_status_first:
  assumes "\<forall>j<k. undecided answers j" and "\<not> undecided answers k"
  shows "poll_blob_status answers 0 = Some (case answers k of Inl e \<Rightarrow> None | Inr st \<Rightarrow> bs_proof st)"
proof -
  have "poll_blob_status answers 0 = poll_blob_status answers k"
    using poll_blob_status_reaches [of k answers 0] assms(1) by (simp add: undecided_def)
  then show ?thesis using assms(2) by (subst (asm) (2) poll_blob_status.simps) (auto simp: undecided_def split: sum.splits)
qed

text \<open>What the addresses' parser and the iteration over a set are documented to do.\<close>

definition h160_laws :: "(string \<Rightarrow> u8 list option) \<Rightarrow> bool" where
  "h160_laws h160 \<longleftrightarrow>
     (\<forall>bs s. length bs = 20 \<longrightarrow> map ascii_lower s = bytes_hex bs \<longrightarrow> h160 (''0x'' @ s) = Some bs)"

definition client_laws :: "client_env \<Rightarrow> bool" where
  "client_laws env \<longleftrightarrow> hex_laws (ce_hex env) \<and> h160_laws (ce_h160 env) \<and>
     (\<forall>x. length (keccak256 (ce_crypto env) x) = 32) \<and>
     (\<forall>S. finite S \<longrightarrow> set (ce_order env S) = S \<and> distinct (ce_order env S)) \<and>
     registered (ce_registry env) EoClient \<and> castable (ce_registry env) EoClient"

definition hex_digit :: "char \<Rightarrow> bool" where
  "hex_digit c \<longleftrightarrow> c \<in> digit_char ` {..<16}"

lemma hex_digit_case: "hex_digit c \<Longrightarrow> ascii_lower c = c \<and> ascii_lower (ascii_upper c) = c"
proof -
  have "list_all (\<lambda>d. ascii_lower (digit_char d) = digit_char d \<and> ascii_lower (ascii_upper (digit_char d)) = digit_char d) [0..<16]"
    by code_simp
  then show "hex_digit c \<Longrightarrow> ascii_lower c = c \<and> ascii_lower (ascii_upper c) = c"
    by (auto simp: hex_digit_def list_all_iff)
qed

lemma bytes_hex_digits: "list_all hex_digit (bytes_hex bs)"
proof (induction bs)
  case (Cons b bs)
  have "unat b < 256" by (rule unat_u8_bound)
  then have "unat b div 16 < 16" by auto
  then show ?case using Cons by (simp add: bytes_hex_def byte_hex_def hex_digit_def)
qed (simp add: bytes_hex_def)

lemma checksum_chars_lower:
  assumes "list_all hex_digit cs" and "i + length cs \<le> 2 * length hash"
  shows "\<exists>ds. checksum_chars hash i cs = Ok ds \<and> map ascii_lower ds = cs"
  using assms
proof (induction cs arbitrary: i)
  case (Cons c cs)
  have "\<exists>ds. checksum_chars hash (Suc i) cs = Ok ds \<and> map ascii_lower ds = cs" using Cons by auto
  moreover have "i div 2 < length hash" using Cons.prems(2) by auto
  then have "\<exists>d. checksum_char hash i c = Ok d \<and> ascii_lower d = c"
    using hex_digit_case [of c] Cons.prems(1) by (auto simp: checksum_char_def)
  ultimately show ?case by auto
qed simp

lemma parse_checksum_address_ok:
  assumes "client_laws env" and "wf_address a"
  shows "parse_checksum_address (ce_crypto env) (ce_hex env) (ce_h160 env) a = Ok (addr_inner a)"
proof -
  let ?bs = "addr_inner a"
  have low: "map ascii_lower (bytes_hex ?bs) = bytes_hex ?bs"
    using bytes_hex_digits [of ?bs] hex_digit_case by (intro map_idI) (auto simp: list_all_iff)
  have "0 + length (bytes_hex ?bs) \<le> 2 * length (keccak256 (ce_crypto env) (str_bytes (bytes_hex ?bs)))"
    using assms by (simp add: client_laws_def wf_address_def)
  from checksum_chars_lower [OF bytes_hex_digits this] obtain ds where
    "checksum_chars (keccak256 (ce_crypto env) (str_bytes (bytes_hex ?bs))) 0 (bytes_hex ?bs) = Ok ds"
    "map ascii_lower ds = bytes_hex ?bs" by blast
  then show ?thesis using assms
    by (simp add: parse_checksum_address_def to_checksum_address_def client_laws_def hex_encode_bytes_hex low
        h160_laws_def wf_address_def)
qed

lemma from_hex_full_string: "hex_laws hx \<Longrightarrow> wf_address a \<Longrightarrow> from_hex hx (to_full_string a) = Ok a"
  by (cases a) (simp add: from_hex_def to_full_string_def lower_hex_def hex_decode_bytes_hex wf_address_def)

lemma settle_addresses_ok:
  assumes "client_laws env" and "list_all wf_address as"
  shows "settle_addresses env (map to_full_string as) = Ok (map addr_inner as)"
  using assms(2)
proof (induction as)
  case (Cons a as)
  have "from_hex (ce_hex env) (to_full_string a) = Ok a"
    using assms(1) Cons.prems by (simp add: client_laws_def from_hex_full_string)
  then show ?case using Cons parse_checksum_address_ok [OF assms(1)] by simp
qed simp

lemma settle_call_exact:
  assumes "client_laws env" and "finite A" and "\<forall>a\<in>A. wf_address a" and "50000 * card A < 2 ^ 64"
  obtains c where "settle_call_of env (to_full_string ` A) h i = Ok c"
    and "set (sc_accounts c) = addr_inner ` A" and "distinct (sc_accounts c)"
    and "sc_batch_header_hash c = h" and "sc_blob_index c = i" and "unat (sc_gas c) = 50000 * card A + 100000"
proof -
  let ?S = "to_full_string ` A"
  have o: "set (ce_order env ?S) = ?S" "distinct (ce_order env ?S)"
    using assms(1,2) by (simp_all add: client_laws_def)
  then have "\<forall>x\<in>set (ce_order env ?S). \<exists>a. x = to_full_string a" by auto
  then obtain as where as: "ce_order env ?S = map to_full_string as" unfolding ex_map_conv [symmetric] by blast
  have inj: "inj to_full_string" by (rule injI) simp
  have set: "set as = A" using o(1) unfolding as by (simp add: inj_image_eq_iff [OF inj])
  have dist: "distinct as" using o(2) unfolding as by (simp add: distinct_map)
  have len: "length as = card A" using set dist distinct_card by metis
  have "inj_on addr_inner A" by (rule inj_onI) (simp add: address.expand)
  moreover have "unat (of_nat (50000 * card A) + 100000 :: u256) = 50000 * card A + 100000"
  proof -
    have "50000 * card A < 2 ^ 256" using assms(4) by (rule less_trans) simp
    then have u: "unat (of_nat (50000 * card A) :: u256) = 50000 * card A" by (intro of_nat_inverse [OF refl]) simp
    have v: "unat (100000 :: u256) = 100000" by simp
    have "unat (of_nat (50000 * card A) + 100000 :: u256) = unat (of_nat (50000 * card A) :: u256) + unat (100000 :: u256)"
      by (rule unat_add_u256) (use assms(4) in \<open>simp only: u v, simp\<close>)
    then show ?thesis by (simp only: u v)
  qed
  moreover have "settle_addresses env (map to_full_string as) = Ok (map addr_inner as)"
    by (rule settle_addresses_ok) (use assms set in \<open>auto simp: list_all_iff\<close>)
  ultimately show thesis
    using that [of "\<lparr>sc_accounts = map addr_inner as, sc_batch_header_hash = h, sc_blob_index = i,
      sc_gas = of_nat (50000 * card A) + 100000\<rparr>"] assms(4) set dist
    by (simp add: settle_call_of_def as len settle_gas_def distinct_map)
qed

lemma client_run_retries:
  assumes "client_laws env" and "settle_call_of env S h i = Ok c" and "settle_message a S h i = Some m"
    and "m = EC_SettleSuccess h i S \<or> m = EC_SettleFailure h i S"
  shows "\<exists>p'. client_run env (replicate n Elapsed @ a # rest) [EC_Settle S h i] p = ([], p', replicate (Suc n) c) \<and>
    hm_get p' (h, i) = (if m = EC_SettleSuccess h i S then None else Some ()) \<and> (\<forall>k. k \<noteq> (h, i) \<longrightarrow> hm_get p' k = hm_get p k)"
proof (induction n arbitrary: p)
  case 0
  then show ?case using assms
    by (auto simp: client_laws_def settle_def self_cast_def Let_def insert_pending_def
        settle_success_def remove_pending_def hm_get_insert hm_get_remove)
next
  case (Suc n)
  from Suc [of "insert_pending (h, i) p"] show ?case using assms(1,2)
    by (auto simp: client_laws_def settle_def self_cast_def Let_def insert_pending_def hm_get_insert)
qed

section \<open>Properties\<close>

text \<open>
  C20: A request to settle a batch is repeated over any number of timeouts until the chain answers,
  each time with one call that names exactly the accounts of the batch, its header hash and
  blob index, and with the gas for them; the handle of the task is then dropped if the transaction
  succeeded. If it failed, or could not be sent, the handle stays for good and no further call is
  made, whatever the chain would answer.\<close>

theorem settlement_verdict:
  assumes "client_laws env" and "finite A" and "\<forall>a\<in>A. wf_address a" and "50000 * card A < 2 ^ 64"
    and "ans = Call_Error e \<or> ans = Sent receipts \<and> receipts k = Some status \<and> (\<forall>j<k. receipts j = None)"
  shows "\<exists>c p'. client_run env (replicate n Elapsed @ ans # rest) [EC_Settle (to_full_string ` A) h i] p =
      ([], p', replicate (Suc n) c) \<and>
    set (sc_accounts c) = addr_inner ` A \<and> distinct (sc_accounts c) \<and>
    sc_batch_header_hash c = h \<and> sc_blob_index c = i \<and> unat (sc_gas c) = 50000 * card A + 100000 \<and>
    hm_get p' (h, i) = (if ans = Sent receipts \<and> status = Some 1 then None else Some ())"
proof -
  let ?S = "to_full_string ` A"
  obtain c where c: "settle_call_of env ?S h i = Ok c" and call: "set (sc_accounts c) = addr_inner ` A"
    "distinct (sc_accounts c)" "sc_batch_header_hash c = h" "sc_blob_index c = i" "unat (sc_gas c) = 50000 * card A + 100000"
    using settle_call_exact [OF assms(1-4)] by metis
  let ?m = "if ans = Sent receipts \<and> status = Some 1 then EC_SettleSuccess h i ?S else EC_SettleFailure h i ?S"
  have m: "settle_message ans ?S h i = Some ?m"
    using assms(5) wait_receipt_reaches [of receipts 0 k status] by auto
  from client_run_retries [OF assms(1) c m, of n rest p] call show ?thesis
    by (auto split: if_splits)
qed

definition sample_client :: client_env where
  "sample_client =
     \<lparr>ce_registry = all_up, ce_crypto = sample_crypto, ce_hex = hex_ref,
      ce_h160 = (\<lambda>s. case ref_hex_decode (map ascii_lower (drop 2 s)) of Ok bs \<Rightarrow> Some bs | _ \<Rightarrow> None),
      ce_order = sorted_list_of_set\<rparr>"

lemma sample_client_laws: "client_laws sample_client"
  by (simp add: client_laws_def sample_client_def hex_laws_ref h160_laws_def ref_hex_decode_bytes_hex sample_crypto_def
      min_def)

theorem settlement_verdict_witness:
  "\<exists>c p'. client_run sample_client (replicate 2 Elapsed @ Sent (\<lambda>n. if n = 3 then Some (Some 1) else None) # [Elapsed])
      [EC_Settle (to_full_string ` {eth_addr, verse_addr}) (replicate 32 1) 4] [] = ([], p', replicate (Suc 2) c) \<and>
    set (sc_accounts c) = addr_inner ` {eth_addr, verse_addr} \<and> distinct (sc_accounts c) \<and>
    sc_batch_header_hash c = replicate 32 1 \<and> sc_blob_index c = 4 \<and> unat (sc_gas c) = 50000 * card {eth_addr, verse_addr} + 100000 \<and>
    hm_get p' (replicate 32 1, 4) =
      (if Sent (\<lambda>n. if n = 3 then Some (Some 1) else None) = Sent (\<lambda>n. if n = 3 then Some (Some 1) else None) \<and> Some 1 = Some (1 :: nat)
       then None else Some ())"
proof (rule settlement_verdict [OF sample_client_laws, where k = 3 and e = "[]"])
  show "50000 * card {eth_addr, verse_addr} < 2 ^ 64" by (simp add: card_insert_if)
  show "\<forall>a\<in>{eth_addr, verse_addr}. wf_address a" by (simp add: wf_address_def eth_addr_def verse_addr_def)
qed auto

text \<open>
  C21: The wait for a blob's proof ends exactly when some answer is an error or a confirmation, all
  before it being statuses other than confirmed; the batcher is told exactly when that answer is a
  confirmation with a proof, so an error ends the wait without a message, and a blob that the service
  gave up on is asked for without end.\<close>

theorem blob_proof_verdict:
  "(da_client_handle env (DA_ValidateBlob request_id) = Some (R_Proof request_id proof) \<longleftrightarrow>
     (\<exists>k st. da_status env request_id k = Inr st \<and> bs_confirmed st \<and> bs_proof st = Some proof \<and>
       (\<forall>j<k. undecided (da_status env request_id) j))) \<and>
   (poll_blob_status (da_status env request_id) 0 = None \<longleftrightarrow> (\<forall>j. undecided (da_status env request_id) j))"
proof (cases "\<forall>j. undecided (da_status env request_id) j")
  case True
  have "poll_blob_status (da_status env request_id) 0 \<noteq> Some r" for r
  proof
    assume "poll_blob_status (da_status env request_id) 0 = Some r"
    from poll_blob_status_SomeD [OF this] obtain k where
      "case da_status env request_id k of Inl e \<Rightarrow> r = None | Inr st \<Rightarrow> bs_confirmed st \<and> r = bs_proof st" by auto
    moreover obtain st where "da_status env request_id k = Inr st" "\<not> bs_confirmed st"
      using True by (auto simp: undecided_def)
    ultimately show False by simp
  qed
  then have "poll_blob_status (da_status env request_id) 0 = None" by (metis option.exhaust)
  moreover have "\<not> bs_confirmed st" if "da_status env request_id k = Inr st" for k st
    using True [rule_format, of k] that by (auto simp: undecided_def)
  ultimately show ?thesis using True by (auto simp: validate_blob_def)
next
  case False
  let ?ans = "da_status env request_id"
  define k where "k = (LEAST j. \<not> undecided ?ans j)"
  have k: "\<not> undecided ?ans k" unfolding k_def by (rule LeastI_ex) (use False in blast)
  have before: "\<forall>j<k. undecided ?ans j" unfolding k_def by (blast dest: not_less_Least)
  have poll: "poll_blob_status ?ans 0 = Some (case ?ans k of Inl e \<Rightarrow> None | Inr st \<Rightarrow> bs_proof st)"
    by (rule poll_blob_status_first [OF before k])
  have uniq: "k' = k" if "?ans k' = Inr st" "bs_confirmed st" "\<forall>j<k'. undecided ?ans j" for k' st
    using that k before by (metis linorder_neqE_nat sum.inject(2) undecided_def)
  show ?thesis
  proof (cases "?ans k")
    case (Inl e)
    then have "\<nexists>k' st. ?ans k' = Inr st \<and> bs_confirmed st \<and> bs_proof st = Some proof \<and> (\<forall>j<k'. undecided ?ans j)"
      using uniq by fastforce
    then show ?thesis using poll Inl False by (simp add: validate_blob_def)
  next
    case (Inr st)
    then have "bs_confirmed st" using k by (auto simp: undecided_def)
    then have "(\<exists>k' st. ?ans k' = Inr st \<and> bs_confirmed st \<and> bs_proof st = Some proof \<and> (\<forall>j<k'. undecided ?ans j)) \<longleftrightarrow>
        bs_proof st = Some proof"
      using uniq Inr before by (metis sum.inject(2))
    then show ?thesis using poll Inr False by (auto simp: validate_blob_def split: option.split)
  qed
qed

definition stored_account :: account where
  "stored_account = account_new User None eth_addr None"

definition stored_batch :: batch where
  "stored_batch = put_account (to_full_string eth_addr) stored_account batch_new"

text \<open>A data-availability layer that holds one batch.\<close>

definition sample_da :: "nat da_env" where
  "sample_da =
     \<lparr>da_disperse = (\<lambda>_. Inr ''id''), da_status = (\<lambda>_ n. Inr \<lparr>bs_confirmed = (n = 2), bs_proof = Some 7\<rparr>),
      da_retrieve = (\<lambda>_ _. Inr (bytes_hex [0, 3])), da_blob_data = Some, da_b64 = bytes_hex,
      da_codec = sample_codec\<lparr>cd_json_ser := (\<lambda>b. if b = stored_batch then Some [3] else None),
                              cd_json_de := (\<lambda>x. if x = [3] then Some stored_batch else None)\<rparr>\<rparr>"

lemma sample_da_codec: "codec_laws (da_codec sample_da)"
  by (auto simp: codec_laws_def sample_da_def sample_codec_def ref_hex_decode_bytes_hex split: if_splits)

lemma sample_da_encode: "encode_batch (da_codec sample_da) stored_batch = Some (bytes_hex [0, 3])"
  by (simp add: sample_da_def sample_codec_def encode_batch_def compress_batch_def serialize_batch_def)

lemma sample_da_insert: "insert_account (da_codec sample_da) stored_account batch_new = (stored_batch, Ok ())"
proof -
  have "fits (da_codec sample_da) stored_batch" by (simp add: fits_def check_size_def sample_da_encode)
  moreover have "acc_owner_address stored_account = eth_addr" "account_address stored_account = eth_addr"
    by (simp_all add: stored_account_def account_new_def account_address_def)
  ultimately show ?thesis by (simp add: insert_account_spec stored_batch_def)
qed

theorem blob_proof_verdict_witness:
  "da_client_handle sample_da (DA_ValidateBlob ''id'') = Some (R_Proof ''id'' 7)"
proof -
  have "\<exists>k st. da_status sample_da ''id'' k = Inr st \<and> bs_confirmed st \<and> bs_proof st = Some 7 \<and>
      (\<forall>j<k. undecided (da_status sample_da ''id'') j)"
    by (intro exI [of _ 2]) (auto simp: sample_da_def undecided_def)
  then show ?thesis using blob_proof_verdict [of sample_da "''id''" 7] by blast
qed

text \<open>
  C22: An account that was put into a batch is read back from the data-availability layer: when the
  layer returns the blob that was dispersed for the batch, the client answers the request for the
  account's address with the account.\<close>

theorem stored_account_retrieved:
  assumes "codec_laws (da_codec env)" and "insert_account (da_codec env) a b = (b', Ok ())"
    and "encode_batch (da_codec env) b' = Some s"
    and "da_retrieve env (da_b64 env h) i = Inr blob" and "da_blob_data env blob = Some s"
  shows "da_client_handle env (DA_RetrieveAccount (account_address a) h i) = Some (R_Account (Some a))"
proof -
  have "get_user_account (account_address a) b' = Some a"
    using assms(2)
    by (auto simp: insert_account_spec get_user_account_def put_account_def hm_get_insert split: if_splits)
  then show ?thesis
    using batch_encoding_roundtrip [OF assms(1,3)] assms(4,5) by (simp add: retrieve_account_def)
qed

theorem stored_account_retrieved_witness:
  "da_client_handle sample_da (DA_RetrieveAccount (account_address stored_account) (replicate 32 1) 0) =
     Some (R_Account (Some stored_account))"
  by (rule stored_account_retrieved [OF sample_da_codec sample_da_insert sample_da_encode])
    (simp_all add: sample_da_def)

end
