(* ===== verification/Supervision_Model.thy ===== *)
theory Supervision_Model
  imports Batcher_Theorems "HOL-Library.Multiset"
begin

text \<open>
  The supervision of the actors: the supervisors (one beside each actor, crates/actors/src), the
  manager that starts the actors and starts them again (crates/actors/src/manager.rs), the loop of the
  node that takes the panics, and the loop that runs the actors' futures (crates/node/src/main.rs). A
  supervisor is found in the registry by its name; what the actor library answers to the start of an
  actor (a reference, or an error) is a parameter. A reference is a number.
\<close>

section \<open>Names\<close>

datatype supervisor_type =
  BlobCacheS | AccountCacheS | PendingTransactionS | LasrRpcServerS | SchedulerS | EoServerS
| EngineS | ValidatorS | EoClientS | DaClientS | BatcherS | ExecutorS

fun supervisor_type_to_string :: "supervisor_type \<Rightarrow> string" where
  "supervisor_type_to_string BlobCacheS = ''blob_cache_supervisor''"
| "supervisor_type_to_string AccountCacheS = ''account_cache_supervisor''"
| "supervisor_type_to_string PendingTransactionS = ''pending_transaction_supervisor''"
| "supervisor_type_to_string LasrRpcServerS = ''lasr_rpc_server_supervisor''"
| "supervisor_type_to_string SchedulerS = ''scheduler_supervisor''"
| "supervisor_type_to_string EoServerS = ''eo_server_supervisor''"
| "supervisor_type_to_string EngineS = ''engine_supervisor''"
| "supervisor_type_to_string ValidatorS = ''validator_supervisor''"
| "supervisor_type_to_string EoClientS = ''eo_client_supervisor''"
| "supervisor_type_to_string DaClientS = ''da_client_supervisor''"
| "supervisor_type_to_string BatcherS = ''batcher_supervisor''"
| "supervisor_type_to_string ExecutorS = ''executor_supervisor''"

text \<open>\<open>to_actor_type\<close> on a name that is none of an actor's is unreachable code.\<close>

definition to_actor_type :: "string \<Rightarrow> (string, actor_type) outcome" where
  "to_actor_type name =
     (if name = ''registry'' then Ok Registry
      else if name = ''rpc_server'' then Ok RpcServer
      else if name = ''scheduler'' then Ok Scheduler
      else if name = ''validator'' then Ok Validator
      else if name = ''engine'' then Ok Engine
      else if name = ''eo_server'' then Ok EoServer
      else if name = ''da_client'' then Ok DaClient
      else if name = ''account_cache'' then Ok AccountCacheActor
      else if name = ''blob_cache'' then Ok BlobCache
      else if name = ''pending_transactions'' then Ok PendingTransactions
      else if name = ''eo_client'' then Ok EoClient
      else if name = ''batcher'' then Ok Batcher
      else if name = ''executor'' then Ok Executor
      else if name = ''remote_executor'' then Ok RemoteExecutor
      else Panic ''internal error: entered unreachable code'')"

section \<open>Supervisors\<close>

text \<open>An actor as the supervisor sees it: its name, when it has one, and whether it has stopped.\<close>

record actor_cell =
  cell_name :: "string option"
  cell_stopped :: bool

datatype supervision_event =
  ActorStarted actor_cell | ActorPanicked actor_cell string | ActorTerminated actor_cell "string option"
| PidLifecycleEvent | ProcessGroupChanged

text \<open>Only a panic is passed on, to the channel of the node; every other event is logged.\<close>

fun handle_supervisor_evt :: "supervision_event \<Rightarrow> actor_cell list" where
  "handle_supervisor_evt (ActorPanicked who reason) = [who]"
| "handle_supervisor_evt _ = []"

section \<open>The manager\<close>

datatype manager_error = RespawnFailed string | ME_Custom string

fun manager_error_to_string :: "manager_error \<Rightarrow> string" where
  "manager_error_to_string (RespawnFailed name) =
     ''a panicked '' @ name @ '' actor was successfully respawned, but the supervisor could not be acquired from the registry: the panicked actor could not be restarted''"
| "manager_error_to_string (ME_Custom m) = m"

record actor_manager =
  am_blob_cache :: nat
  am_account_cache :: nat
  am_pending_tx :: nat
  am_lasr_rpc_server :: nat
  am_scheduler :: nat
  am_eo_server :: nat
  am_engine :: nat
  am_validator :: nat
  am_eo_client :: nat
  am_da_client :: nat
  am_batcher :: nat
  am_executor :: nat

text \<open>
  The step the twelve operations share: find the supervisor, start the actor linked to it under its
  old name, and keep the new reference.
\<close>

definition respawn ::
    "registry \<Rightarrow> (string \<Rightarrow> string + nat) \<Rightarrow> supervisor_type \<Rightarrow> (nat \<Rightarrow> actor_manager \<Rightarrow> actor_manager)
       \<Rightarrow> string \<Rightarrow> actor_manager \<Rightarrow> (actor_manager, manager_error, unit) mutres" where
  "respawn reg spawn supervisor put actor_name m =
     (if where_is reg (supervisor_type_to_string supervisor) then
        (case spawn actor_name of
           Inr actor \<Rightarrow> (put actor m, Ok ())
         | Inl e \<Rightarrow> (m, Err (ME_Custom e)))
      else (m, Err (RespawnFailed actor_name)))"

definition respawn_blob_cache ::
    "registry \<Rightarrow> (string \<Rightarrow> string + nat) \<Rightarrow> string \<Rightarrow> actor_manager
       \<Rightarrow> (actor_manager, manager_error, unit) mutres" where
  "respawn_blob_cache reg spawn = respawn reg spawn BlobCacheS (\<lambda>a m. m\<lparr>am_blob_cache := a\<rparr>)"

definition respawn_account_cache ::
    "registry \<Rightarrow> (string \<Rightarrow> string + nat) \<Rightarrow> string \<Rightarrow> actor_manager
       \<Rightarrow> (actor_manager, manager_error, unit) mutres" where
  "respawn_account_cache reg spawn = respawn reg spawn AccountCacheS (\<lambda>a m. m\<lparr>am_account_cache := a\<rparr>)"

definition respawn_pending_tx ::
    "registry \<Rightarrow> (string \<Rightarrow> string + nat) \<Rightarrow> string \<Rightarrow> actor_manager
       \<Rightarrow> (actor_manager, manager_error, unit) mutres" where
  "respawn_pending_tx reg spawn = respawn reg spawn PendingTransactionS (\<lambda>a m. m\<lparr>am_pending_tx := a\<rparr>)"

definition respawn_lasr_rpc_server ::
    "registry \<Rightarrow> (string \<Rightarrow> string + nat) \<Rightarrow> string \<Rightarrow> actor_manager
       \<Rightarrow> (actor_manager, manager_error, unit) mutres" where
  "respawn_lasr_rpc_server reg spawn = respawn reg spawn LasrRpcServerS (\<lambda>a m. m\<lparr>am_lasr_rpc_server := a\<rparr>)"

definition respawn_scheduler ::
    "registry \<Rightarrow> (string \<Rightarrow> string + nat) \<Rightarrow> string \<Rightarrow> actor_manager
       \<Rightarrow> (actor_manager, manager_error, unit) mutres" where
  "respawn_scheduler reg spawn = respawn reg spawn SchedulerS (\<lambda>a m. m\<lparr>am_scheduler := a\<rparr>)"

definition respawn_eo_server ::
    "registry \<Rightarrow> (string \<Rightarrow> string + nat) \<Rightarrow> string \<Rightarrow> actor_manager
       \<Rightarrow> (actor_manager, manager_error, unit) mutres" where
  "respawn_eo_server reg spawn = respawn reg spawn EoServerS (\<lambda>a m. m\<lparr>am_eo_server := a\<rparr>)"

definition respawn_engine ::
    "registry \<Rightarrow> (string \<Rightarrow> string + nat) \<Rightarrow> string \<Rightarrow> actor_manager
       \<Rightarrow> (actor_manager, manager_error, unit) mutres" where
  "respawn_engine reg spawn = respawn reg spawn EngineS (\<lambda>a m. m\<lparr>am_engine := a\<rparr>)"

definition respawn_validator ::
    "registry \<Rightarrow> (string \<Rightarrow> string + nat) \<Rightarrow> string \<Rightarrow> actor_manager
       \<Rightarrow> (actor_manager, manager_error, unit) mutres" where
  "respawn_validator reg spawn = respawn reg spawn ValidatorS (\<lambda>a m. m\<lparr>am_validator := a\<rparr>)"

definition respawn_eo_client ::
    "registry \<Rightarrow> (string \<Rightarrow> string + nat) \<Rightarrow> string \<Rightarrow> actor_manager
       \<Rightarrow> (actor_manager, manager_error, unit) mutres" where
  "respawn_eo_client reg spawn = respawn reg spawn EoClientS (\<lambda>a m. m\<lparr>am_eo_client := a\<rparr>)"

definition respawn_da_client ::
    "registry \<Rightarrow> (string \<Rightarrow> string + nat) \<Rightarrow> string \<Rightarrow> actor_manager
       \<Rightarrow> (actor_manager, manager_error, unit) mutres" where
  "respawn_da_client reg spawn = respawn reg spawn DaClientS (\<lambda>a m. m\<lparr>am_da_client := a\<rparr>)"

definition respawn_batcher ::
    "registry \<Rightarrow> (string \<Rightarrow> string + nat) \<Rightarrow> string \<Rightarrow> actor_manager
       \<Rightarrow> (actor_manager, manager_error, unit) mutres" where
  "respawn_batcher reg spawn = respawn reg spawn BatcherS (\<lambda>a m. m\<lparr>am_batcher := a\<rparr>)"

definition respawn_executor ::
    "registry \<Rightarrow> (string \<Rightarrow> string + nat) \<Rightarrow> string \<Rightarrow> actor_manager
       \<Rightarrow> (actor_manager, manager_error, unit) mutres" where
  "respawn_executor reg spawn = respawn reg spawn ExecutorS (\<lambda>a m. m\<lparr>am_executor := a\<rparr>)"

section \<open>Start of the actors\<close>

record actor_manager_builder =
  mb_blob_cache :: "nat option"
  mb_account_cache :: "nat option"
  mb_pending_tx :: "nat option"
  mb_lasr_rpc_server :: "nat option"
  mb_scheduler :: "nat option"
  mb_eo_server :: "nat option"
  mb_engine :: "nat option"
  mb_validator :: "nat option"
  mb_eo_client :: "nat option"
  mb_da_client :: "nat option"
  mb_batcher :: "nat option"
  mb_executor :: "nat option"

text \<open>Each step of the builder starts one actor under its own name; an error of the start ends the set-up.\<close>

definition build_step ::
    "(string \<Rightarrow> string + nat) \<Rightarrow> actor_type \<Rightarrow> (nat \<Rightarrow> actor_manager_builder \<Rightarrow> actor_manager_builder)
       \<Rightarrow> actor_manager_builder \<Rightarrow> (string, actor_manager_builder) outcome" where
  "build_step spawn ty put b =
     (case spawn (actor_type_to_string ty) of Inr actor \<Rightarrow> Ok (put actor b) | Inl e \<Rightarrow> Err e)"

definition build_blob_cache ::
    "(string \<Rightarrow> string + nat) \<Rightarrow> actor_manager_builder \<Rightarrow> (string, actor_manager_builder) outcome" where
  "build_blob_cache spawn = build_step spawn BlobCache (\<lambda>a b. b\<lparr>mb_blob_cache := Some a\<rparr>)"

definition build_account_cache ::
    "(string \<Rightarrow> string + nat) \<Rightarrow> actor_manager_builder \<Rightarrow> (string, actor_manager_builder) outcome" where
  "build_account_cache spawn = build_step spawn AccountCacheActor (\<lambda>a b. b\<lparr>mb_account_cache := Some a\<rparr>)"

definition build_pending_tx ::
    "(string \<Rightarrow> string + nat) \<Rightarrow> actor_manager_builder \<Rightarrow> (string, actor_manager_builder) outcome" where
  "build_pending_tx spawn = build_step spawn PendingTransactions (\<lambda>a b. b\<lparr>mb_pending_tx := Some a\<rparr>)"

definition build_lasr_rpc_server ::
    "(string \<Rightarrow> string + nat) \<Rightarrow> actor_manager_builder \<Rightarrow> (string, actor_manager_builder) outcome" where
  "build_lasr_rpc_server spawn = build_step spawn RpcServer (\<lambda>a b. b\<lparr>mb_lasr_rpc_server := Some a\<rparr>)"

definition build_scheduler ::
    "(string \<Rightarrow> string + nat) \<Rightarrow> actor_manager_builder \<Rightarrow> (string, actor_manager_builder) outcome" where
  "build_scheduler spawn = build_step spawn Scheduler (\<lambda>a b. b\<lparr>mb_scheduler := Some a\<rparr>)"

definition build_eo_server ::
    "(string \<Rightarrow> string + nat) \<Rightarrow> actor_manager_builder \<Rightarrow> (string, actor_manager_builder) outcome" where
  "build_eo_server spawn = build_step spawn EoServer (\<lambda>a b. b\<lparr>mb_eo_server := Some a\<rparr>)"

definition build_engine ::
    "(string \<Rightarrow> string + nat) \<Rightarrow> actor_manager_builder \<Rightarrow> (string, actor_manager_builder) outcome" where
  "build_engine spawn = build_step spawn Engine (\<lambda>a b. b\<lparr>mb_engine := Some a\<rparr>)"

definition build_validator ::
    "(string \<Rightarrow> string + nat) \<Rightarrow> actor_manager_builder \<Rightarrow> (string, actor_manager_builder) outcome" where
  "build_validator spawn = build_step spawn Validator (\<lambda>a b. b\<lparr>mb_validator := Some a\<rparr>)"

definition build_eo_client ::
    "(string \<Rightarrow> string + nat) \<Rightarrow> actor_manager_builder \<Rightarrow> (string, actor_manager_builder) outcome" where
  "build_eo_client spawn = build_step spawn EoClient (\<lambda>a b. b\<lparr>mb_eo_client := Some a\<rparr>)"

definition build_da_client ::
    "(string \<Rightarrow> string + nat) \<Rightarrow> actor_manager_builder \<Rightarrow> (string, actor_manager_builder) outcome" where
  "build_da_client spawn = build_step spawn DaClient (\<lambda>a b. b\<lparr>mb_da_client := Some a\<rparr>)"

definition build_batcher ::
    "(string \<Rightarrow> string + nat) \<Rightarrow> actor_manager_builder \<Rightarrow> (string, actor_manager_builder) outcome" where
  "build_batcher spawn = build_step spawn Batcher (\<lambda>a b. b\<lparr>mb_batcher := Some a\<rparr>)"

definition build_executor ::
    "(string \<Rightarrow> string + nat) \<Rightarrow> actor_manager_builder \<Rightarrow> (string, actor_manager_builder) outcome" where
  "build_executor spawn = build_step spawn Executor (\<lambda>a b. b\<lparr>mb_executor := Some a\<rparr>)"

definition manager_build :: "actor_manager_builder \<Rightarrow> (string, actor_manager) outcome" where
  "manager_build b =
     obind (or_panic ''blob cache actor failed to start'' (mb_blob_cache b)) (\<lambda>x1.
     obind (or_panic ''account cache actor failed to start'' (mb_account_cache b)) (\<lambda>x2.
     obind (or_panic ''pending transaction actor failed to start'' (mb_pending_tx b)) (\<lambda>x3.
     obind (or_panic ''lasr rpc server actor failed to start'' (mb_lasr_rpc_server b)) (\<lambda>x4.
     obind (or_panic ''task scheduler actor failed to start'' (mb_scheduler b)) (\<lambda>x5.
     obind (or_panic ''eo server actor failed to start'' (mb_eo_server b)) (\<lambda>x6.
     obind (or_panic ''engine actor failed to start'' (mb_engine b)) (\<lambda>x7.
     obind (or_panic ''validator actor failed to start'' (mb_validator b)) (\<lambda>x8.
     obind (or_panic ''eo client actor failed to start'' (mb_eo_client b)) (\<lambda>x9.
     obind (or_panic ''da client actor failed to start'' (mb_da_client b)) (\<lambda>x10.
     obind (or_panic ''batcher actor failed to start'' (mb_batcher b)) (\<lambda>x11.
     obind (or_panic ''executor actor failed to start'' (mb_executor b)) (\<lambda>x12.
     Ok \<lparr>am_blob_cache = x1, am_account_cache = x2, am_pending_tx = x3,
         am_lasr_rpc_server = x4, am_scheduler = x5, am_eo_server = x6,
         am_engine = x7, am_validator = x8, am_eo_client = x9,
         am_da_client = x10, am_batcher = x11, am_executor = x12\<rparr>))))))))))))"

definition empty_builder :: actor_manager_builder where
  "empty_builder =
     \<lparr>mb_blob_cache = None, mb_account_cache = None, mb_pending_tx = None,
      mb_lasr_rpc_server = None, mb_scheduler = None, mb_eo_server = None,
      mb_engine = None, mb_validator = None, mb_eo_client = None,
      mb_da_client = None, mb_batcher = None, mb_executor = None\<rparr>"

definition start_actors :: "(string \<Rightarrow> string + nat) \<Rightarrow> (string, actor_manager) outcome" where
  "start_actors spawn =
     obind (build_blob_cache spawn empty_builder) (\<lambda>b1.
     obind (build_account_cache spawn b1) (\<lambda>b2.
     obind (build_pending_tx spawn b2) (\<lambda>b3.
     obind (build_lasr_rpc_server spawn b3) (\<lambda>b4.
     obind (build_scheduler spawn b4) (\<lambda>b5.
     obind (build_eo_server spawn b5) (\<lambda>b6.
     obind (build_engine spawn b6) (\<lambda>b7.
     obind (build_validator spawn b7) (\<lambda>b8.
     obind (build_eo_client spawn b8) (\<lambda>b9.
     obind (build_da_client spawn b9) (\<lambda>b10.
     obind (build_batcher spawn b10) (\<lambda>b11.
     obind (build_executor spawn b11) (\<lambda>b12.
     manager_build b12))))))))))))"

section \<open>The loop that takes the panics\<close>

fun respawn_by_type ::
    "actor_type \<Rightarrow> registry \<Rightarrow> (string \<Rightarrow> string + nat) \<Rightarrow> string \<Rightarrow> actor_manager
       \<Rightarrow> (actor_manager, manager_error, unit) mutres" where
  "respawn_by_type BlobCache = respawn_blob_cache"
| "respawn_by_type AccountCacheActor = respawn_account_cache"
| "respawn_by_type PendingTransactions = respawn_pending_tx"
| "respawn_by_type RpcServer = respawn_lasr_rpc_server"
| "respawn_by_type Scheduler = respawn_scheduler"
| "respawn_by_type EoServer = respawn_eo_server"
| "respawn_by_type Engine = respawn_engine"
| "respawn_by_type Validator = respawn_validator"
| "respawn_by_type EoClient = respawn_eo_client"
| "respawn_by_type DaClient = respawn_da_client"
| "respawn_by_type Batcher = respawn_batcher"
| "respawn_by_type Executor = respawn_executor"
| "respawn_by_type Registry = (\<lambda>_ _ _ m. (m, Panic ''Actor is not a child of a supervisor''))"
| "respawn_by_type RemoteExecutor = (\<lambda>_ _ _ m. (m, Panic ''Actor is not a child of a supervisor''))"

text \<open>One panic: an actor that has not stopped, or has no name, is passed over, an error is logged.\<close>

definition take_panic ::
    "registry \<Rightarrow> (string \<Rightarrow> string + nat) \<Rightarrow> actor_cell \<Rightarrow> actor_manager \<Rightarrow> (actor_manager, string, unit) mutres" where
  "take_panic reg spawn actor m =
     (if \<not> cell_stopped actor then (m, Ok ())
      else
        (case cell_name actor of
           None \<Rightarrow> (m, Ok ())
         | Some actor_name \<Rightarrow>
             (case to_actor_type actor_name of
                Ok ty \<Rightarrow>
                  (case respawn_by_type ty reg spawn actor_name m of
                     (m', Panic p) \<Rightarrow> (m', Panic p)
                   | (m', _) \<Rightarrow> (m', Ok ()))
              | Err e \<Rightarrow> (m, Ok ())
              | Panic p \<Rightarrow> (m, Panic p))))"

definition take_panics ::
    "registry \<Rightarrow> (string \<Rightarrow> string + nat) \<Rightarrow> actor_cell list \<Rightarrow> actor_manager \<Rightarrow> (actor_manager, string, unit) mutres" where
  "take_panics reg spawn actors m = for_each (take_panic reg spawn) actors m"

section \<open>The loop that runs the futures\<close>

text \<open>
  The node runs the futures of six actors in one task: round after round it takes the pools in a
  fixed order, locks the pool and waits for the next future of it to finish. A pool is a
  \<open>FuturesUnordered\<close>: it polls its futures in the order in which they are woken, which nothing
  fixes, keeps one that is pending, and hands out the first that is ready; the others stay where
  they are. What a poll of a future does is a parameter: the future is pending, with a new state, or
  it ends, with or without an error, or it panics, which ends the task. The wake-ups of one wait are
  a list of positions in the pool; when they run out, the wait goes on for ever. Of a future the
  pool keeps a name beside its state. Futures arrive between the rounds: a pool takes none while it is
  locked, and when it is not, the time within the round makes no difference to it.
\<close>

datatype pool = Batcher_Pool | Executor_Pool | Validator_Pool | DaClient_Pool | Engine_Pool | EoClient_Pool

definition pool_order :: "pool list" where
  "pool_order = [Batcher_Pool, Executor_Pool, Validator_Pool, DaClient_Pool, Engine_Pool, EoClient_Pool]"

datatype loop_status = Running | Crashed string | Stuck

datatype 's poll_result = Poll_Pending 's | Poll_Ready "(string, unit) outcome"

datatype 'i next_answer = Empty_Pool | Finished 'i "(string, unit) outcome" | Waiting

type_synonym ('i, 's) pools = "pool \<Rightarrow> ('i \<times> 's) list"

fun next_future ::
    "('s \<Rightarrow> 's poll_result) \<Rightarrow> nat list \<Rightarrow> ('i \<times> 's) list \<Rightarrow> ('i \<times> 's) list \<times> 'i next_answer" where
  "next_future poll wakes [] = ([], Empty_Pool)"
| "next_future poll [] (f # fs) = (f # fs, Waiting)"
| "next_future poll (k # ks) (f # fs) =
     (let i = k mod length (f # fs); x = (f # fs) ! i in
      case poll (snd x) of
        Poll_Pending s \<Rightarrow> next_future poll ks ((f # fs)[i := (fst x, s)])
      | Poll_Ready r \<Rightarrow> (take i (f # fs) @ drop (Suc i) (f # fs), Finished (fst x) r))"

fun run_pools ::
    "('s \<Rightarrow> 's poll_result) \<Rightarrow> (pool \<Rightarrow> nat list) \<Rightarrow> pool list \<Rightarrow> ('i, 's) pools
       \<Rightarrow> ('i, 's) pools \<times> (pool \<times> 'i) list \<times> loop_status" where
  "run_pools poll wakes [] pools = (pools, [], Running)"
| "run_pools poll wakes (p # ps) pools =
     (case next_future poll (wakes p) (pools p) of
        (fs, Empty_Pool) \<Rightarrow> run_pools poll wakes ps pools
      | (fs, Waiting) \<Rightarrow> (pools(p := fs), [], Stuck)
      | (fs, Finished i r) \<Rightarrow>
          (let pools' = pools(p := fs) in
           case r of
             Panic x \<Rightarrow> (pools', [(p, i)], Crashed x)
           | _ \<Rightarrow> (case run_pools poll wakes ps pools' of (pools'', runs, st) \<Rightarrow> (pools'', (p, i) # runs, st))))"

text \<open>One round: the futures that arrived before it, and the wake-ups of the wait for each pool.\<close>

record ('i, 's) pool_round =
  rd_arrivals :: "('i, 's) pools"
  rd_wakes :: "pool \<Rightarrow> nat list"

fun run_rounds ::
    "('s \<Rightarrow> 's poll_result) \<Rightarrow> ('i, 's) pool_round list \<Rightarrow> ('i, 's) pools
       \<Rightarrow> ('i, 's) pools \<times> (pool \<times> 'i) list \<times> loop_status" where
  "run_rounds poll [] pools = (pools, [], Running)"
| "run_rounds poll (rd # rest) pools =
     (case run_pools poll (rd_wakes rd) pool_order (\<lambda>p. pools p @ rd_arrivals rd p) of
        (pools', runs, Running) \<Rightarrow>
          (case run_rounds poll rest pools' of (pools'', runs', st) \<Rightarrow> (pools'', runs @ runs', st))
      | (pools', runs, st) \<Rightarrow> (pools', runs, st))"

section \<open>Lemmas\<close>

definition ran_by :: "pool \<Rightarrow> (pool \<times> 'i) list \<Rightarrow> 'i list" where
  "ran_by p runs = map snd (filter (\<lambda>x. fst x = p) runs)"

lemma ran_by_simps [simp]:
  "ran_by p [] = []" "ran_by p ((q, f) # runs) = (if q = p then f # ran_by p runs else ran_by p runs)"
  "ran_by p (xs @ ys) = ran_by p xs @ ran_by p ys"
  by (simp_all add: ran_by_def)

text \<open>A future that ends, with or without an error, after being pending at most \<open>n\<close> times.\<close>

primrec ends_within :: "('s \<Rightarrow> 's poll_result) \<Rightarrow> nat \<Rightarrow> 's \<Rightarrow> bool" where
  "ends_within poll 0 s = (case poll s of Poll_Pending s' \<Rightarrow> False | Poll_Ready r \<Rightarrow> is_Ok r \<or> is_Err r)"
| "ends_within poll (Suc n) s = (case poll s of Poll_Pending s' \<Rightarrow> ends_within poll n s' | Poll_Ready r \<Rightarrow> is_Ok r \<or> is_Err r)"

lemma ends_within_Suc: "ends_within poll n s \<Longrightarrow> ends_within poll (Suc n) s"
proof (induction n arbitrary: s)
  case (Suc n)
  then show ?case
    unfolding ends_within.simps(2) [of poll n s] ends_within.simps(2) [of poll "Suc n" s]
    by (auto split: poll_result.splits simp del: ends_within.simps)
qed (simp split: poll_result.splits)

lemma ends_within_mono: "ends_within poll m s \<Longrightarrow> m \<le> n \<Longrightarrow> ends_within poll n s"
  by (induction n) (auto simp del: ends_within.simps simp: le_Suc_eq intro: ends_within_Suc)

text \<open>All futures of a pool end.\<close>

definition all_end :: "('s \<Rightarrow> 's poll_result) \<Rightarrow> nat \<Rightarrow> ('i \<times> 's) list \<Rightarrow> bool" where
  "all_end poll n fs \<longleftrightarrow> list_all (\<lambda>f. ends_within poll n (snd f)) fs"

text \<open>What a wait leaves of the pool and has run of it, and that it lets the loop go on.\<close>

definition turn :: "('s \<Rightarrow> 's poll_result) \<Rightarrow> nat list \<Rightarrow> ('i \<times> 's) list \<Rightarrow> ('i \<times> 's) list \<times> 'i list" where
  "turn poll ks fs = (case next_future poll ks fs of (fs', Finished i r) \<Rightarrow> (fs', [i]) | (fs', _) \<Rightarrow> (fs', []))"

definition goes_on :: "('s \<Rightarrow> 's poll_result) \<Rightarrow> nat list \<Rightarrow> ('i \<times> 's) list \<Rightarrow> bool" where
  "goes_on poll ks fs \<longleftrightarrow>
     (case snd (next_future poll ks fs) of Empty_Pool \<Rightarrow> True | Finished i r \<Rightarrow> is_Ok r \<or> is_Err r | Waiting \<Rightarrow> False)"

lemma next_future_conserves:
  "next_future poll ks fs = (fs', a) \<Longrightarrow>
     mset (map fst fs) = (case a of Finished i r \<Rightarrow> {#i#} | _ \<Rightarrow> {#}) + mset (map fst fs')"
proof (induction poll ks fs rule: next_future.induct)
  case (3 poll k ks f fs)
  define i where "i = k mod length (f # fs)"
  have i: "i < length (f # fs)" by (simp add: i_def)
  let ?x = "(f # fs) ! i"
  show ?case
  proof (cases "poll (snd ?x)")
    case (Poll_Pending s)
    have "map fst ((f # fs)[i := (fst ?x, s)]) = map fst (f # fs)"
      by (simp only: map_update fst_conv) (simp only: nth_map [OF i, symmetric] list_update_id)
    then show ?thesis using 3(1) [OF i_def refl Poll_Pending] 3(2) Poll_Pending
      by (simp only: next_future.simps i_def [symmetric] Let_def poll_result.case)
  next
    case (Poll_Ready r)
    then have "fs' = take i (f # fs) @ drop (Suc i) (f # fs)" "a = Finished (fst ?x) r"
      using 3(2) by (simp_all only: next_future.simps i_def [symmetric] Let_def poll_result.case prod.inject)
    moreover have "map fst (f # fs) = map fst (take i (f # fs)) @ fst ?x # map fst (drop (Suc i) (f # fs))"
      by (subst id_take_nth_drop [OF i]) (simp only: map_append list.map)
    ultimately show ?thesis by (simp only: next_answer.case map_append mset_append mset.simps) (simp add: ac_simps)
  qed
qed auto

lemma next_future_empty:
  assumes "next_future poll ks fs = (fs', Empty_Pool)"
  shows "fs = []"
proof -
  have "fs \<noteq> [] \<Longrightarrow> snd (next_future poll ks fs) \<noteq> Empty_Pool"
    by (induction poll ks fs rule: next_future.induct)
      (simp_all add: Let_def del: list_update.simps split: poll_result.split)
  then show ?thesis using assms by auto
qed

lemma next_future_ends:
  assumes "fs \<noteq> []" and "list_all2 (\<lambda>b f. ends_within poll b (snd f)) bs fs" and "sum_list bs < length ks"
    and "\<forall>b\<in>set bs. b \<le> B"
  shows "\<exists>fs' i r. next_future poll ks fs = (fs', Finished i r) \<and> (is_Ok r \<or> is_Err r) \<and> all_end poll B fs'"
  using assms
proof (induction poll ks fs arbitrary: bs rule: next_future.induct)
  case (3 poll k ks f fs)
  define i where "i = k mod length (f # fs)"
  have len: "length bs = length (f # fs)" using 3(3) by (rule list_all2_lengthD)
  have i: "i < length (f # fs)" "i < length bs" by (simp_all add: i_def len)
  let ?x = "(f # fs) ! i"
  have x: "ends_within poll (bs ! i) (snd ?x)" using list_all2_nthD [OF 3(3) i(2)] .
  have all: "all_end poll B (f # fs)"
    using 3(3,5) ends_within_mono by (fastforce simp: all_end_def list_all_length list_all2_conv_all_nth)
  show ?case
  proof (cases "poll (snd ?x)")
    case (Poll_Pending s)
    obtain c where c: "bs ! i = Suc c" "ends_within poll c s" using x Poll_Pending by (cases "bs ! i") auto
    let ?gs = "(f # fs)[i := (fst ?x, s)]" and ?cs = "bs[i := c]"
    have "list_all2 (\<lambda>b f. ends_within poll b (snd f)) ?cs ?gs"
      using 3(3) c(2) by (intro list_all2_update_cong) simp_all
    moreover have "Suc (sum_list ?cs) = sum_list bs"
      using sum_list_update [OF i(2), of c] c(1) elem_le_sum_list [OF i(2)] by simp
    moreover have "\<forall>b\<in>set ?cs. b \<le> B"
      using 3(5) c(1) nth_mem [OF i(2)] by (auto dest!: set_update_subset_insert [THEN subsetD])
    ultimately have "\<exists>fs' i r. next_future poll ks ?gs = (fs', Finished i r) \<and> (is_Ok r \<or> is_Err r) \<and> all_end poll B fs'"
      using 3(4) by (intro 3(1) [OF i_def refl Poll_Pending]) auto
    then show ?thesis
      by (simp only: next_future.simps i_def [symmetric] Let_def Poll_Pending poll_result.case)
  next
    case (Poll_Ready r)
    then have "next_future poll (k # ks) (f # fs) = (take i (f # fs) @ drop (Suc i) (f # fs), Finished (fst ?x) r)"
      by (simp only: next_future.simps i_def [symmetric] Let_def poll_result.case)
    moreover have "is_Ok r \<or> is_Err r" using x Poll_Ready by (cases "bs ! i") auto
    moreover have "all_end poll B (take i (f # fs) @ drop (Suc i) (f # fs))"
      using all set_take_subset [of i "f # fs"] set_drop_subset [of "Suc i" "f # fs"]
      unfolding all_end_def list_all_iff set_append by blast
    ultimately show ?thesis by blast
  qed
qed auto

text \<open>A pool whose futures all end, woken often enough, has one future run, whichever is ready first.\<close>

lemma turn_ends:
  assumes "all_end poll B fs" and "B * length fs < length ks" and "turn poll ks fs = (fs', gone)"
  shows "goes_on poll ks fs" and "all_end poll B fs'" and "mset (map fst fs) = mset gone + mset (map fst fs')"
    and "length gone = min 1 (length fs)"
proof -
  have "goes_on poll ks fs \<and> all_end poll B fs' \<and> mset (map fst fs) = mset gone + mset (map fst fs') \<and> length gone = min 1 (length fs)"
  proof (cases "fs = []")
    case False
    have "list_all2 (\<lambda>b f. ends_within poll b (snd f)) (replicate (length fs) B) fs"
      using assms(1) by (simp add: list_all2_conv_all_nth all_end_def list_all_length)
    then obtain gs i r where n: "next_future poll ks fs = (gs, Finished i r)" "is_Ok r \<or> is_Err r" "all_end poll B gs"
      using next_future_ends [OF False, of poll "replicate (length fs) B" ks B] assms(2) by (auto simp: sum_list_replicate mult.commute)
    then show ?thesis
      using next_future_conserves [OF n(1)] assms(3) False by (cases fs) (auto simp: turn_def goes_on_def)
  qed (use assms in \<open>auto simp: turn_def goes_on_def all_end_def\<close>)
  then show "goes_on poll ks fs" "all_end poll B fs'" "mset (map fst fs) = mset gone + mset (map fst fs')"
    "length gone = min 1 (length fs)" by blast+
qed

lemma run_pools_goes_on:
  assumes "distinct ps" and "\<forall>p\<in>set ps. goes_on poll (wakes p) (pools p)"
  shows "\<exists>pools' runs. run_pools poll wakes ps pools = (pools', runs, Running) \<and>
    (\<forall>p. (pools' p, ran_by p runs) = (if p \<in> set ps then turn poll (wakes p) (pools p) else (pools p, [])))"
  using assms
proof (induction ps arbitrary: pools)
  case (Cons q ps)
  obtain fs a where n: "next_future poll (wakes q) (pools q) = (fs, a)" by fastforce
  have d: "distinct ps" "q \<notin> set ps" using Cons.prems(1) by auto
  let ?pools = "pools(q := fs)"
  have h: "\<forall>p\<in>set ps. goes_on poll (wakes p) (?pools p)" using Cons.prems(2) d(2) by auto
  obtain pools' runs where r: "run_pools poll wakes ps ?pools = (pools', runs, Running)"
    "\<forall>p. (pools' p, ran_by p runs) = (if p \<in> set ps then turn poll (wakes p) (?pools p) else (?pools p, []))"
    using Cons.IH [OF d(1) h] by blast
  have on: "goes_on poll (wakes q) (pools q)" using Cons.prems(2) by simp
  show ?case
  proof (cases a)
    case Empty_Pool
    then have "pools q = []" "fs = []" using next_future_empty [of poll "wakes q" "pools q" fs] n by auto
    then have "?pools = pools" by auto
    then show ?thesis using r n Empty_Pool d(2) \<open>pools q = []\<close> by (intro exI [of _ pools'] exI [of _ runs]) (auto simp: turn_def)
  next
    case (Finished i s)
    then have "is_Ok s \<or> is_Err s" using on n by (simp add: goes_on_def)
    then have "run_pools poll wakes (q # ps) pools = (pools', (q, i) # runs, Running)"
      using n Finished r(1) by (cases s) simp_all
    moreover have "(pools' p, ran_by p ((q, i) # runs)) = (if p \<in> set (q # ps) then turn poll (wakes p) (pools p) else (pools p, []))" for p
      using r(2) [rule_format, of p] n Finished d(2) by (auto simp: turn_def)
    ultimately show ?thesis by blast
  qed (use on n in \<open>simp add: goes_on_def\<close>)
qed simp

lemma run_pools_append:
  "run_pools poll wakes (ps @ qs) pools =
     (case run_pools poll wakes ps pools of
        (pools', runs, Running) \<Rightarrow>
          (case run_pools poll wakes qs pools' of (pools'', runs', st) \<Rightarrow> (pools'', runs @ runs', st))
      | (pools', runs, st) \<Rightarrow> (pools', runs, st))"
  by (induction ps arbitrary: pools)
    (auto simp: Let_def split: list.split option.split outcome.split prod.split loop_status.split next_answer.split)

lemma pool_order_all: "p \<in> set pool_order" "distinct pool_order"
  by (cases p) (simp_all add: pool_order_def)

section \<open>Properties\<close>

text \<open>
  C32: As long as every future ends within some number of polls and is woken often enough, the loop
  over the pools makes progress, in whatever order the futures are woken and become ready: it goes
  on, in every round it runs one future of each pool that has any, so that a pool of \<open>n\<close> futures is
  down to those that arrived later, or has run as many, after \<open>n\<close> rounds; and each future of a pool is
  run at most once and otherwise still there. In which order the futures of one pool are run is left open.\<close>

theorem futures_progress:
  assumes "\<forall>p. all_end poll B (pools p)" and "\<forall>rd\<in>set rounds. \<forall>p. all_end poll B (rd_arrivals rd p)"
    and "\<forall>rd\<in>set rounds. \<forall>p. B * (length (pools p) + (\<Sum>rd\<leftarrow>rounds. length (rd_arrivals rd p))) < length (rd_wakes rd p)"
  shows "\<exists>pools' runs. run_rounds poll rounds pools = (pools', runs, Running) \<and>
    (\<forall>p. mset (ran_by p runs) + mset (map fst (pools' p)) =
           mset (map fst (pools p @ concat (map (\<lambda>rd. rd_arrivals rd p) rounds))) \<and>
       min (length rounds) (length (pools p)) \<le> length (ran_by p runs) \<and> length (ran_by p runs) \<le> length rounds)"
  using assms
proof (induction rounds arbitrary: pools)
  case (Cons rd rest)
  let ?q = "\<lambda>p. pools p @ rd_arrivals rd p" and ?w = "rd_wakes rd"
  define left where "left p = fst (turn poll (?w p) (?q p))" for p
  define gone where "gone p = snd (turn poll (?w p) (?q p))" for p
  have t: "turn poll (?w p) (?q p) = (left p, gone p)" for p by (simp add: left_def gone_def)
  have all: "all_end poll B (?q p)" for p using Cons.prems(1,2) by (simp add: all_end_def)
  have le: "B * length (?q p) \<le> B * (length (pools p) + (\<Sum>rd\<leftarrow>rd # rest. length (rd_arrivals rd p)))" for p
    by (intro mult_le_mono2) simp
  have w: "B * length (?q p) < length (?w p)" for p
    by (rule le_less_trans [OF le]) (use Cons.prems(3) in auto)
  note one = turn_ends [OF all w t]
  obtain pools1 runs where r: "run_pools poll ?w pool_order ?q = (pools1, runs, Running)"
    and k: "\<And>p. pools1 p = left p" "\<And>p. ran_by p runs = gone p"
    using run_pools_goes_on [OF pool_order_all(2), of poll ?w ?q] one(1) pool_order_all(1) t by fastforce
  have len: "length (left p) \<le> length (?q p)" for p
    using arg_cong [OF one(3), of size p] by simp
  have le': "B * (length (left p) + (\<Sum>rd\<leftarrow>rest. length (rd_arrivals rd p)))
      \<le> B * (length (pools p) + (\<Sum>rd\<leftarrow>rd # rest. length (rd_arrivals rd p)))" for p
    using len [of p] by (intro mult_le_mono2) simp
  have "\<forall>rd\<in>set rest. \<forall>p. B * (length (left p) + (\<Sum>rd\<leftarrow>rest. length (rd_arrivals rd p))) < length (rd_wakes rd p)"
    by (intro ballI allI, rule le_less_trans [OF le']) (use Cons.prems(3) in auto)
  then obtain pools' runs' where r': "run_rounds poll rest left = (pools', runs', Running)"
    and k': "\<And>p. mset (ran_by p runs') + mset (map fst (pools' p)) =
           mset (map fst (left p @ concat (map (\<lambda>rd. rd_arrivals rd p) rest)))"
      "\<And>p. min (length rest) (length (left p)) \<le> length (ran_by p runs')" "\<And>p. length (ran_by p runs') \<le> length rest"
    using Cons.IH [of left] one(2) Cons.prems(2) by auto
  have pools1: "pools1 = left" using k(1) by auto
  have run: "run_rounds poll (rd # rest) pools = (pools', runs @ runs', Running)" using r r' by (simp add: pools1)
  have "mset (ran_by p (runs @ runs')) + mset (map fst (pools' p)) =
      mset (map fst (pools p @ concat (map (\<lambda>rd. rd_arrivals rd p) (rd # rest))))" for p
    using k'(1) [of p] one(3) [of p] by (simp add: k(2) ac_simps)
  moreover have size: "length (left p) + length (gone p) = length (pools p) + length (rd_arrivals rd p)" for p
    using arg_cong [OF one(3), of size p] by simp
  have "min (length (rd # rest)) (length (pools p)) \<le> length (ran_by p (runs @ runs')) \<and>
      length (ran_by p (runs @ runs')) \<le> length (rd # rest)" for p
    using k'(2,3) [of p] one(4) [of p] size [of p] by (simp add: k(2)) linarith
  ultimately show ?case using run by blast
qed simp

text \<open>
  C31: One future that panics ends the futures of all six actors: in a round in which the wait for
  one pool ends in a panic and those for the pools before it do not, no matter what arrives
  afterwards and how it is woken, nothing more is run, neither of the actor whose future it was nor
  of any other.\<close>

theorem panicking_future_stops_all:
  assumes "pool_order = before @ p # after"
    and "next_future poll (rd_wakes rd p) (pools p @ rd_arrivals rd p) = (fs, Finished i (Panic x))"
    and "\<forall>q\<in>set before. goes_on poll (rd_wakes rd q) (pools q @ rd_arrivals rd q)"
  shows "i \<in> set (map fst (pools p @ rd_arrivals rd p)) \<and>
    (\<exists>pools' runs. \<forall>rest. run_rounds poll (rd # rest) pools = (pools', runs, Crashed x) \<and>
       ran_by p runs = [i] \<and> (\<forall>q\<in>set after. ran_by q runs = [] \<and> pools' q = pools q @ rd_arrivals rd q) \<and>
       (\<forall>q\<in>set before. ran_by q runs = snd (turn poll (rd_wakes rd q) (pools q @ rd_arrivals rd q))))"
proof -
  let ?q = "\<lambda>p. pools p @ rd_arrivals rd p" and ?w = "rd_wakes rd"
  have d: "distinct before" "p \<notin> set before" "\<forall>q\<in>set after. q \<noteq> p \<and> q \<notin> set before" "\<forall>q\<in>set before. q \<noteq> p"
    using pool_order_all(2) unfolding assms(1) by auto
  obtain pools1 runs where r: "run_pools poll ?w before ?q = (pools1, runs, Running)"
    "\<forall>q. (pools1 q, ran_by q runs) = (if q \<in> set before then turn poll (?w q) (?q q) else (?q q, []))"
    using run_pools_goes_on [OF d(1), of poll ?w ?q] assms(3) by blast
  have out: "pools1 q = ?q q" "ran_by q runs = []" if "q \<notin> set before" for q
    using r(2) [rule_format, of q] that by simp_all
  have before: "ran_by q runs = snd (turn poll (?w q) (?q q))" if "q \<in> set before" for q
    using r(2) [rule_format, of q] that by (metis snd_conv)
  have "run_pools poll ?w (p # after) pools1 = (pools1(p := fs), [(p, i)], Crashed x)"
    using assms(2) out(1) [OF d(2)] by simp
  then have "run_pools poll ?w pool_order ?q = (pools1(p := fs), runs @ [(p, i)], Crashed x)"
    unfolding assms(1) run_pools_append r(1) by simp
  then have "\<forall>rest. run_rounds poll (rd # rest) pools = (pools1(p := fs), runs @ [(p, i)], Crashed x)" by simp
  moreover have "ran_by p (runs @ [(p, i)]) = [i]" using out(2) [OF d(2)] by simp
  moreover have "\<forall>q\<in>set after. ran_by q (runs @ [(p, i)]) = [] \<and> (pools1(p := fs)) q = ?q q"
    using out d(3) by auto
  moreover have "\<forall>q\<in>set before. ran_by q (runs @ [(p, i)]) = snd (turn poll (?w q) (?q q))"
    using before d(4) by auto
  moreover have "i \<in># mset (map fst (?q p))" unfolding next_future_conserves [OF assms(2)] by simp
  then have "i \<in> set (map fst (?q p))" by (simp only: set_mset_mset)
  ultimately show ?thesis by blast
qed

definition supervised :: "actor_type \<Rightarrow> bool" where
  "supervised ty \<longleftrightarrow> ty \<noteq> Registry \<and> ty \<noteq> RemoteExecutor"

text \<open>The reference the manager keeps for an actor.\<close>

fun manager_ref :: "actor_type \<Rightarrow> actor_manager \<Rightarrow> nat" where
  "manager_ref BlobCache m = am_blob_cache m"
| "manager_ref AccountCacheActor m = am_account_cache m"
| "manager_ref PendingTransactions m = am_pending_tx m"
| "manager_ref RpcServer m = am_lasr_rpc_server m"
| "manager_ref Scheduler m = am_scheduler m"
| "manager_ref EoServer m = am_eo_server m"
| "manager_ref Engine m = am_engine m"
| "manager_ref Validator m = am_validator m"
| "manager_ref EoClient m = am_eo_client m"
| "manager_ref DaClient m = am_da_client m"
| "manager_ref Batcher m = am_batcher m"
| "manager_ref Executor m = am_executor m"
| "manager_ref Registry m = 0"
| "manager_ref RemoteExecutor m = 0"

lemmas respawn_defs = respawn_def respawn_blob_cache_def respawn_account_cache_def respawn_pending_tx_def
  respawn_lasr_rpc_server_def respawn_scheduler_def respawn_eo_server_def respawn_engine_def respawn_validator_def
  respawn_eo_client_def respawn_da_client_def respawn_batcher_def respawn_executor_def

lemma to_actor_type_to_string: "to_actor_type (actor_type_to_string ty) = Ok ty"
  by (cases ty) (simp_all add: to_actor_type_def)

text \<open>The supervisor of an actor.\<close>

fun supervisor_of :: "actor_type \<Rightarrow> supervisor_type" where
  "supervisor_of BlobCache = BlobCacheS"
| "supervisor_of AccountCacheActor = AccountCacheS"
| "supervisor_of PendingTransactions = PendingTransactionS"
| "supervisor_of RpcServer = LasrRpcServerS"
| "supervisor_of Scheduler = SchedulerS"
| "supervisor_of EoServer = EoServerS"
| "supervisor_of Engine = EngineS"
| "supervisor_of Validator = ValidatorS"
| "supervisor_of EoClient = EoClientS"
| "supervisor_of DaClient = DaClientS"
| "supervisor_of Batcher = BatcherS"
| "supervisor_of _ = ExecutorS"

lemma respawn_by_type_spec:
  assumes "supervised ty"
  shows "respawn_by_type ty reg spawn name m =
    (if where_is reg (supervisor_type_to_string (supervisor_of ty)) then
       (case spawn name of
          Inr a \<Rightarrow> (fst (respawn_by_type ty reg spawn name m), Ok ()) | Inl e \<Rightarrow> (m, Err (ME_Custom e)))
     else (m, Err (RespawnFailed name)))"
  and "where_is reg (supervisor_type_to_string (supervisor_of ty)) \<Longrightarrow> spawn name = Inr a \<Longrightarrow>
    manager_ref ty' (fst (respawn_by_type ty reg spawn name m)) = (if ty' = ty then a else manager_ref ty' m)"
  using assms
  by (cases ty; cases ty'; auto simp: respawn_defs supervised_def split: sum.splits)+

text \<open>
  C33: A supervised actor that panics is started again: its supervisor passes the panic on, and the
  loop of the node, for every series of panics of named and stopped actors, leaves the manager with
  the new reference for each of them and with the old one for every other, and goes on.\<close>

theorem panicked_actors_respawned:
  assumes "\<forall>ty\<in>set tys. supervised ty"
    and "\<forall>ty\<in>set tys. where_is reg (supervisor_type_to_string (supervisor_of ty))"
    and "\<forall>ty\<in>set tys. spawn (actor_type_to_string ty) = Inr (new ty)"
  shows "\<exists>m'. take_panics reg spawn
      (concat (map (\<lambda>ty. handle_supervisor_evt
        (ActorPanicked \<lparr>cell_name = Some (actor_type_to_string ty), cell_stopped = True\<rparr> reason)) tys)) m = (m', Ok ()) \<and>
    (\<forall>ty. manager_ref ty m' = (if ty \<in> set tys then new ty else manager_ref ty m))"
  using assms
proof (induction tys arbitrary: m)
  case (Cons ty tys)
  let ?n = "actor_type_to_string ty"
  let ?m = "fst (respawn_by_type ty reg spawn ?n m)"
  have up: "supervised ty" "where_is reg (supervisor_type_to_string (supervisor_of ty))" "spawn ?n = Inr (new ty)"
    using Cons.prems by auto
  have "respawn_by_type ty reg spawn ?n m = (?m, Ok ())" using respawn_by_type_spec(1) [OF up(1), of reg spawn ?n m] up by simp
  then have step: "take_panic reg spawn \<lparr>cell_name = Some ?n, cell_stopped = True\<rparr> m = (?m, Ok ())"
    by (cases "respawn_by_type ty reg spawn ?n m") (simp add: take_panic_def to_actor_type_to_string)
  have "\<exists>m'. take_panics reg spawn (concat (map (\<lambda>ty. handle_supervisor_evt
        (ActorPanicked \<lparr>cell_name = Some (actor_type_to_string ty), cell_stopped = True\<rparr> reason)) tys)) ?m = (m', Ok ()) \<and>
      (\<forall>t. manager_ref t m' = (if t \<in> set tys then new t else manager_ref t ?m))"
    by (rule Cons.IH) (use Cons.prems in auto)
  then show ?case using step respawn_by_type_spec(2) [where spawn = spawn, OF up] by (auto simp: take_panics_def)
qed (simp add: take_panics_def)

text \<open>A reachable registry and a start that always succeeds.\<close>

theorem panicked_actors_respawned_witness:
  "\<exists>m'. take_panics all_up (\<lambda>_. Inr 7)
      (concat (map (\<lambda>ty. handle_supervisor_evt
        (ActorPanicked \<lparr>cell_name = Some (actor_type_to_string ty), cell_stopped = True\<rparr> ''reason'')) [Batcher, Engine]))
      \<lparr>am_blob_cache = 1, am_account_cache = 1, am_pending_tx = 1, am_lasr_rpc_server = 1, am_scheduler = 1,
       am_eo_server = 1, am_engine = 1, am_validator = 1, am_eo_client = 1, am_da_client = 1, am_batcher = 1, am_executor = 1\<rparr> = (m', Ok ()) \<and>
    (\<forall>ty. manager_ref ty m' = (if ty \<in> set [Batcher, Engine] then 7 else manager_ref ty
      \<lparr>am_blob_cache = 1, am_account_cache = 1, am_pending_tx = 1, am_lasr_rpc_server = 1, am_scheduler = 1,
       am_eo_server = 1, am_engine = 1, am_validator = 1, am_eo_client = 1, am_da_client = 1, am_batcher = 1, am_executor = 1\<rparr>))"
  by (rule panicked_actors_respawned) (simp_all add: supervised_def all_up_def)

text \<open>
  A poll for the witnesses: a future that has polls left is pending, and then ends, the one with
  state \<open>Inl\<close> in a panic.
\<close>

fun sample_poll :: "string + nat \<Rightarrow> (string + nat) poll_result" where
  "sample_poll (Inl p) = Poll_Ready (Panic p)"
| "sample_poll (Inr 0) = Poll_Ready (Ok ())"
| "sample_poll (Inr (Suc n)) = Poll_Pending (Inr n)"

text \<open>Two futures in each pool and one that arrives, of which the last is woken first.\<close>

theorem futures_progress_witness:
  "\<exists>pools' runs. run_rounds sample_poll
      [\<lparr>rd_arrivals = (\<lambda>_. []), rd_wakes = (\<lambda>_. [1, 0, 1, 1])\<rparr>, \<lparr>rd_arrivals = (\<lambda>_. [(4 :: nat, Inr 1)]), rd_wakes = (\<lambda>_. [0, 1, 1, 0])\<rparr>]
      (\<lambda>_. [(1, Inr 1), (3, Inr 0)]) = (pools', runs, Running) \<and>
    (\<forall>p. mset (ran_by p runs) + mset (map fst (pools' p)) = mset [1, 3, 4] \<and> length (ran_by p runs) = 2)"
proof -
  let ?rds = "[\<lparr>rd_arrivals = (\<lambda>_ :: pool. []), rd_wakes = (\<lambda>_. [1, 0, 1, 1])\<rparr>,
    \<lparr>rd_arrivals = (\<lambda>_. [(4 :: nat, Inr 1 :: string + nat)]), rd_wakes = (\<lambda>_. [0, 1, 1, 0])\<rparr>]"
  let ?pools = "\<lambda>_ :: pool. [(1 :: nat, Inr 1), (3, Inr 0 :: string + nat)]"
  have "\<forall>p. all_end sample_poll 1 (?pools p)" "\<forall>rd\<in>set ?rds. \<forall>p. all_end sample_poll 1 (rd_arrivals rd p)"
      "\<forall>rd\<in>set ?rds. \<forall>p. 1 * (length (?pools p) + (\<Sum>rd\<leftarrow>?rds. length (rd_arrivals rd p))) < length (rd_wakes rd p)"
    by (simp_all add: all_end_def)
  from futures_progress [OF this] obtain pools' runs where run: "run_rounds sample_poll ?rds ?pools = (pools', runs, Running)"
    and k: "\<And>p. mset (ran_by p runs) + mset (map fst (pools' p)) =
        mset (map fst (?pools p @ concat (map (\<lambda>rd. rd_arrivals rd p) ?rds)))"
      "\<And>p. min (length ?rds) (length (?pools p)) \<le> length (ran_by p runs)" "\<And>p. length (ran_by p runs) \<le> length ?rds"
    by blast
  have "mset (ran_by p runs) + mset (map fst (pools' p)) = mset [1, 3, 4]" for p using k(1) [of p] by simp
  moreover have "length (ran_by p runs) = 2" for p using k(2,3) [of p] by simp
  ultimately show ?thesis using run by blast
qed

theorem panicking_future_stops_all_witness:
  "\<exists>pools' runs. \<forall>rest. run_rounds sample_poll (\<lparr>rd_arrivals = (\<lambda>_. []), rd_wakes = (\<lambda>_. [1, 0])\<rparr> # rest)
      (\<lambda>p. if p = Validator_Pool then [(5, Inr 1), (3, Inl ''slice'')] else [(1 :: nat, Inr 0)]) = (pools', runs, Crashed ''slice'') \<and>
    ran_by Validator_Pool runs = [3] \<and> (\<forall>q\<in>set [DaClient_Pool, Engine_Pool, EoClient_Pool]. ran_by q runs = [])"
proof -
  let ?rd = "\<lparr>rd_arrivals = (\<lambda>_. []), rd_wakes = (\<lambda>_ :: pool. [1, 0 :: nat])\<rparr>"
  let ?pools = "\<lambda>p. if p = Validator_Pool then [(5, Inr 1), (3, Inl ''slice'')] else [(1 :: nat, Inr 0 :: string + nat)]"
  have "pool_order = [Batcher_Pool, Executor_Pool] @ Validator_Pool # [DaClient_Pool, Engine_Pool, EoClient_Pool]"
    by (simp add: pool_order_def)
  from panicking_future_stops_all [where rd = ?rd and pools = ?pools and poll = sample_poll, OF this]
  show ?thesis by (simp add: goes_on_def) blast
qed

text \<open>A start of the account cache keeps the store and forgets the cache.\<close>

definition restart_account_cache :: "world \<Rightarrow> world" where
  "restart_account_cache w = w\<lparr>w_cache := cache_new (ac_batch_interval (w_cache w)) (ac_storage (w_cache w))\<rparr>"

lemma cache_account_storage: "ac_storage (w_cache (cache_account env a w)) = ac_storage (w_cache w)"
  by (simp add: cache_account_def cache_write_def handle_cache_write_def split: account_type.split)

lemma add_accounts_storage:
  "add_accounts_to_batch env as w = Some (w', r) \<Longrightarrow> ac_storage (w_cache w') = ac_storage (w_cache w)"
proof (induction as arbitrary: w)
  case (Cons a as)
  then show ?case
    using cache_account_storage [of env a w]
    by (fastforce simp: bbind_def add_account_to_batch_def Let_def split: option.splits)
qed simp

lemma add_transaction_storage:
  assumes "add_transaction_to_account env tx w = Some (w', r)"
  shows "ac_storage (w_cache w') = ac_storage (w_cache w)"
  using assms
  by (auto simp: add_transaction_to_account_def bbind_def place_transaction_def cast_or_fail_def
      split: outcome.splits option.splits prod.splits if_splits dest!: add_accounts_storage)

text \<open>
  C34: An applied transaction does not survive a restart of the account cache: until its batch is
  written to the store, every account reads after the restart as the store has it, so the accounts of
  a send or deposit that was applied and answered are those from before it.\<close>

theorem restarted_cache_reverts:
  assumes "add_transaction_to_account env tx w = Some (w', r)" and "cache_up env"
  shows "lookup_account env (restart_account_cache w') k = storage_read (bn_cache env) k (w_cache w)"
  using add_transaction_storage [OF assms(1)]
  by (simp add: lookup_account_up [OF assms(2)] world_read_def restart_account_cache_def cache_read_def cache_get_def
      cache_new_def storage_read_def Let_def)


theorem restarted_cache_reverts_witness:
  "\<exists>w'. add_transaction_to_account sample_benv sample_send
      (sample_world [sample_account eth_addr (sample_token eth_addr eth_addr 10)]) = Some (w', Ok ()) \<and>
    lookup_account sample_benv (restart_account_cache w') eth_addr =
      storage_read (bn_cache sample_benv) eth_addr (w_cache (sample_world [sample_account eth_addr (sample_token eth_addr eth_addr 10)]))"
proof -
  let ?w = "sample_world [sample_account eth_addr (sample_token eth_addr eth_addr 10)]"
  have "held sample_benv ?w eth_addr eth_addr = 10" "held sample_benv ?w verse_addr eth_addr = 0"
    by (simp_all add: held_def balance_of_def)
  moreover have "\<not> is_bridge_in (tx_transaction_type sample_send)" by (simp add: sample_send_def)
  ultimately obtain w' where w': "add_transaction_to_account sample_benv sample_send ?w = Some (w', Ok ())"
    using send_applies [of sample_benv sample_send ?w
        "sample_account eth_addr (sample_token eth_addr eth_addr 10)" "sample_token eth_addr eth_addr 10"]
    by auto
  have "cache_up sample_benv" by (simp add: cache_up_def sample_benv_def)
  from restarted_cache_reverts [OF w' this, of eth_addr] w' show ?thesis by blast
qed

end
