(* ===== verification/Wallet_Model.thy ===== *)
theory Wallet_Model
  imports Account_Model
begin

text \<open>
  The wallet (crates/wallet/src/wallet.rs): the keys of a new wallet, and the signing and submitting
  of sends, calls and registrations. The wallet keeps a copy of its account, from which it takes
  the nonce and the balance it checks. The node behind the RPC client is a state of any type that
  the client's methods change; secp256k1, BIP 39 and the JSON parsers are parameters.
\<close>

section \<open>The crates the wallet calls\<close>

record key_ops =
  ko_sign :: "u8 list \<Rightarrow> u8 list \<Rightarrow> i32 \<times> u8 list"
  ko_public :: "u8 list \<Rightarrow> u8 list"
  ko_sha3 :: "u8 list \<Rightarrow> u8 list"
  ko_hashed_key :: "u8 list \<Rightarrow> u8 list"
  ko_key_from_slice :: "u8 list \<Rightarrow> (string, u8 list) outcome"
  ko_key_from_str :: "string \<Rightarrow> (string, u8 list) outcome"
  ko_mnemonic :: "u8 list \<Rightarrow> (string, string) outcome"
  ko_parse_mnemonic :: "string \<Rightarrow> (string, string) outcome"
  ko_seed :: "string \<Rightarrow> string \<Rightarrow> u8 list"

datatype wallet_error =
  WE_Account boxed_error | WE_Builder string | WE_Secp secp_error | WE_Client string | WE_Json string
| WE_Mnemonic string

text \<open>The RPC client's methods on the node's state, and the parsers of what they answer.\<close>

record 'n wallet_env =
  we_crypto :: crypto
  we_keys :: key_ops
  we_send :: "transaction \<Rightarrow> 'n \<Rightarrow> 'n \<times> (string, string) outcome"
  we_call :: "transaction \<Rightarrow> 'n \<Rightarrow> 'n \<times> (string, string) outcome"
  we_register :: "transaction \<Rightarrow> 'n \<Rightarrow> 'n \<times> (string, string) outcome"
  we_get_account :: "string \<Rightarrow> 'n \<Rightarrow> 'n \<times> (string, string) outcome"
  we_account_json :: "string \<Rightarrow> (string, account) outcome"
  we_token_json :: "string \<Rightarrow> (string, token) outcome"
  we_payload_json :: "string \<Rightarrow> (string, payload) outcome"

section \<open>The payload builder\<close>

record payload_builder =
  pb_transaction_type :: "transaction_type option"
  pb_from :: "address option"
  pb_to :: "address option"
  pb_program_id :: "address option"
  pb_op :: "string option"
  pb_inputs :: "string option"
  pb_value :: "u256 option"
  pb_nonce :: "u256 option"

definition default_payload_builder :: payload_builder where
  "default_payload_builder =
     \<lparr>pb_transaction_type = None, pb_from = None, pb_to = None, pb_program_id = None, pb_op = None,
      pb_inputs = None, pb_value = None, pb_nonce = None\<rparr>"

text \<open>\<open>build\<close> fails on the first field, in the order of the struct, that was not set.\<close>

definition payload_build :: "payload_builder \<Rightarrow> (wallet_error, payload) outcome" where
  "payload_build b =
     obind (ok_or (pb_transaction_type b) (WE_Builder ''transaction_type'')) (\<lambda>ty.
     obind (ok_or (pb_from b) (WE_Builder ''from'')) (\<lambda>fr.
     obind (ok_or (pb_to b) (WE_Builder ''to'')) (\<lambda>t.
     obind (ok_or (pb_program_id b) (WE_Builder ''program_id'')) (\<lambda>pid.
     obind (ok_or (pb_op b) (WE_Builder ''op'')) (\<lambda>op.
     obind (ok_or (pb_inputs b) (WE_Builder ''inputs'')) (\<lambda>inps.
     obind (ok_or (pb_value b) (WE_Builder ''value'')) (\<lambda>v.
     obind (ok_or (pb_nonce b) (WE_Builder ''nonce'')) (\<lambda>n.
     Ok \<lparr>pl_transaction_type = ty, pl_from = fr, pl_to = t, pl_program_id = pid, pl_op = op,
         pl_inputs = inps, pl_value = v, pl_nonce = n\<rparr>))))))))"

section \<open>The keys of a new wallet\<close>

record wallet_info =
  wi_mnemonic :: string
  wi_keypair :: "u8 list \<times> u8 list"
  wi_secret_key :: "u8 list"
  wi_public_key :: "u8 list"
  wi_address :: address

text \<open>
  \<open>get_info\<close>: the seed that is passed, or else drawn from \<open>rng_u64\<close>, is not used. The entropy of
  the mnemonic is the generator's bytes, 16 of them for the size 12 and 32 for every other size.
\<close>

definition get_info ::
    "crypto \<Rightarrow> key_ops \<Rightarrow> u64 \<Rightarrow> (nat \<Rightarrow> u8 list) \<Rightarrow> nat option \<Rightarrow> string option \<Rightarrow> nat option
       \<Rightarrow> (wallet_error, wallet_info) outcome" where
  "get_info cr ko rng_u64 entropy seed passphrase size_opt =
     (let unwrapped_seed = (case seed of Some s \<Rightarrow> s | None \<Rightarrow> unat rng_u64);
          unwrapped_passphrase = (case passphrase of Some p \<Rightarrow> p | None \<Rightarrow> '''');
          unwrapped_size = (case size_opt of Some s \<Rightarrow> s | None \<Rightarrow> 12) in
      obind (map_err WE_Mnemonic
               (if unwrapped_size = 12 then ko_mnemonic ko (entropy 16) else ko_mnemonic ko (entropy 32))) (\<lambda>mnemonic.
      let keypair_seed = ko_seed ko mnemonic unwrapped_passphrase;
          seed_hash = ko_sha3 ko keypair_seed;
          secret_key = ko_hashed_key ko seed_hash;
          public_key = ko_public ko secret_key in
      Ok \<lparr>wi_mnemonic = mnemonic, wi_keypair = (secret_key, public_key), wi_secret_key = secret_key,
          wi_public_key = public_key, wi_address = address_from_pubkey (keccak256 cr) public_key\<rparr>))"

section \<open>Submitting transactions\<close>

record wallet =
  wl_sk :: "u8 list"
  wl_builder :: payload_builder
  wl_address :: address
  wl_account :: account

type_synonym ('n, 'a) wallet_result = "('n \<times> wallet, wallet_error, 'a) mutres"

definition sign_with :: "crypto \<Rightarrow> key_ops \<Rightarrow> u8 list \<Rightarrow> payload \<Rightarrow> (wallet_error, transaction) outcome" where
  "sign_with cr ko sk payload =
     obind (map_err WE_Secp (secp_message cr (payload_hash cr payload))) (\<lambda>msg.
     case ko_sign ko sk msg of (v, rs) \<Rightarrow>
     obind (map_err (\<lambda>_. WE_Secp InvalidSignature) (sig_from_compact v rs)) (\<lambda>sg.
     Ok (transaction_from_payload_sig payload sg)))"

text \<open>One call of the client; the node has changed whatever the client answers.\<close>

definition client_call ::
    "('n \<Rightarrow> 'n \<times> (string, string) outcome) \<Rightarrow> 'n \<times> wallet \<Rightarrow> ('n, string) wallet_result" where
  "client_call method s = (case method (fst s) of (n, r) \<Rightarrow> ((n, snd s), map_err WE_Client r))"

definition wallet_get_account :: "'n wallet_env \<Rightarrow> address \<Rightarrow> 'n \<times> wallet \<Rightarrow> ('n, unit) wallet_result" where
  "wallet_get_account env addr s =
     and_then (client_call (we_get_account env (lower_hex addr)) s) (\<lambda>s text.
     and_then (s, map_err WE_Json (we_account_json env text)) (\<lambda>s account.
     ((fst s, (snd s)\<lparr>wl_account := account\<rparr>), Ok ())))"

text \<open>The fields every method sets before it builds and signs; the builder keeps them.\<close>

definition wallet_transaction ::
    "'n wallet_env \<Rightarrow> (u256 \<Rightarrow> transaction_type) \<Rightarrow> address \<Rightarrow> address \<Rightarrow> string \<Rightarrow> string \<Rightarrow> u256
       \<Rightarrow> 'n \<times> wallet \<Rightarrow> ('n, transaction) wallet_result" where
  "wallet_transaction env ty to_addr program_id inps op v s =
     (let account = wl_account (snd s) in
      and_then (s, or_panic overflow (u256_add (acc_nonce account) 1)) (\<lambda>s tx_nonce.
      let b = \<lparr>pb_transaction_type = Some (ty (acc_nonce account)), pb_from = Some (wl_address (snd s)),
               pb_to = Some to_addr, pb_program_id = Some program_id, pb_op = Some op,
               pb_inputs = Some inps, pb_value = Some v, pb_nonce = Some tx_nonce\<rparr>;
          s = (fst s, (snd s)\<lparr>wl_builder := b\<rparr>) in
      (s, obind (payload_build b) (sign_with (we_crypto env) (we_keys env) (wl_sk (snd s))))))"

definition wallet_send :: "'n wallet_env \<Rightarrow> address \<Rightarrow> address \<Rightarrow> u256 \<Rightarrow> 'n \<times> wallet \<Rightarrow> ('n, token) wallet_result" where
  "wallet_send env to_addr program_id v s =
     and_then (s, map_err WE_Account (validate_balance program_id v (wl_account (snd s)))) (\<lambda>s _.
     and_then (wallet_transaction env Send to_addr program_id '''' '''' v s) (\<lambda>s tx.
     and_then (client_call (we_send env tx) s) (\<lambda>s text.
     and_then (s, map_err WE_Json (we_token_json env text)) (\<lambda>s tok.
     and_then (wallet_get_account env (wl_address (snd s)) s) (\<lambda>s _.
     (s, Ok tok))))))"

definition sign_payload :: "'n wallet_env \<Rightarrow> string \<Rightarrow> wallet \<Rightarrow> (wallet_error, transaction) outcome" where
  "sign_payload env text w =
     obind (map_err WE_Json (we_payload_json env text)) (sign_with (we_crypto env) (we_keys env) (wl_sk w))"

text \<open>A call without value is submitted without a look at the balance.\<close>

definition wallet_call ::
    "'n wallet_env \<Rightarrow> address \<Rightarrow> address \<Rightarrow> u256 \<Rightarrow> string \<Rightarrow> string \<Rightarrow> 'n \<times> wallet \<Rightarrow> ('n, string) wallet_result" where
  "wallet_call env program_id to_addr v op inps s =
     and_then (s, if v > 0 then map_err WE_Account (validate_balance program_id v (wl_account (snd s))) else Ok ()) (\<lambda>s _.
     and_then (wallet_transaction env Call to_addr program_id inps op v s) (\<lambda>s tx.
     and_then (client_call (we_call env tx) s) (\<lambda>s text.
     and_then (wallet_get_account env (wl_address (snd s)) s) (\<lambda>s _.
     (s, Ok text)))))"

text \<open>After a registration an account that cannot be fetched is only reported.\<close>

definition wallet_register_program :: "'n wallet_env \<Rightarrow> string \<Rightarrow> 'n \<times> wallet \<Rightarrow> ('n, string) wallet_result" where
  "wallet_register_program env inps s =
     and_then (wallet_transaction env RegisterProgram (Address (replicate 20 0)) (Address (replicate 20 0)) inps '''' 0 s) (\<lambda>s tx.
     and_then (client_call (we_register env tx) s) (\<lambda>s program_id.
     case wallet_get_account env (wl_address (snd s)) s of
       (s, Panic p) \<Rightarrow> (s, Panic p)
     | (s, _) \<Rightarrow> (s, Ok program_id)))"

section \<open>Lemmas\<close>

text \<open>
  What is documented of keccak and secp256k1: digests of 32 bytes are messages, a recoverable
  signature is 64 bytes with an id of 0 to 3, and recovery on the signed message gives the public
  key.
\<close>

definition signing_laws :: "crypto \<Rightarrow> key_ops \<Rightarrow> bool" where
  "signing_laws cr ko \<longleftrightarrow>
     (\<forall>bs. length (keccak256 cr bs) = 32) \<and>
     (\<forall>d. length d = 32 \<longrightarrow> (\<exists>m. secp_message cr d = Ok m \<and>
        (\<forall>sk v rs. ko_sign ko sk m = (v, rs) \<longrightarrow> in_range 0 3 v \<and> length rs = 64 \<and>
           (\<exists>i sg. secp_recovery_id cr v = Ok i \<and> secp_from_compact cr rs i = Ok sg \<and>
              secp_recover_ecdsa cr m sg = Ok (ko_public ko sk)))))"

lemma transaction_from_payload_sig_hash:
  "tx_hash cr (transaction_from_payload_sig p sg) = payload_hash cr p"
  by (simp add: tx_hash_def payload_hash_def as_bytes_def payload_as_bytes_def transaction_from_payload_sig_def)

text \<open>Whatever payload is signed, the signer is recovered from the transaction.\<close>

lemma sign_with_recovers:
  assumes "signing_laws cr ko"
  shows "\<exists>sg. sign_with cr ko sk p = Ok (transaction_from_payload_sig p sg) \<and>
     tx_recover cr (transaction_from_payload_sig p sg) = Ok (address_from_pubkey (keccak256 cr) (ko_public ko sk))"
proof -
  obtain m where m: "secp_message cr (payload_hash cr p) = Ok m"
      and sgn: "\<And>v rs. ko_sign ko sk m = (v, rs) \<Longrightarrow> in_range 0 3 v \<and> length rs = 64 \<and>
           (\<exists>i sg. secp_recovery_id cr v = Ok i \<and> secp_from_compact cr rs i = Ok sg \<and>
              secp_recover_ecdsa cr m sg = Ok (ko_public ko sk))"
    using assms by (fastforce simp: signing_laws_def payload_hash_def)
  obtain v rs where vrs: "ko_sign ko sk m = (v, rs)" by fastforce
  then obtain i sg where v: "in_range 0 3 v" and rs: "length rs = 64" and ok: "secp_recovery_id cr v = Ok i"
      "secp_from_compact cr rs i = Ok sg" "secp_recover_ecdsa cr m sg = Ok (ko_public ko sk)"
    using sgn by blast
  let ?sg = "\<lparr>sig_r = take 32 rs, sig_s = drop 32 rs, sig_v = v\<rparr>"
  let ?tx = "transaction_from_payload_sig p ?sg"
  have nv: "\<not> in_range 27 28 v" using v by (simp add: in_range_def)
  have sel: "tx_v ?tx = v" "tx_r ?tx = take 32 rs" "tx_s ?tx = drop 32 rs"
    by (simp_all add: transaction_from_payload_sig_def)
  have "tx_recover cr ?tx = Ok (address_from_pubkey (keccak256 cr) (ko_public ko sk))"
    using nv v m ok
    by (simp add: tx_recover_def tx_sig_def sel sig_recover_def signature_try_from_def
        transaction_from_payload_sig_hash)
  moreover have "sign_with cr ko sk p = Ok ?tx"
    by (simp add: sign_with_def m vrs sig_from_compact_def rs)
  ultimately show ?thesis by blast
qed

lemma u256_add_one:
  assumes "unat a + 1 < 2 ^ 256"
  shows "\<exists>k. u256_add a 1 = Some k \<and> unat k = unat a + 1"
proof -
  have "\<not> 2 ^ 256 \<le> unat a + unat (1 :: u256)" using assms unfolding unat_1 by (simp only: not_le)
  then obtain k where "u256_add a 1 = Some k" using u256_add_None_iff [of a 1] by blast
  then show ?thesis using u256_add_SomeD by fastforce
qed

text \<open>The transaction a wallet makes: signed by its key, one above the nonce of its account.\<close>

lemma wallet_transaction_spec:
  assumes "signing_laws (we_crypto env) (we_keys env)" and "unat (acc_nonce (wl_account w)) + 1 < 2 ^ 256"
  shows "\<exists>tx b. wallet_transaction env ty to_addr pid inps op v (n, w) = ((n, w\<lparr>wl_builder := b\<rparr>), Ok tx) \<and>
     tx_transaction_type tx = ty (acc_nonce (wl_account w)) \<and> tx_from tx = wl_address w \<and> tx_to tx = to_addr \<and>
     tx_program_id tx = pid \<and> tx_op tx = op \<and> tx_inputs tx = inps \<and> tx_value tx = v \<and>
     unat (tx_nonce tx) = unat (acc_nonce (wl_account w)) + 1 \<and>
     tx_recover (we_crypto env) tx =
       Ok (address_from_pubkey (keccak256 (we_crypto env)) (ko_public (we_keys env) (wl_sk w)))"
proof -
  obtain k where k: "u256_add (acc_nonce (wl_account w)) 1 = Some k" "unat k = unat (acc_nonce (wl_account w)) + 1"
    using u256_add_one [OF assms(2)] by blast
  define p where "p = \<lparr>pl_transaction_type = ty (acc_nonce (wl_account w)), pl_from = wl_address w, pl_to = to_addr,
    pl_program_id = pid, pl_op = op, pl_inputs = inps, pl_value = v, pl_nonce = k\<rparr>"
  obtain sg where sg: "sign_with (we_crypto env) (we_keys env) (wl_sk w) p = Ok (transaction_from_payload_sig p sg)"
      "tx_recover (we_crypto env) (transaction_from_payload_sig p sg) =
         Ok (address_from_pubkey (keccak256 (we_crypto env)) (ko_public (we_keys env) (wl_sk w)))"
    using sign_with_recovers [OF assms(1)] by blast
  have "\<exists>b. wallet_transaction env ty to_addr pid inps op v (n, w) =
      ((n, w\<lparr>wl_builder := b\<rparr>), Ok (transaction_from_payload_sig p sg))"
    using k(1) sg(1) by (simp add: wallet_transaction_def Let_def payload_build_def p_def) blast
  moreover have "unat (pl_nonce p) = unat (acc_nonce (wl_account w)) + 1" by (simp add: p_def k(2))
  ultimately show ?thesis
    using sg(2) by (intro exI [of _ "transaction_from_payload_sig p sg"])
      (simp add: transaction_from_payload_sig_def p_def)
qed

end
