(* ===== verification/Wallet_Theorems.thy ===== *)
theory Wallet_Theorems
  imports System_Theorems Wallet_Model
begin

text \<open>
  The wallet in front of the node: what a wallet submits passes the node's checks, and a send
  from the wallet's call to the moved value.
\<close>

section \<open>What a wallet submits\<close>

lemma and_then_node:
  assumes "fst (fst m) = x" and "\<And>s a. fst s = x \<Longrightarrow> fst (fst (f s a)) = x"
  shows "fst (fst (and_then m f)) = x"
  using assms by (rule and_then_frame [where g = fst])

lemma wallet_send_submits:
  assumes "signing_laws (we_crypto env) (we_keys env)"
    and "wl_address w = address_from_pubkey (keccak256 (we_crypto env)) (ko_public (we_keys env) (wl_sk w))"
    and "acc_programs (wl_account w) pid = Some tok" and "v \<le> tok_balance tok"
    and "unat (acc_nonce (wl_account w)) + 1 < 2 ^ 256"
    and "\<And>a m. fst (we_get_account env a m) = m"
  shows "\<exists>tx. fst (fst (wallet_send env to_addr pid v (n, w))) = fst (we_send env tx n) \<and>
     tx_transaction_type tx = Send (acc_nonce (wl_account w)) \<and> tx_from tx = wl_address w \<and> tx_to tx = to_addr \<and>
     tx_program_id tx = pid \<and> tx_value tx = v \<and> unat (acc_nonce (wl_account w)) < unat (tx_nonce tx) \<and>
     tx_recover (we_crypto env) tx = Ok (wl_address w)"
proof -
  obtain tx b where tx: "wallet_transaction env Send to_addr pid '''' '''' v (n, w) = ((n, w\<lparr>wl_builder := b\<rparr>), Ok tx)"
      "tx_transaction_type tx = Send (acc_nonce (wl_account w))" "tx_from tx = wl_address w" "tx_to tx = to_addr"
      "tx_program_id tx = pid" "tx_value tx = v" "unat (tx_nonce tx) = unat (acc_nonce (wl_account w)) + 1"
      "tx_recover (we_crypto env) tx = Ok (wl_address w)"
    using wallet_transaction_spec [OF assms(1,5)] assms(2) by metis
  have called: "fst (fst (client_call m s)) = fst (m (fst s))" for m and s :: "'a \<times> wallet"
    by (simp add: client_call_def split: prod.split)
  have get: "fst (fst (wallet_get_account env a s)) = fst s" for a s
    unfolding wallet_get_account_def by (intro and_then_node) (simp_all add: called assms(6))
  have "validate_balance pid v (wl_account w) = Ok ()" using assms(3,4) by (simp add: validate_balance_def)
  then have "fst (fst (wallet_send env to_addr pid v (n, w))) =
      fst (fst (and_then (client_call (we_send env tx) (n, w\<lparr>wl_builder := b\<rparr>)) (\<lambda>s text.
        and_then (s, map_err WE_Json (we_token_json env text)) (\<lambda>s tok.
        and_then (wallet_get_account env (wl_address (snd s)) s) (\<lambda>s _. (s, Ok tok))))))"
    by (simp add: wallet_send_def tx(1))
  also have "\<dots> = fst (we_send env tx n)"
    by (intro and_then_node) (simp_all add: called get)
  finally have "fst (fst (wallet_send env to_addr pid v (n, w))) = fst (we_send env tx n)" .
  then show ?thesis using tx by (intro exI [of _ tx]) simp
qed

lemma wallet_send_refuses:
  assumes "\<And>tok. acc_programs (wl_account w) pid = Some tok \<Longrightarrow> tok_balance tok < v"
  shows "\<exists>e. wallet_send env to_addr pid v (n, w) = ((n, w), Err (WE_Account e))"
  using assms by (cases "acc_programs (wl_account w) pid") (auto simp: wallet_send_def validate_balance_def)

section \<open>Properties\<close>

text \<open>
  A send from the wallet to the moved value. The wallet's address belongs to its key, its copy
  of the account is the node's, the client hands a transaction to the node's scheduler with a
  reply port, and reading accounts leaves the node as it is. When the account holds the value and
  the node is at rest with its actors up, the call of \<open>send\<close> leaves the node in a state from which
  finitely many deliveries in order answer the port with a token, move exactly the value from the
  wallet's account to the receiver and change no other account. The nonce and the signature the
  wallet chooses are those the validator accepts. When the account does not hold the value, the
  node is not called at all.
\<close>

theorem wallet_send_end_to_end:
  assumes "system_reachable senv sys" and "at_rest sys" and "node_up senv" and "iter_order (sn_it_vertices senv)"
    and "benv = sn_batcher senv" and "iter_order (bn_it_string benv)"
    and "lookup = lookup_account benv (sy_world sys)"
    and "we_crypto env = bn_crypto benv" and "signing_laws (we_crypto env) (we_keys env)"
    and "wl_address w = address_from_pubkey (keccak256 (we_crypto env)) (ko_public (we_keys env) (wl_sk w))"
    and "\<And>tx s. fst (we_send env tx s) = post [To_Scheduler (S_Send tx port)] s"
    and "\<And>a s. fst (we_get_account env a s) = s"
    and "lookup (wl_address w) = Some (wl_account w)" and "filed_user (wl_address w) (wl_account w)"
    and "unat (acc_nonce (wl_account w)) + 1 < 2 ^ 256" and "wl_address w \<noteq> to_addr"
    and "\<And>b. lookup to_addr = Some b \<Longrightarrow> filed_user to_addr b"
    and "\<And>t. acc_programs (wl_account w) pid = Some t \<Longrightarrow> v \<le> tok_balance t \<Longrightarrow>
           held benv (sy_world sys) to_addr pid + unat v < 2 ^ 256"
    and "lookup pid \<noteq> None \<or> pid \<in> {eth_addr, verse_addr}"
    and "\<And>tx buf tok. transaction_buffer benv lookup tx = Ok (buf, tok) \<Longrightarrow>
           room_for_all benv tx (map snd (bn_it_string benv buf)) (bt_parent (w_batcher (sy_world sys)))"
  shows "case acc_programs (wl_account w) pid of
     Some t \<Rightarrow>
       if v \<le> tok_balance t then
         \<exists>k sys' tok. drain senv now k (fst (fst (wallet_send env to_addr pid v (sys, w)))) = Some sys' \<and>
           at_rest sys' \<and> Rpc_Reply port (Inr (SendResponse tok)) \<in> set (sy_log sys') \<and>
           held benv (sy_world sys') (wl_address w) pid + unat v = held benv (sy_world sys) (wl_address w) pid \<and>
           held benv (sy_world sys') to_addr pid = held benv (sy_world sys) to_addr pid + unat v \<and>
           (\<forall>x. x = wl_address w \<or> x = to_addr \<or> lookup_account benv (sy_world sys') x = lookup x)
       else \<exists>e. wallet_send env to_addr pid v (sys, w) = ((sys, w), Err (WE_Account e))
   | None \<Rightarrow> \<exists>e. wallet_send env to_addr pid v (sys, w) = ((sys, w), Err (WE_Account e))"
proof (cases "\<exists>t. acc_programs (wl_account w) pid = Some t \<and> v \<le> tok_balance t")
  case True
  then obtain t where t: "acc_programs (wl_account w) pid = Some t" "v \<le> tok_balance t" by blast
  obtain tx where tx: "fst (fst (wallet_send env to_addr pid v (sys, w))) = fst (we_send env tx sys)"
      "tx_transaction_type tx = Send (acc_nonce (wl_account w))" "tx_from tx = wl_address w" "tx_to tx = to_addr"
      "tx_program_id tx = pid" "tx_value tx = v" "unat (acc_nonce (wl_account w)) < unat (tx_nonce tx)"
      "tx_recover (we_crypto env) tx = Ok (wl_address w)"
    using wallet_send_submits [OF assms(9,10) t assms(15,12)] by blast
  have "\<exists>k sys' tok. drain senv now k (post [To_Scheduler (S_Send tx port)] sys) = Some sys' \<and> at_rest sys' \<and>
     Rpc_Reply port (Inr (SendResponse tok)) \<in> set (sy_log sys') \<and>
     held benv (sy_world sys') (tx_from tx) (tx_program_id tx) + unat (tx_value tx) =
       held benv (sy_world sys) (tx_from tx) (tx_program_id tx) \<and>
     held benv (sy_world sys') (tx_to tx) (tx_program_id tx) =
       held benv (sy_world sys) (tx_to tx) (tx_program_id tx) + unat (tx_value tx) \<and>
     (\<forall>x. x = tx_from tx \<or> x = tx_to tx \<or> lookup_account benv (sy_world sys') x = lookup_account benv (sy_world sys) x)"
    by (rule send_runs [OF assms(1-5) refl assms(6) tx(2), where a = "wl_account w" and s = t])
      (use assms(7,8,13,14,16,17,19,20) assms(18) [OF t] t tx in simp_all)
  then show ?thesis using t tx assms(7) by (simp add: assms(11))
next
  case False
  then have "\<exists>e. wallet_send env to_addr pid v (sys, w) = ((sys, w), Err (WE_Account e))"
    by (intro wallet_send_refuses) (auto simp: not_le)
  then show ?thesis using False by (simp split: option.split)
qed

section \<open>Witnesses\<close>

text \<open>A wallet with the empty key, whose signatures are zeros and whose address is the zero address.\<close>

definition sample_keys :: key_ops where
  "sample_keys =
     \<lparr>ko_sign = (\<lambda>sk m. (0, take 64 (sk @ replicate 64 0))), ko_public = (\<lambda>sk. take 64 (sk @ replicate 64 0)),
      ko_sha3 = (\<lambda>bs. bs), ko_hashed_key = (\<lambda>bs. bs), ko_key_from_slice = Ok, ko_key_from_str = (\<lambda>s. Ok (str_bytes s)),
      ko_mnemonic = (\<lambda>e. Ok ''abandon''), ko_parse_mnemonic = Ok, ko_seed = (\<lambda>m p. str_bytes (m @ p))\<rparr>"

definition sample_wallet_env :: "system wallet_env" where
  "sample_wallet_env =
     \<lparr>we_crypto = sample_crypto, we_keys = sample_keys,
      we_send = (\<lambda>tx s. (post [To_Scheduler (S_Send tx 7)] s, Ok ''{}'')), we_call = (\<lambda>tx s. (s, Err ''down'')),
      we_register = (\<lambda>tx s. (s, Err ''down'')), we_get_account = (\<lambda>a s. (s, Err ''down'')),
      we_account_json = (\<lambda>_. Err ''eof''), we_token_json = (\<lambda>_. Err ''eof''), we_payload_json = (\<lambda>_. Err ''eof'')\<rparr>"

definition sample_wallet :: wallet where
  "sample_wallet =
     \<lparr>wl_sk = [], wl_builder = default_payload_builder, wl_address = eth_addr,
      wl_account = sample_account eth_addr (sample_token eth_addr eth_addr 10)\<rparr>"

lemma sample_signing_laws: "signing_laws sample_crypto sample_keys"
  by (auto simp: signing_laws_def sample_crypto_def sample_keys_def in_range_def)

theorem wallet_send_end_to_end_witness:
  "\<exists>k sys' tok. drain sample_node_env 0 k
       (fst (fst (wallet_send sample_wallet_env verse_addr eth_addr 4 (system_init sample_holder, sample_wallet)))) = Some sys' \<and>
     Rpc_Reply 7 (Inr (SendResponse tok)) \<in> set (sy_log sys') \<and> held sample_benv (sy_world sys') eth_addr eth_addr = 6 \<and>
     held sample_benv (sy_world sys') verse_addr eth_addr = 4"
proof -
  have key: "address_from_pubkey (keccak256 sample_crypto) (ko_public sample_keys []) = eth_addr"
    by (simp add: address_from_pubkey_def sample_crypto_def sample_keys_def eth_addr_def last_20_def)
  show ?thesis
    using wallet_send_end_to_end [OF system_reachable.init, of sample_holder sample_node_env sample_benv
        "lookup_account sample_benv sample_holder" sample_wallet_env sample_wallet 7 verse_addr eth_addr 4 0]
      sample_signing_laws key
    by (auto simp: sample_wallet_env_def sample_wallet_def)
qed

end
