(* ===== verification/File_Model.thy ===== *)
theory File_Model
  imports Address_Model "HOL-Library.Sublist"
begin

text \<open>
  The file system, as the command line and the container bundler use it through \<open>std::fs\<close> and
  \<open>std::path\<close>. A file system maps locations, lists of names from the root, to directories, files
  with their bytes and mode, and symbolic links. The targets of the links are locations without
  links, since the program only links to canonical paths. A path is a string; it is resolved along
  its components, \<open>..\<close> and links included. What the operating system refuses for other reasons
  (rights, space) and the texts of its errors are parameters (record \<open>os\<close>). A path with a slash at
  its end does not name a file.
\<close>

section \<open>Locations and paths\<close>

type_synonym loc = "string list"

datatype node = Directory | File "u8 list" nat | Symlink loc

type_synonym fsys = "loc \<rightharpoonup> node"

datatype fs_call =
  FC_CreateDir | FC_CreateDirAll | FC_Open | FC_Write | FC_Metadata | FC_SetMode | FC_Symlink
| FC_Canonicalize | FC_Read | FC_ReadDir

record os =
  os_cwd :: loc
  os_new_mode :: nat
  os_refuses :: "fs_call \<Rightarrow> string \<Rightarrow> bool"
  os_text :: "fs_call \<Rightarrow> string \<Rightarrow> string"

definition components :: "string \<Rightarrow> string list" where
  "components p = filter (\<lambda>c. c \<noteq> '''' \<and> c \<noteq> ''.'') (str_split CHR ''/'' p)"

definition is_absolute :: "string \<Rightarrow> bool" where
  "is_absolute p = starts_with CHR ''/'' p"

text \<open>\<open>Path::join\<close>: an absolute path replaces what it is joined to.\<close>

definition path_join :: "string \<Rightarrow> string \<Rightarrow> string" where
  "path_join a b =
     (if is_absolute b \<or> a = '''' then b else if ends_with CHR ''/'' a then a @ b else a @ ''/'' @ b)"

definition dots :: string where "dots = ''..''"

text \<open>One component from a directory, and the walk along all; only the last may be missing.\<close>

definition enter :: "fsys \<Rightarrow> loc \<Rightarrow> string \<Rightarrow> loc" where
  "enter fs cur c =
     (if c = dots then butlast cur
      else case fs (cur @ [c]) of Some (Symlink t) \<Rightarrow> t | _ \<Rightarrow> cur @ [c])"

fun walk :: "fsys \<Rightarrow> loc \<Rightarrow> string list \<Rightarrow> loc option" where
  "walk fs cur [] = Some cur"
| "walk fs cur (c # cs) = (if fs cur = Some Directory then walk fs (enter fs cur c) cs else None)"

definition start_of :: "os \<Rightarrow> string \<Rightarrow> loc" where
  "start_of os p = (if is_absolute p then [] else os_cwd os)"

definition resolve :: "os \<Rightarrow> fsys \<Rightarrow> string \<Rightarrow> loc option" where
  "resolve os fs p = (if p = '''' then None else walk fs (start_of os p) (components p))"

text \<open>What a path with a slash at its end finds: directories, but no files.\<close>

definition at_slash :: "string \<Rightarrow> node option \<Rightarrow> node option" where
  "at_slash p n = (case n of Some (File b m) \<Rightarrow> if ends_with (CHR ''/'') p then None else n | _ \<Rightarrow> n)"

lemma at_slash_simps [simp]:
  "at_slash p None = None" "at_slash p (Some Directory) = Some Directory"
  "\<not> ends_with (CHR ''/'') p \<Longrightarrow> at_slash p n = n"
  by (simp_all add: at_slash_def split: option.split node.split)

lemma at_slash_SomeD: "at_slash p n = Some x \<Longrightarrow> n = Some x"
  by (auto simp: at_slash_def split: option.splits node.splits if_splits)

text \<open>The node at a path, links followed.\<close>

definition node_at :: "os \<Rightarrow> fsys \<Rightarrow> string \<Rightarrow> node option" where
  "node_at os fs p = (case resolve os fs p of None \<Rightarrow> None | Some l \<Rightarrow> at_slash p (fs l))"

definition path_exists :: "os \<Rightarrow> fsys \<Rightarrow> string \<Rightarrow> bool" where
  "path_exists os fs p \<longleftrightarrow> node_at os fs p \<noteq> None"

definition is_file :: "os \<Rightarrow> fsys \<Rightarrow> string \<Rightarrow> bool" where
  "is_file os fs p = (case node_at os fs p of Some (File _ _) \<Rightarrow> True | _ \<Rightarrow> False)"

section \<open>Operations\<close>

type_synonym 'a fs_result = "(fsys, string, 'a) mutres"

text \<open>\<open>fs::create_dir_all\<close>; directories made before a failure stay.\<close>

fun mkdirs :: "fsys \<Rightarrow> loc \<Rightarrow> string list \<Rightarrow> fsys \<times> bool" where
  "mkdirs fs cur [] = (fs, fs cur = Some Directory)"
| "mkdirs fs cur (c # cs) =
     (if fs cur \<noteq> Some Directory then (fs, False)
      else if c \<noteq> dots \<and> fs (cur @ [c]) = None then mkdirs (fs(cur @ [c] \<mapsto> Directory)) (cur @ [c]) cs
      else mkdirs fs (enter fs cur c) cs)"

definition create_dir_all :: "os \<Rightarrow> string \<Rightarrow> fsys \<Rightarrow> unit fs_result" where
  "create_dir_all os p fs =
     (if p = '''' then (fs, Ok ())
      else if os_refuses os FC_CreateDirAll p then (fs, Err (os_text os FC_CreateDirAll p))
      else case mkdirs fs (start_of os p) (components p) of
             (fs', ok) \<Rightarrow> (fs', if ok then Ok () else Err (os_text os FC_CreateDirAll p)))"

definition create_dir :: "os \<Rightarrow> string \<Rightarrow> fsys \<Rightarrow> unit fs_result" where
  "create_dir os p fs =
     (case resolve os fs p of
        Some l \<Rightarrow>
          if os_refuses os FC_CreateDir p \<or> fs l \<noteq> None then (fs, Err (os_text os FC_CreateDir p))
          else (fs(l \<mapsto> Directory), Ok ())
      | None \<Rightarrow> (fs, Err (os_text os FC_CreateDir p)))"

text \<open>Opening for writing, with \<open>create\<close> and \<open>truncate\<close>: the mode of a file that exists is kept.\<close>

definition open_truncate :: "os \<Rightarrow> string \<Rightarrow> fsys \<Rightarrow> unit fs_result" where
  "open_truncate os p fs =
     (case resolve os fs p of
        Some l \<Rightarrow>
          if ends_with (CHR ''/'') p \<or> os_refuses os FC_Open p then (fs, Err (os_text os FC_Open p))
          else (case fs l of
                  Some (File _ m) \<Rightarrow> (fs(l \<mapsto> File [] m), Ok ())
                | None \<Rightarrow>
                    if l \<noteq> [] \<and> fs (butlast l) = Some Directory then (fs(l \<mapsto> File [] (os_new_mode os)), Ok ())
                    else (fs, Err (os_text os FC_Open p))
                | _ \<Rightarrow> (fs, Err (os_text os FC_Open p)))
      | None \<Rightarrow> (fs, Err (os_text os FC_Open p)))"

definition write_all :: "os \<Rightarrow> string \<Rightarrow> u8 list \<Rightarrow> fsys \<Rightarrow> unit fs_result" where
  "write_all os p bytes fs =
     (if os_refuses os FC_Write p then (fs, Err (os_text os FC_Write p))
      else case resolve os fs p of
             Some l \<Rightarrow>
               (case fs l of
                  Some (File _ m) \<Rightarrow> (fs(l \<mapsto> File bytes m), Ok ())
                | _ \<Rightarrow> (fs, Err (os_text os FC_Write p)))
           | None \<Rightarrow> (fs, Err (os_text os FC_Write p)))"

definition metadata_of :: "os \<Rightarrow> string \<Rightarrow> fsys \<Rightarrow> (string, node) outcome" where
  "metadata_of os p fs =
     (if os_refuses os FC_Metadata p then Err (os_text os FC_Metadata p)
      else ok_or (node_at os fs p) (os_text os FC_Metadata p))"

definition set_mode :: "os \<Rightarrow> string \<Rightarrow> nat \<Rightarrow> fsys \<Rightarrow> unit fs_result" where
  "set_mode os p mode fs =
     (if os_refuses os FC_SetMode p then (fs, Err (os_text os FC_SetMode p))
      else case resolve os fs p of
             Some l \<Rightarrow>
               (case at_slash p (fs l) of
                  Some (File bytes _) \<Rightarrow> (fs(l \<mapsto> File bytes mode), Ok ())
                | Some _ \<Rightarrow> (fs, Ok ())
                | None \<Rightarrow> (fs, Err (os_text os FC_SetMode p)))
           | None \<Rightarrow> (fs, Err (os_text os FC_SetMode p)))"

definition canonicalize :: "os \<Rightarrow> string \<Rightarrow> fsys \<Rightarrow> (string, loc) outcome" where
  "canonicalize os p fs =
     (case resolve os fs p of
        Some l \<Rightarrow>
          if os_refuses os FC_Canonicalize p \<or> at_slash p (fs l) = None then Err (os_text os FC_Canonicalize p) else Ok l
      | None \<Rightarrow> Err (os_text os FC_Canonicalize p))"

text \<open>A link is made at the last component itself; the directory above it is resolved.\<close>

definition symlink :: "os \<Rightarrow> loc \<Rightarrow> string \<Rightarrow> fsys \<Rightarrow> unit fs_result" where
  "symlink os target p fs =
     (case (components p, walk fs (start_of os p) (butlast (components p))) of
        (c # cs, Some d) \<Rightarrow>
          (let l = d @ [last (c # cs)] in
           if os_refuses os FC_Symlink p \<or> last (c # cs) = dots \<or> fs d \<noteq> Some Directory \<or> fs l \<noteq> None
           then (fs, Err (os_text os FC_Symlink p))
           else (fs(l \<mapsto> Symlink target), Ok ()))
      | _ \<Rightarrow> (fs, Err (os_text os FC_Symlink p)))"

definition read_file :: "os \<Rightarrow> string \<Rightarrow> fsys \<Rightarrow> (string, u8 list) outcome" where
  "read_file os p fs =
     (if os_refuses os FC_Read p then Err (os_text os FC_Read p)
      else case node_at os fs p of
             Some (File bytes _) \<Rightarrow> Ok bytes
           | _ \<Rightarrow> Err (os_text os FC_Read p))"

section \<open>Lemmas\<close>

text \<open>Below a directory without links a path without \<open>..\<close> leads where it says.\<close>

definition no_links :: "fsys \<Rightarrow> loc \<Rightarrow> bool" where
  "no_links fs d \<longleftrightarrow> (\<forall>l t. prefix d l \<longrightarrow> fs l \<noteq> Some (Symlink t))"

lemma enter_below: "no_links fs cur \<Longrightarrow> c \<noteq> dots \<Longrightarrow> enter fs cur c = cur @ [c]"
  by (auto simp: enter_def no_links_def split: option.split node.split)

lemma no_links_below: "no_links fs cur \<Longrightarrow> prefix cur d \<Longrightarrow> no_links fs d"
  by (auto simp: no_links_def dest: prefix_order.trans)

lemma walk_below:
  assumes "no_links fs cur" and "dots \<notin> set cs" and "walk fs cur cs = Some l"
  shows "l = cur @ cs"
  using assms
proof (induction cs arbitrary: cur)
  case (Cons c cs)
  then have "walk fs (cur @ [c]) cs = Some l" by (auto simp: enter_below split: if_splits)
  then show ?case using Cons.IH [of "cur @ [c]"] Cons.prems no_links_below [of fs cur "cur @ [c]"] by simp
qed simp

lemma walk_append: "walk fs cur (xs @ ys) = Option.bind (walk fs cur xs) (\<lambda>l. walk fs l ys)"
  by (induction xs arbitrary: cur) simp_all

text \<open>Directories are only added, and only along the way.\<close>

lemma mkdirs_mono: "mkdirs fs cur cs = (fs', ok) \<Longrightarrow> fs l = Some n \<Longrightarrow> fs' l = Some n"
proof (induction cs arbitrary: fs cur)
  case (Cons c cs)
  show ?case
  proof (cases "fs cur = Some Directory \<and> c \<noteq> dots \<and> fs (cur @ [c]) = None")
    case True
    then have "mkdirs (fs(cur @ [c] \<mapsto> Directory)) (cur @ [c]) cs = (fs', ok)" using Cons.prems(1) by simp
    moreover have "l \<noteq> cur @ [c]" using True Cons.prems(2) by auto
    ultimately show ?thesis using Cons.IH Cons.prems(2) by (metis fun_upd_other)
  qed (use Cons in \<open>auto split: if_splits\<close>)
qed simp

lemma mkdirs_new: "mkdirs fs cur cs = (fs', ok) \<Longrightarrow> fs l = None \<Longrightarrow> fs' l = None \<or> fs' l = Some Directory"
proof (induction cs arbitrary: fs cur)
  case (Cons c cs)
  show ?case
  proof (cases "fs cur = Some Directory \<and> c \<noteq> dots \<and> fs (cur @ [c]) = None")
    case True
    then have m: "mkdirs (fs(cur @ [c] \<mapsto> Directory)) (cur @ [c]) cs = (fs', ok)" using Cons.prems(1) by simp
    then show ?thesis using Cons.IH [OF m] mkdirs_mono [OF m, of "cur @ [c]"] Cons.prems(2)
      by (cases "l = cur @ [c]") simp_all
  qed (use Cons in \<open>auto split: if_splits\<close>)
qed simp

lemma mkdirs_below:
  assumes "no_links fs cur" and "dots \<notin> set cs" and "mkdirs fs cur cs = (fs', ok)"
    and "\<not> (prefix cur l \<and> prefix l (cur @ cs))"
  shows "fs' l = fs l"
  using assms
proof (induction cs arbitrary: cur fs)
  case (Cons c cs)
  have nl: "no_links fs (cur @ [c])" using no_links_below [OF Cons.prems(1)] by simp
  then have nl': "no_links (fs(cur @ [c] \<mapsto> Directory)) (cur @ [c])" by (auto simp: no_links_def)
  have out: "\<not> (prefix (cur @ [c]) l \<and> prefix l ((cur @ [c]) @ cs))" and ne: "l \<noteq> cur @ [c]"
    using Cons.prems(4) by (auto dest: append_prefixD)
  show ?case
  proof (cases "fs cur = Some Directory")
    case True
    show ?thesis
    proof (cases "fs (cur @ [c]) = None")
      case None: True
      then have m: "mkdirs (fs(cur @ [c] \<mapsto> Directory)) (cur @ [c]) cs = (fs', ok)"
        using Cons.prems(2,3) True by auto
      have "dots \<notin> set cs" using Cons.prems(2) by simp
      from Cons.IH [OF nl' this m out] have "fs' l = (fs(cur @ [c] \<mapsto> Directory)) l" .
      then show ?thesis using ne by simp
    next
      case False
      then show ?thesis using Cons.IH [OF nl _ _ out] Cons.prems True by (auto simp: enter_below)
    qed
  qed (use Cons.prems in simp)
qed simp

lemma enter_mono: "(\<And>l n. fs l = Some n \<Longrightarrow> fs' l = Some n) \<Longrightarrow> fs (cur @ [c]) \<noteq> None \<or> c = dots \<Longrightarrow>
    enter fs' cur c = enter fs cur c"
  by (cases "fs (cur @ [c])") (auto simp: enter_def)

lemma mkdirs_ok_walk:
  assumes "mkdirs fs cur cs = (fs', True)"
  shows "\<exists>d. walk fs' cur cs = Some d \<and> fs' d = Some Directory"
  using assms
proof (induction cs arbitrary: fs cur)
  case (Cons c cs)
  have cur: "fs cur = Some Directory" using Cons.prems by (auto split: if_splits)
  note mono = mkdirs_mono [OF Cons.prems]
  have cur': "fs' cur = Some Directory" by (rule mono [OF cur])
  show ?case
  proof (cases "c \<noteq> dots \<and> fs (cur @ [c]) = None")
    case True
    then have m: "mkdirs (fs(cur @ [c] \<mapsto> Directory)) (cur @ [c]) cs = (fs', True)" using Cons.prems cur by simp
    then have "fs' (cur @ [c]) = Some Directory" using mkdirs_mono [OF m, of "cur @ [c]"] by simp
    then show ?thesis using Cons.IH [OF m] True cur' by (simp add: enter_def)
  next
    case False
    then have "enter fs' cur c = enter fs cur c" by (intro enter_mono mono) auto
    then show ?thesis using Cons.IH Cons.prems cur cur' False by auto
  qed
qed simp

section \<open>Components\<close>

lemma str_split_append_sep: "str_split c (a @ c # b) = str_split c a @ str_split c b"
proof (induction a)
  case (Cons x xs)
  have "str_split c xs \<noteq> []" by (induction xs) (auto split: list.splits)
  then show ?case using Cons by (auto split: list.splits)
qed simp

lemma components_append: "components (a @ CHR ''/'' # b) = components a @ components b"
  by (simp add: components_def str_split_append_sep)

definition is_name :: "string \<Rightarrow> bool" where
  "is_name c \<longleftrightarrow> c \<noteq> '''' \<and> c \<noteq> ''.'' \<and> CHR ''/'' \<notin> set c"

lemma components_name: "is_name c \<Longrightarrow> components c = [c]"
  by (simp add: is_name_def components_def str_split_no_sep)

lemma str_split_chars: "s \<in> set (str_split c p) \<Longrightarrow> c \<notin> set s"
proof (induction c p arbitrary: s rule: str_split.induct)
  case (2 sep c cs)
  then show ?case by (cases "str_split sep cs") (auto split: if_splits)
qed simp

lemma components_names: "c \<in> set (components p) \<Longrightarrow> is_name c"
  by (auto simp: components_def is_name_def dest: str_split_chars)

lemma components_Nil [simp]: "components '''' = []"
  by (simp add: components_def)

lemma components_join: "(\<And>c. c \<in> set cs \<Longrightarrow> is_name c) \<Longrightarrow> components (join_with CHR ''/'' cs) = cs"
proof (induction cs rule: induct_list012)
  case (3 x y zs)
  then show ?case by (simp add: components_append components_name)
qed (simp_all add: components_name)

lemma join_not_absolute: "(\<And>c. c \<in> set cs \<Longrightarrow> is_name c) \<Longrightarrow> \<not> is_absolute (join_with CHR ''/'' cs)"
proof (induction cs rule: induct_list012)
  case (2 x)
  then have "is_name x" by simp
  then show ?case by (cases x) (auto simp: is_absolute_def starts_with_def is_name_def)
next
  case (3 x y zs)
  then have "is_name x" by simp
  then show ?case by (cases x) (auto simp: is_absolute_def starts_with_def is_name_def)
qed (simp add: is_absolute_def starts_with_def)

section \<open>What operations keep\<close>

text \<open>Directories and links stay; so does every way that leads to a directory.\<close>

definition grows :: "fsys \<Rightarrow> fsys \<Rightarrow> bool" where
  "grows fs fs' \<longleftrightarrow> (\<forall>l n. fs l = Some n \<longrightarrow> (\<exists>b m. n = File b m) \<or> fs' l = Some n)"

lemma grows_refl [simp]: "grows fs fs" by (simp add: grows_def)

lemma growsD:
  "grows fs fs' \<Longrightarrow> fs l = Some Directory \<Longrightarrow> fs' l = Some Directory"
  "grows fs fs' \<Longrightarrow> fs l = Some (Symlink t) \<Longrightarrow> fs' l = Some (Symlink t)"
  unfolding grows_def by (metis node.distinct(1), metis node.distinct(5))

lemma grows_trans: "grows fs fs' \<Longrightarrow> grows fs' fs'' \<Longrightarrow> grows fs fs''"
  unfolding grows_def by metis

lemma grows_file: "fs l = None \<or> (\<exists>b m. fs l = Some (File b m)) \<Longrightarrow> grows fs (fs(l \<mapsto> n))"
  by (auto simp: grows_def)

lemma grows_mkdirs: "mkdirs fs cur cs = (fs', ok) \<Longrightarrow> grows fs fs'"
  using mkdirs_mono [of fs cur cs fs' ok] by (auto simp: grows_def)

lemma walk_grows:
  assumes "grows fs fs'" and "walk fs cur cs = Some d" and "fs d = Some Directory"
  shows "walk fs' cur cs = Some d \<and> fs' d = Some Directory"
  using assms(2)
proof (induction cs arbitrary: cur)
  case Nil
  then show ?case using growsD(1) [OF assms(1,3)] assms(3) by simp
next
  case (Cons c cs)
  have cur: "fs cur = Some Directory" "walk fs (enter fs cur c) cs = Some d"
    using Cons.prems by (auto split: if_splits)
  have dir: "fs (enter fs cur c) = Some Directory"
    using cur(2) assms(3) by (cases cs) (auto split: if_splits)
  have "enter fs' cur c = enter fs cur c"
  proof (cases "c = dots")
    case False
    then have n: "fs (cur @ [c]) = Some Directory \<or> (\<exists>t. fs (cur @ [c]) = Some (Symlink t))"
      using dir by (auto simp: enter_def split: option.splits node.splits)
    then have "fs' (cur @ [c]) = fs (cur @ [c])" using growsD [OF assms(1)] by fastforce
    then show ?thesis by (simp add: enter_def)
  qed (simp add: enter_def)
  moreover have "fs' cur = Some Directory" by (rule growsD(1) [OF assms(1) cur(1)])
  ultimately show ?case using Cons.IH [OF cur(2)] by simp
qed

lemma mkdirs_append:
  assumes "walk fs cur xs = Some d" and "fs d = Some Directory"
  shows "mkdirs fs cur (xs @ ys) = mkdirs fs d ys"
  using assms(1)
proof (induction xs arbitrary: cur)
  case (Cons c xs)
  have cur: "fs cur = Some Directory" "walk fs (enter fs cur c) xs = Some d"
    using Cons.prems by (auto split: if_splits)
  have "fs (enter fs cur c) = Some Directory"
    using cur(2) assms(2) by (cases xs) (auto split: if_splits)
  moreover have "c \<noteq> dots \<and> fs (cur @ [c]) = None \<Longrightarrow> enter fs cur c = cur @ [c]" by (simp add: enter_def)
  ultimately have "\<not> (c \<noteq> dots \<and> fs (cur @ [c]) = None)" by force
  then show ?case using Cons.IH [OF cur(2)] cur(1) by auto
qed simp

text \<open>What one operation changes.\<close>

lemma open_truncate_spec:
  assumes "open_truncate os p fs = (fs', r)"
  shows "fs' = fs \<and> r \<noteq> Ok () \<or>
    (\<exists>l m. resolve os fs p = Some l \<and> (fs l = None \<or> (\<exists>b. fs l = Some (File b m))) \<and>
       fs' = fs(l \<mapsto> File [] m) \<and> r = Ok ())"
  using assms by (auto simp: open_truncate_def split: option.splits if_splits node.splits)

lemma write_all_spec:
  assumes "write_all os p bytes fs = (fs', r)"
  shows "fs' = fs \<and> r \<noteq> Ok () \<or>
    (\<exists>l b m. resolve os fs p = Some l \<and> fs l = Some (File b m) \<and> fs' = fs(l \<mapsto> File bytes m) \<and> r = Ok ())"
  using assms by (auto simp: write_all_def split: option.splits if_splits node.splits)

lemma set_mode_spec:
  assumes "set_mode os p mode fs = (fs', r)" and "resolve os fs p = Some l" and "fs l = Some (File b m)"
  shows "fs' = fs \<and> r \<noteq> Ok () \<or> fs' = fs(l \<mapsto> File b mode) \<and> r = Ok ()"
  using assms by (auto simp: set_mode_def at_slash_def split: if_splits)

text \<open>A change below a directory: links stay as they are, and nothing outside it changes.\<close>

definition keeps :: "loc \<Rightarrow> fsys \<Rightarrow> fsys \<Rightarrow> bool" where
  "keeps d fs fs' \<longleftrightarrow> grows fs fs' \<and> (\<forall>l t. fs' l = Some (Symlink t) \<longrightarrow> fs l = Some (Symlink t)) \<and>
     (\<forall>l. \<not> prefix d l \<longrightarrow> fs' l = fs l)"

lemma keeps_refl [simp]: "keeps d fs fs" by (simp add: keeps_def)

lemma keeps_trans: "keeps d fs fs' \<Longrightarrow> keeps d fs' fs'' \<Longrightarrow> keeps d fs fs''"
  unfolding keeps_def using grows_trans by metis

lemma keeps_file: "fs l = None \<or> (\<exists>b m. fs l = Some (File b m)) \<Longrightarrow> prefix d l \<Longrightarrow> keeps d fs (fs(l \<mapsto> File b' m'))"
  by (auto simp: keeps_def grows_file)

text \<open>The directory a path leads to, without links below it.\<close>

definition at_dir :: "os \<Rightarrow> fsys \<Rightarrow> string \<Rightarrow> loc \<Rightarrow> bool" where
  "at_dir os fs p d \<longleftrightarrow> p \<noteq> '''' \<and> walk fs (start_of os p) (components p) = Some d \<and> fs d = Some Directory \<and> no_links fs d"

lemma at_dir_keeps: "at_dir os fs p d \<Longrightarrow> keeps e fs fs' \<Longrightarrow> at_dir os fs' p d"
  using walk_grows [of fs fs'] by (fastforce simp: at_dir_def keeps_def no_links_def)

lemma start_of_append: "p \<noteq> '''' \<Longrightarrow> start_of os (p @ q) = start_of os p"
  by (cases p) (simp_all add: start_of_def is_absolute_def starts_with_def)

lemma resolve_below:
  assumes "at_dir os fs p d" and "dots \<notin> set (components q)" and "resolve os fs (p @ CHR ''/'' # q) = Some l"
  shows "l = d @ components q"
proof -
  have "walk fs d (components q) = Some l"
    using assms(1,3) by (simp add: resolve_def at_dir_def start_of_append components_append walk_append)
  then show ?thesis using walk_below assms(1,2) by (auto simp: at_dir_def)
qed

lemma prefix_next:
  assumes "prefix d l" and "prefix l (d @ c # cs)" and "l \<noteq> d"
  shows "prefix (d @ [c]) l"
proof -
  obtain zs where l: "l = d @ zs" using assms(1) by (auto simp: prefix_def)
  then show ?thesis using assms(2,3) by (cases zs) auto
qed

lemma create_dir_all_below:
  assumes "at_dir os fs p d" and "components q = components p @ c # cs" and "start_of os q = start_of os p"
    and "dots \<notin> set (c # cs)" and "create_dir_all os q fs = (fs', r)"
  shows "keeps (d @ [c]) fs fs'" and "fs l = Some n \<Longrightarrow> fs' l = Some n"
proof -
  have "(fs', r) = (fs, r) \<or> (\<exists>ok. mkdirs fs d (c # cs) = (fs', ok))"
    using assms(1,2,3,5) mkdirs_append [of fs "start_of os p" "components p" d "c # cs"]
    by (auto simp: create_dir_all_def at_dir_def split: if_splits prod.splits)
  then consider "fs' = fs" | ok where "mkdirs fs d (c # cs) = (fs', ok)" by auto
  note cases = this
  show "fs' l = Some n" if "fs l = Some n"
    using cases
  proof cases
    case (2 ok)
    show ?thesis by (rule mkdirs_mono [OF 2 that])
  qed (simp add: that)
  show "keeps (d @ [c]) fs fs'" using cases
  proof cases
    case (2 ok)
    have out: "fs' l = fs l" if "\<not> prefix (d @ [c]) l" for l
    proof (cases "l = d")
      case True
      then show ?thesis using mkdirs_mono [OF 2, of d] assms(1) by (simp add: at_dir_def)
    next
      case False
      then have "\<not> (prefix d l \<and> prefix l (d @ c # cs))" using that prefix_next [of d l c cs] by argo
      then show ?thesis using mkdirs_below [OF _ assms(4) 2] assms(1) by (simp add: at_dir_def)
    qed
    have "fs' l = Some (Symlink t) \<Longrightarrow> fs l = Some (Symlink t)" for l t
      using mkdirs_mono [OF 2, of l] mkdirs_new [OF 2, of l] by (cases "fs l") auto
    then show ?thesis unfolding keeps_def using out grows_mkdirs [OF 2] by blast
  qed simp
qed

text \<open>A change below a directory that leaves every file alone but the one at a given location.\<close>

definition spares :: "loc \<Rightarrow> loc \<Rightarrow> fsys \<Rightarrow> fsys \<Rightarrow> bool" where
  "spares d t fs s \<longleftrightarrow> keeps d fs s \<and> (\<forall>l b m. fs l = Some (File b m) \<longrightarrow> l \<noteq> t \<longrightarrow> s l = Some (File b m))"

lemma spares_refl [simp]: "spares d t fs fs" by (simp add: spares_def)

lemma spares_put:
  assumes "spares d t fs s" and "prefix d t" and "s t = None \<or> (\<exists>b m. s t = Some (File b m))"
  shows "spares d t fs (s(t \<mapsto> File b m))"
  using assms keeps_file [of s t d b m] keeps_trans by (auto simp: spares_def)

lemma spares_ops:
  assumes "spares d t fs s" and "prefix d t" and "\<And>l. resolve os s p = Some l \<Longrightarrow> l = t"
  shows "spares d t fs (fst (open_truncate os p s))" and "spares d t fs (fst (write_all os p bytes s))"
    and "spares d t fs (fst (set_mode os p mode s))"
proof -
  note put = spares_put [OF assms(1,2)]
  show "spares d t fs (fst (open_truncate os p s))"
    using open_truncate_spec [of os p s] assms(1,3) put by (cases "open_truncate os p s") auto
  show "spares d t fs (fst (write_all os p bytes s))"
    using write_all_spec [of os p bytes s] assms(1,3) put by (cases "write_all os p bytes s") auto
  show "spares d t fs (fst (set_mode os p mode s))"
    using assms(1,3) put by (auto simp: set_mode_def split: option.splits node.splits dest!: at_slash_SomeD)
qed

lemma spares_create_dir_all:
  assumes "spares (d @ [c]) t fs s" and "at_dir os s p d" and "components q = components p @ c # cs"
    and "start_of os q = start_of os p" and "dots \<notin> set (c # cs)"
  shows "spares (d @ [c]) t fs (fst (create_dir_all os q s))"
proof -
  obtain s' r where c: "create_dir_all os q s = (s', r)" by fastforce
  note made = create_dir_all_below [OF assms(2-5) c]
  show ?thesis using assms(1) made keeps_trans by (auto simp: spares_def c)
qed

text \<open>Where a path leads does not change when a file is put there.\<close>

lemma walk_put:
  assumes "walk fs cur cs = Some l" and "fs l = None \<or> (\<exists>b m. fs l = Some (File b m))"
  shows "walk (fs(l \<mapsto> File b' m')) cur cs = Some l"
  using assms(1)
proof (induction cs arbitrary: cur)
  case (Cons c cs)
  have cur: "fs cur = Some Directory" "walk fs (enter fs cur c) cs = Some l" using Cons.prems by (auto split: if_splits)
  have "enter (fs(l \<mapsto> File b' m')) cur c = enter fs cur c" using assms(2) by (auto simp: enter_def split: option.splits)
  moreover have "cur \<noteq> l" using cur(1) assms(2) by auto
  ultimately show ?case using Cons.IH [OF cur(2)] cur(1) by (simp add: fun_upd_def)
qed simp

lemma resolve_put:
  "resolve os fs p = Some l \<Longrightarrow> fs l = None \<or> (\<exists>b m. fs l = Some (File b m)) \<Longrightarrow>
     resolve os (fs(l \<mapsto> File b' m')) p = Some l"
  by (auto simp: resolve_def walk_put split: if_splits)

text \<open>Along directories and links that are there, nothing is made.\<close>

lemma mkdirs_walk: "walk fs cur cs = Some d \<Longrightarrow> fs d = Some Directory \<Longrightarrow> mkdirs fs cur cs = (fs, True)"
  using mkdirs_append [of fs cur cs d "[]"] by simp

end
