(* ===== verification/Package_Model.thy ===== *)
theory Package_Model
  imports Wallet_Model File_Model
begin

text \<open>
  Packages (crates/compute/src/package.rs): the formats of their objects with the names they are
  recognised by, packages and their signatures. Strings are ASCII. Bincode is a parameter.
\<close>

section \<open>Runtimes and formats\<close>

datatype lasr_object_runtime =
  RT_None | RT_Bin | RT_Wasm | RT_Node | RT_Bun | RT_Python | RT_Java | RT_Other string

definition runtime_from_str :: "string \<Rightarrow> lasr_object_runtime" where
  "runtime_from_str value =
     (if value = ''bin'' then RT_Bin
      else if value = ''wasm'' then RT_Wasm
      else if value = ''node'' then RT_Node
      else if value = ''bun'' then RT_Bun
      else if value = ''python'' then RT_Python
      else if value = ''java'' then RT_Java
      else RT_None)"

datatype document_format =
  Pdf | Word | Excel | Powerpoint | Zip | Rar | SevenZ | Tar | Gzip | TarGzip

fun document_format_to_string :: "document_format \<Rightarrow> string" where
  "document_format_to_string Pdf = ''pdf''"
| "document_format_to_string Word = ''doc''"
| "document_format_to_string Excel = ''xlsx''"
| "document_format_to_string Powerpoint = ''ppt''"
| "document_format_to_string Zip = ''zip''"
| "document_format_to_string Rar = ''rar''"
| "document_format_to_string SevenZ = ''7z''"
| "document_format_to_string Tar = ''tar''"
| "document_format_to_string Gzip = ''gz''"
| "document_format_to_string TarGzip = ''tar.gz''"

datatype file_format =
  PlainText | Html | Xml | Json | Toml | Yaml | Csv | Markdown | Sql | Cad | Stl | Blender | Obj | Fbx
| Collada | Ply | ThreeDS | Gltf | Glb | FF_Document document_format

fun file_format_to_string :: "file_format \<Rightarrow> string" where
  "file_format_to_string PlainText = ''txt''"
| "file_format_to_string Html = ''html''"
| "file_format_to_string Xml = ''xml''"
| "file_format_to_string Json = ''json''"
| "file_format_to_string Toml = ''toml''"
| "file_format_to_string Yaml = ''yaml''"
| "file_format_to_string Csv = ''csv''"
| "file_format_to_string Markdown = ''md''"
| "file_format_to_string Sql = ''sql''"
| "file_format_to_string Cad = ''dwg''"
| "file_format_to_string Stl = ''stl''"
| "file_format_to_string Blender = ''blend''"
| "file_format_to_string Obj = ''obj''"
| "file_format_to_string Fbx = ''fbx''"
| "file_format_to_string Collada = ''dae''"
| "file_format_to_string Ply = ''ply''"
| "file_format_to_string ThreeDS = ''3ds''"
| "file_format_to_string Gltf = ''.gltf''"
| "file_format_to_string Glb = ''.glb''"
| "file_format_to_string (FF_Document d) = document_format_to_string d"

datatype image_format = Jpeg | Png | Gif | Bmp | Svg | IF_Other string

fun image_format_to_string :: "image_format \<Rightarrow> string" where
  "image_format_to_string Jpeg = ''jpeg''"
| "image_format_to_string Png = ''png''"
| "image_format_to_string Gif = ''gif''"
| "image_format_to_string Bmp = ''bmp''"
| "image_format_to_string Svg = ''svg''"
| "image_format_to_string (IF_Other ext) = ext"

datatype audio_format = Mp3 | Wav | Aac | Flac | AF_Other string

fun audio_format_to_string :: "audio_format \<Rightarrow> string" where
  "audio_format_to_string Mp3 = ''mp3''"
| "audio_format_to_string Wav = ''wav''"
| "audio_format_to_string Aac = ''aac''"
| "audio_format_to_string Flac = ''flac''"
| "audio_format_to_string (AF_Other ext) = ext"

datatype video_format = Mp4 | Avi | Mov | Wmv

fun video_format_to_string :: "video_format \<Rightarrow> string" where
  "video_format_to_string Mp4 = ''mp4''"
| "video_format_to_string Avi = ''avi''"
| "video_format_to_string Mov = ''mov''"
| "video_format_to_string Wmv = ''wmv''"

datatype program_format = Executable | Script string | Lib string

datatype lasr_content_type =
  CT_Document file_format | CT_Image image_format | CT_Audio audio_format | CT_Video video_format
| CT_Program program_format

text \<open>The table that both conversions share, and what each makes of a name that is not in it.\<close>

definition content_types :: "(string \<times> lasr_content_type) list" where
  "content_types =
     [(''txt'', CT_Document PlainText),
      (''html'', CT_Document Html),
      (''xml'', CT_Document Xml),
      (''json'', CT_Document Json),
      (''csv'', CT_Document Csv),
      (''md'', CT_Document Markdown),
      (''sql'', CT_Document Sql),
      (''dwg'', CT_Document Cad),
      (''stl'', CT_Document Stl),
      (''blend'', CT_Document Blender),
      (''obj'', CT_Document Obj),
      (''fbx'', CT_Document Fbx),
      (''dae'', CT_Document Collada),
      (''ply'', CT_Document Ply),
      (''3ds'', CT_Document ThreeDS),
      (''gltf'', CT_Document Gltf),
      (''glb'', CT_Document Glb),
      (''jpeg'', CT_Image Jpeg),
      (''jpg'', CT_Image Jpeg),
      (''png'', CT_Image Png),
      (''gif'', CT_Image Gif),
      (''bmp'', CT_Image Bmp),
      (''svg'', CT_Image Svg),
      (''mp3'', CT_Audio Mp3),
      (''wav'', CT_Audio Wav),
      (''aac'', CT_Audio Aac),
      (''flac'', CT_Audio Flac),
      (''mp4'', CT_Video Mp4),
      (''avi'', CT_Video Avi),
      (''mov'', CT_Video Mov),
      (''wmv'', CT_Video Wmv),
      ('''', CT_Program Executable)]"

definition content_type_from_str :: "string \<Rightarrow> lasr_content_type" where
  "content_type_from_str value =
     (case map_of content_types value of Some ct \<Rightarrow> ct | None \<Rightarrow> CT_Program (Script value))"

text \<open>\<open>Path::extension\<close>: the text after the last dot of the file name, unless the dot starts it.\<close>

definition path_extension :: "string \<Rightarrow> string option" where
  "path_extension p =
     (case rev (components p) of
        [] \<Rightarrow> None
      | f # _ \<Rightarrow>
          (let parts = str_split CHR ''.'' f in
           if f = dots \<or> length parts < 2 \<or> (length parts = 2 \<and> hd parts = '''') then None
           else Some (last parts)))"

definition to_lower :: "char \<Rightarrow> char" where
  "to_lower c =
     (let n = of_char c :: nat in if 65 \<le> n \<and> n \<le> 90 then char_of (n + 32) else c)"

definition content_type_from_path :: "string \<Rightarrow> lasr_content_type" where
  "content_type_from_path p =
     (let extension = map to_lower (case path_extension p of Some e \<Rightarrow> e | None \<Rightarrow> '''') in
      case map_of content_types extension of Some ct \<Rightarrow> ct | None \<Rightarrow> CT_Program (Script extension))"

datatype lasr_package_type =
  PT_Runtime lasr_object_runtime | PT_Program lasr_object_runtime | PT_Content lasr_content_type

definition package_type_from :: "string \<Rightarrow> string \<Rightarrow> lasr_package_type" where
  "package_type_from a b =
     (if a = ''runtime'' then PT_Runtime (runtime_from_str b)
      else if a = ''content'' then PT_Content (content_type_from_str b)
      else PT_Program (runtime_from_str b))"

section \<open>Packages\<close>

record lasr_object_payload =
  object_content_type :: lasr_content_type
  object_path :: string
  object_cid :: string
  object_annotations :: "string \<rightharpoonup> string"

record lasr_object =
  object_payload :: lasr_object_payload
  object_sig :: recoverable_signature

record lasr_package_payload =
  api_version :: "32 word"
  package_version :: "32 word"
  package_name :: string
  package_author :: string
  package_type :: lasr_package_type
  package_objects :: "lasr_object list"
  package_replaces :: "string list"
  package_entrypoint :: string
  package_program_args :: "string list"
  package_annotations :: "string \<rightharpoonup> string"

record lasr_package =
  package_payload :: lasr_package_payload
  package_sig :: recoverable_signature

text \<open>\<open>SignableObject\<close>: the SHA-3 of the bincode form, and its signature; errors are shown as text.\<close>

definition signable_hash ::
    "key_ops \<Rightarrow> ('o \<Rightarrow> (string, u8 list) outcome) \<Rightarrow> 'o \<Rightarrow> (string, u8 list) outcome" where
  "signable_hash ko bincode self = obind (bincode self) (\<lambda>bytes. Ok (ko_sha3 ko bytes))"

definition sign_object ::
    "crypto \<Rightarrow> key_ops \<Rightarrow> (secp_error \<Rightarrow> string) \<Rightarrow> ('o \<Rightarrow> (string, u8 list) outcome) \<Rightarrow> u8 list \<Rightarrow> 'o
       \<Rightarrow> (string, recoverable_signature) outcome" where
  "sign_object cr ko secp_display bincode sk self =
     obind (signable_hash ko bincode self) (\<lambda>bytes.
     obind (map_err secp_display (secp_message cr bytes)) (\<lambda>msg.
     case ko_sign ko sk msg of (v, rs) \<Rightarrow> map_err (\<lambda>_. '''') (sig_from_compact v rs)))"

end
