(* ===== verification/Bundle_Model.thy ===== *)
theory Bundle_Model
  imports Package_Model Executor_Model
begin

text \<open>
  The preparation of a program's container (crates/compute/src/compute.rs apart from
  \<open>run_container\<close>): a package is read from the content store, its objects are written below the
  payload directory, and a container directory with a root file system and a configuration is made
  for it. The content store, the directory copy of \<open>fs_extra\<close>, the container runtime's \<open>spec\<close>
  command and the parsers are parameters (record \<open>compute_env\<close>); the file system is the one of
  \<open>File_Model\<close>. Error texts of these crates are parameters too.
\<close>

section \<open>Images and metadata\<close>

datatype base_image = BI_Wasm | BI_Bin | BI_Python | BI_Node | BI_Bun | BI_Java

fun base_image_from :: "lasr_object_runtime \<Rightarrow> base_image" where
  "base_image_from RT_Bin = BI_Bin"
| "base_image_from RT_Wasm = BI_Wasm"
| "base_image_from RT_Node = BI_Node"
| "base_image_from RT_Python = BI_Python"
| "base_image_from RT_Bun = BI_Bun"
| "base_image_from RT_Java = BI_Java"
| "base_image_from (RT_Other _) = BI_Bin"
| "base_image_from RT_None = BI_Bin"

fun base_image_to_string :: "base_image \<Rightarrow> string" where
  "base_image_to_string BI_Bin = ''bin''"
| "base_image_to_string BI_Wasm = ''wasm''"
| "base_image_to_string BI_Python = ''python''"
| "base_image_to_string BI_Node = ''node''"
| "base_image_to_string BI_Java = ''java''"
| "base_image_to_string BI_Bun = ''bun''"

definition base_image_path :: "base_image \<Rightarrow> string" where
  "base_image_path b = ''./base_image/'' @ base_image_to_string b"

record package_container_metadata =
  md_base_image :: base_image
  md_cid :: string
  md_entrypoint :: string
  md_program_args :: "string list"

section \<open>Errors and parameters\<close>

datatype io_kind = Other | IoTimedOut | NotFound

datatype io_error = IoErr (io_kind: io_kind) (io_text: string)

text \<open>The \<open>Debug\<close> form, which the callers put into their own texts.\<close>

definition debug_io :: "io_error \<Rightarrow> string" where
  "debug_io e =
     ''Custom { kind: '' @ (case io_kind e of Other \<Rightarrow> ''Other'' | IoTimedOut \<Rightarrow> ''TimedOut'' | NotFound \<Rightarrow> ''NotFound'')
       @ '', error: '' @ quoted (io_text e) @ '' }''"

text \<open>An answer of the content store within the three seconds, or none.\<close>

datatype 'a within = In_Time "string + 'a" | Late

record oci_process =
  pr_env :: "string list option"
  pr_args :: "string list option"
  pr_rest :: string

record oci_root =
  rt_path :: string
  rt_readonly :: "bool option"
  rt_rest :: string

record oci_spec =
  sp_process :: "oci_process option"
  sp_root :: "oci_root option"
  sp_rest :: string

record compute_env =
  ce_os :: os
  ce_connect :: "string option \<Rightarrow> string option"
  ce_is_pinned :: "string \<Rightarrow> unit within"
  ce_pin_object :: "string \<Rightarrow> bool \<Rightarrow> unit within"
  ce_read_dag :: "string \<Rightarrow> u8 list within"
  ce_read_object :: "string \<Rightarrow> string + u8 list"
  ce_parse_package :: "u8 list \<Rightarrow> string + lasr_package"
  ce_copy_dir :: "string \<Rightarrow> string \<Rightarrow> fsys \<Rightarrow> unit fs_result"
  ce_runsc_spec :: "string \<Rightarrow> string \<Rightarrow> fsys \<Rightarrow> unit fs_result"
  ce_parse_spec :: "u8 list \<Rightarrow> string + oci_spec"
  ce_print_spec :: "oci_spec \<Rightarrow> string + string"
  ce_default_process :: "string + oci_process"
  ce_default_root :: "string + oci_root"
  ce_read_dir :: "fsys \<Rightarrow> loc \<Rightarrow> string list"
  ce_parse_schema :: "u8 list \<Rightarrow> string + schema_contract"

definition or_err :: "string \<Rightarrow> string + 'a \<Rightarrow> (io_error, 'a) outcome" where
  "or_err msg r = (case r of Inr a \<Rightarrow> Ok a | Inl e \<Rightarrow> Err (IoErr Other (msg @ e)))"

definition fs_err :: "string \<Rightarrow> 'a fs_result \<Rightarrow> (fsys, io_error, 'a) mutres" where
  "fs_err msg r = (fst r, map_err (\<lambda>e. IoErr Other (msg @ e)) (snd r))"

section \<open>The bundler\<close>

record oci_bundler =
  ob_containers :: string
  ob_base_images :: string
  ob_runtime :: string
  ob_payload_path :: string

record oci_bundler_builder =
  bb_containers :: "string option"
  bb_base_images :: "string option"
  bb_runtime :: "string option"
  bb_payload_path :: "string option"

definition default_bundler_builder :: oci_bundler_builder where
  "default_bundler_builder = \<lparr>bb_containers = None, bb_base_images = None, bb_runtime = None, bb_payload_path = None\<rparr>"

definition builder_containers_path ::
    "os \<Rightarrow> string \<Rightarrow> oci_bundler_builder \<Rightarrow> fsys \<Rightarrow> (fsys, io_error, oci_bundler_builder) mutres" where
  "builder_containers_path os p b fs =
     and_then (if path_exists os fs p then (fs, Ok ())
               else fs_err ''failed to create container path: '' (create_dir os p fs)) (\<lambda>fs _.
     (fs, Ok (b\<lparr>bb_containers := Some p\<rparr>)))"

definition builder_base_images_path ::
    "os \<Rightarrow> string \<Rightarrow> oci_bundler_builder \<Rightarrow> fsys \<Rightarrow> (fsys, io_error, oci_bundler_builder) mutres" where
  "builder_base_images_path os p b fs =
     (if path_exists os fs p then (fs, Ok (b\<lparr>bb_base_images := Some p\<rparr>))
      else (fs, Panic ''A base_image filepath containing a busybox rootfs filesystem is necessary for running lasr programs.''))"

definition builder_payload_path ::
    "os \<Rightarrow> string \<Rightarrow> oci_bundler_builder \<Rightarrow> fsys \<Rightarrow> (fsys, io_error, oci_bundler_builder) mutres" where
  "builder_payload_path os p b fs =
     and_then (if path_exists os fs p then (fs, Ok ())
               else fs_err ''failed to create payload path: '' (create_dir os p fs)) (\<lambda>fs _.
     (fs, Ok (b\<lparr>bb_payload_path := Some p\<rparr>)))"

definition builder_runtime_path ::
    "os \<Rightarrow> string \<Rightarrow> bool \<Rightarrow> oci_bundler_builder \<Rightarrow> fsys \<Rightarrow> (fsys, io_error, oci_bundler_builder) mutres" where
  "builder_runtime_path os r do_check b fs =
     (if do_check \<and> \<not> path_exists os fs r
      then (fs, Err (IoErr Other ''The given path to 'runsc' binary does not exist.''))
      else (fs, Ok (b\<lparr>bb_runtime := Some r\<rparr>)))"

definition bundler_build :: "oci_bundler_builder \<Rightarrow> (io_error, oci_bundler) outcome" where
  "bundler_build b =
     obind (or_panic ''OciBundler missing containers path'' (bb_containers b)) (\<lambda>c.
     obind (or_panic ''OciBundler missing base image path'' (bb_base_images b)) (\<lambda>i.
     obind (or_panic ''OciBundler missing runsc runtime path, check runsc installation'' (bb_runtime b)) (\<lambda>r.
     obind (or_panic ''OciBundler missing payload path'' (bb_payload_path b)) (\<lambda>p.
     Ok \<lparr>ob_containers = c, ob_base_images = i, ob_runtime = r, ob_payload_path = p\<rparr>))))"

definition get_container_path :: "oci_bundler \<Rightarrow> string \<Rightarrow> string" where
  "get_container_path self content_id = path_join (ob_containers self) content_id"

definition container_root_path :: "string \<Rightarrow> string" where
  "container_root_path container_path = path_join container_path ''rootfs''"

definition get_payload_path :: "oci_bundler \<Rightarrow> string \<Rightarrow> string" where
  "get_payload_path self content_id = path_join (ob_payload_path self) content_id"

definition link_dir :: "os \<Rightarrow> string \<Rightarrow> string \<Rightarrow> fsys \<Rightarrow> (fsys, io_error, unit) mutres" where
  "link_dir os src dst fs =
     (case canonicalize os src fs of
        Ok link_path \<Rightarrow> fs_err (''Failed to symlink '' @ quoted dst @ '': '') (symlink os link_path dst fs)
      | Err e \<Rightarrow> (fs, Err (IoErr Other (''Error canonicalizing path '' @ quoted src @ '': '' @ e)))
      | Panic p \<Rightarrow> (fs, Panic p))"

definition copy_dir :: "compute_env \<Rightarrow> string \<Rightarrow> string \<Rightarrow> fsys \<Rightarrow> (fsys, io_error, unit) mutres" where
  "copy_dir env src dst fs = fs_err ''Failed to copy src dir to dst: '' (ce_copy_dir env src dst fs)"

text \<open>The root of a container is a link to the root of its base image.\<close>

definition bundler_bundle ::
    "compute_env \<Rightarrow> oci_bundler \<Rightarrow> string \<Rightarrow> package_container_metadata \<Rightarrow> fsys \<Rightarrow> (fsys, io_error, unit) mutres" where
  "bundler_bundle env self content_id md fs =
     (let os = ce_os env; base_path = base_image_path (md_base_image md);
          container_path = get_container_path self content_id;
          root = container_root_path container_path in
      and_then (if path_exists os fs container_path then (fs, Ok ())
                else fs_err (''Error creating container path for '' @ quoted content_id @ '': '')
                       (create_dir_all os container_path fs)) (\<lambda>fs _.
      if path_exists os fs root then (fs, Ok ())
      else case link_dir os (path_join base_path ''rootfs'') root fs of
             (fs, r) \<Rightarrow> (fs, map_err (\<lambda>e. IoErr Other
               (''Error creating container root path for '' @ quoted content_id @ '': '' @ debug_io e)) r)))"

text \<open>A copy that fails is only logged.\<close>

definition bundler_add_payload :: "compute_env \<Rightarrow> oci_bundler \<Rightarrow> string \<Rightarrow> fsys \<Rightarrow> (fsys, io_error, unit) mutres" where
  "bundler_add_payload env self content_id fs =
     (let container_root = container_root_path (get_container_path self content_id);
          payload_path = get_payload_path self content_id in
      case copy_dir env payload_path container_root fs of
        (fs, Panic p) \<Rightarrow> (fs, Panic p)
      | (fs, _) \<Rightarrow> (fs, Ok ()))"

text \<open>Only a command that cannot be started is an error; its exit status is not looked at.\<close>

definition bundler_base_spec :: "compute_env \<Rightarrow> oci_bundler \<Rightarrow> string \<Rightarrow> fsys \<Rightarrow> (fsys, io_error, unit) mutres" where
  "bundler_base_spec env self content_id fs =
     fs_err ''Error establishing runtime for container: ''
       (ce_runsc_spec env (ob_runtime self) (get_container_path self content_id) fs)"

definition spec_args :: "base_image \<Rightarrow> string \<Rightarrow> string \<Rightarrow> string list option \<Rightarrow> string list" where
  "spec_args img content_id entrypoint program_args =
     (case img of
        BI_Node \<Rightarrow> [''node'', ''/'' @ content_id @ ''/'' @ content_id @ ''/'' @ entrypoint]
      | _ \<Rightarrow> (''/'' @ content_id @ ''/'' @ content_id @ ''/'' @ entrypoint @ ''/'')
              # (case program_args of Some pargs \<Rightarrow> pargs | None \<Rightarrow> []))"

definition spec_env :: "base_image \<Rightarrow> string list" where
  "spec_env img =
     (case img of BI_Node \<Rightarrow> [''PATH=/usr/local/bin'', ''TERM=xterm''] | _ \<Rightarrow> [''PATH=/bin'', ''TERM=xterm''])"

definition fs_write :: "os \<Rightarrow> string \<Rightarrow> u8 list \<Rightarrow> fsys \<Rightarrow> unit fs_result" where
  "fs_write os p bytes fs = and_then (open_truncate os p fs) (\<lambda>fs _. write_all os p bytes fs)"

definition bundler_customize_spec ::
    "compute_env \<Rightarrow> oci_bundler \<Rightarrow> string \<Rightarrow> package_container_metadata \<Rightarrow> string \<Rightarrow> string list option
       \<Rightarrow> fsys \<Rightarrow> (fsys, io_error, unit) mutres" where
  "bundler_customize_spec env self content_id md entrypoint program_args fs =
     (let os = ce_os env; config_path = path_join (get_container_path self content_id) ''config.json'';
          img = md_base_image md;
          prepared =
            obind (case read_file os config_path fs of
                     Ok bytes \<Rightarrow> or_err (''Failed to load spec config from '' @ quoted config_path @ '': '') (ce_parse_spec env bytes)
                   | Err e \<Rightarrow> Err (IoErr Other (''Failed to load spec config from '' @ quoted config_path @ '': '' @ e))
                   | Panic p \<Rightarrow> Panic p) (\<lambda>spec.
            obind (case sp_process spec of
                     Some gen_proc \<Rightarrow> Ok gen_proc
                   | None \<Rightarrow> or_err ''Error while building default Oci Process: '' (ce_default_process env)) (\<lambda>pr.
            obind (case sp_root spec of
                     Some genroot \<Rightarrow> Ok genroot
                   | None \<Rightarrow> or_err ''Error while building default Oci Root: '' (ce_default_root env)) (\<lambda>rootfs.
            or_err ''Failed to serialize Oci spec: ''
              (ce_print_spec env (spec
                \<lparr>sp_process := Some (pr\<lparr>pr_env := Some (spec_env img),
                                      pr_args := Some (spec_args img content_id entrypoint program_args)\<rparr>),
                 sp_root := Some (rootfs\<lparr>rt_path := ''rootfs'', rt_readonly := Some False\<rparr>)\<rparr>)))))
      in and_then (fs, prepared) (\<lambda>fs text.
         fs_err (''Failed to write Oci spec to '' @ quoted config_path @ '': '')
           (fs_write os config_path (str_bytes text) fs)))"

text \<open>The first file of the payload directory itself whose name starts with \<open>schema\<close>.\<close>

definition get_schema_path :: "compute_env \<Rightarrow> string \<Rightarrow> fsys \<Rightarrow> string option" where
  "get_schema_path env payload_path fs =
     (case resolve (ce_os env) fs payload_path of
        Some l \<Rightarrow>
          if fs l \<noteq> Some Directory \<or> os_refuses (ce_os env) FC_ReadDir payload_path then None
          else List.find (\<lambda>p. is_file (ce_os env) fs p)
                 (map (path_join payload_path) (filter (\<lambda>f. prefix ''schema'' f) (ce_read_dir env fs l)))
      | None \<Rightarrow> None)"

definition get_program_schema :: "compute_env \<Rightarrow> oci_bundler \<Rightarrow> string \<Rightarrow> fsys \<Rightarrow> (io_error, schema_contract) outcome" where
  "get_program_schema env self content_id fs =
     obind (ok_or (get_schema_path env (get_payload_path self content_id) fs) (IoErr Other ''unable to find schema'')) (\<lambda>schema_path.
     obind (map_err (\<lambda>e. IoErr Other (''Failed to open '' @ schema_path @ '': '' @ e)) (read_file (ce_os env) schema_path fs)) (\<lambda>bytes.
     or_err ''Error: compute.rs: 328: unable to parse schema file '' (ce_parse_schema env bytes)))"

section \<open>The manager\<close>

record oci_manager =
  om_bundler :: oci_bundler
  om_store :: "string option"

definition try_get_store :: "compute_env \<Rightarrow> oci_manager \<Rightarrow> (io_error, unit) outcome" where
  "try_get_store env self =
     (case ce_connect env (om_store self) of
        None \<Rightarrow> Ok ()
      | Some e \<Rightarrow> Err (IoErr Other (case om_store self of
          Some addr \<Rightarrow> ''Error aquiring Web3Store for '' @ addr @ '': '' @ e
        | None \<Rightarrow> ''Error aquiring local Web3Store: '' @ e)))"

definition in_time :: "string \<Rightarrow> string \<Rightarrow> 'a within \<Rightarrow> (io_error, 'a) outcome" where
  "in_time failed late r =
     (case r of
        In_Time (Inr a) \<Rightarrow> Ok a
      | In_Time (Inl e) \<Rightarrow> Err (IoErr Other (failed @ e))
      | Late \<Rightarrow> Err (IoErr IoTimedOut late))"

definition check_pinned_status :: "compute_env \<Rightarrow> oci_manager \<Rightarrow> string \<Rightarrow> (io_error, unit) outcome" where
  "check_pinned_status env self content_id =
     obind (try_get_store env self) (\<lambda>_.
     in_time (''Error checking pinned status for '' @ content_id @ '': '') ''Timed out checking if content is pinned''
       (ce_is_pinned env content_id))"

definition pin_object :: "compute_env \<Rightarrow> oci_manager \<Rightarrow> string \<Rightarrow> bool \<Rightarrow> (io_error, unit) outcome" where
  "pin_object env self content_id recursive =
     obind (try_get_store env self) (\<lambda>_.
     in_time (''Error pinning '' @ content_id @ '': '') ''Timed out pinning object in IPFS''
       (ce_pin_object env content_id recursive))"

definition unwrap_or :: "'a option \<Rightarrow> 'a \<Rightarrow> 'a" where
  "unwrap_or x d = (case x of Some a \<Rightarrow> a | None \<Rightarrow> d)"

text \<open>Where an object goes below the package directory, and whether it is made executable.\<close>

definition strip_object_path :: "string \<Rightarrow> string" where
  "strip_object_path p =
     (let object_path = unwrap_or (strip_prefix ''./payload/'' p) p in
      if object_path = p then unwrap_or (strip_prefix ''./'' p) p else object_path)"

definition object_filepath :: "string \<Rightarrow> lasr_object \<Rightarrow> string" where
  "object_filepath package_dir obj =
     package_dir @ ''/'' @ strip_object_path (object_path (object_payload obj))"

fun object_exec :: "lasr_content_type \<Rightarrow> bool" where
  "object_exec (CT_Program Executable) = True"
| "object_exec (CT_Program (Script _)) = True"
| "object_exec (CT_Program (Lib _)) = False"
| "object_exec (CT_Document _) = False"
| "object_exec (CT_Image _) = False"
| "object_exec (CT_Audio _) = False"
| "object_exec (CT_Video _) = False"

definition path_parent :: "string \<Rightarrow> string option" where
  "path_parent p =
     (if components p = [] \<and> (p = '''' \<or> is_absolute p) then None
      else Some ((if is_absolute p then ''/'' else '''') @ join_with CHR ''/'' (butlast (components p))))"

definition write_object_file :: "compute_env \<Rightarrow> string \<Rightarrow> lasr_object \<Rightarrow> fsys \<Rightarrow> (fsys, io_error, unit) mutres" where
  "write_object_file env package_dir obj fs =
     (let os = ce_os env; filepath = object_filepath package_dir obj in
      and_then (fs, or_err ''Failed to read for object from Web3Store: ''
                      (ce_read_object env (object_cid (object_payload obj)))) (\<lambda>fs object_data.
      and_then (case path_parent filepath of
                  None \<Rightarrow> (fs, Ok ())
                | Some parent \<Rightarrow>
                    fs_err (''Error creating object filepath at '' @ filepath @ '': '') (create_dir_all os parent fs)) (\<lambda>fs _.
      and_then (fs_err (''Error creating object file in '' @ filepath @ '': '') (open_truncate os filepath fs)) (\<lambda>fs _.
      and_then (fs_err ''Error writing to object file '' (write_all os filepath object_data fs)) (\<lambda>fs _.
      if object_exec (object_content_type (object_payload obj)) then
        and_then (fs, map_err (\<lambda>e. IoErr Other (''Failed to query files in '' @ quoted filepath @ '': '' @ e))
                        (metadata_of os filepath fs)) (\<lambda>fs _.
        fs_err (''Error setting permissions on files in '' @ quoted filepath @ '': '') (set_mode os filepath 493 fs))
      else (fs, Ok ()))))))"

definition package_dir_of :: "oci_manager \<Rightarrow> string \<Rightarrow> string" where
  "package_dir_of self cid = get_payload_path (om_bundler self) cid @ ''/'' @ cid"

text \<open>The signatures of the package and of its objects are not looked at.\<close>

definition create_payload_package ::
    "compute_env \<Rightarrow> oci_manager \<Rightarrow> string \<Rightarrow> fsys \<Rightarrow> (fsys, io_error, package_container_metadata option) mutres" where
  "create_payload_package env self cid fs =
     (let os = ce_os env; package_dir = package_dir_of self cid; metadata_path = package_dir @ ''/metadata.json'' in
      and_then (fs, map_err (\<lambda>e. IoErr Other (''Failed to get Web3Store: '' @ debug_io e)) (try_get_store env self)) (\<lambda>fs _.
      and_then (fs, in_time ''Failure to read DAG from Web3Store: '' ''Timed out reading from IPFS'' (ce_read_dag env cid)) (\<lambda>fs package_data.
      and_then (fs_err (''Error creating payload directory for '' @ cid @ '' in path '' @ package_dir @ '': '')
                  (create_dir_all os package_dir fs)) (\<lambda>fs _.
      and_then (fs, or_err ''Error deserializing package from DAG: '' (ce_parse_package env package_data)) (\<lambda>fs package.
      let container_metadata =
            (case package_type (package_payload package) of
               PT_Program runtime \<Rightarrow> Some
                 \<lparr>md_base_image = base_image_from runtime, md_cid = cid,
                  md_entrypoint = package_entrypoint (package_payload package),
                  md_program_args = package_program_args (package_payload package)\<rparr>
             | _ \<Rightarrow> None) in
      and_then (fs_err (''Error creating payload metadata directory in path '' @ package_dir @ '': '')
                  (open_truncate os metadata_path fs)) (\<lambda>fs _.
      and_then (fs_err ''Error writing to package metadata file '' (write_all os metadata_path package_data fs)) (\<lambda>fs _.
      and_then (for_each (write_object_file env package_dir) (package_objects (package_payload package)) fs) (\<lambda>fs _.
      (fs, Ok container_metadata)))))))))"

definition map_error :: "(io_error \<Rightarrow> io_error) \<Rightarrow> (fsys, io_error, 'a) mutres \<Rightarrow> (fsys, io_error, 'a) mutres" where
  "map_error f r = (fst r, map_err f (snd r))"

definition oci_bundle :: "compute_env \<Rightarrow> oci_manager \<Rightarrow> string \<Rightarrow> fsys \<Rightarrow> (fsys, io_error, unit) mutres" where
  "oci_bundle env self cid fs =
     (let b = om_bundler self in
      and_then (map_error (\<lambda>e. IoErr Other (''Error creating payload for '' @ cid @ '': '' @ debug_io e))
                  (create_payload_package env self cid fs)) (\<lambda>fs container_metadata.
      case container_metadata of
        None \<Rightarrow> (fs, Err (IoErr NotFound ''BaseImage not found, unsuported runtime or content type''))
      | Some md \<Rightarrow>
          and_then (map_error (\<lambda>e. IoErr Other (''Error building container bundle for '' @ cid @ '': '' @ debug_io e))
                      (bundler_bundle env b cid md fs)) (\<lambda>fs _.
          and_then (map_error (\<lambda>e. IoErr Other (''Failed to add payload for '' @ cid @ '': '' @ debug_io e))
                      (bundler_add_payload env b cid fs)) (\<lambda>fs _.
          and_then (bundler_base_spec env b cid fs) (\<lambda>fs _.
          map_error (\<lambda>e. IoErr Other (''Error customizing container configuration: '' @ debug_io e))
            (bundler_customize_spec env b cid md (md_entrypoint md)
               (if md_program_args md = [] then None else Some (md_program_args md)) fs))))))"

end
