(* ===== verification/Bundle_Theorems.thy ===== *)
theory Bundle_Theorems
  imports Bundle_Model
begin

text \<open>
  What the preparation of a container does to the file system: where the objects of a package
  end up, what is left alone, and what the containers of different programs share.
\<close>

lemma and_then_inv_Ok:
  assumes "P (fst m)" and "\<And>s a. m = (s, Ok a) \<Longrightarrow> P s \<Longrightarrow> P (fst (f s a))"
  shows "P (fst (and_then m f))"
  using assms by (cases m; cases "snd m") auto

lemma fs_err_Ok: "fs_err msg r = (s, Ok a) \<longleftrightarrow> r = (s, Ok a)"
  by (cases r; cases "snd r") (auto simp: fs_err_def)

lemma fst_fs_err: "fst (fs_err msg r) = fst r"
  by (simp add: fs_err_def)

lemma or_err_Ok: "or_err msg r = Ok a \<longleftrightarrow> r = Inr a"
  by (auto simp: or_err_def split: sum.split)

lemma in_time_Ok: "in_time failed late r = Ok a \<longleftrightarrow> r = In_Time (Inr a)"
  by (auto simp: in_time_def split: within.split sum.split)

lemma map_error_Ok: "map_error f r = (s, Ok a) \<longleftrightarrow> r = (s, Ok a)"
  by (cases r; cases "snd r") (auto simp: map_error_def)

lemmas io_simps = fs_err_Ok or_err_Ok in_time_Ok map_error_Ok

section \<open>One object\<close>

lemma components_parent:
  assumes "components p \<noteq> []"
  shows "\<exists>q. path_parent p = Some q \<and> components q = butlast (components p) \<and> (q \<noteq> '''' \<longrightarrow> start_of os q = start_of os p)"
proof -
  let ?j = "join_with CHR ''/'' (butlast (components p))"
  have names: "is_name c" if "c \<in> set (butlast (components p))" for c
    using in_set_butlastD [OF that] by (rule components_names)
  have c: "components ?j = butlast (components p)" using components_join [OF names] by simp
  have "components (CHR ''/'' # ?j) = butlast (components p)"
    using components_append [of "''''" ?j] c by simp
  then show ?thesis
    using assms c join_not_absolute [OF names]
    by (auto simp: path_parent_def start_of_def is_absolute_def starts_with_def)
qed

lemma parent_below:
  assumes "fp = pp @ CHR ''/'' # q" and "at_dir os fs pp d" and "components q = c # c' # cs"
  obtains r where "path_parent fp = Some r" and "components r = components pp @ c # butlast (c' # cs)"
    and "start_of os r = start_of os pp"
proof -
  have cfp: "components fp = components pp @ c # c' # cs" by (simp add: assms(1,3) components_append)
  obtain r where r: "path_parent fp = Some r" "components r = butlast (components fp)"
      "r \<noteq> '''' \<longrightarrow> start_of os r = start_of os fp"
    using components_parent [of fp os] cfp by auto
  then have "components r = components pp @ c # butlast (c' # cs)" by (simp add: cfp butlast_append)
  moreover from this have "r \<noteq> ''''" by auto
  moreover have "start_of os fp = start_of os pp" using assms(1,2) by (simp add: at_dir_def start_of_append)
  ultimately show thesis using r that by simp
qed

definition object_names :: "lasr_object \<Rightarrow> string list" where
  "object_names obj = components (strip_object_path (object_path (object_payload obj)))"

text \<open>
  The file of an object: nothing changes outside the directory of the package, no other file
  changes, and on success the object's bytes are where its path says.
\<close>

lemma write_object_file_spec:
  assumes "at_dir os fs pp d" and "os = ce_os env" and "is_name cid" and "cid \<noteq> dots"
    and "package_dir = pp @ CHR ''/'' # cid @ CHR ''/'' # cid"
    and "cs = object_names obj" and "dots \<notin> set cs"
    and "write_object_file env package_dir obj fs = (fs', r)"
  shows "keeps (d @ [cid]) fs fs'"
    and "fs l = Some (File b m) \<Longrightarrow> l \<noteq> d @ cid # cid # cs \<Longrightarrow> fs' l = Some (File b m)"
    and "r = Ok () \<Longrightarrow> \<exists>bytes m. ce_read_object env (object_cid (object_payload obj)) = Inr bytes \<and>
           fs' (d @ cid # cid # cs) = Some (File bytes m) \<and>
           (object_exec (object_content_type (object_payload obj)) \<longrightarrow> m = 493)"
proof -
  define t where "t = d @ cid # cid # cs"
  define fp where "fp = object_filepath package_dir obj"
  let ?ok = "spares (d @ [cid]) t fs"
  have fp: "fp = pp @ CHR ''/'' # (cid @ CHR ''/'' # cid @ CHR ''/'' # strip_object_path (object_path (object_payload obj)))"
    by (simp add: fp_def object_filepath_def assms(5))
  have comps: "components (cid @ CHR ''/'' # cid @ CHR ''/'' # strip_object_path (object_path (object_payload obj))) = cid # cid # cs"
    using assms(3) by (simp add: components_append components_name assms(6) object_names_def)
  have dir: "at_dir os s pp d" if "?ok s" for s using that assms(1) at_dir_keeps by (auto simp: spares_def)
  have loc: "l = t" if "?ok s" "resolve os s fp = Some l" for s l
    using resolve_below [OF dir [OF that(1)] _ that(2) [unfolded fp]] assms(4,7) by (simp add: comps t_def)
  have below: "prefix (d @ [cid]) t" by (simp add: t_def)
  have ops: "?ok (fst (open_truncate os fp s))" "?ok (fst (write_all os fp bytes s))" "?ok (fst (set_mode os fp mode s))"
    if "?ok s" for s bytes mode
    using spares_ops [OF that below loc [OF that]] by blast+
  obtain q where q: "path_parent fp = Some q" "components q = components pp @ cid # butlast (cid # cs)"
      "start_of os q = start_of os pp"
    using parent_below [OF fp assms(1) comps] .
  have nd: "dots \<notin> set (cid # butlast (cid # cs))" using assms(4,7) by (auto dest: in_set_butlastD)
  have made: "?ok (fst (create_dir_all os q s))" if "?ok s" for s
    by (rule spares_create_dir_all [OF that dir [OF that] q(2,3) nd])
  have branch: "?ok (fst x) \<Longrightarrow> ?ok (fst y) \<Longrightarrow> ?ok (fst (if c then x else y))"
    for c and x y :: "(fsys, io_error, unit) mutres" by simp
  have "?ok (fst (write_object_file env package_dir obj fs))"
    unfolding write_object_file_def Let_def fp_def [symmetric] assms(2) [symmetric] q(1) option.case
    by (intro and_then_inv [where P = ?ok] branch) (simp_all add: fs_err_def made ops)
  then have "?ok fs'" using assms(8) by simp
  then show "keeps (d @ [cid]) fs fs'"
    and "fs l = Some (File b m) \<Longrightarrow> l \<noteq> d @ cid # cid # cs \<Longrightarrow> fs' l = Some (File b m)"
    by (auto simp: spares_def t_def)
  assume "r = Ok ()"
  then obtain bytes s1 s2 s3 where bytes: "ce_read_object env (object_cid (object_payload obj)) = Inr bytes"
      and s1: "create_dir_all os q fs = (s1, Ok ())" and s2: "open_truncate os fp s1 = (s2, Ok ())"
      and s3: "write_all os fp bytes s2 = (s3, Ok ())"
      and s4: "if object_exec (object_content_type (object_payload obj)) then set_mode os fp 493 s3 = (fs', Ok ()) else fs' = s3"
    using assms(8)
    unfolding write_object_file_def Let_def fp_def [symmetric] assms(2) [symmetric] q(1) option.case
    by (auto simp: outcome_simps io_simps split: if_splits)
  have ok1: "?ok s1" using made [OF spares_refl] s1 by simp
  have ok2: "?ok s2" using ops(1) [OF ok1] s2 by simp
  have ok3: "?ok s3" using ops(2) [OF ok2, of bytes] s3 by simp
  obtain m where m: "s3 t = Some (File bytes m)"
    using write_all_spec [OF s3] loc [OF ok2] by auto
  show "\<exists>bytes m. ce_read_object env (object_cid (object_payload obj)) = Inr bytes \<and>
      fs' (d @ cid # cid # cs) = Some (File bytes m) \<and> (object_exec (object_content_type (object_payload obj)) \<longrightarrow> m = 493)"
  proof (cases "object_exec (object_content_type (object_payload obj))")
    case True
    then have s4: "set_mode os fp 493 s3 = (fs', Ok ())" using s4 by simp
    then have "resolve os s3 fp = Some t" using loc [OF ok3] by (auto simp: set_mode_def split: if_splits option.splits)
    then show ?thesis using set_mode_spec [OF s4 _ m] bytes True by (auto simp: t_def)
  qed (use s4 m bytes in \<open>auto simp: t_def\<close>)
qed


section \<open>A package\<close>

text \<open>An object that no later object of the package overwrites is found at its place.\<close>

definition unpacked :: "compute_env \<Rightarrow> loc \<Rightarrow> lasr_object \<Rightarrow> fsys \<Rightarrow> bool" where
  "unpacked env d obj fs \<longleftrightarrow>
     (\<exists>bytes m. ce_read_object env (object_cid (object_payload obj)) = Inr bytes \<and>
        fs (d @ object_names obj) = Some (File bytes m) \<and>
        (object_exec (object_content_type (object_payload obj)) \<longrightarrow> m = 493))"

lemma write_objects_spec:
  assumes "at_dir (ce_os env) fs pp d" and "is_name cid" and "cid \<noteq> dots"
    and "package_dir = pp @ CHR ''/'' # cid @ CHR ''/'' # cid"
    and "\<forall>obj\<in>set objs. dots \<notin> set (object_names obj)"
    and "for_each (write_object_file env package_dir) objs fs = (fs', r)"
  shows "keeps (d @ [cid]) fs fs' \<and>
    (\<forall>l b m. fs l = Some (File b m) \<longrightarrow> l \<notin> (\<lambda>obj. d @ cid # cid # object_names obj) ` set objs \<longrightarrow>
       fs' l = Some (File b m)) \<and>
    (r = Ok () \<longrightarrow> (\<forall>xs obj ys. objs = xs @ obj # ys \<longrightarrow> object_names obj \<notin> object_names ` set ys \<longrightarrow>
       unpacked env (d @ [cid, cid]) obj fs'))"
  using assms(1,5,6)
proof (induction objs arbitrary: fs)
  case (Cons x objs)
  let ?w = "write_object_file env package_dir"
  obtain s r1 where x: "?w x fs = (s, r1)" by fastforce
  have nx: "dots \<notin> set (object_names x)" using Cons.prems(2) by simp
  note one = write_object_file_spec [OF Cons.prems(1) refl assms(2,3,4) refl nx x]
  show ?case
  proof (cases r1)
    case (Ok u)
    then have rest: "for_each ?w objs s = (fs', r)" using Cons.prems(3) x by simp
    have dir: "at_dir (ce_os env) s pp d" by (rule at_dir_keeps [OF Cons.prems(1) one(1)])
    have "\<forall>obj\<in>set objs. dots \<notin> set (object_names obj)" using Cons.prems(2) by simp
    note IH = Cons.IH [OF dir this rest]
    note files = IH [THEN conjunct2, THEN conjunct1, rule_format]
    note objects = IH [THEN conjunct2, THEN conjunct2, rule_format]
    have here: "unpacked env (d @ [cid, cid]) x fs'" if "object_names x \<notin> object_names ` set objs"
    proof -
      from one(3) Ok obtain bytes m where b: "ce_read_object env (object_cid (object_payload x)) = Inr bytes"
          "s (d @ cid # cid # object_names x) = Some (File bytes m)"
          "object_exec (object_content_type (object_payload x)) \<longrightarrow> m = 493" by auto
      moreover have "d @ cid # cid # object_names x \<notin> (\<lambda>obj. d @ cid # cid # object_names obj) ` set objs"
        using that by auto
      then have "fs' (d @ cid # cid # object_names x) = Some (File bytes m)" by (rule files [OF b(2)])
      ultimately show ?thesis by (auto simp: unpacked_def)
    qed
    have "unpacked env (d @ [cid, cid]) obj fs'"
      if "r = Ok ()" "x # objs = xs @ obj # ys" "object_names obj \<notin> object_names ` set ys" for xs obj ys
      using here objects that by (cases xs) auto
    moreover have "fs' l = Some (File b m)" if "fs l = Some (File b m)"
        "l \<notin> (\<lambda>obj. d @ cid # cid # object_names obj) ` set (x # objs)" for l b m
      using one(2) [OF that(1)] files that(2) by auto
    ultimately show ?thesis using keeps_trans [OF one(1) IH [THEN conjunct1]] by blast
  qed (use one Cons.prems(3) x in auto)
qed auto

text \<open>The package directory, and the metadata file that is written first.\<close>

lemma package_dir_below:
  assumes "at_dir os fs (ob_payload_path (om_bundler self)) d" and "\<not> ends_with CHR ''/'' (ob_payload_path (om_bundler self))"
    and "is_name cid"
  shows "package_dir_of self cid = ob_payload_path (om_bundler self) @ CHR ''/'' # cid @ CHR ''/'' # cid"
proof -
  have "\<not> is_absolute cid" using assms(3) by (cases cid) (auto simp: is_name_def is_absolute_def starts_with_def)
  then show ?thesis
    using assms(1,2) by (simp add: package_dir_of_def get_payload_path_def path_join_def at_dir_def)
qed

lemma metadata_written:
  assumes "at_dir os fs pp d" and "is_name cid" and "cid \<noteq> dots" and "t = d @ [cid, cid, ''metadata.json'']"
    and "package_dir = pp @ CHR ''/'' # cid @ CHR ''/'' # cid" and "metadata_path = package_dir @ ''/metadata.json''"
  shows "spares (d @ [cid]) t fs s \<Longrightarrow> spares (d @ [cid]) t fs (fst (create_dir_all os package_dir s))"
    and "spares (d @ [cid]) t fs s \<Longrightarrow> spares (d @ [cid]) t fs (fst (open_truncate os metadata_path s))"
    and "spares (d @ [cid]) t fs s \<Longrightarrow> spares (d @ [cid]) t fs (fst (write_all os metadata_path bytes s))"
    and "spares (d @ [cid]) t fs s \<Longrightarrow> write_all os metadata_path bytes s = (s', Ok ()) \<Longrightarrow> \<exists>m. s' t = Some (File bytes m)"
proof -
  let ?ok = "spares (d @ [cid]) t fs"
  have meta: "is_name ''metadata.json''" "''metadata.json'' \<noteq> dots" by (simp_all add: is_name_def dots_def)
  have mp: "metadata_path = pp @ CHR ''/'' # (cid @ CHR ''/'' # cid @ CHR ''/'' # ''metadata.json'')"
    by (simp add: assms(5,6))
  have comps: "components (cid @ CHR ''/'' # cid @ CHR ''/'' # ''metadata.json'') = [cid, cid, ''metadata.json'']"
    by (simp only: components_append components_name [OF assms(2)] components_name [OF meta(1)] append.simps)
  have pd: "components package_dir = components pp @ cid # [cid]" "start_of os package_dir = start_of os pp"
    using assms(1) by (simp_all add: assms(5) components_append components_name [OF assms(2)] start_of_append at_dir_def)
  have dir: "at_dir os s pp d" if "?ok s" for s using that assms(1) at_dir_keeps by (auto simp: spares_def)
  have loc: "l = t" if "?ok s" "resolve os s metadata_path = Some l" for s l
    using resolve_below [OF dir [OF that(1)] _ that(2) [unfolded mp]] assms(3) meta(2)
    by (simp only: comps) (simp add: assms(4))
  have below: "prefix (d @ [cid]) t" by (simp add: assms(4))
  show "?ok (fst (create_dir_all os package_dir s))" if "?ok s"
    by (rule spares_create_dir_all [OF that dir [OF that] pd]) (use assms(3) in simp)
  show "?ok (fst (open_truncate os metadata_path s))" "?ok (fst (write_all os metadata_path bytes s))" if "?ok s"
    using spares_ops [OF that below loc [OF that]] by blast+
  show "\<exists>m. s' t = Some (File bytes m)" if "?ok s" "write_all os metadata_path bytes s = (s', Ok ())"
    using write_all_spec [OF that(2)] loc [OF that(1)] by auto
qed

text \<open>The state before the first object: the package directory is there and holds the metadata.\<close>

lemma package_prepared:
  assumes "pp = ob_payload_path (om_bundler self)" and "at_dir (ce_os env) fs pp d" and "\<not> ends_with CHR ''/'' pp"
    and "is_name cid" and "cid \<noteq> dots" and "create_payload_package env self cid fs = (fs', Ok md)"
  shows "\<exists>data pkg s m. ce_read_dag env cid = In_Time (Inr data) \<and> ce_parse_package env data = Inr pkg \<and>
    keeps (d @ [cid]) fs s \<and> walk s d [cid, cid] = Some (d @ [cid, cid]) \<and> s (d @ [cid, cid]) = Some Directory \<and> s (d @ [cid, cid, ''metadata.json'']) = Some (File data m) \<and>
    for_each (write_object_file env (package_dir_of self cid)) (package_objects (package_payload pkg)) s = (fs', Ok ())"
proof -
  let ?t = "d @ [cid, cid, ''metadata.json'']" and ?pd = "package_dir_of self cid" and ?os = "ce_os env"
  let ?kept = "keeps (d @ [cid]) fs" and ?mp = "?pd @ ''/metadata.json''"
  have pd: "?pd = pp @ CHR ''/'' # cid @ CHR ''/'' # cid"
    using package_dir_below [of ?os fs self d cid] assms(1-4) by simp
  obtain data pkg s1 s2 s3 where pkg: "ce_read_dag env cid = In_Time (Inr data)" "ce_parse_package env data = Inr pkg"
      and s: "create_dir_all ?os ?pd fs = (s1, Ok ())" "open_truncate ?os ?mp s1 = (s2, Ok ())"
        "write_all ?os ?mp data s2 = (s3, Ok ())"
        "for_each (write_object_file env ?pd) (package_objects (package_payload pkg)) s3 = (fs', Ok ())"
    using assms(6) by (auto simp: create_payload_package_def Let_def outcome_simps io_simps)
  note meta = metadata_written [OF assms(2,4,5) refl pd refl]
  have ok: "spares (d @ [cid]) ?t fs s1" "spares (d @ [cid]) ?t fs s2" "spares (d @ [cid]) ?t fs s3"
    using meta(1) [OF spares_refl] meta(2) [of s1] meta(3) [of s2 data] s by auto
  have "keeps (d @ [cid]) fs s1" using ok(1) by (simp add: spares_def)
  from at_dir_keeps [OF assms(2) this] have dir: "at_dir ?os s1 pp d" .
  have "?pd \<noteq> ''''" by (simp add: pd)
  then have "mkdirs fs (start_of ?os ?pd) (components ?pd) = (s1, True)"
    using s(1) by (auto simp: create_dir_all_def split: if_splits prod.splits)
  then obtain l where l: "walk s1 (start_of ?os ?pd) (components ?pd) = Some l" "s1 l = Some Directory"
    using mkdirs_ok_walk by blast
  have cc: "components (cid @ CHR ''/'' # cid) = [cid, cid]" by (simp add: components_append components_name [OF assms(4)])
  have "l = d @ components (cid @ CHR ''/'' # cid)"
    by (rule resolve_below [OF dir]) (use l assms(5) \<open>?pd \<noteq> ''''\<close> in \<open>simp_all add: resolve_def pd [symmetric] cc\<close>)
  then have s1: "s1 (d @ [cid, cid]) = Some Directory" "walk s1 d [cid, cid] = Some (d @ [cid, cid])"
    using l dir unfolding cc by (simp_all add: pd components_append components_name [OF assms(4)] walk_append at_dir_def start_of_append)
  have "grows s1 s2" using open_truncate_spec [OF s(2)] grows_file by auto
  moreover have "grows s2 s3" using write_all_spec [OF s(3)] grows_file by auto
  ultimately have "walk s3 d [cid, cid] = Some (d @ [cid, cid]) \<and> s3 (d @ [cid, cid]) = Some Directory"
    using walk_grows [OF grows_trans s1(2,1)] by blast
  moreover obtain m where "s3 ?t = Some (File data m)" using meta(4) [OF ok(2) s(3)] by blast
  moreover have "?kept s3" using ok(3) by (simp add: spares_def)
  ultimately show ?thesis using pkg s(4) by blast
qed

section \<open>Paths that leave the package\<close>

lemma write_object_file_target:
  assumes "write_object_file env package_dir obj fs = (fs', Ok ())" and "path_parent (object_filepath package_dir obj) = Some q"
    and "\<And>s. create_dir_all (ce_os env) q fs = (s, Ok ()) \<Longrightarrow> s = fs"
    and "resolve (ce_os env) fs (object_filepath package_dir obj) = Some l"
  shows "\<exists>bytes m. ce_read_object env (object_cid (object_payload obj)) = Inr bytes \<and> fs' l = Some (File bytes m)"
proof -
  let ?os = "ce_os env" and ?fp = "object_filepath package_dir obj"
  obtain bytes s2 s3 where bytes: "ce_read_object env (object_cid (object_payload obj)) = Inr bytes"
      and s2: "open_truncate ?os ?fp fs = (s2, Ok ())" and s3: "write_all ?os ?fp bytes s2 = (s3, Ok ())"
      and s4: "if object_exec (object_content_type (object_payload obj)) then set_mode ?os ?fp 493 s3 = (fs', Ok ()) else fs' = s3"
    using assms(1) unfolding write_object_file_def Let_def assms(2) option.case
    by (auto simp: outcome_simps io_simps dest: assms(3) split: if_splits)
  obtain m2 where "fs l = None \<or> (\<exists>b. fs l = Some (File b m2))" "s2 = fs(l \<mapsto> File [] m2)"
    using open_truncate_spec [OF s2] assms(4) by auto
  then have r2: "resolve ?os s2 ?fp = Some l" "s2 l = Some (File [] m2)" using resolve_put [OF assms(4)] by auto
  then obtain m3 where m3: "s3 = s2(l \<mapsto> File bytes m3)" using write_all_spec [OF s3] by auto
  then have r3: "resolve ?os s3 ?fp = Some l" "s3 l = Some (File bytes m3)" using resolve_put [OF r2(1)] r2(2) by auto
  show ?thesis using bytes s4 set_mode_spec [OF _ r3, of 493 fs' "Ok ()"] r3(2) by (auto split: if_splits)
qed

section \<open>Roots\<close>

definition containers_at :: "os \<Rightarrow> fsys \<Rightarrow> string \<Rightarrow> loc \<Rightarrow> bool" where
  "containers_at os fs p c \<longleftrightarrow>
     p \<noteq> '''' \<and> \<not> ends_with CHR ''/'' p \<and> walk fs (start_of os p) (components p) = Some c \<and> fs c = Some Directory"

lemma containers_at_grows: "containers_at os fs p c \<Longrightarrow> grows fs fs' \<Longrightarrow> containers_at os fs' p c"
  using walk_grows by (auto simp: containers_at_def)

lemma ends_with_last: "ends_with c s \<longleftrightarrow> s \<noteq> [] \<and> last s = c"
  by (cases s rule: rev_cases) (simp_all add: ends_with_def starts_with_def)

lemma is_absolute_hd: "is_absolute s \<longleftrightarrow> s \<noteq> [] \<and> hd s = CHR ''/''"
  by (cases s) (simp_all add: is_absolute_def starts_with_def)

lemma root_path:
  assumes "containers_at os fs (ob_containers b) c" and "is_name cid"
  shows "get_container_path b cid = ob_containers b @ CHR ''/'' # cid"
    and "container_root_path (ob_containers b @ CHR ''/'' # cid) = ob_containers b @ CHR ''/'' # cid @ CHR ''/'' # ''rootfs''"
proof -
  have "cid \<noteq> []" "hd cid \<noteq> CHR ''/''" "last cid \<noteq> CHR ''/''"
    using assms(2) unfolding is_name_def by (metis hd_in_set last_in_set)+
  then show "get_container_path b cid = ob_containers b @ CHR ''/'' # cid"
    and "container_root_path (ob_containers b @ CHR ''/'' # cid) = ob_containers b @ CHR ''/'' # cid @ CHR ''/'' # ''rootfs''"
    using assms(1) by (auto simp: get_container_path_def container_root_path_def path_join_def containers_at_def
        is_absolute_hd ends_with_last)
qed

text \<open>A fresh container: its directory is made and its root is a link to the root of its image.\<close>

lemma fresh_container_linked:
  assumes "os = ce_os env" and "containers_at os fs (ob_containers b) c" and "is_name cid" and "cid \<noteq> dots"
    and "fs (c @ [cid]) = None" and "fs (c @ [cid, ''rootfs'']) = None"
    and "resolve os fs (path_join (base_image_path (md_base_image md)) ''rootfs'') = Some root" and "fs root = Some Directory"
    and "bundler_bundle env b cid md fs = (fs', Ok ())"
  shows "fs' = fs(c @ [cid] \<mapsto> Directory, c @ [cid, ''rootfs''] \<mapsto> Symlink root)"
proof -
  let ?C = "ob_containers b" and ?fs1 = "fs(c @ [cid] \<mapsto> Directory)" and ?base = "path_join (base_image_path (md_base_image md)) ''rootfs''"
  let ?cp = "?C @ CHR ''/'' # cid" and ?root = "?C @ CHR ''/'' # cid @ CHR ''/'' # ''rootfs''"
  note paths = root_path [OF assms(2,3)]
  have g: "grows fs ?fs1" using assms(5) by (simp add: grows_def)
  have C: "?C \<noteq> ''''" "walk fs (start_of os ?C) (components ?C) = Some c" "fs c = Some Directory"
      "walk ?fs1 (start_of os ?C) (components ?C) = Some c" "?fs1 c = Some Directory"
    using assms(2) containers_at_grows [OF assms(2) g] by (simp_all add: containers_at_def)
  have rootfs: "components ''rootfs'' = [''rootfs'']" "''rootfs'' \<noteq> dots" by (simp_all add: components_name is_name_def dots_def)
  have cc: "components ?cp = components ?C @ [cid]" "components ?root = components ?C @ [cid, ''rootfs'']"
    using components_name [OF assms(3)] rootfs by (simp_all add: components_append)
  have st: "start_of os ?cp = start_of os ?C" "start_of os ?root = start_of os ?C" "?cp \<noteq> ''''" "?root \<noteq> ''''"
    using start_of_append [OF C(1)] by simp_all
  have no_cp: "\<not> path_exists os fs ?cp"
    using C assms(4,5) by (simp add: path_exists_def node_at_def resolve_def cc st walk_append enter_def)
  have made: "create_dir_all os ?cp fs = (fs', Ok ()) \<Longrightarrow> fs' = ?fs1" for fs'
    using mkdirs_append [OF C(2,3), of "[cid]"] C(3) assms(4,5)
    by (auto simp: create_dir_all_def cc st split: if_splits)
  have w1: "walk ?fs1 c [cid] = Some (c @ [cid])" using C(5) assms(4) by (simp add: enter_def)
  have no_root: "\<not> path_exists os ?fs1 ?root"
    using C w1 rootfs(2) assms(4,6) by (simp add: path_exists_def node_at_def resolve_def cc st walk_append enter_def)
  have base: "resolve os ?fs1 ?base = Some root" "?fs1 root = Some Directory"
    using walk_grows [OF g _ assms(8)] assms(7) by (auto simp: resolve_def split: if_splits)
  have "link_dir os ?base ?root ?fs1 = (fs', Ok ())"
    using assms(9) no_cp no_root made unfolding bundler_bundle_def Let_def paths assms(1) [symmetric]
    by (cases "link_dir os ?base ?root ?fs1") (auto simp: outcome_simps io_simps)
  then have "symlink os root ?root ?fs1 = (fs', Ok ())"
    using base by (auto simp: link_dir_def canonicalize_def io_simps split: if_splits)
  then show ?thesis
    using C w1 by (cases "components ?C") (auto simp: symlink_def cc st walk_append butlast_append Let_def split: if_splits)
qed

section \<open>Properties\<close>

text \<open>
  C26: a package is unpacked where it says and nowhere else. The payload directory holds no links,
  the content id is a plain name and no object path has a \<open>..\<close> in it. Then, whether the
  preparation succeeds or fails, nothing outside the directory of that content id changes. When it
  succeeds, the bytes of every object that no later object overwrites are in the file its path
  names, executable when it is a program or a script, and the package itself is in
  \<open>metadata.json\<close> unless an object has that name.
\<close>

theorem package_unpacked:
  assumes "pp = ob_payload_path (om_bundler self)" and "at_dir (ce_os env) fs pp d" and "\<not> ends_with CHR ''/'' pp"
    and "is_name cid" and "cid \<noteq> dots"
    and "\<forall>data pkg. ce_read_dag env cid = In_Time (Inr data) \<longrightarrow> ce_parse_package env data = Inr pkg \<longrightarrow>
           (\<forall>obj\<in>set (package_objects (package_payload pkg)). dots \<notin> set (object_names obj))"
    and "create_payload_package env self cid fs = (fs', r)"
  shows "(\<forall>l. \<not> prefix (d @ [cid]) l \<longrightarrow> fs' l = fs l) \<and>
    (is_Ok r \<longrightarrow> (\<exists>data pkg. ce_read_dag env cid = In_Time (Inr data) \<and> ce_parse_package env data = Inr pkg \<and>
       (\<forall>xs obj ys. package_objects (package_payload pkg) = xs @ obj # ys \<longrightarrow> object_names obj \<notin> object_names ` set ys \<longrightarrow>
          unpacked env (d @ [cid, cid]) obj fs') \<and>
       ([''metadata.json''] \<notin> object_names ` set (package_objects (package_payload pkg)) \<longrightarrow>
          (\<exists>m. fs' (d @ [cid, cid, ''metadata.json'']) = Some (File data m)))))"
proof -
  let ?t = "d @ [cid, cid, ''metadata.json'']" and ?pd = "package_dir_of self cid" and ?os = "ce_os env"
  let ?kept = "keeps (d @ [cid]) fs" and ?mp = "?pd @ ''/metadata.json''"
  have pd: "?pd = pp @ CHR ''/'' # cid @ CHR ''/'' # cid"
    using package_dir_below [of ?os fs self d cid] assms(1-4) by simp
  have dir: "at_dir ?os s pp d" if "?kept s" for s using at_dir_keeps [OF assms(2) that] .
  note meta = metadata_written [OF dir assms(4,5) refl pd refl]
  have steps: "?kept (fst (create_dir_all ?os ?pd s))" "?kept (fst (open_truncate ?os ?mp s))"
      "?kept (fst (write_all ?os ?mp bytes s))" if "?kept s" for s bytes
    using meta(1,2,3) [OF that spares_refl] keeps_trans [OF that] by (auto simp: spares_def)
  have objs: "?kept (fst (for_each (write_object_file env ?pd) (package_objects (package_payload pkg)) s))"
    if "?kept s" "ce_read_dag env cid = In_Time (Inr data)" "ce_parse_package env data = Inr pkg" for s data pkg
  proof -
    have nd: "\<forall>obj\<in>set (package_objects (package_payload pkg)). dots \<notin> set (object_names obj)"
      using assms(6) that(2,3) by blast
    obtain s' r' where "for_each (write_object_file env ?pd) (package_objects (package_payload pkg)) s = (s', r')" by fastforce
    from write_objects_spec [OF dir [OF that(1)] assms(4,5) pd nd this] this
    show ?thesis using keeps_trans [OF that(1)] by simp
  qed
  have "?kept (fst (create_payload_package env self cid fs))"
    unfolding create_payload_package_def Let_def
    apply (intro and_then_inv_Ok [where P = ?kept])
    apply (simp_all only: fst_conv fst_fs_err steps keeps_refl)
    subgoal for s a sa data sb ab sc pkg sd ad se ae
      by (rule objs [of se data pkg]) (simp_all only: prod.inject in_time_Ok or_err_Ok)
    done
  then have "?kept fs'" by (simp only: assms(7) fst_conv)
  then have out: "\<forall>l. \<not> prefix (d @ [cid]) l \<longrightarrow> fs' l = fs l" unfolding keeps_def by blast
  show ?thesis
  proof (cases r)
    case (Ok md)
    then obtain data pkg s3 m where pkg: "ce_read_dag env cid = In_Time (Inr data)" "ce_parse_package env data = Inr pkg"
        and k: "?kept s3" and m: "s3 ?t = Some (File data m)"
        and s: "for_each (write_object_file env ?pd) (package_objects (package_payload pkg)) s3 = (fs', Ok ())"
      using package_prepared [OF assms(1-5)] assms(7) by blast
    let ?objs = "package_objects (package_payload pkg)"
    have nd: "\<forall>obj\<in>set ?objs. dots \<notin> set (object_names obj)" using assms(6) pkg by blast
    note objects = write_objects_spec [OF dir [OF k] assms(4,5) pd nd s]
    have "\<exists>m. fs' ?t = Some (File data m)" if "[''metadata.json''] \<notin> object_names ` set ?objs"
      using objects [THEN conjunct2, THEN conjunct1, rule_format, OF m] that by auto
    then show ?thesis
      by (intro conjI impI out exI [of _ data] exI [of _ pkg] pkg objects [THEN conjunct2, THEN conjunct2, THEN mp, OF refl])
  qed (use out in \<open>simp_all only: is_Ok.simps simp_thms\<close>)
qed

text \<open>
  C27: the path of an object is not confined to its package. A package whose object goes by the path
  \<open>../../p/p/f\<close> replaces or makes the file \<open>f\<close> of the unpacked program \<open>p\<close> with its own bytes: the
  preparation reports success, and nothing in it looks at who signed the package or published \<open>p\<close>.
\<close>

theorem object_path_escapes:
  assumes "pp = ob_payload_path (om_bundler self)" and "at_dir (ce_os env) fs pp d" and "\<not> ends_with CHR ''/'' pp"
    and "is_name cid" and "cid \<noteq> dots" and "p \<noteq> cid" and "p \<noteq> dots" and "f \<noteq> dots"
    and "ce_read_dag env cid = In_Time (Inr data)" and "ce_parse_package env data = Inr pkg"
    and "package_objects (package_payload pkg) = [obj]" and "object_names obj = [dots, dots, p, p, f]"
    and "fs (d @ [p]) = Some Directory" and "fs (d @ [p, p]) = Some Directory"
    and "create_payload_package env self cid fs = (fs', Ok md)"
  shows "\<exists>bytes m. ce_read_object env (object_cid (object_payload obj)) = Inr bytes \<and>
     fs' (d @ [p, p, f]) = Some (File bytes m)"
proof -
  let ?pd = "package_dir_of self cid" and ?os = "ce_os env"
  have pd: "?pd = pp @ CHR ''/'' # cid @ CHR ''/'' # cid"
    using package_dir_below [of ?os fs self d cid] assms(1-4) by simp
  obtain s where s: "keeps (d @ [cid]) fs s" "walk s d [cid, cid] = Some (d @ [cid, cid])" "s (d @ [cid, cid]) = Some Directory"
      "write_object_file env ?pd obj s = (fs', Ok ())"
    using package_prepared [OF assms(1-5,15)] assms(9-11) by (auto simp: outcome_simps)
  have dir: "at_dir ?os s pp d" by (rule at_dir_keeps [OF assms(2) s(1)])
  then have nl: "no_links s d" and d: "s d = Some Directory" by (simp_all add: at_dir_def)
  have "grows fs s" using s(1) by (simp add: keeps_def)
  then have pdirs: "s (d @ [p]) = Some Directory" "s (d @ [p, p]) = Some Directory" using growsD(1) assms(13,14) by blast+
  have enters: "enter s d cid = d @ [cid]" "enter s d p = d @ [p]" "enter s (d @ [p]) p = d @ [p, p]"
      "enter s (d @ [p, p]) f = d @ [p, p, f]"
    using enter_below [OF nl assms(5)] enter_below [OF nl assms(7)] enter_below [OF no_links_below [OF nl] assms(7), of "d @ [p]"]
      enter_below [OF no_links_below [OF nl] assms(8), of "d @ [p, p]"] by simp_all
  have cdir: "s (d @ [cid]) = Some Directory" using s(2) d by (simp add: enters split: if_splits)
  have up: "walk s d (cid # cid # dots # dots # ns) = walk s d ns" for ns
    using walk_append [of s d "[cid, cid]" "dots # dots # ns"] s(2,3) cdir
    by (simp add: enter_def [of _ _ dots] butlast_append)
  let ?q = "cid @ CHR ''/'' # cid @ CHR ''/'' # strip_object_path (object_path (object_payload obj))"
  have fp: "object_filepath ?pd obj = pp @ CHR ''/'' # ?q" by (simp add: object_filepath_def pd)
  have comps: "components ?q = cid # cid # [dots, dots, p, p, f]"
    using assms(12) by (simp add: components_append components_name [OF assms(4)] object_names_def)
  obtain q where q: "path_parent (object_filepath ?pd obj) = Some q" "start_of ?os q = start_of ?os pp"
      "components q = components pp @ cid # butlast (cid # [dots, dots, p, p, f])"
    using parent_below [OF fp dir comps] .
  have "walk s d (cid # butlast (cid # [dots, dots, p, p, f])) = Some (d @ [p, p])"
    using up [of "[p, p]"] d pdirs by (simp add: enters)
  then have "mkdirs s d (cid # butlast (cid # [dots, dots, p, p, f])) = (s, True)" using pdirs(2) by (rule mkdirs_walk)
  moreover have wd: "walk s (start_of ?os pp) (components pp) = Some d" using dir by (simp add: at_dir_def)
  ultimately have "mkdirs s (start_of ?os q) (components q) = (s, True)"
    unfolding q(2,3) by (simp only: mkdirs_append [OF wd d])
  then have "create_dir_all ?os q s = (s', Ok ()) \<Longrightarrow> s' = s" for s'
    by (auto simp: create_dir_all_def split: if_splits)
  moreover have "resolve ?os s (object_filepath ?pd obj) = Some (d @ [p, p, f])"
    using dir up [of "[p, p, f]"] d pdirs unfolding fp resolve_def at_dir_def
    by (simp add: components_append [of pp] comps start_of_append walk_append [of _ _ "components pp"] enters)
  ultimately show ?thesis by (rule write_object_file_target [OF s(4) q(1)])
qed

text \<open>
  C28: the containers of all programs of one base image share one root file system. Two containers
  are made, the first in \<open>fs\<close> and the second in any later state in which directories and links are
  still there. From then on every path below the root of the first leads to the same file as that
  path below the root of the second, namely the file below the root of the image itself. Roots are
  configured writable, so what one program writes, the other reads.
\<close>

theorem containers_share_root:
  assumes "os = ce_os env" and "containers_at os fs (ob_containers b) c"
    and "is_name cid1" and "cid1 \<noteq> dots" and "is_name cid2" and "cid2 \<noteq> dots"
    and "fs (c @ [cid1]) = None" and "fs (c @ [cid1, ''rootfs'']) = None"
    and "img = md_base_image md1" and "img = md_base_image md2"
    and "resolve os fs (path_join (base_image_path img) ''rootfs'') = Some root" and "fs root = Some Directory"
    and "bundler_bundle env b cid1 md1 fs = (fs1, Ok ())" and "grows fs1 fs2"
    and "fs2 (c @ [cid2]) = None" and "fs2 (c @ [cid2, ''rootfs'']) = None"
    and "bundler_bundle env b cid2 md2 fs2 = (fs3, Ok ())"
  shows "resolve os fs3 (container_root_path (get_container_path b cid1) @ CHR ''/'' # f) = walk fs3 root (components f) \<and>
     resolve os fs3 (container_root_path (get_container_path b cid2) @ CHR ''/'' # f) = walk fs3 root (components f)"
proof -
  have at_root: "resolve os s (container_root_path (get_container_path b cid) @ CHR ''/'' # f) = walk s root (components f)"
    if "containers_at os s (ob_containers b) c" "is_name cid" "cid \<noteq> dots" "s (c @ [cid]) = Some Directory"
      "s (c @ [cid, ''rootfs'']) = Some (Symlink root)" for s cid
  proof -
    have rootfs: "components ''rootfs'' = [''rootfs'']" "''rootfs'' \<noteq> dots" by (simp_all add: components_name is_name_def dots_def)
    have p: "container_root_path (get_container_path b cid) @ CHR ''/'' # f =
        ob_containers b @ CHR ''/'' # (cid @ CHR ''/'' # (''rootfs'' @ CHR ''/'' # f))"
      by (simp add: root_path [OF that(1,2)])
    have "components (cid @ CHR ''/'' # (''rootfs'' @ CHR ''/'' # f)) = cid # ''rootfs'' # components f"
      using components_append [of cid "''rootfs'' @ CHR ''/'' # f"] components_append [of "''rootfs''" f]
        components_name [OF that(2)] rootfs(1) by simp
    then show ?thesis
      using that(1,3,4,5) rootfs(2) unfolding p resolve_def containers_at_def
      by (simp add: components_append [of "ob_containers b"] start_of_append walk_append enter_def)
  qed
  have fs1: "fs1 = fs(c @ [cid1] \<mapsto> Directory, c @ [cid1, ''rootfs''] \<mapsto> Symlink root)"
    using fresh_container_linked [OF assms(1,2,3,4,7,8) _ assms(12,13)] assms(9,11) by simp
  have g: "grows fs fs1" using assms(7,8) by (simp add: fs1 grows_def)
  have g2: "grows fs fs2" by (rule grows_trans [OF g assms(14)])
  have r2: "resolve os fs2 (path_join (base_image_path (md_base_image md2)) ''rootfs'') = Some root \<and> fs2 root = Some Directory"
    using walk_grows [OF g2 _ assms(12)] assms(10,11) by (auto simp: resolve_def split: if_splits)
  have C2: "containers_at os fs2 (ob_containers b) c" by (rule containers_at_grows [OF assms(2) g2])
  have fs3: "fs3 = fs2(c @ [cid2] \<mapsto> Directory, c @ [cid2, ''rootfs''] \<mapsto> Symlink root)"
    using fresh_container_linked [OF assms(1) C2 assms(5,6,15,16) _ _ assms(17)] r2 by simp
  have g3: "grows fs2 fs3" using assms(15,16) by (simp add: fs3 grows_def)
  have C3: "containers_at os fs3 (ob_containers b) c" by (rule containers_at_grows [OF C2 g3])
  have "fs1 (c @ [cid1]) = Some Directory" "fs1 (c @ [cid1, ''rootfs'']) = Some (Symlink root)" by (simp_all add: fs1)
  then have "fs3 (c @ [cid1]) = Some Directory" "fs3 (c @ [cid1, ''rootfs'']) = Some (Symlink root)"
    using growsD [OF grows_trans [OF assms(14) g3]] by blast+
  then show ?thesis using at_root [OF C3 assms(3,4)] at_root [OF C3 assms(5,6)] by (simp add: fs3)
qed

section \<open>Witnesses\<close>

text \<open>A node directory with the image for binaries, and a package of one script.\<close>

definition sample_os :: os where
  "sample_os = \<lparr>os_cwd = [], os_new_mode = 420, os_refuses = (\<lambda>_ _. False), os_text = (\<lambda>_ _. ''refused'')\<rparr>"

definition sample_fs :: fsys where
  "sample_fs = [[] \<mapsto> Directory, [''payload''] \<mapsto> Directory, [''containers''] \<mapsto> Directory,
     [''base_image''] \<mapsto> Directory, [''base_image'', ''bin''] \<mapsto> Directory,
     [''base_image'', ''bin'', ''rootfs''] \<mapsto> Directory]"

definition sample_object :: lasr_object where
  "sample_object =
     \<lparr>object_payload = \<lparr>object_content_type = CT_Program (Script ''sh''), object_path = ''./payload/run.sh'',
        object_cid = ''obj'', object_annotations = Map.empty\<rparr>,
      object_sig = sample_sig\<rparr>"

definition sample_package :: lasr_package where
  "sample_package =
     \<lparr>package_payload = \<lparr>api_version = 1, package_version = 1, package_name = ''p'', package_author = ''a'',
        package_type = PT_Program RT_Bin, package_objects = [sample_object], package_replaces = [],
        package_entrypoint = ''run.sh'', package_program_args = [], package_annotations = Map.empty\<rparr>,
      package_sig = sample_sig\<rparr>"

definition sample_cenv :: compute_env where
  "sample_cenv =
     \<lparr>ce_os = sample_os, ce_connect = (\<lambda>_. None), ce_is_pinned = (\<lambda>_. Late), ce_pin_object = (\<lambda>_ _. Late),
      ce_read_dag = (\<lambda>_. In_Time (Inr [1])), ce_read_object = (\<lambda>_. Inr [2, 3]),
      ce_parse_package = (\<lambda>_. Inr sample_package), ce_copy_dir = (\<lambda>_ _ fs. (fs, Ok ())),
      ce_runsc_spec = (\<lambda>_ _ fs. (fs, Ok ())), ce_parse_spec = (\<lambda>_. Inl ''''), ce_print_spec = (\<lambda>_. Inl ''''),
      ce_default_process = Inl '''', ce_default_root = Inl '''', ce_read_dir = (\<lambda>_ _. []), ce_parse_schema = (\<lambda>_. Inl '''')\<rparr>"

definition sample_manager :: oci_manager where
  "sample_manager =
     \<lparr>om_bundler = \<lparr>ob_containers = ''./containers'', ob_base_images = ''./base_image'', ob_runtime = ''runsc'',
        ob_payload_path = ''./payload''\<rparr>, om_store = None\<rparr>"

lemma sample_payload_dir: "at_dir sample_os sample_fs ''./payload'' [''payload'']"
  by (auto simp: at_dir_def sample_fs_def sample_os_def start_of_def is_absolute_def starts_with_def components_def enter_def
      dots_def no_links_def)

lemma sample_package_ok: "is_Ok (snd (create_payload_package sample_cenv sample_manager ''abc'' sample_fs))"
  by code_simp

theorem package_unpacked_witness:
  "\<exists>fs' m. fst (create_payload_package sample_cenv sample_manager ''abc'' sample_fs) = fs' \<and>
     fs' [''payload'', ''abc'', ''abc'', ''run.sh''] = Some (File [2, 3] 493) \<and>
     fs' [''payload'', ''abc'', ''abc'', ''metadata.json''] = Some (File [1] m) \<and> fs' [''containers''] = Some Directory"
proof -
  obtain fs' r where run: "create_payload_package sample_cenv sample_manager ''abc'' sample_fs = (fs', r)" by fastforce
  have names: "object_names sample_object = [''run.sh'']" by code_simp
  have pkg: "package_objects (package_payload sample_package) = [sample_object]" by (simp add: sample_package_def)
  have sel: "ce_os sample_cenv = sample_os" "ce_parse_package sample_cenv d = Inr sample_package"
      "ce_read_dag sample_cenv c = In_Time (Inr [1])" "ce_read_object sample_cenv c = Inr [2, 3]"
      "ob_payload_path (om_bundler sample_manager) = ''./payload''" for d c
    by (simp_all add: sample_cenv_def sample_manager_def)
  have "(\<forall>l. \<not> prefix ([''payload''] @ [''abc'']) l \<longrightarrow> fs' l = sample_fs l) \<and>
    (is_Ok r \<longrightarrow> (\<exists>data pkg. ce_read_dag sample_cenv ''abc'' = In_Time (Inr data) \<and> ce_parse_package sample_cenv data = Inr pkg \<and>
       (\<forall>xs obj ys. package_objects (package_payload pkg) = xs @ obj # ys \<longrightarrow> object_names obj \<notin> object_names ` set ys \<longrightarrow>
          unpacked sample_cenv ([''payload''] @ [''abc'', ''abc'']) obj fs') \<and>
       ([''metadata.json''] \<notin> object_names ` set (package_objects (package_payload pkg)) \<longrightarrow>
          (\<exists>m. fs' ([''payload''] @ [''abc'', ''abc'', ''metadata.json'']) = Some (File data m)))))"
    by (rule package_unpacked [OF refl _ _ _ _ _ run])
      (use sample_payload_dir in \<open>auto simp: sel pkg names is_name_def dots_def ends_with_def starts_with_def\<close>)
  moreover have "is_Ok r" using sample_package_ok run by simp
  moreover have "object_exec (object_content_type (object_payload sample_object))" by (simp add: sample_object_def)
  moreover have "sample_fs [''containers''] = Some Directory" by (simp add: sample_fs_def)
  ultimately show ?thesis
    by (auto simp: run sel pkg names unpacked_def Cons_eq_append_conv)
qed

definition sample_md :: package_container_metadata where
  "sample_md = \<lparr>md_base_image = BI_Bin, md_cid = ''a'', md_entrypoint = ''run.sh'', md_program_args = []\<rparr>"

theorem containers_share_root_witness:
  "let b = om_bundler sample_manager; fs1 = fst (bundler_bundle sample_cenv b ''a'' sample_md sample_fs);
       fs3 = fst (bundler_bundle sample_cenv b ''b'' sample_md fs1) in
   resolve sample_os fs3 ''./containers/a/rootfs/tmp'' = Some [''base_image'', ''bin'', ''rootfs'', ''tmp''] \<and>
   resolve sample_os fs3 ''./containers/b/rootfs/tmp'' = Some [''base_image'', ''bin'', ''rootfs'', ''tmp'']"
proof -
  let ?b = "om_bundler sample_manager" and ?root = "[''base_image'', ''bin'', ''rootfs'']"
  define fs1 where "fs1 = fst (bundler_bundle sample_cenv ?b ''a'' sample_md sample_fs)"
  define fs3 where "fs3 = fst (bundler_bundle sample_cenv ?b ''b'' sample_md fs1)"
  have sel: "ce_os sample_cenv = sample_os" "ob_containers ?b = ''./containers''" "md_base_image sample_md = BI_Bin"
    by (simp_all add: sample_cenv_def sample_manager_def sample_md_def)
  have "snd (bundler_bundle sample_cenv ?b ''a'' sample_md sample_fs) = Ok ()" by code_simp
  then have run1: "bundler_bundle sample_cenv ?b ''a'' sample_md sample_fs = (fs1, Ok ())" by (simp add: fs1_def prod_eq_iff)
  have "snd (bundler_bundle sample_cenv ?b ''b'' sample_md fs1) = Ok ()" unfolding fs1_def by code_simp
  then have run3: "bundler_bundle sample_cenv ?b ''b'' sample_md fs1 = (fs3, Ok ())" by (simp add: fs3_def prod_eq_iff)
  have fresh: "fs1 ([''containers''] @ [''b'']) = None" "fs1 ([''containers''] @ [''b'', ''rootfs'']) = None"
    unfolding fs1_def by code_simp+
  have dir: "containers_at sample_os sample_fs ''./containers'' [''containers'']"
    by (auto simp: containers_at_def sample_fs_def sample_os_def start_of_def is_absolute_def starts_with_def ends_with_def
        components_def enter_def dots_def)
  have base: "resolve sample_os sample_fs (path_join (base_image_path BI_Bin) ''rootfs'') = Some ?root" by code_simp
  have "resolve sample_os fs3 (container_root_path (get_container_path ?b ''a'') @ CHR ''/'' # ''tmp'') =
          walk fs3 ?root (components ''tmp'') \<and>
        resolve sample_os fs3 (container_root_path (get_container_path ?b ''b'') @ CHR ''/'' # ''tmp'') =
          walk fs3 ?root (components ''tmp'')"
    by (rule containers_share_root [OF _ _ _ _ _ _ _ _ _ _ base _ run1 grows_refl fresh run3])
      (use dir in \<open>simp_all add: sel is_name_def dots_def sample_fs_def\<close>)
  moreover have "walk fs3 ?root (components ''tmp'') = Some [''base_image'', ''bin'', ''rootfs'', ''tmp'']"
    unfolding fs3_def fs1_def by code_simp
  moreover have "container_root_path (get_container_path ?b ''a'') @ CHR ''/'' # ''tmp'' = ''./containers/a/rootfs/tmp''"
    "container_root_path (get_container_path ?b ''b'') @ CHR ''/'' # ''tmp'' = ''./containers/b/rootfs/tmp''" by code_simp+
  ultimately show ?thesis by (simp add: fs1_def fs3_def)
qed

text \<open>A package that replaces the script of another program.\<close>

definition sample_evil :: lasr_object where
  "sample_evil = sample_object\<lparr>object_payload := (object_payload sample_object)\<lparr>object_path := ''../../victim/victim/run.sh''\<rparr>\<rparr>"

definition sample_evil_package :: lasr_package where
  "sample_evil_package =
     sample_package\<lparr>package_payload := (package_payload sample_package)\<lparr>package_objects := [sample_evil]\<rparr>\<rparr>"

definition sample_evil_env :: compute_env where
  "sample_evil_env = sample_cenv\<lparr>ce_parse_package := (\<lambda>_. Inr sample_evil_package)\<rparr>"

definition sample_victim_fs :: fsys where
  "sample_victim_fs = sample_fs([''payload'', ''victim''] \<mapsto> Directory, [''payload'', ''victim'', ''victim''] \<mapsto> Directory,
     [''payload'', ''victim'', ''victim'', ''run.sh''] \<mapsto> File [7] 493)"

theorem object_path_escapes_witness:
  "sample_victim_fs [''payload'', ''victim'', ''victim'', ''run.sh''] = Some (File [7] 493) \<and>
   (\<exists>m. fst (create_payload_package sample_evil_env sample_manager ''evil'' sample_victim_fs)
      [''payload'', ''victim'', ''victim'', ''run.sh''] = Some (File [2, 3] m))"
proof -
  obtain fs' r where run: "create_payload_package sample_evil_env sample_manager ''evil'' sample_victim_fs = (fs', r)" by fastforce
  have "is_Ok (snd (create_payload_package sample_evil_env sample_manager ''evil'' sample_victim_fs))" by code_simp
  then obtain md where ok: "create_payload_package sample_evil_env sample_manager ''evil'' sample_victim_fs = (fs', Ok md)"
    using run by (auto simp: is_Ok_iff)
  have names: "object_names sample_evil = [dots, dots, ''victim'', ''victim'', ''run.sh'']" by code_simp
  have sel: "ce_os sample_evil_env = sample_os" "ce_read_dag sample_evil_env c = In_Time (Inr [1])"
      "ce_read_object sample_evil_env c = Inr [2, 3]" "ce_parse_package sample_evil_env d = Inr sample_evil_package" "ob_payload_path (om_bundler sample_manager) = ''./payload''" for c d
    by (simp_all add: sample_evil_env_def sample_cenv_def sample_manager_def)
  have dir: "at_dir sample_os sample_victim_fs ''./payload'' [''payload'']"
    by (auto simp: at_dir_def sample_victim_fs_def sample_fs_def sample_os_def start_of_def is_absolute_def starts_with_def
        components_def enter_def dots_def no_links_def)
  have "\<exists>bytes m. ce_read_object sample_evil_env (object_cid (object_payload sample_evil)) = Inr bytes \<and>
      fs' ([''payload''] @ [''victim'', ''victim'', ''run.sh'']) = Some (File bytes m)"
    by (rule object_path_escapes [OF refl _ _ _ _ _ _ _ _ _ _ names _ _ ok, where data = "[1]" and pkg = sample_evil_package])
      (use dir in \<open>simp_all add: sel is_name_def dots_def ends_with_def starts_with_def sample_evil_package_def sample_victim_fs_def\<close>)
  then show ?thesis using run by (simp add: sel sample_victim_fs_def)
qed

end
