(* ===== verification/Cli_Args.thy ===== *)
theory Cli_Args
  imports Token_Model
begin

text \<open>
  The arguments and commands of the command line (crates/cli/src/cli.rs) as data, what their values
  are parsed to, and the matches that the clap crate hands to a command. Help texts and the names of
  values are left out. What is documented of clap is \<open>conforms\<close>: which values a command's matches
  have. The uint crate's parsers of numbers are a parameter.
\<close>

section \<open>Units and amounts\<close>

datatype cli_unit = Echo | Beat | Note | Chord | Harmony | Melody | Verse

record uint_crate =
  uc_from_str_radix16 :: "string \<Rightarrow> (string, u256) outcome"
  uc_from_dec_str :: "string \<Rightarrow> (string, u256) outcome"

text \<open>What both parsers promise: the texts of a number give it back, and what does not fit is refused.\<close>

definition uint_laws :: "uint_crate \<Rightarrow> bool" where
  "uint_laws uc \<longleftrightarrow>
     (\<forall>n. if n < 2 ^ 256
          then uc_from_dec_str uc (show_nat n) = Ok (of_nat n) \<and> uc_from_str_radix16 uc (show_hex n) = Ok (of_nat n)
          else is_Err (uc_from_dec_str uc (show_nat n)) \<and> is_Err (uc_from_str_radix16 uc (show_hex n)))"

text \<open>\<open>U256Wrapper::from_str\<close>: a hexadecimal text that is not a number is a panic, not an error.\<close>

definition u256_wrapper_from_str :: "uint_crate \<Rightarrow> string \<Rightarrow> (string, u256) outcome" where
  "u256_wrapper_from_str uc s =
     (case strip_prefix ''0x'' s of
        Some h \<Rightarrow>
          (case uc_from_str_radix16 uc h of
             Ok n \<Rightarrow> Ok n
           | _ \<Rightarrow> Panic ''failed to convert hex string to U256'')
      | None \<Rightarrow> uc_from_dec_str uc s)"

definition u256_mul :: "u256 \<Rightarrow> u256 \<Rightarrow> u256 option" where
  "u256_mul a b = (if unat a * unat b < 2 ^ 256 then Some (a * b) else None)"

fun unit_factor :: "cli_unit \<Rightarrow> u256" where
  "unit_factor Echo = 1"
| "unit_factor Beat = 1000"
| "unit_factor Note = 1000000"
| "unit_factor Chord = 1000000000"
| "unit_factor Harmony = 1000000000000"
| "unit_factor Melody = 1000000000000000"
| "unit_factor Verse = 1000000000000000000"

text \<open>The multiplication is checked: a product that does not fit is a panic.\<close>

definition mul_unit :: "u256 \<Rightarrow> cli_unit \<Rightarrow> ('e, u256) outcome" where
  "mul_unit v u = or_panic overflow (u256_mul v (unit_factor u))"

definition cli_parse_u256 :: "uint_crate \<Rightarrow> string \<Rightarrow> (string, u256) outcome" where
  "cli_parse_u256 uc s = map_err (\<lambda>e. ''Failed to parse U256: '' @ e) (uc_from_dec_str uc s)"

text \<open>\<open>ValueEnum\<close>: the variants in lower case.\<close>

definition unit_names :: "(string \<times> cli_unit) list" where
  "unit_names =
     [(''echo'', Echo), (''beat'', Beat), (''note'', Note), (''chord'', Chord), (''harmony'', Harmony),
      (''melody'', Melody), (''verse'', Verse)]"

section \<open>Arguments\<close>

datatype arg_type = T_String | T_Bool | T_Usize | T_U32 | T_U128 | T_Address | T_U256 | T_Unit

datatype arg_action = A_Set | A_SetTrue | A_Append

record arg =
  arg_id :: string
  arg_short :: "char option"
  arg_long :: "string option"
  arg_aliases :: "string list"
  arg_action :: arg_action
  arg_type :: arg_type
  arg_required :: bool
  arg_unless :: "string option"
  arg_default :: "string option"
  arg_requires :: "string list"
  arg_conflicts :: "string list"
  arg_delimiter :: "char option"
  arg_may_be_empty :: bool

definition arg_new :: "string \<Rightarrow> arg" where
  "arg_new i =
     \<lparr>arg_id = i, arg_short = None, arg_long = None, arg_aliases = [], arg_action = A_Set, arg_type = T_String,
      arg_required = False, arg_unless = None, arg_default = None, arg_requires = [], arg_conflicts = [],
      arg_delimiter = None, arg_may_be_empty = False\<rparr>"

definition from_file_arg :: arg where
  "from_file_arg = (arg_new ''from-file'')
     \<lparr>arg_long := Some ''from-file'', arg_aliases := [''ff'', ''from_file'', ''fromfile'', ''load''],
      arg_action := A_SetTrue, arg_type := T_Bool, arg_conflicts := [''from-mnemonic'', ''from-secret-key'']\<rparr>"

definition keyfile_path_arg :: arg where
  "keyfile_path_arg = (arg_new ''path'')
     \<lparr>arg_long := Some ''path'', arg_default := Some ''.lasr/wallet/keypair.json''\<rparr>"

definition keypair_json_arg :: arg where
  "keypair_json_arg = (arg_new ''keypair-json'')
     \<lparr>arg_aliases := [''print-keypair'', ''ppk'', ''json-keypair'', ''kp-json''], arg_long := Some ''keypair-json'',
      arg_short := Some CHR ''k'', arg_action := A_SetTrue, arg_type := T_Bool\<rparr>"

definition overwrite_path_arg :: arg where
  "overwrite_path_arg = (arg_new ''overwrite'')
     \<lparr>arg_long := Some ''overwrite'', arg_aliases := [''replace''], arg_default := Some ''false'',
      arg_type := T_Bool, arg_action := A_SetTrue\<rparr>"

definition wallet_index_arg :: arg where
  "wallet_index_arg = (arg_new ''wallet-index'')
     \<lparr>arg_short := Some CHR ''w'', arg_long := Some ''wallet-index'',
      arg_aliases := [''index'', ''wallet'', ''walletindex'', ''wi'', ''i''], arg_type := T_Usize, arg_default := Some ''0''\<rparr>"

definition from_mnemonic_arg :: arg where
  "from_mnemonic_arg = (arg_new ''from-mnemonic'')
     \<lparr>arg_long := Some ''from-mnemonic'', arg_aliases := [''fm'', ''from_mnemonic'', ''from_m'', ''from-m''],
      arg_action := A_SetTrue, arg_type := T_Bool, arg_requires := [''mnemonic''],
      arg_conflicts := [''from-file'', ''from-secret-key'']\<rparr>"

definition mnemonic_arg :: arg where
  "mnemonic_arg = (arg_new ''mnemonic'')
     \<lparr>arg_short := Some CHR ''m'', arg_long := Some ''mnemonic'', arg_aliases := [''words'', ''phrase'', ''passphrase''],
      arg_action := A_Append, arg_requires := [''from-mnemonic'']\<rparr>"

definition from_secret_key_arg :: arg where
  "from_secret_key_arg = (arg_new ''from-secret-key'')
     \<lparr>arg_long := Some ''from-secret-key'',
      arg_aliases := [''fsk'', ''fromsecretkey'', ''from-sk'', ''fromsk'', ''frompk'', ''fpk'', ''from-private-key'',
        ''fromprivatekey''],
      arg_action := A_SetTrue, arg_type := T_Bool, arg_requires := [''secret-key''],
      arg_conflicts := [''from-file'', ''from-mnemonic'']\<rparr>"

definition secret_key_arg :: arg where
  "secret_key_arg = (arg_new ''secret-key'')
     \<lparr>arg_short := Some CHR ''s'', arg_long := Some ''secret-key'',
      arg_aliases := [''sk'', ''pk'', ''secretkey'', ''secret_key'', ''private-key'', ''privatekey'', ''private_key'']\<rparr>"

definition mnemonic_size_arg :: arg where
  "mnemonic_size_arg = (arg_new ''mnemonic-size'')
     \<lparr>arg_short := Some CHR ''n'', arg_long := Some ''size'', arg_type := T_Usize\<rparr>"

definition seed_arg :: arg where
  "seed_arg = (arg_new ''seed'')\<lparr>arg_short := Some CHR ''s'', arg_long := Some ''seed'', arg_type := T_U128\<rparr>"

definition passphrase_arg :: arg where
  "passphrase_arg = (arg_new ''passphrase'')\<lparr>arg_short := Some CHR ''p'', arg_long := Some ''passphrase''\<rparr>"

definition save_to_file_arg :: arg where
  "save_to_file_arg = (arg_new ''save'')
     \<lparr>arg_short := Some CHR ''o'', arg_long := Some ''save'', arg_type := T_Bool, arg_action := A_SetTrue,
      arg_default := Some ''false''\<rparr>"

definition receiver_arg :: arg where
  "receiver_arg = (arg_new ''to'')
     \<lparr>arg_short := Some CHR ''t'', arg_long := Some ''to'', arg_aliases := [''receiver''], arg_type := T_Address,
      arg_required := True\<rparr>"

definition program_id_arg :: arg where
  "program_id_arg = (arg_new ''content-namespace'')
     \<lparr>arg_short := Some CHR ''c'', arg_long := Some ''content-namespace'',
      arg_aliases := [''pid'', ''prog-id'', ''program_id'', ''prog_id'', ''id'', ''token'', ''token-id'', ''token_id'',
        ''tid'', ''content-id'', ''cid'', ''content-namespace'', ''cns''],
      arg_default := Some ''0'', arg_type := T_Address\<rparr>"

definition value_arg :: arg where
  "value_arg = (arg_new ''value'')
     \<lparr>arg_short := Some CHR ''v'', arg_long := Some ''value'', arg_aliases := [''amount'', ''a'', ''amt'', ''nft-id''],
      arg_required := True, arg_type := T_U256, arg_default := Some ''0''\<rparr>"

definition unit_arg :: arg where
  "unit_arg = (arg_new ''unit'')
     \<lparr>arg_short := Some CHR ''u'', arg_long := Some ''unit'', arg_default := Some ''echo'', arg_type := T_Unit\<rparr>"

definition function_arg :: arg where
  "function_arg = (arg_new ''op'')
     \<lparr>arg_long := Some ''op'', arg_aliases := [''function'', ''fn'', ''func'', ''def'', ''method'', ''call''],
      arg_required := True\<rparr>"

definition inputs_arg :: arg where
  "inputs_arg = (arg_new ''inputs'')
     \<lparr>arg_short := Some CHR ''i'', arg_long := Some ''inputs'',
      arg_aliases := [''params'', ''function-inputs'', ''op-inputs'', ''op-params''], arg_required := True\<rparr>"

definition cid_arg :: arg where
  "cid_arg = (arg_new ''content-id'')
     \<lparr>arg_short := Some CHR ''c'', arg_long := Some ''cid'',
      arg_aliases := [''content-id'', ''contentid'', ''content_id'', ''contentId'', ''ipfs-id''], arg_required := True\<rparr>"

definition payload_arg :: arg where
  "payload_arg = (arg_new ''payload'')
     \<lparr>arg_short := Some CHR ''p'', arg_long := Some ''payload'',
      arg_aliases := [''sign-me'', ''john-hancock'', ''siggy'', ''curvy'', ''gettin-siggy-wit-it''], arg_required := True\<rparr>"

definition recursive_packer_arg :: arg where
  "recursive_packer_arg = (arg_new ''recursive'')
     \<lparr>arg_short := Some CHR ''r'', arg_long := Some ''recursive'', arg_action := A_SetTrue, arg_default := Some ''false'',
      arg_type := T_Bool\<rparr>"

definition file_count_arg :: arg where
  "file_count_arg = (arg_new ''file-count'')
     \<lparr>arg_long := Some ''file-count'', arg_aliases := [''nf'', ''numfiles'', ''nfiles'', ''n-files'', ''number-of-files''],
      arg_default := Some ''0'', arg_type := T_U32\<rparr>"

definition package_path_arg :: arg where
  "package_path_arg = (arg_new ''package-path'')
     \<lparr>arg_long := Some ''package-path'',
      arg_aliases := [''pp'', ''ppath'', ''pubpath'', ''p-path'', ''pub-path'', ''pack'', ''pack-path''], arg_required := True\<rparr>"

definition ignore_file_arg :: arg where
  "ignore_file_arg = (arg_new ''ignore-file'')
     \<lparr>arg_long := Some ''ignore-file'', arg_short := Some CHR ''g'', arg_aliases := [''ignore'', ''ig'']\<rparr>"

definition wizard_arg :: arg where
  "wizard_arg = (arg_new ''wizard'')
     \<lparr>arg_long := Some ''wizard'', arg_aliases := [''wiz'', ''guided'', ''pick''], arg_action := A_SetTrue,
      arg_default := Some ''false'', arg_type := T_Bool\<rparr>"

definition cids_arg :: arg where
  "cids_arg = (arg_new ''cids'')\<lparr>arg_long := Some ''cids'', arg_short := Some CHR ''c''\<rparr>"

definition content_type_arg :: arg where
  "content_type_arg = (arg_new ''content-type'')
     \<lparr>arg_long := Some ''content-type'', arg_short := Some CHR ''t'', arg_default := Some ''program'', arg_required := True\<rparr>"

definition verbose_arg :: arg where
  "verbose_arg = (arg_new ''verbose'')
     \<lparr>arg_short := Some CHR ''v'', arg_long := Some ''verbose'', arg_aliases := [''vbs'', ''verb'', ''verbosity'', ''print''],
      arg_type := T_Bool, arg_action := A_SetTrue, arg_default := Some ''false''\<rparr>"

definition api_version_arg :: arg where
  "api_version_arg = (arg_new ''api-version'')
     \<lparr>arg_long := Some ''api-version'', arg_aliases := [''av'', ''apiv'', ''vapi''], arg_default := Some ''1'',
      arg_type := T_U32\<rparr>"

definition annotations_file_arg :: arg where
  "annotations_file_arg = (arg_new ''annotations-file'')
     \<lparr>arg_long := Some ''annotations-file'', arg_aliases := [''af'', ''af-path'', ''ann'']\<rparr>"

definition package_name_arg :: arg where
  "package_name_arg = (arg_new ''name'')\<lparr>arg_long := Some ''name'', arg_required := True\<rparr>"

definition author_arg :: arg where
  "author_arg = (arg_new ''author'')
     \<lparr>arg_short := Some CHR ''a'', arg_long := Some ''author'', arg_aliases := [''owner'', ''writer'', ''publisher'', ''dev'']\<rparr>"

definition package_version_arg :: arg where
  "package_version_arg = (arg_new ''package-version'')
     \<lparr>arg_long := Some ''package-version'', arg_default := Some ''1'', arg_type := T_U32\<rparr>"

definition runtime_arg :: arg where
  "runtime_arg = (arg_new ''runtime'')\<lparr>arg_long := Some ''runtime'', arg_default := Some ''none''\<rparr>"

definition replaces_arg :: arg where
  "replaces_arg = (arg_new ''replaces'')\<lparr>arg_long := Some ''replaces''\<rparr>"

definition local_node_arg :: arg where
  "local_node_arg = (arg_new ''local'')
     \<lparr>arg_long := Some ''local'', arg_default := Some ''false'', arg_type := T_Bool\<rparr>"

definition entrypoint_arg :: arg where
  "entrypoint_arg = (arg_new ''entrypoint'')
     \<lparr>arg_short := Some CHR ''e'', arg_long := Some ''entrypoint'',
      arg_aliases := [''ep'', ''entrypoint'', ''entry-point'', ''exectuable''], arg_default := Some ''''\<rparr>"

definition program_args :: arg where
  "program_args = (arg_new ''program-args'')
     \<lparr>arg_long := Some ''program-args'', arg_aliases := [''args'', ''commands'', ''at-start''],
      arg_delimiter := Some CHR '','', arg_action := A_Append, arg_may_be_empty := True, arg_default := Some ''''\<rparr>"

definition remote_node_arg :: arg where
  "remote_node_arg = (arg_new ''remote'')\<lparr>arg_long := Some ''remote'', arg_unless := Some ''local''\<rparr>"

definition address_arg :: arg where
  "address_arg = (arg_new ''address'')
     \<lparr>arg_long := Some ''address'', arg_short := Some CHR ''a'', arg_aliases := [''pubkey'', ''addy'', ''addr'']\<rparr>"

definition from_json_file_arg :: arg where
  "from_json_file_arg = (arg_new ''from-file'')
     \<lparr>arg_short := Some CHR ''f'', arg_long := Some ''from-file'', arg_type := T_Bool, arg_action := A_SetTrue,
      arg_default := Some ''false''\<rparr>"

definition json_arg :: arg where
  "json_arg = (arg_new ''json'')\<lparr>arg_short := Some CHR ''j'', arg_long := Some ''json''\<rparr>"

section \<open>Commands\<close>

text \<open>\<open>propagate_version\<close> and \<open>arg_required_else_help\<close> only choose between usage texts.\<close>

datatype command = Command (cmd_name: string) (cmd_aliases: "string list") (cmd_args: "arg list") (cmd_subcommands: "command list")

definition set_required :: "bool \<Rightarrow> arg \<Rightarrow> arg" where
  "set_required b a = a\<lparr>arg_required := b\<rparr>"

definition new_wallet_command :: command where
  "new_wallet_command = Command ''new'' []
     [set_required False seed_arg, set_required False passphrase_arg, set_required False mnemonic_size_arg,
      set_required False keyfile_path_arg, set_required False save_to_file_arg, set_required False overwrite_path_arg,
      set_required False keypair_json_arg] []"

definition from_mnemonic_command :: command where
  "from_mnemonic_command = Command ''mnemonic'' [] [set_required True mnemonic_arg] []"

definition from_secret_key_command :: command where
  "from_secret_key_command = Command ''secret-key'' []
     [(arg_new ''secret-key'')
        \<lparr>arg_short := Some CHR ''s'', arg_long := Some ''secret-key'',
         arg_aliases := [''sk'', ''secretkey'', ''private-key'', ''privatekey'', ''pk'', ''secret_key'', ''private_key'']\<rparr>] []"

definition sign_command :: command where
  "sign_command = Command ''sign'' [''sign-transaction'', ''stx'']
     [from_file_arg, keyfile_path_arg, wallet_index_arg, from_mnemonic_arg, mnemonic_arg, from_secret_key_arg,
      secret_key_arg, payload_arg, verbose_arg] []"

definition publish_command :: command where
  "publish_command = Command ''publish''
     [''pub'', ''push'', ''deploy'', ''ship'', ''release'', ''dist'', ''share'', ''post'', ''upload'', ''distribute'']
     [from_file_arg, keyfile_path_arg, wallet_index_arg, from_secret_key_arg, secret_key_arg, from_mnemonic_arg,
      mnemonic_arg, recursive_packer_arg, file_count_arg, package_path_arg, ignore_file_arg, wizard_arg, cids_arg,
      content_type_arg, api_version_arg, annotations_file_arg, author_arg, package_name_arg, package_version_arg,
      runtime_arg, local_node_arg, remote_node_arg, replaces_arg, entrypoint_arg, program_args, verbose_arg] []"

definition register_program_command :: command where
  "register_program_command = Command ''register-program''
     [''deploy'', ''rp'', ''register'', ''reg-prog'', ''prog'', ''deploy-prog'', ''register-contract'',
      ''deploy-contract'', ''rc'', ''dc'']
     [from_file_arg, keyfile_path_arg, wallet_index_arg, from_mnemonic_arg, mnemonic_arg, from_secret_key_arg,
      secret_key_arg, cid_arg, verbose_arg] []"

definition call_command :: command where
  "call_command = Command ''call'' []
     [from_file_arg, set_required False keyfile_path_arg, wallet_index_arg, from_mnemonic_arg, mnemonic_arg,
      from_secret_key_arg, secret_key_arg, receiver_arg, program_id_arg, function_arg, inputs_arg,
      set_required False value_arg, set_required False unit_arg, verbose_arg] []"

definition send_command :: command where
  "send_command = Command ''send'' []
     [from_file_arg, keyfile_path_arg, wallet_index_arg, from_mnemonic_arg, mnemonic_arg, from_secret_key_arg,
      secret_key_arg, receiver_arg, program_id_arg, value_arg, unit_arg, verbose_arg] []"

definition get_account_command :: command where
  "get_account_command = Command ''get-account'' [] [address_arg, verbose_arg] []"

definition wallet_command :: command where
  "wallet_command = Command ''wallet'' [] []
     [new_wallet_command, from_mnemonic_command, from_secret_key_command, send_command, call_command,
      register_program_command, get_account_command, sign_command]"

definition parse_outputs :: command where
  "parse_outputs = Command ''parse-outputs'' [] [from_json_file_arg, json_arg] []"

definition parse_transaction :: command where
  "parse_transaction = Command ''parse-transaction'' [''parse-tx'', ''parse-tx-json''] [json_arg] []"

definition get_default_transaction :: command where
  "get_default_transaction = Command ''default-transaction'' [''default-tx'', ''tx''] [] []"

definition hex_or_bytes_command :: command where
  "hex_or_bytes_command = Command ''hex-or-bytes'' [] [] []"

definition instruction_command :: command where
  "instruction_command = Command ''instruction'' [] [] []"

definition main_commands :: "command list" where
  "main_commands =
     [wallet_command, parse_outputs, parse_transaction, get_default_transaction, hex_or_bytes_command, instruction_command,
      publish_command]"

section \<open>Matches\<close>

text \<open>
  The matches of a command: for every argument the texts it was given, or its default, each with
  the value it was parsed to, and which arguments stood on the command line.
\<close>

datatype arg_value =
  V_String string | V_Bool bool | V_Usize nat | V_U32 "32 word" | V_U128 "128 word" | V_Address address
| V_U256 u256 | V_Unit cli_unit

record arg_matches =
  am_values :: "string \<rightharpoonup> (string \<times> arg_value) list"
  am_given :: "string \<Rightarrow> bool"

text \<open>The value parsers; a 32-bit number is read as a signed one first, so that minus zero is a number.\<close>

definition parse_u32 :: "string \<Rightarrow> nat option" where
  "parse_u32 s =
     (case s of
        c # ds \<Rightarrow> if c = CHR ''-'' \<and> ds \<noteq> [] \<and> dec_digits 0 ds = Some 0 then Some 0 else parse_uint (2 ^ 32) s
      | [] \<Rightarrow> None)"

fun value_parser :: "hex_crate \<Rightarrow> uint_crate \<Rightarrow> arg_type \<Rightarrow> string \<Rightarrow> (unit, arg_value) outcome" where
  "value_parser hx uc T_String s = Ok (V_String s)"
| "value_parser hx uc T_Bool s = (if s = ''true'' then Ok (V_Bool True) else if s = ''false'' then Ok (V_Bool False) else Err ())"
| "value_parser hx uc T_Usize s = (case parse_uint (2 ^ 64) s of Some n \<Rightarrow> Ok (V_Usize n) | None \<Rightarrow> Err ())"
| "value_parser hx uc T_U32 s = (case parse_u32 s of Some n \<Rightarrow> Ok (V_U32 (of_nat n)) | None \<Rightarrow> Err ())"
| "value_parser hx uc T_U128 s = (case parse_uint (2 ^ 128) s of Some n \<Rightarrow> Ok (V_U128 (of_nat n)) | None \<Rightarrow> Err ())"
| "value_parser hx uc T_Address s = obind (map_err (\<lambda>_. ()) (from_str hx s)) (\<lambda>a. Ok (V_Address a))"
| "value_parser hx uc T_U256 s = obind (map_err (\<lambda>_. ()) (u256_wrapper_from_str uc s)) (\<lambda>v. Ok (V_U256 v))"
| "value_parser hx uc T_Unit s = (case map_of unit_names s of Some u \<Rightarrow> Ok (V_Unit u) | None \<Rightarrow> Err ())"

text \<open>
  \<open>get_one::<T>\<close>: the first value, or none; a value of another type than \<open>T\<close> is a panic. No value
  parser of the commands makes a list of strings, so that type has no values.
\<close>

definition mismatch :: string where
  "mismatch = ''Mismatch between definition and access''"

definition try_get_one :: "(arg_value \<Rightarrow> 'a option) \<Rightarrow> string \<Rightarrow> arg_matches \<Rightarrow> (unit, 'a option) outcome" where
  "try_get_one as i m =
     (case am_values m i of
        Some ((_, v) # _) \<Rightarrow> (case as v of Some x \<Rightarrow> Ok (Some x) | None \<Rightarrow> Err ())
      | _ \<Rightarrow> Ok None)"

definition get_one :: "(arg_value \<Rightarrow> 'a option) \<Rightarrow> string \<Rightarrow> arg_matches \<Rightarrow> ('e, 'a option) outcome" where
  "get_one as i m = (case try_get_one as i m of Ok x \<Rightarrow> Ok x | _ \<Rightarrow> Panic mismatch)"

definition get_expect :: "(arg_value \<Rightarrow> 'a option) \<Rightarrow> string \<Rightarrow> string \<Rightarrow> arg_matches \<Rightarrow> ('e, 'a) outcome" where
  "get_expect as i msg m = obind (get_one as i m) (or_panic msg)"

fun as_string :: "arg_value \<Rightarrow> string option" where
  "as_string (V_String s) = Some s" | "as_string _ = None"

fun as_bool :: "arg_value \<Rightarrow> bool option" where
  "as_bool (V_Bool b) = Some b" | "as_bool _ = None"

fun as_usize :: "arg_value \<Rightarrow> nat option" where
  "as_usize (V_Usize n) = Some n" | "as_usize _ = None"

fun as_u32 :: "arg_value \<Rightarrow> 32 word option" where
  "as_u32 (V_U32 n) = Some n" | "as_u32 _ = None"

fun as_u128 :: "arg_value \<Rightarrow> 128 word option" where
  "as_u128 (V_U128 n) = Some n" | "as_u128 _ = None"

fun as_address :: "arg_value \<Rightarrow> address option" where
  "as_address (V_Address a) = Some a" | "as_address _ = None"

fun as_u256 :: "arg_value \<Rightarrow> u256 option" where
  "as_u256 (V_U256 n) = Some n" | "as_u256 _ = None"

fun as_unit :: "arg_value \<Rightarrow> cli_unit option" where
  "as_unit (V_Unit u) = Some u" | "as_unit _ = None"

definition as_strings :: "arg_value \<Rightarrow> string list option" where
  "as_strings v = None"

definition get_flag :: "string \<Rightarrow> arg_matches \<Rightarrow> ('e, bool) outcome" where
  "get_flag i m = get_expect as_bool i ''arg's `ArgAction` should be `SetTrue` or `SetFalse`'' m"

text \<open>\<open>get_many::<String>\<close>, all values at once.\<close>

definition get_strings :: "string \<Rightarrow> arg_matches \<Rightarrow> ('e, string list option) outcome" where
  "get_strings i m =
     (case am_values m i of
        None \<Rightarrow> Ok None
      | Some vs \<Rightarrow>
          if list_all (\<lambda>(_, v). as_string v \<noteq> None) vs then Ok (Some (map (\<lambda>(_, v). the (as_string v)) vs))
          else Panic mismatch)"

text \<open>What clap promises of the matches of a command with the given arguments.\<close>

definition parsed :: "hex_crate \<Rightarrow> uint_crate \<Rightarrow> arg_type \<Rightarrow> string \<times> arg_value \<Rightarrow> bool" where
  "parsed hx uc ty tv \<longleftrightarrow> value_parser hx uc ty (fst tv) = Ok (snd tv)"

definition default_texts :: "arg \<Rightarrow> string list option" where
  "default_texts a =
     (case arg_default a of
        Some d \<Rightarrow> Some (case arg_delimiter a of Some c \<Rightarrow> str_split c d | None \<Rightarrow> [d])
      | None \<Rightarrow> if arg_action a = A_SetTrue then Some [''false''] else None)"

definition arg_conforms :: "hex_crate \<Rightarrow> uint_crate \<Rightarrow> arg_matches \<Rightarrow> arg \<Rightarrow> bool" where
  "arg_conforms hx uc m a \<longleftrightarrow>
     (let given = am_given m (arg_id a) in
      (case am_values m (arg_id a) of
         None \<Rightarrow> \<not> given \<and> default_texts a = None \<and> \<not> arg_required a
       | Some tvs \<Rightarrow>
           list_all (parsed hx uc (arg_type a)) tvs \<and>
           (if \<not> given then default_texts a = Some (map fst tvs)
            else if arg_action a = A_SetTrue then tvs = [(''true'', V_Bool True)]
            else (tvs \<noteq> [] \<or> arg_may_be_empty a) \<and> (arg_action a = A_Set \<longrightarrow> length tvs = 1))) \<and>
      (given \<longrightarrow> list_all (am_given m) (arg_requires a) \<and> list_all (\<lambda>i. \<not> am_given m i) (arg_conflicts a)) \<and>
      (case arg_unless a of Some i \<Rightarrow> given \<or> am_given m i | None \<Rightarrow> True))"

definition conforms :: "hex_crate \<Rightarrow> uint_crate \<Rightarrow> command \<Rightarrow> arg_matches \<Rightarrow> bool" where
  "conforms hx uc c m \<longleftrightarrow> list_all (arg_conforms hx uc m) (cmd_args c)"

text \<open>The identifiers a command's arguments have, and whether its options can be told apart.\<close>

definition ids_distinct :: "command \<Rightarrow> bool" where
  "ids_distinct c \<longleftrightarrow> distinct (map arg_id (cmd_args c))"

definition shorts_distinct :: "command \<Rightarrow> bool" where
  "shorts_distinct c \<longleftrightarrow> distinct (List.map_filter arg_short (cmd_args c))"

definition longs_distinct :: "command \<Rightarrow> bool" where
  "longs_distinct c \<longleftrightarrow>
     distinct (concat (map (\<lambda>a. remdups (case arg_long a of Some l \<Rightarrow> l # arg_aliases a | None \<Rightarrow> arg_aliases a)) (cmd_args c)))"

section \<open>Lemmas\<close>

lemma u256_mul_SomeD: "u256_mul a b = Some c \<Longrightarrow> unat c = unat a * unat b"
  by (auto simp: u256_mul_def unat_word_ariths split: if_splits)

lemma unat_unit_factor: "unat (unit_factor u) = 10 ^ (3 * (case u of Echo \<Rightarrow> 0 | Beat \<Rightarrow> 1 | Note \<Rightarrow> 2 | Chord \<Rightarrow> 3
    | Harmony \<Rightarrow> 4 | Melody \<Rightarrow> 5 | Verse \<Rightarrow> 6))"
  by (cases u) simp_all

lemma value_parser_types:
  "value_parser hx uc T_String t = Ok v \<Longrightarrow> \<exists>x. as_string v = Some x"
  "value_parser hx uc T_Bool t = Ok v \<Longrightarrow> \<exists>x. as_bool v = Some x"
  "value_parser hx uc T_Usize t = Ok v \<Longrightarrow> \<exists>x. as_usize v = Some x"
  "value_parser hx uc T_U32 t = Ok v \<Longrightarrow> \<exists>x. as_u32 v = Some x"
  "value_parser hx uc T_U128 t = Ok v \<Longrightarrow> \<exists>x. as_u128 v = Some x"
  "value_parser hx uc T_Address t = Ok v \<Longrightarrow> \<exists>x. as_address v = Some x"
  "value_parser hx uc T_U256 t = Ok v \<Longrightarrow> \<exists>x. as_u256 v = Some x"
  "value_parser hx uc T_Unit t = Ok v \<Longrightarrow> \<exists>x. as_unit v = Some x"
  by (auto simp: outcome_simps split: if_splits option.splits)

text \<open>An access at the type of the argument does not panic, and finds a value where there must be one.\<close>

lemma str_split_not_Nil: "str_split c s \<noteq> []"
  by (induction c s rule: str_split.induct) (auto split: list.splits)

definition always_there :: "arg \<Rightarrow> bool" where
  "always_there a \<longleftrightarrow> (default_texts a \<noteq> None \<or> arg_required a) \<and> \<not> arg_may_be_empty a"

lemma get_one_conforms:
  assumes "arg_conforms hx uc m a" and "\<And>t v. value_parser hx uc (arg_type a) t = Ok v \<Longrightarrow> \<exists>x. as v = Some x"
    and "i = arg_id a"
  obtains x where "try_get_one as i m = Ok x" and "always_there a \<Longrightarrow> x \<noteq> None"
proof (cases "am_values m i")
  case None
  then have "try_get_one as i m = Ok None" by (simp add: try_get_one_def)
  moreover have "\<not> always_there a" using assms(1,3) None by (auto simp: arg_conforms_def Let_def always_there_def)
  ultimately show thesis using that by blast
next
  case (Some tvs)
  show thesis
  proof (cases tvs)
    case Nil
    then have "try_get_one as i m = Ok None" using Some by (simp add: try_get_one_def)
    moreover have "\<not> always_there a"
      using assms(1,3) Some Nil str_split_not_Nil
      by (auto simp: arg_conforms_def Let_def always_there_def default_texts_def split: if_splits option.splits)
    ultimately show thesis using that by blast
  next
    case (Cons tv rest)
    obtain t v where tv: "tv = (t, v)" by fastforce
    have "value_parser hx uc (arg_type a) t = Ok v" using assms(1,3) Some Cons tv by (simp add: arg_conforms_def Let_def parsed_def)
    then obtain x where "as v = Some x" using assms(2) by blast
    then have "try_get_one as i m = Ok (Some x)" using Some Cons tv by (simp add: try_get_one_def)
    then show thesis using that by blast
  qed
qed

lemma get_expect_conforms:
  assumes "arg_conforms hx uc m a" and "\<And>t v. value_parser hx uc (arg_type a) t = Ok v \<Longrightarrow> \<exists>x. as v = Some x"
    and "i = arg_id a" and "always_there a"
  obtains x where "try_get_one as i m = Ok (Some x)"
proof -
  obtain x where x: "try_get_one as i m = Ok x" "always_there a \<Longrightarrow> x \<noteq> None"
    by (rule get_one_conforms [OF assms(1) _ assms(3), of as]) (use assms(2) in blast)+
  then obtain y where "x = Some y" using assms(4) by blast
  then show thesis using x(1) that [of y] by simp
qed

lemma flag_conforms:
  assumes "arg_conforms hx uc m a" and "arg_action a = A_SetTrue" and "arg_type a = T_Bool"
    and "arg_default a \<in> {None, Some ''false''}" and "arg_delimiter a = None" and "i = arg_id a"
  shows "try_get_one as_bool i m = Ok (Some (am_given m i))"
proof (cases "am_values m i")
  case None
  then show ?thesis using assms by (auto simp: arg_conforms_def Let_def default_texts_def)
next
  case (Some tvs)
  have ok: "list_all (parsed hx uc T_Bool) tvs"
      "if am_given m i then tvs = [(''true'', V_Bool True)] else map fst tvs = [''false'']"
    using assms Some by (auto simp: arg_conforms_def Let_def default_texts_def split: if_splits)
  show ?thesis
  proof (cases "am_given m i")
    case True
    then show ?thesis using Some ok by (simp add: try_get_one_def)
  next
    case False
    then obtain v where "tvs = [(''false'', v)]" using ok(2) by auto
    then show ?thesis using Some ok(1) False by (auto simp: try_get_one_def parsed_def)
  qed
qed

lemma get_one_Ok: "try_get_one as i m = Ok x \<Longrightarrow> get_one as i m = Ok x"
  by (simp add: get_one_def)

lemma get_expect_Ok: "try_get_one as i m = Ok (Some x) \<Longrightarrow> get_expect as i msg m = Ok x"
  by (simp add: get_expect_def get_one_def)

lemma get_flag_Ok: "try_get_one as_bool i m = Ok (Some x) \<Longrightarrow> get_flag i m = Ok x"
  unfolding get_flag_def by (rule get_expect_Ok)

text \<open>An amount and its unit on the command line: the exact product, or a panic where it does not fit.\<close>

lemma mul_unit_exact:
  "mul_unit v u =
     (if unat v * unat (unit_factor u) < 2 ^ 256 then Ok (of_nat (unat v * unat (unit_factor u))) else Panic overflow)"
  by (simp add: mul_unit_def u256_mul_def)

text \<open>The short options of \<open>send\<close> and \<open>call\<close> clash: \<open>-v\<close> is the value and the verbose flag.\<close>

lemma shorts_clash:
  "filter (\<lambda>c. \<not> shorts_distinct c) (publish_command # cmd_subcommands wallet_command) = [send_command, call_command]"
  by code_simp

end
