(* ===== verification/Cli_Model.thy ===== *)
theory Cli_Model
  imports Bundle_Model Cli_Args
begin

text \<open>
  The commands of the command line (crates/cli/src/cli.rs): keys from a file, a mnemonic or the
  command line, the wallet in front of the node, and the publishing of packages. A command runs on
  the file system, the lines printed so far, and the state behind the RPC client and the content
  store. JSON, bincode, the directory walk, the HTTP client and the content store are parameters
  (record \<open>cli_env\<close>). Progress lines of the verbose flag and banners are left out, and so is the
  text that \<open>expect\<close> adds of the error. Strings are ASCII.
\<close>

section \<open>State and parameters\<close>

record 'n cli =
  cl_fs :: fsys
  cl_out :: "string list"
  cl_node :: 'n

datatype cli_error =
  CE_Io string | CE_Json string | CE_Mnemonic string | CE_Secp string | CE_Client string | CE_Store string
| CE_Wallet wallet_error

datatype store_address = Local_Store | Multiaddr string | Hostname string bool

record 'n cli_env =
  cx_os :: os
  cx_wallet :: "'n wallet_env"
  cx_rng_u64 :: u64
  cx_entropy :: "nat \<Rightarrow> u8 list"
  cx_rpc_url :: "string option"
  cx_client :: "string \<Rightarrow> (string, unit) outcome"
  cx_print_wallet :: "wallet_info \<Rightarrow> (string, string) outcome"
  cx_print_wallets :: "wallet_info list \<Rightarrow> (string, string) outcome"
  cx_parse_wallets :: "string \<Rightarrow> (string, wallet_info list) outcome"
  cx_show_secret :: "u8 list \<Rightarrow> string"
  cx_show_public :: "u8 list \<Rightarrow> string"
  cx_print_token :: "token \<Rightarrow> (string, string) outcome"
  cx_print_transaction :: "transaction \<Rightarrow> (string, string) outcome"
  cx_content_id_json :: "string \<Rightarrow> string"
  cx_program_address_json :: "string \<Rightarrow> string"
  cx_parse_outputs :: "string \<Rightarrow> (string, outputs) outcome"
  cx_debug_outputs :: "outputs \<Rightarrow> string"
  cx_parse_transaction :: "string \<Rightarrow> (string, transaction) outcome"
  cx_debug_transaction :: "transaction \<Rightarrow> string"
  cx_transaction_json :: "transaction \<Rightarrow> (string, string) outcome"
  cx_hex_or_bytes_json :: "hex_or_bytes \<Rightarrow> (string, string) outcome"
  cx_instruction_json :: "instruction \<Rightarrow> (string, string) outcome"
  cx_store :: "store_address \<Rightarrow> (string, unit) outcome"
  cx_write_object :: "store_address \<Rightarrow> u8 list \<Rightarrow> 'n \<Rightarrow> 'n \<times> (string, string) outcome"
  cx_write_dag :: "store_address \<Rightarrow> u8 list \<Rightarrow> 'n \<Rightarrow> 'n \<times> (string, string) outcome"
  cx_walk :: "string \<Rightarrow> fsys \<Rightarrow> string list"
  cx_socket_v6 :: "string \<Rightarrow> (string \<times> string) option"
  cx_parse_annotations :: "string \<Rightarrow> (string, string \<rightharpoonup> string) outcome"
  cx_parse_cids :: "string \<Rightarrow> (string, string list) outcome"
  cx_bincode_object :: "lasr_object_payload \<Rightarrow> (string, u8 list) outcome"
  cx_bincode_package :: "lasr_package_payload \<Rightarrow> (string, u8 list) outcome"
  cx_package_json :: "lasr_package \<Rightarrow> (string, string) outcome"
  cx_secp_text :: "secp_error \<Rightarrow> string"

type_synonym ('n, 'a) cli_result = "('n cli, cli_error, 'a) mutres"

section \<open>The standard library\<close>

definition println :: "string \<Rightarrow> 'n cli \<Rightarrow> 'n cli" where
  "println line c = c\<lparr>cl_out := cl_out c @ [line]\<rparr>"

text \<open>\<open>Result::expect\<close> and \<open>Result::unwrap\<close>.\<close>

fun expect :: "string \<Rightarrow> ('e, 'a) outcome \<Rightarrow> ('f, 'a) outcome" where
  "expect msg (Ok a) = Ok a"
| "expect msg (Err e) = Panic msg"
| "expect msg (Panic p) = Panic p"

definition on_fs :: "(fsys \<Rightarrow> 'a fs_result) \<Rightarrow> string \<Rightarrow> 'n cli \<Rightarrow> ('n, 'a) cli_result" where
  "on_fs f msg c = (case f (cl_fs c) of (fs, r) \<Rightarrow> (c\<lparr>cl_fs := fs\<rparr>, expect msg r))"

text \<open>\<open>File::open\<close> for reading; a directory can be opened.\<close>

definition open_read :: "os \<Rightarrow> string \<Rightarrow> fsys \<Rightarrow> (string, unit) outcome" where
  "open_read os p fs = (if os_refuses os FC_Open p \<or> \<not> path_exists os fs p then Err (os_text os FC_Open p) else Ok ())"

text \<open>UTF-8: how many bytes follow a first byte, and the range of the one that follows at once.\<close>

definition utf8_lead :: "u8 \<Rightarrow> (nat \<times> u8 \<times> u8) option" where
  "utf8_lead a =
     (if a \<le> 0x7F then Some (0, 0x80, 0xBF)
      else if 0xC2 \<le> a \<and> a \<le> 0xDF then Some (1, 0x80, 0xBF)
      else if a = 0xE0 then Some (2, 0xA0, 0xBF)
      else if a = 0xED then Some (2, 0x80, 0x9F)
      else if 0xE1 \<le> a \<and> a \<le> 0xEF then Some (2, 0x80, 0xBF)
      else if a = 0xF0 then Some (3, 0x90, 0xBF)
      else if 0xF1 \<le> a \<and> a \<le> 0xF3 then Some (3, 0x80, 0xBF)
      else if a = 0xF4 then Some (3, 0x80, 0x8F)
      else None)"

fun utf8_scan :: "nat \<Rightarrow> u8 \<Rightarrow> u8 \<Rightarrow> u8 list \<Rightarrow> bool" where
  "utf8_scan n lo hi [] = (n = 0)"
| "utf8_scan n lo hi (b # bs) =
     (if n = 0 then (case utf8_lead b of Some (k, lo', hi') \<Rightarrow> utf8_scan k lo' hi' bs | None \<Rightarrow> False)
      else lo \<le> b \<and> b \<le> hi \<and> utf8_scan (n - 1) 0x80 0xBF bs)"

definition utf8_valid :: "u8 list \<Rightarrow> bool" where
  "utf8_valid bs = utf8_scan 0 0x80 0xBF bs"

definition bytes_str :: "u8 list \<Rightarrow> string" where
  "bytes_str bs = map (\<lambda>b. char_of (unat b)) bs"

text \<open>\<open>read_to_string\<close>: bytes that are not UTF-8 are an error and leave the buffer empty.\<close>

definition read_to_string :: "os \<Rightarrow> string \<Rightarrow> fsys \<Rightarrow> (string, string) outcome" where
  "read_to_string os p fs =
     obind (read_file os p fs) (\<lambda>bytes.
     if utf8_valid bytes then Ok (bytes_str bytes) else Err ''stream did not contain valid UTF-8'')"

definition read_buffer :: "os \<Rightarrow> string \<Rightarrow> fsys \<Rightarrow> string" where
  "read_buffer os p fs = (case read_to_string os p fs of Ok s \<Rightarrow> s | _ \<Rightarrow> '''')"

text \<open>An IPv4 socket address, as text of its parts.\<close>

definition parse_octet :: "string \<Rightarrow> nat option" where
  "parse_octet t =
     (if t = [] \<or> 3 < length t \<or> (hd t = CHR ''0'' \<and> 1 < length t) then None
      else case dec_digits 0 t of Some n \<Rightarrow> if n < 256 then Some n else None | None \<Rightarrow> None)"

definition parse_port :: "string \<Rightarrow> nat option" where
  "parse_port t =
     (if t = [] then None
      else case dec_digits 0 t of Some n \<Rightarrow> if n < 2 ^ 16 then Some n else None | None \<Rightarrow> None)"

definition parse_socket_v4 :: "string \<Rightarrow> (string \<times> string) option" where
  "parse_socket_v4 s =
     (case str_split CHR '':'' s of
        [ip, port] \<Rightarrow>
          (case (map parse_octet (str_split CHR ''.'' ip), parse_port port) of
             ([Some a, Some b, Some c, Some d], Some p) \<Rightarrow>
               Some (show_nat a @ ''.'' @ show_nat b @ ''.'' @ show_nat c @ ''.'' @ show_nat d, show_nat p)
           | _ \<Rightarrow> None)
      | _ \<Rightarrow> None)"

section \<open>Keys and wallets\<close>

text \<open>
  The keys of a command: the wallet of the given index of a keypair file, the first 32 bytes of a
  mnemonic's seed, or a secret key from the command line; the last is also what is tried when no
  source is named.
\<close>

definition keypair_from_file :: "'n cli_env \<Rightarrow> arg_matches \<Rightarrow> fsys \<Rightarrow> (cli_error, u8 list \<times> u8 list) outcome" where
  "keypair_from_file env m fs =
     obind (get_expect as_string ''path'' ''required if from-file flag'' m) (\<lambda>keypair_file.
     obind (get_expect as_usize ''wallet-index'' ''required or default'' m) (\<lambda>wallet_index.
     obind (map_err CE_Io (open_read (cx_os env) keypair_file fs)) (\<lambda>_.
     let contents = read_buffer (cx_os env) keypair_file fs in
     obind (map_err CE_Json (cx_parse_wallets env contents)) (\<lambda>wallets.
     if wallet_index < length wallets
     then Ok (wi_secret_key (wallets ! wallet_index), wi_public_key (wallets ! wallet_index))
     else Panic ''index out of bounds''))))"

definition keypair_from_mnemonic :: "'n cli_env \<Rightarrow> arg_matches \<Rightarrow> (cli_error, u8 list \<times> u8 list) outcome" where
  "keypair_from_mnemonic env m =
     (let ko = we_keys (cx_wallet env) in
      obind (get_expect as_string ''mnemonic'' ''required if from-mnemonic flag'' m) (\<lambda>phrase.
      obind (map_err CE_Mnemonic (ko_parse_mnemonic ko phrase)) (\<lambda>mnemonic.
      let seed = ko_seed ko mnemonic '''' in
      obind (map_err CE_Secp (ko_key_from_slice ko (take 32 seed))) (\<lambda>master.
      Ok (master, ko_public ko master)))))"

definition keypair_from_secret_key :: "'n cli_env \<Rightarrow> arg_matches \<Rightarrow> 'n cli \<Rightarrow> ('n, u8 list \<times> u8 list) cli_result" where
  "keypair_from_secret_key env m c =
     (let ko = we_keys (cx_wallet env) in
      and_then (c, get_expect as_string ''secret-key'' ''required if from-secret-key flag'' m) (\<lambda>c sk.
      and_then (c, map_err CE_Secp (ko_key_from_str ko sk)) (\<lambda>c master.
      let pubkey = ko_public ko master;
          address = address_from_pubkey (keccak256 (we_crypto (cx_wallet env))) pubkey in
      and_then (c, get_expect as_bool ''verbose'' ''required or default'' m) (\<lambda>c verbose.
      (if verbose then println (''0x'' @ bytes_hex (addr_inner address)) (println sk c) else c,
       Ok (master, pubkey))))))"

definition get_keypair :: "'n cli_env \<Rightarrow> arg_matches \<Rightarrow> 'n cli \<Rightarrow> ('n, u8 list \<times> u8 list) cli_result" where
  "get_keypair env m c =
     and_then (c, get_flag ''from-file'' m) (\<lambda>c from_file.
     and_then (c, get_flag ''from-mnemonic'' m) (\<lambda>c from_mnemonic.
     and_then (c, get_flag ''from-secret-key'' m) (\<lambda>c from_secret_key.
     if from_file then (c, keypair_from_file env m (cl_fs c))
     else if from_mnemonic then (c, keypair_from_mnemonic env m)
     else keypair_from_secret_key env m c)))"

definition default_rpc_url :: string where
  "default_rpc_url = ''http://127.0.0.1:9292''"

definition get_client :: "'n cli_env \<Rightarrow> (cli_error, unit) outcome" where
  "get_client env =
     map_err CE_Client (cx_client env (case cx_rpc_url env of Some url \<Rightarrow> url | None \<Rightarrow> default_rpc_url))"

text \<open>A node that does not answer leaves the wallet with an empty account.\<close>

definition get_wallet :: "'n cli_env \<Rightarrow> arg_matches \<Rightarrow> 'n cli \<Rightarrow> ('n, wallet) cli_result" where
  "get_wallet env m c =
     and_then (get_keypair env m c) (\<lambda>c (secret_key, public_key).
     let address = address_from_pubkey (keccak256 (we_crypto (cx_wallet env))) public_key;
         wallet = (\<lambda>account. \<lparr>wl_sk = secret_key, wl_builder = default_payload_builder, wl_address = address,
                             wl_account = account\<rparr>) in
     and_then (c, get_client env) (\<lambda>c _.
     case we_get_account (cx_wallet env) (lower_hex address) (cl_node c) of
       (n, Ok account_str) \<Rightarrow>
         (let c = println account_str (c\<lparr>cl_node := n\<rparr>) in
          and_then (c, map_err CE_Json (we_account_json (cx_wallet env) account_str)) (\<lambda>c account.
          (c, Ok (wallet account))))
     | (n, Err e) \<Rightarrow> (c\<lparr>cl_node := n\<rparr>, Ok (wallet (account_new User None address None)))
     | (n, Panic p) \<Rightarrow> (c\<lparr>cl_node := n\<rparr>, Panic p)))"

text \<open>A method of the wallet, and one whose result is dropped.\<close>

definition on_wallet ::
    "('n \<times> wallet \<Rightarrow> ('n, 'a) wallet_result) \<Rightarrow> wallet \<Rightarrow> 'n cli \<Rightarrow> ('n, wallet \<times> 'a) cli_result" where
  "on_wallet f w c =
     (case f (cl_node c, w) of
        ((n, w), r) \<Rightarrow> (c\<lparr>cl_node := n\<rparr>, obind (map_err CE_Wallet r) (\<lambda>a. Ok (w, a))))"

definition on_wallet_ignore ::
    "('n \<times> wallet \<Rightarrow> ('n, 'a) wallet_result) \<Rightarrow> wallet \<Rightarrow> 'n cli \<Rightarrow> ('n, wallet) cli_result" where
  "on_wallet_ignore f w c =
     (case f (cl_node c, w) of
        ((n, w), r) \<Rightarrow> (c\<lparr>cl_node := n\<rparr>, case r of Panic p \<Rightarrow> Panic p | _ \<Rightarrow> Ok w))"

section \<open>Wallet commands\<close>

definition pretty_print_keypair_info :: "'n cli_env \<Rightarrow> wallet_info \<Rightarrow> 'n cli \<Rightarrow> ('n, unit) cli_result" where
  "pretty_print_keypair_info env wi c =
     and_then (c, expect ''unwrap'' (cx_print_wallet env wi)) (\<lambda>c text. (println text c, Ok ()))"

definition pretty_print_wallet_info :: "'n cli_env \<Rightarrow> wallet_info \<Rightarrow> 'n cli \<Rightarrow> ('n, unit) cli_result" where
  "pretty_print_wallet_info env wi c =
     (c\<lparr>cl_out := cl_out c @
        [wi_mnemonic wi, cx_show_secret env (wi_secret_key wi), cx_show_public env (wi_public_key wi),
         ''0x'' @ bytes_hex (addr_inner (wi_address wi))]\<rparr>, Ok ())"

text \<open>The wallets in the keypair file; a file that is there but empty holds none.\<close>

definition existing_wallets :: "'n cli_env \<Rightarrow> string \<Rightarrow> fsys \<Rightarrow> (cli_error, wallet_info list) outcome" where
  "existing_wallets env path fs =
     (if path_exists (cx_os env) fs path then
        obind (expect ''file cant be opened'' (open_read (cx_os env) path fs)) (\<lambda>_.
        obind (expect ''file should exist'' (read_file (cx_os env) path fs)) (\<lambda>file_buffer.
        if file_buffer \<noteq> [] then
          expect ''keypair file has been corrupted''
            (if utf8_valid file_buffer then cx_parse_wallets env (bytes_str file_buffer) else Err ''invalid unicode'')
        else Ok []))
      else Ok [])"

text \<open>The wallet is added to those of the file; whether to overwrite them is asked and not used.\<close>

definition save_wallet :: "'n cli_env \<Rightarrow> arg_matches \<Rightarrow> wallet_info \<Rightarrow> 'n cli \<Rightarrow> ('n, unit) cli_result" where
  "save_wallet env m wi c =
     (let os = cx_os env in
      and_then (c, get_expect as_string ''path'' ''required or default'' m) (\<lambda>c path.
      and_then (c, or_panic ''dir has no parent'' (path_parent path)) (\<lambda>c dir_path.
      and_then (if path_exists os (cl_fs c) dir_path then (c, Ok ())
                else on_fs (create_dir_all os dir_path) ''unable to create directory for keyfile'' c) (\<lambda>c _.
      and_then (c, get_expect as_bool ''overwrite'' ''required or default'' m) (\<lambda>c overwrite.
      and_then (c, existing_wallets env path (cl_fs c)) (\<lambda>c existing.
      and_then (on_fs (open_truncate os path) ''unable to open file to write WalletInfo'' c) (\<lambda>c _.
      and_then (c, expect ''unable to serialize wallet info'' (cx_print_wallets env (existing @ [wi]))) (\<lambda>c text.
      on_fs (write_all os path (str_bytes text)) ''unable to write wallet info to file'' c))))))))"

definition handle_new_wallet_command :: "'n cli_env \<Rightarrow> arg_matches \<Rightarrow> 'n cli \<Rightarrow> ('n, unit) cli_result" where
  "handle_new_wallet_command env m c =
     and_then (c, get_one as_u128 ''seed'' m) (\<lambda>c seed.
     and_then (c, get_one as_string ''passphrase'' m) (\<lambda>c passphrase.
     and_then (c, get_one as_usize ''mnemonic-size'' m) (\<lambda>c size_opt.
     and_then (c, expect ''Unable to acquire WalletInfo''
                    (get_info (we_crypto (cx_wallet env)) (we_keys (cx_wallet env)) (cx_rng_u64 env) (cx_entropy env)
                       (map_option unat seed) passphrase size_opt)) (\<lambda>c wallet_info.
     and_then (c, get_one as_bool ''keypair-json'' m) (\<lambda>c flag.
     and_then (case flag of
                 Some _ \<Rightarrow> pretty_print_keypair_info env wallet_info c
               | None \<Rightarrow> pretty_print_wallet_info env wallet_info c) (\<lambda>c _.
     and_then (c, get_one as_bool ''save'' m) (\<lambda>c save.
     if save = Some True then save_wallet env m wallet_info c else (c, Ok ()))))))))"

definition handle_sign_command :: "'n cli_env \<Rightarrow> arg_matches \<Rightarrow> 'n cli \<Rightarrow> ('n, unit) cli_result" where
  "handle_sign_command env m c =
     and_then (get_wallet env m c) (\<lambda>c wallet.
     and_then (c, get_expect as_string ''payload'' ''required'' m) (\<lambda>c payload.
     and_then (c, expect ''unable to sign payload'' (sign_payload (cx_wallet env) payload wallet)) (\<lambda>c sig.
     and_then (c, expect ''unwrap'' (cx_print_transaction env sig)) (\<lambda>c text.
     (println text c, Ok ())))))"

definition cli_handle_register_program :: "'n cli_env \<Rightarrow> arg_matches \<Rightarrow> 'n cli \<Rightarrow> ('n, unit) cli_result" where
  "cli_handle_register_program env m c =
     and_then (c, get_expect as_bool ''verbose'' ''required or default'' m) (\<lambda>c verbose.
     and_then (get_wallet env m c) (\<lambda>c wallet.
     let address = wl_address wallet in
     and_then (c, get_expect as_string ''content-id'' ''required'' m) (\<lambda>c cid.
     and_then (on_wallet (wallet_register_program (cx_wallet env) (cx_content_id_json env cid)) wallet c) (\<lambda>c (wallet, program_address).
     let c = println (cx_program_address_json env program_address) c in
     and_then (on_wallet_ignore (wallet_get_account (cx_wallet env) address) wallet c) (\<lambda>c _.
     (c, Ok ()))))))"

definition handle_call_command :: "'n cli_env \<Rightarrow> arg_matches \<Rightarrow> 'n cli \<Rightarrow> ('n, unit) cli_result" where
  "handle_call_command env m c =
     and_then (get_wallet env m c) (\<lambda>c wallet.
     let address = wl_address wallet in
     and_then (c, get_expect as_bool ''verbose'' ''required or default'' m) (\<lambda>c verbose.
     and_then (on_wallet_ignore (wallet_get_account (cx_wallet env) address) wallet c) (\<lambda>c wallet.
     and_then (c, get_expect as_address ''to'' ''required'' m) (\<lambda>c to_addr.
     and_then (c, get_expect as_address ''content-namespace'' ''required'' m) (\<lambda>c pid.
     and_then (c, get_expect as_u256 ''value'' ''required'' m) (\<lambda>c value.
     and_then (c, get_expect as_string ''op'' ''required'' m) (\<lambda>c op.
     and_then (c, get_expect as_string ''inputs'' ''required'' m) (\<lambda>c inputs.
     and_then (c, get_expect as_unit ''unit'' ''required'' m) (\<lambda>c unit.
     and_then (c, mul_unit value unit) (\<lambda>c amount.
     and_then (on_wallet (wallet_call (cx_wallet env) pid to_addr amount op inputs) wallet c) (\<lambda>c (wallet, tx_hash_string).
     (println tx_hash_string c, Ok ()))))))))))))"

definition handle_send_command :: "'n cli_env \<Rightarrow> arg_matches \<Rightarrow> 'n cli \<Rightarrow> ('n, unit) cli_result" where
  "handle_send_command env m c =
     (let c = println ''received `wallet send` command'' c in
      and_then (get_wallet env m c) (\<lambda>c wallet.
      let address = wl_address wallet in
      and_then (on_wallet_ignore (wallet_get_account (cx_wallet env) address) wallet c) (\<lambda>c wallet.
      and_then (c, get_expect as_address ''to'' ''required'' m) (\<lambda>c to_addr.
      and_then (c, get_expect as_address ''content-namespace'' ''required'' m) (\<lambda>c pid.
      and_then (c, get_expect as_u256 ''value'' ''required'' m) (\<lambda>c value.
      and_then (c, get_expect as_unit ''unit'' ''required'' m) (\<lambda>c unit.
      and_then (c, mul_unit value unit) (\<lambda>c amount.
      and_then (on_wallet (wallet_send (cx_wallet env) to_addr pid amount) wallet c) (\<lambda>c (wallet, token).
      and_then (c, map_err CE_Json (cx_print_token env token)) (\<lambda>c text.
      (println text c, Ok ())))))))))))"

definition handle_get_account_command :: "'n cli_env \<Rightarrow> arg_matches \<Rightarrow> 'n cli \<Rightarrow> ('n, unit) cli_result" where
  "handle_get_account_command env m c =
     and_then (c, get_expect as_string ''address'' ''address is required'' m) (\<lambda>c address.
     and_then (c, get_client env) (\<lambda>c _.
     case we_get_account (cx_wallet env) address (cl_node c) of
       (n, r) \<Rightarrow> and_then (c\<lparr>cl_node := n\<rparr>, map_err CE_Client r) (\<lambda>c account. (println account c, Ok ()))))"

section \<open>Commands that only print\<close>

definition handle_parse_outputs_command :: "'n cli_env \<Rightarrow> arg_matches \<Rightarrow> 'n cli \<Rightarrow> ('n, unit) cli_result" where
  "handle_parse_outputs_command env m c =
     and_then (c, get_one as_bool ''from-file'' m) (\<lambda>c from_file.
     and_then (if from_file = Some True then
                 and_then (c, get_expect as_string ''json'' ''unable to acquire json filepath'' m) (\<lambda>c json.
                 and_then (c, expect ''unable to open json file'' (open_read (cx_os env) json (cl_fs c))) (\<lambda>c _.
                 (c, expect ''unable to read json file contents to string'' (read_to_string (cx_os env) json (cl_fs c)))))
               else (c, get_expect as_string ''json'' ''unable to acquire json from command line'' m)) (\<lambda>c json_str.
     and_then (c, map_err CE_Json (cx_parse_outputs env json_str)) (\<lambda>c outs.
     (println (cx_debug_outputs env outs) c, Ok ()))))"

definition handle_parse_transaction_command :: "'n cli_env \<Rightarrow> arg_matches \<Rightarrow> 'n cli \<Rightarrow> ('n, unit) cli_result" where
  "handle_parse_transaction_command env m c =
     and_then (c, get_expect as_string ''json'' ''unable to acquire json from command line'' m) (\<lambda>c json_str.
     and_then (c, map_err CE_Json (cx_parse_transaction env json_str)) (\<lambda>c tx.
     (println (cx_debug_transaction env tx) c, Ok ())))"

text \<open>A string is printed in its \<open>Debug\<close> form; escapes are left out.\<close>

definition print_debug :: "(string, string) outcome \<Rightarrow> 'n cli \<Rightarrow> ('n, unit) cli_result" where
  "print_debug r c = and_then (c, map_err CE_Json r) (\<lambda>c text. (println (quoted text) c, Ok ()))"

definition handle_default_transaction :: "'n cli_env \<Rightarrow> 'n cli \<Rightarrow> ('n, unit) cli_result" where
  "handle_default_transaction env = print_debug (cx_transaction_json env default_transaction)"

definition handle_hex_or_bytes_command :: "'n cli_env \<Rightarrow> hex_crate \<Rightarrow> 'n cli \<Rightarrow> ('n, unit) cli_result" where
  "handle_hex_or_bytes_command env hx c =
     and_then (print_debug (cx_hex_or_bytes_json env (Hex_Str (hex_encode hx (replicate 20 2)))) c) (\<lambda>c _.
     print_debug (cx_hex_or_bytes_json env (Bytes (replicate 20 2))) c)"

definition handle_instruction_command :: "'n cli_env \<Rightarrow> 'n cli \<Rightarrow> ('n, unit) cli_result" where
  "handle_instruction_command env c =
     and_then (c, map_err CE_Json (collect_results (cx_instruction_json env)
                    [Create default_create_instruction, Update default_update_instruction,
                     Transfer default_transfer_instruction, Burn default_burn_instruction])) (\<lambda>c texts.
     (c\<lparr>cl_out := cl_out c @ map quoted texts\<rparr>, Ok ()))"

section \<open>Publishing\<close>

text \<open>
  One entry of the walk over the package's directory. What is not a file is passed over; the path
  of a file is kept as it was walked. The buffers are the content ids and the objects so far.
\<close>

definition publish_object ::
    "'n cli_env \<Rightarrow> store_address \<Rightarrow> (string \<rightharpoonup> string) \<Rightarrow> u8 list \<Rightarrow> string
       \<Rightarrow> 'n cli \<times> string list \<times> lasr_object list \<Rightarrow> ('n cli \<times> string list \<times> lasr_object list, cli_error, unit) mutres" where
  "publish_object env store annotations sk path s =
     (case s of (c, cids, objects) \<Rightarrow>
      if is_file (cx_os env) (cl_fs c) path then
        and_then (s, map_err CE_Io (read_file (cx_os env) path (cl_fs c))) (\<lambda>_ bytes.
        case cx_write_object env store bytes (cl_node c) of (n, r) \<Rightarrow>
        let c = c\<lparr>cl_node := n\<rparr> in
        and_then ((c, cids, objects), map_err CE_Store r) (\<lambda>_ cid.
        let payload =
              \<lparr>object_content_type = content_type_from_path path, object_path = path, object_cid = cid,
               object_annotations =
                 (case annotations path of
                    Some inner_annots \<Rightarrow> (case cx_parse_annotations env inner_annots of Ok annots \<Rightarrow> annots | _ \<Rightarrow> Map.empty)
                  | None \<Rightarrow> Map.empty)\<rparr> in
        and_then ((c, cids @ [cid], objects),
            map_err CE_Io (sign_object (we_crypto (cx_wallet env)) (we_keys (cx_wallet env)) (cx_secp_text env)
                             (cx_bincode_object env) sk payload)) (\<lambda>_ sig.
        ((c, cids @ [cid], objects @ [\<lparr>object_payload = payload, object_sig = sig\<rparr>]), Ok ()))))
      else (s, Ok ()))"

definition recursively_publish_objects ::
    "'n cli_env \<Rightarrow> string \<Rightarrow> store_address \<Rightarrow> (string \<rightharpoonup> string) \<Rightarrow> u8 list \<Rightarrow> 'n cli
       \<Rightarrow> ('n, string list \<times> lasr_object list) cli_result" where
  "recursively_publish_objects env package_path store annotations sk c =
     (case for_each (publish_object env store annotations sk) (cx_walk env package_path (cl_fs c)) (c, [], []) of
        ((c, cids, objects), r) \<Rightarrow> (c, obind r (\<lambda>_. Ok (cids, objects))))"

text \<open>Objects that are already in the store are not fetched.\<close>

definition get_lasr_objects :: "string list \<Rightarrow> lasr_object list" where
  "get_lasr_objects cids = []"

record publish_args =
  pg_package_path :: string
  pg_cids :: "string list option"
  pg_content_type :: string
  pg_api_version :: "32 word"
  pg_annotations_file :: "string option"
  pg_author :: string
  pg_name :: string
  pg_package_version :: "32 word"
  pg_local :: bool
  pg_remote :: "string option"
  pg_runtime :: string
  pg_replaces :: "string option"
  pg_entrypoint :: "string option"
  pg_program_args :: "string list option"

text \<open>The arguments in the order they are read; four of them are read and not used.\<close>

definition gather_publish_args :: "arg_matches \<Rightarrow> (cli_error, publish_args) outcome" where
  "gather_publish_args m =
     obind (get_expect as_string ''package-path'' ''package path is required'' m) (\<lambda>package_path.
     obind (get_one as_string ''ignore-file'' m) (\<lambda>ignore_file.
     obind (get_expect as_bool ''recursive'' ''required or default'' m) (\<lambda>recursive.
     obind (get_expect as_u32 ''file-count'' ''required or default'' m) (\<lambda>file_count.
     obind (get_one as_strings ''cids'' m) (\<lambda>cids.
     obind (get_expect as_string ''content-type'' ''content type is required'' m) (\<lambda>content_type.
     obind (get_expect as_u32 ''api-version'' ''required or default'' m) (\<lambda>api_version.
     obind (get_one as_string ''annotations-file'' m) (\<lambda>annotations_file.
     obind (get_expect as_string ''author'' ''required or default'' m) (\<lambda>author.
     obind (get_expect as_string ''name'' ''required'' m) (\<lambda>name.
     obind (get_expect as_u32 ''package-version'' ''required or default'' m) (\<lambda>package_version.
     obind (get_expect as_bool ''local'' ''required or default'' m) (\<lambda>is_local.
     obind (get_one as_string ''remote'' m) (\<lambda>remote.
     obind (get_expect as_string ''runtime'' ''required or default'' m) (\<lambda>runtime.
     obind (get_one as_string ''replaces'' m) (\<lambda>replaces.
     obind (get_one as_string ''entrypoint'' m) (\<lambda>entrypoint.
     obind (get_strings ''program-args'' m) (\<lambda>args.
     obind (get_expect as_bool ''verbose'' ''required or default'' m) (\<lambda>verbose.
     Ok \<lparr>pg_package_path = package_path, pg_cids = cids, pg_content_type = content_type, pg_api_version = api_version,
         pg_annotations_file = annotations_file, pg_author = author, pg_name = name,
         pg_package_version = package_version, pg_local = is_local, pg_remote = remote, pg_runtime = runtime,
         pg_replaces = replaces, pg_entrypoint = entrypoint, pg_program_args = args\<rparr>))))))))))))))))))"

definition publish_store :: "'n cli_env \<Rightarrow> publish_args \<Rightarrow> (cli_error, store_address) outcome" where
  "publish_store env args =
     obind (if pg_local args then Ok Local_Store
            else obind (or_panic ''remote node is required if not using --local flag'' (pg_remote args)) (\<lambda>addr.
                 Ok (case parse_socket_v4 addr of
                       Some (ip, port) \<Rightarrow> Multiaddr (''/ip4/'' @ ip @ ''/tcp/'' @ port)
                     | None \<Rightarrow>
                         (case cx_socket_v6 env addr of
                            Some (ip, port) \<Rightarrow> Multiaddr (''/ip6/'' @ ip @ ''/tcp/'' @ port)
                          | None \<Rightarrow> Hostname addr True)))) (\<lambda>store.
     obind (map_err CE_Store (cx_store env store)) (\<lambda>_. Ok store))"

text \<open>A file of annotations that cannot be opened is an error, one that cannot be read counts as empty.\<close>

definition publish_annotations :: "'n cli_env \<Rightarrow> publish_args \<Rightarrow> fsys \<Rightarrow> (cli_error, string \<rightharpoonup> string) outcome" where
  "publish_annotations env args fs =
     (case pg_annotations_file args of
        Some f \<Rightarrow>
          obind (map_err CE_Io (open_read (cx_os env) f fs)) (\<lambda>_.
          case cx_parse_annotations env (read_buffer (cx_os env) f fs) of Ok annots \<Rightarrow> Ok annots | _ \<Rightarrow> Ok Map.empty)
      | None \<Rightarrow> Ok Map.empty)"

definition publish_payload ::
    "'n cli_env \<Rightarrow> publish_args \<Rightarrow> (string \<rightharpoonup> string) \<Rightarrow> lasr_object list \<Rightarrow> lasr_package_payload" where
  "publish_payload env args annots objects =
     \<lparr>api_version = pg_api_version args, package_version = pg_package_version args, package_name = pg_name args,
      package_author = pg_author args, package_type = package_type_from (pg_content_type args) (pg_runtime args),
      package_objects = objects,
      package_replaces =
        (case pg_replaces args of
           Some r \<Rightarrow> (case cx_parse_cids env r of Ok cids \<Rightarrow> cids | _ \<Rightarrow> [])
         | None \<Rightarrow> []),
      package_entrypoint = (case pg_entrypoint args of Some e \<Rightarrow> e | None \<Rightarrow> ''/''),
      package_program_args = (case pg_program_args args of Some a \<Rightarrow> a | None \<Rightarrow> []),
      package_annotations = annots\<rparr>"

text \<open>The package is signed, stored under its JSON form, and its id printed.\<close>

definition publish_package ::
    "'n cli_env \<Rightarrow> u8 list \<Rightarrow> store_address \<Rightarrow> lasr_package_payload \<Rightarrow> 'n cli \<Rightarrow> ('n, unit) cli_result" where
  "publish_package env sk store payload c =
     and_then (c, map_err CE_Io (sign_object (we_crypto (cx_wallet env)) (we_keys (cx_wallet env)) (cx_secp_text env)
                                   (cx_bincode_package env) sk payload)) (\<lambda>c package_sig.
     and_then (c, expect ''unwrap'' (cx_package_json env
                    \<lparr>package_payload = payload, package_sig = package_sig\<rparr>)) (\<lambda>c package_json.
     case cx_write_dag env store (str_bytes package_json) (cl_node c) of
       (n, r) \<Rightarrow> and_then (c\<lparr>cl_node := n\<rparr>, map_err CE_Store r) (\<lambda>c package_cid.
       (println package_cid c, Ok ()))))"

definition handle_publish_command :: "'n cli_env \<Rightarrow> arg_matches \<Rightarrow> 'n cli \<Rightarrow> ('n, unit) cli_result" where
  "handle_publish_command env m c =
     and_then (c, get_expect as_bool ''wizard'' ''required or default'' m) (\<lambda>c wizard.
     if wizard then (println ''The Wizard has not yet discovered his powers... Give him time to mature'' c, Ok ())
     else
       and_then (get_keypair env m c) (\<lambda>c keys.
       and_then (get_wallet env m c) (\<lambda>c wallet.
       and_then (c, gather_publish_args m) (\<lambda>c args.
       and_then (c, publish_store env args) (\<lambda>c store.
       and_then (c, publish_annotations env args (cl_fs c)) (\<lambda>c annots.
       and_then (case pg_cids args of
                   None \<Rightarrow> recursively_publish_objects env (pg_package_path args) store annots (fst keys) c
                 | Some cids \<Rightarrow> (c, Ok (cids, get_lasr_objects cids))) (\<lambda>c objects.
       publish_package env (fst keys) store (publish_payload env args annots (snd objects)) c)))))))"

section \<open>The program\<close>

text \<open>The handler of a command and its subcommand, as clap names them.\<close>

definition cli_main :: "'n cli_env \<Rightarrow> hex_crate \<Rightarrow> string \<Rightarrow> string option \<Rightarrow> arg_matches \<Rightarrow> 'n cli \<Rightarrow> ('n, unit) cli_result" where
  "cli_main env hx cmd subcmd m c =
     (if cmd = ''wallet'' then
        (if subcmd = Some ''new'' then handle_new_wallet_command env m c
         else if subcmd = Some ''mnemonic'' then (println ''received `wallet mnemonic` command'' c, Ok ())
         else if subcmd = Some ''secret-key'' then (println ''received `wallet secret-key` command'' c, Ok ())
         else if subcmd = Some ''sign'' then handle_sign_command env m c
         else if subcmd = Some ''send'' then handle_send_command env m c
         else if subcmd = Some ''call'' then handle_call_command env m c
         else if subcmd = Some ''register-program'' then cli_handle_register_program env m c
         else if subcmd = Some ''get-account'' then handle_get_account_command env m c
         else (c, Ok ()))
      else if cmd = ''parse-outputs'' then handle_parse_outputs_command env m c
      else if cmd = ''parse-transaction'' then handle_parse_transaction_command env m c
      else if cmd = ''default-transaction'' then handle_default_transaction env c
      else if cmd = ''hex-or-bytes'' then handle_hex_or_bytes_command env hx c
      else if cmd = ''instruction'' then handle_instruction_command env c
      else if cmd = ''publish'' then handle_publish_command env m c
      else (c, Ok ()))"

end
