(* ===== verification/Cli_Theorems.thy ===== *)
theory Cli_Theorems
  imports Wallet_Theorems Bundle_Theorems Cli_Model
begin

text \<open>
  What the commands achieve: which arguments they can rely on, keys that are saved and loaded, a
  send from the command line to the moved value, and a package from the publisher's files to the
  files of the node.
\<close>

section \<open>Arguments of the commands\<close>

definition key_commands :: "command list" where
  "key_commands = [send_command, call_command, sign_command, register_program_command, publish_command]"

definition key_args :: "arg list" where
  "key_args = [from_file_arg, from_mnemonic_arg, from_secret_key_arg, keyfile_path_arg, wallet_index_arg, mnemonic_arg,
     secret_key_arg, verbose_arg]"

lemmas arg_defs = arg_new_def from_file_arg_def keyfile_path_arg_def keypair_json_arg_def overwrite_path_arg_def
  wallet_index_arg_def from_mnemonic_arg_def mnemonic_arg_def from_secret_key_arg_def secret_key_arg_def
  mnemonic_size_arg_def seed_arg_def passphrase_arg_def save_to_file_arg_def receiver_arg_def program_id_arg_def
  value_arg_def unit_arg_def function_arg_def inputs_arg_def cid_arg_def payload_arg_def recursive_packer_arg_def
  file_count_arg_def package_path_arg_def ignore_file_arg_def wizard_arg_def cids_arg_def content_type_arg_def
  verbose_arg_def api_version_arg_def annotations_file_arg_def package_name_arg_def author_arg_def
  package_version_arg_def runtime_arg_def replaces_arg_def local_node_arg_def entrypoint_arg_def program_args_def
  remote_node_arg_def address_arg_def from_json_file_arg_def json_arg_def

lemmas command_defs = send_command_def call_command_def sign_command_def register_program_command_def publish_command_def
  new_wallet_command_def get_account_command_def set_required_def

lemma conforms_arg: "conforms hx uc cmd m \<Longrightarrow> a \<in> set (cmd_args cmd) \<Longrightarrow> arg_conforms hx uc m a"
  by (simp add: conforms_def list_all_iff)

lemma key_args_everywhere: "cmd \<in> set key_commands \<Longrightarrow> set key_args \<subseteq> set (cmd_args cmd)"
proof -
  have "keyfile_path_arg = set_required False keyfile_path_arg" by (simp add: set_required_def arg_defs)
  then show "cmd \<in> set key_commands \<Longrightarrow> set key_args \<subseteq> set (cmd_args cmd)"
    by (auto simp: key_commands_def key_args_def send_command_def call_command_def sign_command_def
        register_program_command_def publish_command_def)
qed

lemma key_flags:
  assumes "cmd \<in> set key_commands" and "conforms hx uc cmd m"
  shows "i \<in> {''from-file'', ''from-mnemonic'', ''from-secret-key'', ''verbose''} \<Longrightarrow>
      try_get_one as_bool i m = Ok (Some (am_given m i))"
    and "am_given m ''from-file'' \<Longrightarrow> \<not> am_given m ''from-mnemonic'' \<and> \<not> am_given m ''from-secret-key''"
    and "am_given m ''from-mnemonic'' \<Longrightarrow> am_given m ''mnemonic'' \<and> \<not> am_given m ''from-file''"
proof -
  have c: "arg_conforms hx uc m a" if "a \<in> set key_args" for a
    using conforms_arg [OF assms(2)] key_args_everywhere [OF assms(1)] that by blast
  have ff: "arg_conforms hx uc m from_file_arg" and fm: "arg_conforms hx uc m from_mnemonic_arg"
    and fs: "arg_conforms hx uc m from_secret_key_arg" and v: "arg_conforms hx uc m verbose_arg"
    by (rule c, simp add: key_args_def)+
  show "try_get_one as_bool i m = Ok (Some (am_given m i))"
    if "i \<in> {''from-file'', ''from-mnemonic'', ''from-secret-key'', ''verbose''}"
  proof -
    have "try_get_one as_bool ''from-file'' m = Ok (Some (am_given m ''from-file''))"
      by (rule flag_conforms [OF ff]) (simp_all add: arg_defs)
    moreover have "try_get_one as_bool ''from-mnemonic'' m = Ok (Some (am_given m ''from-mnemonic''))"
      by (rule flag_conforms [OF fm]) (simp_all add: arg_defs)
    moreover have "try_get_one as_bool ''from-secret-key'' m = Ok (Some (am_given m ''from-secret-key''))"
      by (rule flag_conforms [OF fs]) (simp_all add: arg_defs)
    moreover have "try_get_one as_bool ''verbose'' m = Ok (Some (am_given m ''verbose''))"
      by (rule flag_conforms [OF v]) (simp_all add: arg_defs)
    ultimately show ?thesis using that by blast
  qed
  show "am_given m ''from-file'' \<Longrightarrow> \<not> am_given m ''from-mnemonic'' \<and> \<not> am_given m ''from-secret-key''"
    using ff by (simp add: arg_conforms_def Let_def arg_defs)
  show "am_given m ''from-mnemonic'' \<Longrightarrow> am_given m ''mnemonic'' \<and> \<not> am_given m ''from-file''"
    using fm by (simp add: arg_conforms_def Let_def arg_defs)
qed

lemma key_values:
  assumes "cmd \<in> set key_commands" and "conforms hx uc cmd m"
  shows "\<exists>p. try_get_one as_string ''path'' m = Ok (Some p)"
    and "\<exists>n. try_get_one as_usize ''wallet-index'' m = Ok (Some n)"
    and "\<exists>x. try_get_one as_string ''secret-key'' m = Ok x"
    and "am_given m ''mnemonic'' \<Longrightarrow> \<exists>w. try_get_one as_string ''mnemonic'' m = Ok (Some w)"
    and "am_given m ''secret-key'' \<Longrightarrow> \<exists>w. try_get_one as_string ''secret-key'' m = Ok (Some w)"
proof -
  have c: "arg_conforms hx uc m a" if "a \<in> set key_args" for a
    using conforms_arg [OF assms(2)] key_args_everywhere [OF assms(1)] that by blast
  have p: "arg_conforms hx uc m keyfile_path_arg" and w: "arg_conforms hx uc m wallet_index_arg"
    and mn: "arg_conforms hx uc m mnemonic_arg" and sk: "arg_conforms hx uc m secret_key_arg"
    by (rule c, simp add: key_args_def)+
  have given: "\<exists>w. try_get_one as_string (arg_id a) m = Ok (Some w)"
    if "arg_conforms hx uc m a" "am_given m (arg_id a)" "arg_type a = T_String" "arg_action a \<noteq> A_SetTrue" "\<not> arg_may_be_empty a"
    for a using that value_parser_types(1)
    by (fastforce simp: arg_conforms_def Let_def try_get_one_def parsed_def neq_Nil_conv split: option.splits)
  show "\<exists>p. try_get_one as_string ''path'' m = Ok (Some p)"
    by (rule get_expect_conforms [OF p, of as_string "''path''"])
      (auto simp: arg_defs always_there_def default_texts_def)
  show "\<exists>n. try_get_one as_usize ''wallet-index'' m = Ok (Some n)"
    by (rule get_expect_conforms [OF w, of as_usize "''wallet-index''"])
      (auto simp: arg_defs always_there_def default_texts_def split: option.splits)
  show "\<exists>x. try_get_one as_string ''secret-key'' m = Ok x"
    by (rule get_one_conforms [OF sk, of as_string "''secret-key''"]) (auto simp: arg_defs)
  show "am_given m ''mnemonic'' \<Longrightarrow> \<exists>w. try_get_one as_string ''mnemonic'' m = Ok (Some w)"
    using given [OF mn] by (simp add: arg_defs)
  show "am_given m ''secret-key'' \<Longrightarrow> \<exists>w. try_get_one as_string ''secret-key'' m = Ok (Some w)"
    using given [OF sk] by (simp add: arg_defs)
qed

section \<open>The keypair file\<close>

lemma bytes_str_str_bytes [simp]: "bytes_str (str_bytes t) = t"
proof -
  have "unat (of_char c :: u8) = of_char c" for c
  proof -
    have "unat (of_nat (of_char c) :: u8) = of_char c mod 2 ^ 8" by (simp add: unat_of_nat)
    also have "\<dots> = of_char c" by simp
    finally show ?thesis by (simp only: of_nat_of_char)
  qed
  then show ?thesis by (simp add: bytes_str_def str_bytes_def comp_def)
qed

text \<open>The file system once the directory of a file is there.\<close>

definition with_parent :: "os \<Rightarrow> string \<Rightarrow> fsys \<Rightarrow> fsys" where
  "with_parent os path fs =
     (case path_parent path of
        Some dir \<Rightarrow> if path_exists os fs dir then fs else fst (create_dir_all os dir fs)
      | None \<Rightarrow> fs)"

lemma with_parent_file:
  assumes "node_at os fs path = Some (File b md)"
  shows "with_parent os path fs = fs"
proof (cases "components path = []")
  case True
  then show ?thesis by (auto simp: with_parent_def path_parent_def is_absolute_def create_dir_all_def split: option.split)
next
  case False
  then obtain q where q: "path_parent path = Some q" "components q = butlast (components path)"
      "q \<noteq> '''' \<longrightarrow> start_of os q = start_of os path"
    using components_parent by blast
  obtain l where l: "walk fs (start_of os path) (components path) = Some l"
    using assms by (auto simp: node_at_def resolve_def split: option.splits if_splits)
  then have "walk fs (start_of os path) (butlast (components path) @ [last (components path)]) = Some l" using False by simp
  then obtain d where "walk fs (start_of os path) (butlast (components path)) = Some d" "fs d = Some Directory"
    unfolding walk_append by (auto split: bind_splits if_splits)
  then have "q \<noteq> '''' \<Longrightarrow> path_exists os fs q" using q(2,3) by (simp add: path_exists_def node_at_def resolve_def)
  then show ?thesis using q(1) by (cases "q = ''''") (simp_all add: with_parent_def create_dir_all_def)
qed

text \<open>What is documented of the JSON of the keypair file: it is text and reads back.\<close>

definition wallet_json :: "'n cli_env \<Rightarrow> bool" where
  "wallet_json env \<longleftrightarrow> (\<forall>ws t. cx_print_wallets env ws = Ok t \<longrightarrow>
     t \<noteq> [] \<and> utf8_valid (str_bytes t) \<and> cx_parse_wallets env t = Ok ws)"

definition keyfile :: "'n cli_env \<Rightarrow> string \<Rightarrow> wallet_info list \<Rightarrow> fsys \<Rightarrow> bool" where
  "keyfile env path ws fs \<longleftrightarrow>
     (\<exists>t md. t \<noteq> [] \<and> utf8_valid (str_bytes t) \<and> cx_parse_wallets env t = Ok ws \<and>
        node_at (cx_os env) fs path = Some (File (str_bytes t) md)) \<and>
     \<not> os_refuses (cx_os env) FC_Open path \<and> \<not> os_refuses (cx_os env) FC_Read path"

lemma keyfile_read:
  assumes "keyfile env path ws fs"
  shows "existing_wallets env path (with_parent (cx_os env) path fs) = Ok ws"
    and "open_read (cx_os env) path fs = Ok ()"
    and "cx_parse_wallets env (read_buffer (cx_os env) path fs) = Ok ws"
proof -
  obtain t md where t: "t \<noteq> []" "utf8_valid (str_bytes t)" "cx_parse_wallets env t = Ok ws"
      "node_at (cx_os env) fs path = Some (File (str_bytes t) md)"
      "\<not> os_refuses (cx_os env) FC_Open path" "\<not> os_refuses (cx_os env) FC_Read path"
    using assms by (auto simp: keyfile_def)
  have ne: "str_bytes t \<noteq> []" using t(1) by (simp add: str_bytes_def)
  have op: "open_read (cx_os env) path fs = Ok ()" using t by (simp add: open_read_def path_exists_def)
  moreover have rd: "read_file (cx_os env) path fs = Ok (str_bytes t)" using t by (simp add: read_file_def)
  ultimately show "existing_wallets env path (with_parent (cx_os env) path fs) = Ok ws"
    using t ne by (simp add: with_parent_file [OF t(4)] existing_wallets_def path_exists_def)
  show "open_read (cx_os env) path fs = Ok ()" by (rule op)
  show "cx_parse_wallets env (read_buffer (cx_os env) path fs) = Ok ws"
    using t rd by (simp add: read_buffer_def read_to_string_def)
qed

lemma expect_Ok [outcome_simps]: "expect msg r = Ok a \<longleftrightarrow> r = Ok a"
  by (cases r) auto

lemma on_fs_Ok [outcome_simps]:
  "on_fs f msg c = (c', Ok a) \<longleftrightarrow> (\<exists>fs. f (cl_fs c) = (fs, Ok a) \<and> c' = c\<lparr>cl_fs := fs\<rparr>)"
  by (auto simp: on_fs_def outcome_simps split: prod.split)

lemma save_wallet_adds:
  assumes "wallet_json env" and "try_get_one as_string ''path'' m = Ok (Some path)"
    and "existing_wallets env path (with_parent (cx_os env) path (cl_fs c)) = Ok ws"
    and "\<not> os_refuses (cx_os env) FC_Read path" and "save_wallet env m wi c = (c', Ok ())"
  shows "keyfile env path (ws @ [wi]) (cl_fs c')"
proof -
  let ?os = "cx_os env"
  note path = get_expect_Ok [OF assms(2)]
  obtain dir where dir: "path_parent path = Some dir"
    using assms(5) by (auto simp: save_wallet_def Let_def outcome_simps path)
  obtain s1 ws' s2 t s3
    where s1: "if path_exists ?os (cl_fs c) dir then s1 = cl_fs c else create_dir_all ?os dir (cl_fs c) = (s1, Ok ())"
      and ws': "existing_wallets env path s1 = Ok ws'" and s2: "open_truncate ?os path s1 = (s2, Ok ())"
      and t: "cx_print_wallets env (ws' @ [wi]) = Ok t" and s3: "write_all ?os path (str_bytes t) s2 = (s3, Ok ())"
      and c': "cl_fs c' = s3"
    using assms(5) dir
    by (cases "path_exists ?os (cl_fs c) dir") (auto simp: save_wallet_def Let_def outcome_simps path)
  have "s1 = with_parent ?os path (cl_fs c)" using s1 dir by (auto simp: with_parent_def split: if_splits)
  then have ws: "ws' = ws" using ws' assms(3) by simp
  obtain l md where l: "resolve ?os s1 path = Some l" "s1 l = None \<or> (\<exists>b. s1 l = Some (File b md))" "s2 = s1(l \<mapsto> File [] md)"
    using open_truncate_spec [OF s2] by blast
  have l2: "resolve ?os s2 path = Some l" unfolding l(3) by (rule resolve_put [OF l(1)]) (use l(2) in blast)
  have s3': "s3 = s2(l \<mapsto> File (str_bytes t) md)" using write_all_spec [OF s3] l2 l(3) by auto
  have "resolve ?os s3 path = Some l" unfolding s3' by (rule resolve_put [OF l2]) (simp add: l(3))
  moreover have "\<not> ends_with (CHR ''/'') path" using s2 l(1) by (auto simp: open_truncate_def split: if_splits)
  ultimately have "node_at ?os s3 path = Some (File (str_bytes t) md)" by (simp add: node_at_def s3')
  moreover have "\<not> os_refuses ?os FC_Open path" using s2 l(1) by (auto simp: open_truncate_def split: if_splits)
  ultimately show ?thesis using assms(1,4) t unfolding wallet_json_def keyfile_def c' ws by blast
qed

text \<open>Commands that make wallets, one after the other, each with its own source of randomness.\<close>

definition new_wallets ::
    "'n cli_env \<Rightarrow> (u64 \<times> (nat \<Rightarrow> u8 list) \<times> arg_matches) list \<Rightarrow> 'n cli \<Rightarrow> ('n, unit) cli_result" where
  "new_wallets env = for_each (\<lambda>(r, e, m). handle_new_wallet_command (env\<lparr>cx_rng_u64 := r, cx_entropy := e\<rparr>) m)"

text \<open>The wallet a command makes: the words of the entropy, and the key of the words and the passphrase.\<close>

definition makes_wallet :: "'n cli_env \<Rightarrow> u64 \<times> (nat \<Rightarrow> u8 list) \<times> arg_matches \<Rightarrow> wallet_info \<Rightarrow> bool" where
  "makes_wallet env call wi \<longleftrightarrow>
     (case call of (r, e, m) \<Rightarrow> \<exists>passphrase size_opt.
        try_get_one as_string ''passphrase'' m = Ok passphrase \<and> try_get_one as_usize ''mnemonic-size'' m = Ok size_opt \<and>
        get_info (we_crypto (cx_wallet env)) (we_keys (cx_wallet env)) r e None passphrase size_opt = Ok wi)"

lemma get_info_seed: "get_info cr ko r e seed p n = get_info cr ko r e None p n"
  by (simp add: get_info_def Let_def)

text \<open>A change of the randomness only.\<close>

lemma reseeded [simp]:
  "keyfile (env\<lparr>cx_rng_u64 := r, cx_entropy := e\<rparr>) = keyfile env"
  "existing_wallets (env\<lparr>cx_rng_u64 := r, cx_entropy := e\<rparr>) = existing_wallets env"
  "wallet_json (env\<lparr>cx_rng_u64 := r, cx_entropy := e\<rparr>) = wallet_json env"
  by (simp_all add: keyfile_def existing_wallets_def wallet_json_def fun_eq_iff cong: if_cong)

lemma printed_fs [simp]: "cl_fs (println s c) = cl_fs c"
  by (simp add: println_def)

lemma new_wallet_saved:
  assumes "wallet_json env" and "\<not> os_refuses (cx_os env) FC_Read path"
    and "conforms hx uc new_wallet_command m" and "am_given m ''save''" and "try_get_one as_string ''path'' m = Ok (Some path)"
    and "existing_wallets env path (with_parent (cx_os env) path (cl_fs c)) = Ok ws"
    and "handle_new_wallet_command (env\<lparr>cx_rng_u64 := r, cx_entropy := e\<rparr>) m c = (c', Ok ())"
  shows "\<exists>wi. makes_wallet env (r, e, m) wi \<and> keyfile env path (ws @ [wi]) (cl_fs c')"
proof -
  let ?env = "env\<lparr>cx_rng_u64 := r, cx_entropy := e\<rparr>"
  have cf: "arg_conforms hx uc m a" if "a \<in> set (cmd_args new_wallet_command)" for a by (rule conforms_arg [OF assms(3) that])
  have args: "arg_conforms hx uc m passphrase_arg" "arg_conforms hx uc m mnemonic_size_arg" "arg_conforms hx uc m seed_arg"
      "arg_conforms hx uc m save_to_file_arg" "arg_conforms hx uc m keypair_json_arg"
    by (rule cf, simp add: new_wallet_command_def set_required_def arg_defs)+
  obtain pass where pass: "try_get_one as_string ''passphrase'' m = Ok pass"
    by (rule get_one_conforms [OF args(1), of as_string "''passphrase''"]) (auto simp: arg_defs)
  obtain n where n: "try_get_one as_usize ''mnemonic-size'' m = Ok n"
    by (rule get_one_conforms [OF args(2), of as_usize "''mnemonic-size''"]) (auto simp: arg_defs split: option.splits)
  obtain seed where seed: "try_get_one as_u128 ''seed'' m = Ok seed"
    by (rule get_one_conforms [OF args(3), of as_u128 "''seed''"]) (auto simp: arg_defs split: option.splits)
  have "try_get_one as_bool ''save'' m = Ok (Some (am_given m ''save''))"
    by (rule flag_conforms [OF args(4)]) (simp_all add: arg_defs)
  then have save: "try_get_one as_bool ''save'' m = Ok (Some True)" by (simp only: assms(4))
  have json: "try_get_one as_bool ''keypair-json'' m = Ok (Some (am_given m ''keypair-json''))"
    by (rule flag_conforms [OF args(5)]) (simp_all add: arg_defs)
  note got = get_one_Ok [OF pass] get_one_Ok [OF n] get_one_Ok [OF seed] get_one_Ok [OF save] get_one_Ok [OF json]
  obtain wi t where wi: "get_info (we_crypto (cx_wallet env)) (we_keys (cx_wallet env)) r e (map_option unat seed) pass n = Ok wi"
      and sv: "save_wallet ?env m wi (println t c) = (c', Ok ())"
    using assms(7)
    by (auto simp: handle_new_wallet_command_def outcome_simps got pretty_print_keypair_info_def)
  have "makes_wallet env (r, e, m) wi" using pass n wi by (auto simp: makes_wallet_def get_info_seed [of _ _ r e "map_option unat seed"])
  moreover have "keyfile ?env path (ws @ [wi]) (cl_fs c')"
    by (rule save_wallet_adds [OF _ assms(5) _ _ sv]) (use assms(1,2,6) in simp_all)
  ultimately show ?thesis by auto
qed

lemma new_wallets_saved:
  assumes "wallet_json env" and "\<not> os_refuses (cx_os env) FC_Read path"
    and "\<forall>(r, e, m)\<in>set calls. conforms hx uc new_wallet_command m \<and> am_given m ''save'' \<and>
           try_get_one as_string ''path'' m = Ok (Some path)"
    and "existing_wallets env path (with_parent (cx_os env) path (cl_fs c)) = Ok ws" and "calls \<noteq> []"
    and "new_wallets env calls c = (c', Ok ())"
  shows "\<exists>infos. list_all2 (makes_wallet env) calls infos \<and> keyfile env path (ws @ infos) (cl_fs c')"
  using assms(3-6)
proof (induction calls arbitrary: c ws)
  case (Cons call calls)
  obtain r e m where call: "call = (r, e, m)" by (cases call)
  obtain c1 where c1: "handle_new_wallet_command (env\<lparr>cx_rng_u64 := r, cx_entropy := e\<rparr>) m c = (c1, Ok ())"
      and rest: "new_wallets env calls c1 = (c', Ok ())"
    using Cons.prems(4) by (auto simp: new_wallets_def call outcome_simps)
  have m: "conforms hx uc new_wallet_command m" "am_given m ''save''" "try_get_one as_string ''path'' m = Ok (Some path)"
    using Cons.prems(1) by (auto simp: call)
  obtain wi where wi: "makes_wallet env call wi" "keyfile env path (ws @ [wi]) (cl_fs c1)"
    using new_wallet_saved [OF assms(1,2) m Cons.prems(2) c1] by (auto simp: call)
  show ?case
  proof (cases "calls = []")
    case True
    then have "c' = c1" using rest by (simp add: new_wallets_def)
    then show ?thesis using wi True by (intro exI [of _ "[wi]"]) simp
  next
    case False
    have "\<forall>(r, e, m)\<in>set calls. conforms hx uc new_wallet_command m \<and> am_given m ''save'' \<and>
           try_get_one as_string ''path'' m = Ok (Some path)" using Cons.prems(1) by simp
    from Cons.IH [OF this keyfile_read(1) [OF wi(2)] False rest]
    obtain infos where "list_all2 (makes_wallet env) calls infos" "keyfile env path ((ws @ [wi]) @ infos) (cl_fs c')" by blast
    then show ?thesis using wi(1) by (intro exI [of _ "wi # infos"]) simp
  qed
qed simp

lemma get_keypair_file:
  assumes "cmd \<in> set key_commands" and "conforms hx uc cmd m" and "am_given m ''from-file''"
    and "try_get_one as_string ''path'' m = Ok (Some path)" and "try_get_one as_usize ''wallet-index'' m = Ok (Some i)"
    and "keyfile env path ws (cl_fs c)"
  shows "get_keypair env m c =
    (c, if i < length ws then Ok (wi_secret_key (ws ! i), wi_public_key (ws ! i)) else Panic ''index out of bounds'')"
  using key_flags(1) [OF assms(1,2)] assms(3) keyfile_read(2,3) [OF assms(6)]
  by (simp add: get_keypair_def keypair_from_file_def get_flag_Ok get_expect_Ok [OF assms(4)] get_expect_Ok [OF assms(5)])

text \<open>
  C29: wallets that are saved are found again. Commands \<open>wallet new --save\<close> for one path are run one
  after the other, on a file that is missing, empty or holds the wallets \<open>ws\<close>. When they succeed, every
  command that takes its key from that file finds at each index the keys of the old wallets, followed
  by the keys of the new ones in their order, and panics at an index past the last. The saved
  key is the one the passphrase and the entropy give, whether or not to overwrite was asked for.
\<close>

theorem saved_wallets_loaded:
  assumes "wallet_json env" and "\<not> os_refuses (cx_os env) FC_Read path"
    and "\<forall>(r, e, m)\<in>set calls. conforms hx uc new_wallet_command m \<and> am_given m ''save'' \<and>
           try_get_one as_string ''path'' m = Ok (Some path)"
    and "existing_wallets env path (with_parent (cx_os env) path (cl_fs c)) = Ok ws" and "calls \<noteq> []"
    and "new_wallets env calls c = (c', Ok ())"
  shows "\<exists>infos. list_all2 (makes_wallet env) calls infos \<and>
    (\<forall>cmd m i. cmd \<in> set key_commands \<longrightarrow> conforms hx uc cmd m \<longrightarrow> am_given m ''from-file'' \<longrightarrow>
       try_get_one as_string ''path'' m = Ok (Some path) \<longrightarrow> try_get_one as_usize ''wallet-index'' m = Ok (Some i) \<longrightarrow>
       get_keypair env m c' =
         (c', if i < length (ws @ infos) then Ok (wi_secret_key ((ws @ infos) ! i), wi_public_key ((ws @ infos) ! i))
              else Panic ''index out of bounds''))"
  using new_wallets_saved [OF assms] get_keypair_file [of _ hx uc _ path] by metis

section \<open>A send from the command line\<close>

lemma and_then_case:
  "and_then (c, r) f = (case r of Ok a \<Rightarrow> f c a | Err e \<Rightarrow> (c, Err e) | Panic p \<Rightarrow> (c, Panic p))"
  by (cases r) auto

text \<open>Getting the keys changes what is printed at most, and does not depend on it.\<close>

lemma get_keypair_frame:
  "cl_fs (fst (get_keypair env m c)) = cl_fs c" "cl_node (fst (get_keypair env m c)) = cl_node c"
  "snd (get_keypair env m (println s c)) = snd (get_keypair env m c)"
  by (simp_all add: get_keypair_def keypair_from_secret_key_def Let_def and_then_case println_def split: outcome.split)

text \<open>The wallet of a command when the node answers with the account of its key.\<close>

lemma get_wallet_answered:
  assumes "snd (get_keypair env m c) = Ok (sk, pk)" and "get_client env = Ok ()"
    and "addr = address_from_pubkey (keccak256 (we_crypto (cx_wallet env))) pk"
    and "we_get_account (cx_wallet env) (lower_hex addr) (cl_node c) = (cl_node c, Ok js)"
    and "we_account_json (cx_wallet env) js = Ok a"
  shows "\<exists>c'. get_wallet env m c =
      (c', Ok \<lparr>wl_sk = sk, wl_builder = default_payload_builder, wl_address = addr, wl_account = a\<rparr>) \<and>
    cl_node c' = cl_node c"
proof -
  obtain c1 where c1: "get_keypair env m c = (c1, Ok (sk, pk))" using assms(1) by (cases "get_keypair env m c") auto
  have "cl_node c1 = cl_node c" using get_keypair_frame(2) [of env m c] c1 by simp
  then show ?thesis using assms by (simp add: get_wallet_def c1 Let_def println_def)
qed

lemma wallet_get_account_same:
  assumes "we_get_account env (lower_hex addr) n = (n, Ok js)" and "we_account_json env js = Ok (wl_account w)"
  shows "wallet_get_account env addr (n, w) = ((n, w), Ok ())"
  using assms by (simp add: wallet_get_account_def client_call_def)

text \<open>A send once its wallet is there: the product of value and unit, then the wallet's send.\<close>

lemma handle_send_command_node:
  assumes "snd (get_keypair env m c) = Ok (sk, pk)" and "get_client env = Ok ()"
    and "addr = address_from_pubkey (keccak256 (we_crypto (cx_wallet env))) pk"
    and "we_get_account (cx_wallet env) (lower_hex addr) (cl_node c) = (cl_node c, Ok js)"
    and "we_account_json (cx_wallet env) js = Ok a"
    and "try_get_one as_address ''to'' m = Ok (Some to_addr)" and "try_get_one as_address ''content-namespace'' m = Ok (Some pid)"
    and "try_get_one as_u256 ''value'' m = Ok (Some v)" and "try_get_one as_unit ''unit'' m = Ok (Some u)"
    and "w = \<lparr>wl_sk = sk, wl_builder = default_payload_builder, wl_address = addr, wl_account = a\<rparr>"
    and "amount = unat v * unat (unit_factor u)"
    and "wallet_send (cx_wallet env) to_addr pid (of_nat amount) (cl_node c, w) = (nw, r)"
    and "handle_send_command env m c = (c', r')"
  shows "if amount < 2 ^ 256 then cl_node c' = fst nw \<and> (\<forall>e. r = Err e \<longrightarrow> r' = Err (CE_Wallet e))
    else cl_node c' = cl_node c \<and> r' = Panic overflow"
proof -
  let ?c = "println ''received `wallet send` command'' c"
  have node: "cl_node ?c = cl_node c" by (simp add: println_def)
  have key: "snd (get_keypair env m ?c) = Ok (sk, pk)" by (simp only: get_keypair_frame(3) assms(1))
  have acc: "we_get_account (cx_wallet env) (lower_hex addr) (cl_node ?c) = (cl_node ?c, Ok js)" by (simp only: node assms(4))
  obtain c1 where c1: "get_wallet env m ?c = (c1, Ok w)" "cl_node c1 = cl_node c"
    using get_wallet_answered [OF key assms(2,3) acc assms(5)] node assms(10) by auto
  have get: "wallet_get_account (cx_wallet env) addr (cl_node c, w) = ((cl_node c, w), Ok ())"
    by (rule wallet_get_account_same [OF assms(4)]) (simp add: assms(5,10))
  have w: "wl_address w = addr" by (simp add: assms(10))
  note got = get_expect_Ok [OF assms(6)] get_expect_Ok [OF assms(7)] get_expect_Ok [OF assms(8)] get_expect_Ok [OF assms(9)]
  show ?thesis
  proof (cases "amount < 2 ^ 256")
    case False
    then show ?thesis using assms(11,13) c1
      by (auto simp: handle_send_command_def Let_def on_wallet_ignore_def w get got mul_unit_exact)
  next
    case True
    then have m: "mul_unit v u = Ok (of_nat amount)" by (simp add: mul_unit_exact assms(11))
    show ?thesis using True assms(12,13) c1
      by (cases nw; cases r)
        (auto simp: handle_send_command_def Let_def on_wallet_ignore_def on_wallet_def w get got m and_then_case println_def
          split: outcome.splits)
  qed
qed


section \<open>Witnesses\<close>

text \<open>An environment in which nothing is refused, and the matches of a send with an empty key.\<close>

definition sample_cli :: "'n wallet_env \<Rightarrow> 'n cli_env" where
  "sample_cli wenv =
     \<lparr>cx_os = sample_os, cx_wallet = wenv, cx_rng_u64 = 0, cx_entropy = (\<lambda>n. replicate n 0), cx_rpc_url = None,
      cx_client = (\<lambda>_. Ok ()), cx_print_wallet = (\<lambda>_. Ok ''{}''), cx_print_wallets = (\<lambda>_. Err ''''),
      cx_parse_wallets = (\<lambda>_. Err ''''), cx_show_secret = (\<lambda>_. ''''), cx_show_public = (\<lambda>_. ''''),
      cx_print_token = (\<lambda>_. Ok ''{}''), cx_print_transaction = (\<lambda>_. Ok ''{}''), cx_content_id_json = (\<lambda>s. s),
      cx_program_address_json = (\<lambda>s. s), cx_parse_outputs = (\<lambda>_. Err ''''), cx_debug_outputs = (\<lambda>_. ''''),
      cx_parse_transaction = (\<lambda>_. Err ''''), cx_debug_transaction = (\<lambda>_. ''''), cx_transaction_json = (\<lambda>_. Ok ''{}''),
      cx_hex_or_bytes_json = (\<lambda>_. Ok ''{}''), cx_instruction_json = (\<lambda>_. Ok ''{}''), cx_store = (\<lambda>_. Ok ()),
      cx_write_object = (\<lambda>_ _ n. (n, Err ''full'')), cx_write_dag = (\<lambda>_ _ n. (n, Err ''full'')), cx_walk = (\<lambda>_ _. []),
      cx_socket_v6 = (\<lambda>_. None), cx_parse_annotations = (\<lambda>_. Err ''''), cx_parse_cids = (\<lambda>_. Err ''''),
      cx_bincode_object = (\<lambda>_. Ok []), cx_bincode_package = (\<lambda>_. Ok []), cx_package_json = (\<lambda>_. Err ''''),
      cx_secp_text = (\<lambda>_. '''')\<rparr>"

definition sample_key_values :: "string \<rightharpoonup> (string \<times> arg_value) list" where
  "sample_key_values =
     [''from-file'' \<mapsto> [(''false'', V_Bool False)], ''from-mnemonic'' \<mapsto> [(''false'', V_Bool False)],
      ''from-secret-key'' \<mapsto> [(''true'', V_Bool True)], ''secret-key'' \<mapsto> [('''', V_String '''')],
      ''path'' \<mapsto> [(''.lasr/wallet/keypair.json'', V_String ''.lasr/wallet/keypair.json'')],
      ''wallet-index'' \<mapsto> [(''0'', V_Usize 0)], ''verbose'' \<mapsto> [(''false'', V_Bool False)]]"

definition sample_send_args :: "string \<Rightarrow> u256 \<Rightarrow> string \<Rightarrow> cli_unit \<Rightarrow> arg_matches" where
  "sample_send_args t v n u =
     \<lparr>am_values = sample_key_values(''to'' \<mapsto> [(''1'', V_Address verse_addr)],
        ''content-namespace'' \<mapsto> [(''0'', V_Address eth_addr)], ''value'' \<mapsto> [(t, V_U256 v)],
        ''unit'' \<mapsto> [(n, V_Unit u)]),
      am_given = (\<lambda>i. i \<in> {''from-secret-key'', ''secret-key'', ''to'', ''value'', ''unit''})\<rparr>"

definition sample_send_env :: "system cli_env" where
  "sample_send_env = sample_cli (sample_wallet_env
     \<lparr>we_get_account := (\<lambda>a s. (s, Ok ''{}'')),
      we_account_json := (\<lambda>_. Ok (sample_account eth_addr (sample_token eth_addr eth_addr 10)))\<rparr>)"


text \<open>A new wallet beside one that is there, and a signature with the new one.\<close>

definition sample_uint :: uint_crate where
  "sample_uint = \<lparr>uc_from_str_radix16 = (\<lambda>_. Err ''''), uc_from_dec_str = (\<lambda>_. Err '''')\<rparr>"

definition sample_info :: wallet_info where
  "sample_info =
     \<lparr>wi_mnemonic = ''abandon'', wi_keypair = ([7], [7]), wi_secret_key = [7], wi_public_key = [7],
      wi_address = Address (replicate 20 0)\<rparr>"

definition sample_offline :: "unit wallet_env" where
  "sample_offline =
     \<lparr>we_crypto = \<lparr>keccak256 = (\<lambda>_. replicate 32 0), json_to_string = (\<lambda>_. ''''), ethers_recover = (\<lambda>_ _ _ _. Ok []),
        secp_message = Ok, secp_recovery_id = Ok, secp_from_compact = (\<lambda>d _. Ok d), secp_recover_ecdsa = (\<lambda>_ d. Ok d)\<rparr>,
      we_keys = \<lparr>ko_sign = (\<lambda>_ _. (0, replicate 64 0)), ko_public = (\<lambda>sk. sk), ko_sha3 = (\<lambda>_. replicate 32 0),
        ko_hashed_key = (\<lambda>_. [7]), ko_key_from_slice = Ok, ko_key_from_str = (\<lambda>_. Ok [7]), ko_mnemonic = (\<lambda>_. Ok ''abandon''),
        ko_parse_mnemonic = Ok, ko_seed = (\<lambda>_ _. replicate 64 0)\<rparr>,
      we_send = (\<lambda>_ s. (s, Err ''down'')), we_call = (\<lambda>_ s. (s, Err ''down'')),
      we_register = (\<lambda>_ s. (s, Err ''down'')), we_get_account = (\<lambda>_ s. (s, Err ''down'')),
      we_account_json = (\<lambda>_. Err ''eof''), we_token_json = (\<lambda>_. Err ''eof''), we_payload_json = (\<lambda>_. Err ''eof'')\<rparr>"

definition sample_keys_env :: "unit cli_env" where
  "sample_keys_env = (sample_cli sample_offline)
     \<lparr>cx_print_wallets := (\<lambda>ws. if ws = [sample_info] then Ok ''a'' else if ws = [sample_info, sample_info] then Ok ''b'' else Err ''''),
      cx_parse_wallets := (\<lambda>s. if s = ''a'' then Ok [sample_info] else if s = ''b'' then Ok [sample_info, sample_info] else Err '''')\<rparr>"

definition sample_key_fs :: fsys where
  "sample_key_fs = [[] \<mapsto> Directory, [''.lasr''] \<mapsto> Directory, [''.lasr'', ''wallet''] \<mapsto> Directory,
     [''.lasr'', ''wallet'', ''keypair.json''] \<mapsto> File [97] 384]"

definition sample_new :: arg_matches where
  "sample_new =
     \<lparr>am_values = [''path'' \<mapsto> [(''.lasr/wallet/keypair.json'', V_String ''.lasr/wallet/keypair.json'')],
        ''save'' \<mapsto> [(''true'', V_Bool True)], ''overwrite'' \<mapsto> [(''false'', V_Bool False)],
        ''keypair-json'' \<mapsto> [(''false'', V_Bool False)]],
      am_given = (\<lambda>i. i = ''save'')\<rparr>"

definition sample_sign :: arg_matches where
  "sample_sign =
     \<lparr>am_values = [''from-file'' \<mapsto> [(''true'', V_Bool True)], ''from-mnemonic'' \<mapsto> [(''false'', V_Bool False)],
        ''from-secret-key'' \<mapsto> [(''false'', V_Bool False)],
        ''path'' \<mapsto> [(''.lasr/wallet/keypair.json'', V_String ''.lasr/wallet/keypair.json'')],
        ''wallet-index'' \<mapsto> [(''1'', V_Usize 1)], ''payload'' \<mapsto> [(''{}'', V_String ''{}'')],
        ''verbose'' \<mapsto> [(''false'', V_Bool False)]],
      am_given = (\<lambda>i. i \<in> {''from-file'', ''wallet-index'', ''payload''})\<rparr>"

theorem saved_wallets_loaded_witness:
  "let call = (0, (\<lambda>n. replicate n 0), sample_new); c = \<lparr>cl_fs = sample_key_fs, cl_out = [], cl_node = ()\<rparr>;
       c' = fst (new_wallets sample_keys_env [call] c) in
   get_keypair sample_keys_env sample_sign c' = (c', Ok ([7], [7]))"
proof -
  let ?path = "''.lasr/wallet/keypair.json''"
  define call where "call = (0 :: u64, (\<lambda>n. replicate n 0) :: nat \<Rightarrow> u8 list, sample_new)"
  define c where "c = \<lparr>cl_fs = sample_key_fs, cl_out = [], cl_node = ()\<rparr>"
  define c' where "c' = fst (new_wallets sample_keys_env [call] c)"
  have "snd (handle_new_wallet_command sample_keys_env sample_new c) = Ok ()" unfolding c_def by code_simp
  then obtain s where s: "handle_new_wallet_command sample_keys_env sample_new c = (s, Ok ())"
    by (cases "handle_new_wallet_command sample_keys_env sample_new c") auto
  have env: "sample_keys_env\<lparr>cx_rng_u64 := 0, cx_entropy := (\<lambda>n. replicate n 0)\<rparr> = sample_keys_env"
    by (simp add: sample_keys_env_def sample_cli_def)
  have "new_wallets sample_keys_env [call] c = (s, Ok ())"
    by (simp only: new_wallets_def call_def for_each.simps prod.case env s and_then.simps)
  then have "snd (new_wallets sample_keys_env [call] c) = Ok ()" by simp
  then have run: "new_wallets sample_keys_env [call] c = (c', Ok ())" by (simp add: c'_def prod_eq_iff)
  have law: "wallet_json sample_keys_env"
    by (auto simp: wallet_json_def sample_keys_env_def sample_cli_def str_bytes_def utf8_valid_def utf8_lead_def split: if_splits)
  have new: "conforms hex_ref sample_uint new_wallet_command sample_new" by code_simp
  have sgn: "conforms hex_ref sample_uint sign_command sample_sign"
    by (simp add: conforms_def sign_command_def arg_conforms_def arg_defs parsed_def sample_sign_def default_texts_def
        parse_uint_def strip_plus_def dec_val_def)
  have start: "existing_wallets sample_keys_env ?path (with_parent (cx_os sample_keys_env) ?path (cl_fs c)) = Ok [sample_info]"
    unfolding c_def by code_simp
  have calls: "\<forall>(r, e, m)\<in>set [call]. conforms hex_ref sample_uint new_wallet_command m \<and> am_given m ''save'' \<and>
      try_get_one as_string ''path'' m = Ok (Some ?path)"
    using new by (simp add: call_def) (simp add: sample_new_def try_get_one_def)
  have rd: "\<not> os_refuses (cx_os sample_keys_env) FC_Read ?path" by (simp add: sample_keys_env_def sample_cli_def sample_os_def)
  obtain infos where infos: "list_all2 (makes_wallet sample_keys_env) [call] infos"
      and get: "\<And>cmd m i. cmd \<in> set key_commands \<Longrightarrow> conforms hex_ref sample_uint cmd m \<Longrightarrow> am_given m ''from-file'' \<Longrightarrow>
        try_get_one as_string ''path'' m = Ok (Some ?path) \<Longrightarrow> try_get_one as_usize ''wallet-index'' m = Ok (Some i) \<Longrightarrow>
        get_keypair sample_keys_env m c' =
          (c', if i < length ([sample_info] @ infos) then Ok (wi_secret_key (([sample_info] @ infos) ! i), wi_public_key (([sample_info] @ infos) ! i))
               else Panic ''index out of bounds'')"
    using saved_wallets_loaded [OF law rd calls start _ run] by auto
  have made: "wi = sample_info" if "makes_wallet sample_keys_env call wi" for wi
    using that
    by (auto simp: makes_wallet_def call_def try_get_one_def sample_new_def get_info_def sample_keys_env_def sample_cli_def
        sample_offline_def sample_info_def address_from_pubkey_def last_20_def Let_def)
  have "infos = [sample_info]" using infos by (auto simp: list_all2_Cons1 dest!: made)
  moreover have "sign_command \<in> set key_commands" by (simp add: key_commands_def)
  moreover have "am_given sample_sign ''from-file''" "try_get_one as_string ''path'' sample_sign = Ok (Some ?path)"
      "try_get_one as_usize ''wallet-index'' sample_sign = Ok (Some 1)"
    by (simp_all add: sample_sign_def try_get_one_def)
  ultimately have "get_keypair sample_keys_env sample_sign c' = (c', Ok (wi_secret_key sample_info, wi_public_key sample_info))"
    using get [OF _ sgn] by simp
  then show ?thesis by (simp add: c'_def c_def call_def sample_info_def Let_def)
qed

section \<open>Publishing a package\<close>

lemma get_wallet_fs: "cl_fs (fst (get_wallet env m c)) = cl_fs c"
proof (cases "get_keypair env m c")
  case (Pair c1 r)
  have "cl_fs c1 = cl_fs c" using get_keypair_frame(1) [of env m c] Pair by simp
  then show ?thesis
    by (cases r) (auto simp: get_wallet_def Pair Let_def and_then_case println_def split: outcome.split prod.split)
qed

text \<open>What the walk leaves in the buffers: an object for every file, in order, with its content stored.\<close>

definition stored_as :: "'n cli_env \<Rightarrow> store_address \<Rightarrow> fsys \<Rightarrow> string \<Rightarrow> lasr_object \<Rightarrow> bool" where
  "stored_as env store fs path obj \<longleftrightarrow>
     object_path (object_payload obj) = path \<and> object_content_type (object_payload obj) = content_type_from_path path \<and>
     (\<exists>bytes n n'. read_file (cx_os env) path fs = Ok bytes \<and>
        cx_write_object env store bytes n = (n', Ok (object_cid (object_payload obj))))"

lemma publish_object_stores:
  assumes "publish_object env store annots sk path (c, cids, objs) = ((c', cids', objs'), Ok ())"
  shows "cl_fs c' = cl_fs c \<and> (if is_file (cx_os env) (cl_fs c) path
    then \<exists>obj. objs' = objs @ [obj] \<and> stored_as env store (cl_fs c) path obj else objs' = objs)"
proof (cases "is_file (cx_os env) (cl_fs c) path")
  case True
  obtain bytes where b: "read_file (cx_os env) path (cl_fs c) = Ok bytes"
    using assms True by (auto simp: publish_object_def and_then_case outcome_simps split: outcome.splits)
  obtain n r where w: "cx_write_object env store bytes (cl_node c) = (n, r)" by fastforce
  show ?thesis using assms True b w
    by (auto simp: publish_object_def Let_def outcome_simps stored_as_def) blast
qed (use assms in \<open>simp add: publish_object_def\<close>)

lemma publish_objects_stores:
  assumes "for_each (publish_object env store annots sk) paths (c, cids, objs) = ((c', cids', objs'), Ok ())"
  shows "cl_fs c' = cl_fs c \<and> (\<exists>new. objs' = objs @ new \<and>
    list_all2 (stored_as env store (cl_fs c)) (filter (is_file (cx_os env) (cl_fs c)) paths) new)"
  using assms
proof (induction paths arbitrary: c cids objs)
  case (Cons p paths)
  obtain c1 cids1 objs1 where one: "publish_object env store annots sk p (c, cids, objs) = ((c1, cids1, objs1), Ok ())"
      and rest: "for_each (publish_object env store annots sk) paths (c1, cids1, objs1) = ((c', cids', objs'), Ok ())"
    using Cons.prems by (auto simp: outcome_simps)
  note first = publish_object_stores [OF one]
  obtain new where new: "cl_fs c' = cl_fs c1" "objs' = objs1 @ new"
      "list_all2 (stored_as env store (cl_fs c1)) (filter (is_file (cx_os env) (cl_fs c1)) paths) new"
    using Cons.IH [OF rest] by blast
  show ?case
  proof (cases "is_file (cx_os env) (cl_fs c) p")
    case True
    then obtain obj where "objs1 = objs @ [obj]" "stored_as env store (cl_fs c) p obj" using first by auto
    then show ?thesis using new first True by (intro conjI exI [of _ "obj # new"]) auto
  qed (use new first in auto)
qed simp

lemma no_strings: "get_one as_strings i m = Ok x \<Longrightarrow> x = None"
  by (auto simp: get_one_def try_get_one_def as_strings_def split: option.splits list.splits)

lemma gather_no_cids:
  assumes "gather_publish_args m = Ok args"
  shows "pg_cids args = None"
proof -
  obtain x where "get_one as_strings ''cids'' m = (Ok x :: (cli_error, string list option) outcome)" "pg_cids args = x"
    using assms unfolding gather_publish_args_def by (auto simp: obind_Ok_iff)
  then show ?thesis using no_strings by blast
qed

text \<open>A successful publication: the package of the stored files is stored under the printed id.\<close>

lemma publish_stores_package:
  assumes "handle_publish_command env m c = (c', Ok ())" and "try_get_one as_bool ''wizard'' m = Ok (Some False)"
    and "gather_publish_args m = Ok args"
  shows "\<exists>store objs annots sg js n n' cid.
    list_all2 (stored_as env store (cl_fs c))
      (filter (is_file (cx_os env) (cl_fs c)) (cx_walk env (pg_package_path args) (cl_fs c))) objs \<and>
    cx_package_json env \<lparr>package_payload = publish_payload env args annots objs, package_sig = sg\<rparr> = Ok js \<and>
    cx_write_dag env store (str_bytes js) n = (n', Ok cid) \<and> last (cl_out c') = cid \<and> cl_fs c' = cl_fs c"
proof -
  note wiz = get_expect_Ok [OF assms(2)]
  obtain keys c1 w c2 store annots c3 objects where c1: "get_keypair env m c = (c1, Ok keys)"
      and c2: "get_wallet env m c1 = (c2, Ok w)"
      and objs: "recursively_publish_objects env (pg_package_path args) store annots (fst keys) c2 = (c3, Ok objects)"
      and rest: "publish_package env (fst keys) store (publish_payload env args annots (snd objects)) c3 = (c', Ok ())"
    using assms(1)
    by (auto simp: handle_publish_command_def wiz and_then_Ok_iff assms(3) gather_no_cids [OF assms(3)])
  have fs: "cl_fs c1 = cl_fs c" "cl_fs c2 = cl_fs c1"
    using get_keypair_frame(1) [of env m c] get_wallet_fs [of env m c1] c1 c2 by simp_all
  define sk where "sk = fst keys"
  define objs where "objs = snd objects"
  obtain cids' where each: "for_each (publish_object env store annots sk) (cx_walk env (pg_package_path args) (cl_fs c2)) (c2, [], [])
      = ((c3, cids', objs), Ok ())"
    using objs by (auto simp: recursively_publish_objects_def obind_Ok_iff sk_def objs_def split: prod.splits)
  obtain sg js where sg: "cx_package_json env \<lparr>package_payload = publish_payload env args annots objs, package_sig = sg\<rparr> = Ok js"
      and dag: "(case cx_write_dag env store (str_bytes js) (cl_node c3) of
         (n, r) \<Rightarrow> and_then (c3\<lparr>cl_node := n\<rparr>, map_err CE_Store r) (\<lambda>c package_cid. (println package_cid c, Ok ()))) = (c', Ok ())"
    using rest by (auto simp: publish_package_def and_then_Ok_iff map_err_Ok_iff expect_Ok objs_def)
  obtain n' cid where cid: "cx_write_dag env store (str_bytes js) (cl_node c3) = (n', Ok cid)"
      and c': "c' = println cid (c3\<lparr>cl_node := n'\<rparr>)"
    using dag by (auto simp: and_then_Ok_iff map_err_Ok_iff split: prod.splits)
  have "last (cl_out c') = cid" "cl_fs c' = cl_fs c3" by (simp_all add: c' println_def)
  moreover have "cl_fs c3 = cl_fs c" "list_all2 (stored_as env store (cl_fs c))
      (filter (is_file (cx_os env) (cl_fs c)) (cx_walk env (pg_package_path args) (cl_fs c))) objs"
    using publish_objects_stores [OF each] fs by auto
  ultimately show ?thesis using sg cid by metis
qed

lemma list_all2_in_set1: "list_all2 P xs ys \<Longrightarrow> x \<in> set xs \<Longrightarrow> \<exists>y\<in>set ys. P x y"
  by (induction rule: list_all2_induct) auto

text \<open>The objects of a package whose names are all different are all found where they say.\<close>

lemma package_objects_unpacked:
  assumes "pp = ob_payload_path (om_bundler self)" and "at_dir (ce_os env) fs pp d" and "\<not> ends_with CHR ''/'' pp"
    and "is_name cid" and "cid \<noteq> dots" and "ce_read_dag env cid = In_Time (Inr data)" and "ce_parse_package env data = Inr pkg"
    and "objs = package_objects (package_payload pkg)" and "\<forall>obj\<in>set objs. dots \<notin> set (object_names obj)"
    and "distinct (map object_names objs)" and "create_payload_package env self cid fs = (fs', Ok md)"
  shows "\<forall>obj\<in>set objs. unpacked env (d @ [cid, cid]) obj fs'"
proof
  fix obj assume "obj \<in> set objs"
  then obtain xs ys where split: "objs = xs @ obj # ys" by (meson split_list)
  have pd: "package_dir_of self cid = pp @ CHR ''/'' # cid @ CHR ''/'' # cid"
    using package_dir_below [of "ce_os env" fs self d cid] assms(1-4) by simp
  obtain s where k: "keeps (d @ [cid]) fs s"
      and s: "for_each (write_object_file env (package_dir_of self cid)) objs s = (fs', Ok ())"
    using package_prepared [OF assms(1-5,11)] assms(6-8) by auto
  have "object_names obj \<notin> object_names ` set ys" using assms(10) split by auto
  then show "unpacked env (d @ [cid, cid]) obj fs'"
    using write_objects_spec [OF at_dir_keeps [OF assms(2) k] assms(4,5) pd assms(9) s] split by blast
qed

text \<open>
  C25: what is published is what is unpacked. A publication that succeeds prints the id of a package,
  and a node that reads from the same store, in which an id leads to what was stored under it, unpacks
  that package. Then every file the walk over the publisher's directory found has its bytes in the
  package's directory on the node, below the names of the path it was walked under, and is executable
  there if its name makes it a program. The paths must be free of \<open>..\<close> and lead to different places.
  A package of programs is given the image of its runtime and the entry point and arguments of the
  command line. No signature plays a part in it. Two hypotheses are about crates outside the
  repository: which files a directory has is what \<open>WalkDir\<close> returns (\<open>cx_walk\<close>), and the content store
  gives back, for an id it handed out, the bytes that were stored under it (\<open>ce_read_object\<close>,
  \<open>ce_read_dag\<close>), which is what makes it content-addressed.
\<close>

theorem published_package_unpacked:
  assumes "handle_publish_command env m c = (c', Ok ())" and "try_get_one as_bool ''wizard'' m = Ok (Some False)"
    and "gather_publish_args m = Ok args" and "cid = last (cl_out c')"
    and "files = filter (is_file (cx_os env) (cl_fs c)) (cx_walk env (pg_package_path args) (cl_fs c))"
    and "\<And>st bytes n n' i. cx_write_object env st bytes n = (n', Ok i) \<Longrightarrow> ce_read_object cenv i = Inr bytes"
    and "\<And>st bytes n n' i. cx_write_dag env st bytes n = (n', Ok i) \<Longrightarrow>
           ce_read_dag cenv i = In_Time (Inr bytes) \<and> is_name i \<and> i \<noteq> dots"
    and "\<And>pkg js. cx_package_json env pkg = Ok js \<Longrightarrow> ce_parse_package cenv (str_bytes js) = Inr pkg"
    and "\<forall>p\<in>set files. dots \<notin> set (components (strip_object_path p))"
    and "distinct (map (\<lambda>p. components (strip_object_path p)) files)"
    and "pp = ob_payload_path (om_bundler mgr)" and "at_dir (ce_os cenv) nfs pp d" and "\<not> ends_with CHR ''/'' pp"
    and "create_payload_package cenv mgr cid nfs = (nfs', Ok md)"
  shows "(\<forall>p\<in>set files. \<exists>bytes mode. read_file (cx_os env) p (cl_fs c) = Ok bytes \<and>
       nfs' (d @ [cid, cid] @ components (strip_object_path p)) = Some (File bytes mode) \<and>
       (object_exec (content_type_from_path p) \<longrightarrow> mode = 493)) \<and>
    md = (case package_type_from (pg_content_type args) (pg_runtime args) of
       PT_Program rt \<Rightarrow> Some \<lparr>md_base_image = base_image_from rt, md_cid = cid,
         md_entrypoint = (case pg_entrypoint args of Some e \<Rightarrow> e | None \<Rightarrow> ''/''),
         md_program_args = (case pg_program_args args of Some a \<Rightarrow> a | None \<Rightarrow> [])\<rparr>
     | _ \<Rightarrow> None)"
proof -
  obtain store objs annots sg js n n' where objs: "list_all2 (stored_as env store (cl_fs c)) files objs"
      and js: "cx_package_json env \<lparr>package_payload = publish_payload env args annots objs, package_sig = sg\<rparr> = Ok js"
      and dag: "cx_write_dag env store (str_bytes js) n = (n', Ok cid)"
    using publish_stores_package [OF assms(1-3)] assms(4,5) by blast
  define pkg where "pkg = \<lparr>package_payload = publish_payload env args annots objs, package_sig = sg\<rparr>"
  have pkg: "package_objects (package_payload pkg) = objs" by (simp add: pkg_def publish_payload_def)
  have rd: "ce_read_dag cenv cid = In_Time (Inr (str_bytes js))" "is_name cid" "cid \<noteq> dots" using assms(7) [OF dag] by auto
  have ps: "ce_parse_package cenv (str_bytes js) = Inr pkg" using assms(8) [OF js] by (simp add: pkg_def)
  have named: "map object_names objs = map (\<lambda>p. components (strip_object_path p)) files"
    using objs by (induction rule: list_all2_induct) (auto simp: stored_as_def object_names_def)
  have "\<forall>obj\<in>set objs. dots \<notin> set (object_names obj)"
  proof
    fix obj assume "obj \<in> set objs"
    then have "object_names obj \<in> set (map (\<lambda>p. components (strip_object_path p)) files)" by (simp flip: named)
    then show "dots \<notin> set (object_names obj)" using assms(9) by auto
  qed
  moreover have "distinct (map object_names objs)" using assms(10) named by simp
  ultimately have un: "\<forall>obj\<in>set objs. unpacked cenv (d @ [cid, cid]) obj nfs'"
    by (rule package_objects_unpacked [OF assms(11-13) rd(2,3,1) ps pkg [symmetric] _ _ assms(14)])
  have "\<exists>bytes mode. read_file (cx_os env) p (cl_fs c) = Ok bytes \<and>
       nfs' (d @ [cid, cid] @ components (strip_object_path p)) = Some (File bytes mode) \<and>
       (object_exec (content_type_from_path p) \<longrightarrow> mode = 493)" if p: "p \<in> set files" for p
  proof -
    obtain obj where obj: "obj \<in> set objs" "stored_as env store (cl_fs c) p obj"
      using list_all2_in_set1 [OF objs p] by blast
    then have "unpacked cenv (d @ [cid, cid]) obj nfs'" using un by blast
    then show ?thesis using obj(2) assms(6) by (fastforce simp: unpacked_def stored_as_def object_names_def)
  qed
  moreover have "md = (case package_type (package_payload pkg) of
       PT_Program rt \<Rightarrow> Some \<lparr>md_base_image = base_image_from rt, md_cid = cid,
         md_entrypoint = package_entrypoint (package_payload pkg), md_program_args = package_program_args (package_payload pkg)\<rparr>
     | _ \<Rightarrow> None)"
    using assms(14) by (auto simp: create_payload_package_def Let_def outcome_simps io_simps rd(1) ps)
  ultimately show ?thesis by (simp add: pkg_def publish_payload_def cong: lasr_package_type.case_cong)
qed

text \<open>A directory with one script is published and unpacked on a node.\<close>

definition sample_publish :: arg_matches where
  "sample_publish =
     \<lparr>am_values = sample_key_values(''wizard'' \<mapsto> [(''false'', V_Bool False)], ''package-path'' \<mapsto> [(''.'', V_String ''.'')],
        ''recursive'' \<mapsto> [(''false'', V_Bool False)], ''file-count'' \<mapsto> [(''0'', V_U32 0)],
        ''content-type'' \<mapsto> [(''program'', V_String ''program'')], ''api-version'' \<mapsto> [(''1'', V_U32 1)],
        ''author'' \<mapsto> [(''me'', V_String ''me'')], ''name'' \<mapsto> [(''p'', V_String ''p'')],
        ''package-version'' \<mapsto> [(''1'', V_U32 1)], ''local'' \<mapsto> [(''true'', V_Bool True)],
        ''runtime'' \<mapsto> [(''none'', V_String ''none'')], ''entrypoint'' \<mapsto> [('''', V_String '''')],
        ''program-args'' \<mapsto> [('''', V_String '''')]),
      am_given = (\<lambda>i. i \<in> {''from-secret-key'', ''secret-key'', ''package-path'', ''author'', ''name'', ''local''})\<rparr>"

definition sample_publish_args :: publish_args where
  "sample_publish_args =
     \<lparr>pg_package_path = ''.'', pg_cids = None, pg_content_type = ''program'', pg_api_version = 1, pg_annotations_file = None,
      pg_author = ''me'', pg_name = ''p'', pg_package_version = 1, pg_local = True, pg_remote = None, pg_runtime = ''none'',
      pg_replaces = None, pg_entrypoint = Some '''', pg_program_args = Some ['''']\<rparr>"

definition sample_zero_sig :: recoverable_signature where
  "sample_zero_sig = \<lparr>sig_r = replicate 32 0, sig_s = replicate 32 0, sig_v = 0\<rparr>"

definition sample_published :: lasr_package where
  "sample_published =
     \<lparr>package_payload =
        \<lparr>api_version = 1, package_version = 1, package_name = ''p'', package_author = ''me'', package_type = PT_Program RT_None,
         package_objects =
           [\<lparr>object_payload = \<lparr>object_content_type = CT_Program (Script ''sh''), object_path = ''./run.sh'', object_cid = ''obj'',
               object_annotations = Map.empty\<rparr>,
             object_sig = sample_zero_sig\<rparr>],
         package_replaces = [], package_entrypoint = '''', package_program_args = [''''], package_annotations = Map.empty\<rparr>,
      package_sig = sample_zero_sig\<rparr>"

definition sample_publish_env :: "unit cli_env" where
  "sample_publish_env = (sample_cli sample_offline)
     \<lparr>cx_walk := (\<lambda>_ _. [''.'', ''./run.sh'']),
      cx_write_object := (\<lambda>_ b n. (n, if b = [2, 3] then Ok ''obj'' else Err ''full'')),
      cx_write_dag := (\<lambda>_ b n. (n, if b = str_bytes ''{}'' then Ok ''abc'' else Err ''full'')),
      cx_package_json := (\<lambda>p. if p = sample_published then Ok ''{}'' else Err ''eof'')\<rparr>"

definition sample_publish_fs :: fsys where
  "sample_publish_fs = [[] \<mapsto> Directory, [''run.sh''] \<mapsto> File [2, 3] 420]"

definition sample_reader :: compute_env where
  "sample_reader = sample_cenv
     \<lparr>ce_read_dag := (\<lambda>_. In_Time (Inr (str_bytes ''{}''))), ce_parse_package := (\<lambda>_. Inr sample_published)\<rparr>"

lemma sample_gathered: "gather_publish_args sample_publish = Ok sample_publish_args"
  by (simp add: gather_publish_args_def get_expect_def get_one_def try_get_one_def get_strings_def sample_publish_def
      sample_key_values_def sample_publish_args_def)

lemma sample_walked:
  "is_file sample_os sample_publish_fs ''./run.sh''" "\<not> is_file sample_os sample_publish_fs ''.''"
  "read_file sample_os ''./run.sh'' sample_publish_fs = Ok [2, 3]"
  "content_type_from_path ''./run.sh'' = CT_Program (Script ''sh'')"
  by code_simp+

lemma sample_offline_signs: "sign_object (we_crypto sample_offline) (we_keys sample_offline) f (\<lambda>_. Ok []) sk x = Ok sample_zero_sig"
  by (simp add: sign_object_def signable_hash_def sample_offline_def sig_from_compact_def sample_zero_sig_def)

lemma sample_publish_sel:
  "cx_os sample_publish_env = sample_os" "cx_wallet sample_publish_env = sample_offline"
  "cx_walk sample_publish_env p fs = [''.'', ''./run.sh'']" "cx_bincode_object sample_publish_env = (\<lambda>_. Ok [])"
  "cx_bincode_package sample_publish_env = (\<lambda>_. Ok [])" "cx_store sample_publish_env st = Ok ()"
  "cx_write_object sample_publish_env st b n = (n, if b = [2, 3] then Ok ''obj'' else Err ''full'')"
  "cx_write_dag sample_publish_env st b n = (n, if b = str_bytes ''{}'' then Ok ''abc'' else Err ''full'')"
  "cx_package_json sample_publish_env pkg = (if pkg = sample_published then Ok ''{}'' else Err ''eof'')"
  "get_client sample_publish_env = Ok ()"
  by (simp_all add: sample_publish_env_def sample_cli_def get_client_def)

lemma sample_keypair: "get_keypair sample_publish_env sample_publish c = (c, Ok ([7], [7]))"
  by (simp add: get_keypair_def keypair_from_secret_key_def get_flag_def get_expect_def get_one_def try_get_one_def
      sample_publish_def sample_key_values_def sample_publish_sel Let_def) (simp add: sample_offline_def)

lemma sample_got_wallet: "\<exists>w. get_wallet sample_publish_env sample_publish c = (c, Ok w)"
  by (simp add: get_wallet_def sample_keypair sample_publish_sel) (simp add: sample_offline_def Let_def)

lemma sample_objects: "recursively_publish_objects sample_publish_env ''.'' st Map.empty [7] (\<lparr>cl_fs = sample_publish_fs, cl_out = [], cl_node = ()\<rparr>) =
    (\<lparr>cl_fs = sample_publish_fs, cl_out = [], cl_node = ()\<rparr>,
     Ok ([''obj''], package_objects (package_payload sample_published)))"
  by (simp add: recursively_publish_objects_def publish_object_def sample_publish_sel sample_walked sample_offline_signs
      sample_published_def)

lemma sample_publication:
  "handle_publish_command sample_publish_env sample_publish \<lparr>cl_fs = sample_publish_fs, cl_out = [], cl_node = ()\<rparr> =
     (\<lparr>cl_fs = sample_publish_fs, cl_out = [''abc''], cl_node = ()\<rparr>, Ok ())"
proof -
  let ?c = "\<lparr>cl_fs = sample_publish_fs, cl_out = [], cl_node = ()\<rparr>"
  obtain w where w: "get_wallet sample_publish_env sample_publish ?c = (?c, Ok w)" using sample_got_wallet by blast
  have wiz: "try_get_one as_bool ''wizard'' sample_publish = Ok (Some False)" by (simp add: try_get_one_def sample_publish_def)
  have pay: "\<lparr>package_payload = publish_payload sample_publish_env sample_publish_args Map.empty
       (package_objects (package_payload sample_published)), package_sig = sample_zero_sig\<rparr> = sample_published"
    by (simp add: publish_payload_def sample_publish_args_def sample_published_def package_type_from_def runtime_from_str_def)
  have st: "publish_store sample_publish_env sample_publish_args = Ok Local_Store"
    by (simp add: publish_store_def sample_publish_args_def sample_publish_sel)
  have an: "publish_annotations sample_publish_env sample_publish_args fs = Ok Map.empty" for fs
    by (simp add: publish_annotations_def sample_publish_args_def)
  have sel: "pg_cids sample_publish_args = None" "pg_package_path sample_publish_args = ''.''" by (simp_all add: sample_publish_args_def)
  have "publish_package sample_publish_env [7] Local_Store (publish_payload sample_publish_env sample_publish_args Map.empty
       (package_objects (package_payload sample_published))) ?c = (?c\<lparr>cl_out := [''abc'']\<rparr>, Ok ())"
    by (simp add: publish_package_def sample_publish_sel sample_offline_signs pay println_def)
  then show ?thesis
    by (simp add: handle_publish_command_def get_expect_Ok [OF wiz] sample_keypair w sample_gathered st an sel sample_objects)
qed

theorem published_package_unpacked_witness:
  "\<exists>c' nfs' md. handle_publish_command sample_publish_env sample_publish
       \<lparr>cl_fs = sample_publish_fs, cl_out = [], cl_node = ()\<rparr> = (c', Ok ()) \<and> cl_out c' = [''abc''] \<and>
     create_payload_package sample_reader sample_manager ''abc'' sample_fs = (nfs', Ok (Some md)) \<and>
     nfs' [''payload'', ''abc'', ''abc'', ''run.sh''] = Some (File [2, 3] 493) \<and> md_base_image md = BI_Bin \<and> md_program_args md = ['''']"
proof -
  let ?c = "\<lparr>cl_fs = sample_publish_fs, cl_out = [], cl_node = ()\<rparr>"
  have wiz: "try_get_one as_bool ''wizard'' sample_publish = Ok (Some False)" by (simp add: try_get_one_def sample_publish_def)
  have files: "filter (is_file (cx_os sample_publish_env) (cl_fs ?c))
      (cx_walk sample_publish_env (pg_package_path sample_publish_args) (cl_fs ?c)) = [''./run.sh'']"
    by (simp add: sample_publish_sel sample_walked)
  have "is_Ok (snd (create_payload_package sample_reader sample_manager ''abc'' sample_fs))" by code_simp
  then obtain nfs' md where run: "create_payload_package sample_reader sample_manager ''abc'' sample_fs = (nfs', Ok md)"
    by (cases "create_payload_package sample_reader sample_manager ''abc'' sample_fs") (auto simp: is_Ok_iff)
  have sel: "ce_os sample_reader = sample_os" "ce_read_object sample_reader i = Inr [2, 3]"
      "ce_read_dag sample_reader i = In_Time (Inr (str_bytes ''{}''))" "ce_parse_package sample_reader b = Inr sample_published"
      "ob_payload_path (om_bundler sample_manager) = ''./payload''" for i b
    by (simp_all add: sample_reader_def sample_cenv_def sample_manager_def)
  have names: "components (strip_object_path ''./run.sh'') = [''run.sh'']" by code_simp
  have "(\<forall>p\<in>set [''./run.sh'']. \<exists>bytes mode. read_file (cx_os sample_publish_env) p (cl_fs ?c) = Ok bytes \<and>
       nfs' ([''payload''] @ [''abc'', ''abc''] @ components (strip_object_path p)) = Some (File bytes mode) \<and>
       (object_exec (content_type_from_path p) \<longrightarrow> mode = 493)) \<and>
    md = (case package_type_from (pg_content_type sample_publish_args) (pg_runtime sample_publish_args) of
       PT_Program rt \<Rightarrow> Some \<lparr>md_base_image = base_image_from rt, md_cid = ''abc'',
         md_entrypoint = (case pg_entrypoint sample_publish_args of Some e \<Rightarrow> e | None \<Rightarrow> ''/''),
         md_program_args = (case pg_program_args sample_publish_args of Some a \<Rightarrow> a | None \<Rightarrow> [])\<rparr>
     | _ \<Rightarrow> None)"
    by (rule published_package_unpacked [OF sample_publication wiz sample_gathered _ files [symmetric] _ _ _ _ _ refl _ _ run])
      (use sample_payload_dir in \<open>auto simp: sel sample_publish_sel names is_name_def dots_def ends_with_def starts_with_def
         split: if_splits\<close>)
  then show ?thesis
    using run sample_publication
    by (auto simp: names sample_publish_sel sample_walked sample_publish_args_def package_type_from_def runtime_from_str_def)
qed

end
