(* ===== verification/Cli_Panics.thy ===== *)
theory Cli_Panics
  imports Cli_Theorems
begin

text \<open>
  The panics of the commands: which ones can happen when the matches conform to the declared
  arguments and the crates report their errors instead of panicking.
\<close>

section \<open>Outcomes and their panics\<close>

definition panics_in :: "string set \<Rightarrow> ('e, 'a) outcome \<Rightarrow> bool" where
  "panics_in S r \<longleftrightarrow> (\<forall>p. r = Panic p \<longrightarrow> p \<in> S)"

lemma panics_in_simps [simp]: "panics_in S (Ok a)" "panics_in S (Err e)" "panics_in S (Panic p) \<longleftrightarrow> p \<in> S"
  by (simp_all add: panics_in_def)

lemma panics_in_map_err [simp]: "panics_in S (map_err f r) \<longleftrightarrow> panics_in S r"
  by (cases r) simp_all

lemma panics_in_obind:
  "panics_in S r \<Longrightarrow> (\<And>a. r = Ok a \<Longrightarrow> panics_in S (f a)) \<Longrightarrow> panics_in S (obind r f)"
  by (cases r) simp_all

lemma panics_in_and_then:
  "panics_in S (snd m) \<Longrightarrow> (\<And>s a. m = (s, Ok a) \<Longrightarrow> panics_in S (snd (f s a))) \<Longrightarrow> panics_in S (snd (and_then m f))"
  by (cases m; cases "snd m") simp_all

lemma panics_in_expect: "panics_in S r \<Longrightarrow> msg \<in> S \<Longrightarrow> panics_in S (expect msg r)"
  by (cases r) simp_all

lemma panics_in_or_panic: "msg \<in> S \<Longrightarrow> panics_in S (or_panic msg x)"
  by (cases x) simp_all

text \<open>The crates report errors and do not panic.\<close>

abbreviation no_panic :: "('e, 'a) outcome \<Rightarrow> bool" where
  "no_panic r \<equiv> panics_in {} r"

lemma calm_mono: "no_panic r \<Longrightarrow> panics_in S r"
  by (simp add: panics_in_def)

definition calm_env :: "'n cli_env \<Rightarrow> bool" where
  "calm_env env \<longleftrightarrow>
     (\<forall>s. no_panic (cx_parse_wallets env s)) \<and> (\<forall>s. no_panic (cx_client env s)) \<and> (\<forall>t. no_panic (cx_print_token env t)) \<and>
     (\<forall>t. no_panic (cx_print_transaction env t)) \<and> (\<forall>a. no_panic (cx_store env a)) \<and>
     (\<forall>a b n. no_panic (snd (cx_write_object env a b n))) \<and> (\<forall>a b n. no_panic (snd (cx_write_dag env a b n))) \<and>
     (\<forall>x. no_panic (cx_bincode_object env x)) \<and> (\<forall>x. no_panic (cx_bincode_package env x)) \<and> (\<forall>x. no_panic (cx_package_json env x)) \<and>
     (\<forall>x. no_panic (cx_print_wallet env x)) \<and> (\<forall>xs. no_panic (cx_print_wallets env xs)) \<and> (\<forall>s. no_panic (cx_parse_outputs env s)) \<and>
     (\<forall>s. no_panic (cx_parse_transaction env s)) \<and> (\<forall>t. no_panic (cx_transaction_json env t)) \<and>
     (\<forall>x. no_panic (cx_hex_or_bytes_json env x)) \<and> (\<forall>i. no_panic (cx_instruction_json env i)) \<and>
     (let w = cx_wallet env; ko = we_keys w in
      (\<forall>s. no_panic (ko_parse_mnemonic ko s)) \<and> (\<forall>b. no_panic (ko_key_from_slice ko b)) \<and> (\<forall>s. no_panic (ko_key_from_str ko s)) \<and>
      (\<forall>sk b. length (snd (ko_sign ko sk b)) = 64) \<and>
      (\<forall>b. no_panic (secp_message (we_crypto w) b)) \<and> (\<forall>x n. no_panic (snd (we_get_account w x n))) \<and>
      (\<forall>x n. no_panic (snd (we_send w x n))) \<and> (\<forall>x n. no_panic (snd (we_call w x n))) \<and> (\<forall>x n. no_panic (snd (we_register w x n))) \<and>
      (\<forall>s. no_panic (we_account_json w s)) \<and> (\<forall>s. no_panic (we_token_json w s)) \<and> (\<forall>s. no_panic (we_payload_json w s)) \<and>
      (\<forall>b. no_panic (ko_mnemonic ko b)))"

lemma calm_envD:
  assumes "calm_env env"
  shows "panics_in S (cx_parse_wallets env s)" "panics_in S (cx_client env s)" "panics_in S (cx_print_token env t)"
    "panics_in S (cx_print_transaction env x)" "panics_in S (cx_store env a)" "panics_in S (snd (cx_write_object env a b n))"
    "panics_in S (snd (cx_write_dag env a b n))" "panics_in S (cx_bincode_object env ob)" "panics_in S (cx_bincode_package env pl)"
    "panics_in S (cx_package_json env pk)" "panics_in S (ko_parse_mnemonic (we_keys (cx_wallet env)) s)"
    "panics_in S (ko_key_from_slice (we_keys (cx_wallet env)) b)" "panics_in S (ko_key_from_str (we_keys (cx_wallet env)) s)"
    "panics_in S (secp_message (we_crypto (cx_wallet env)) b)" "panics_in S (snd (we_get_account (cx_wallet env) s n))"
    "panics_in S (snd (we_send (cx_wallet env) x n))" "panics_in S (snd (we_call (cx_wallet env) x n))"
    "panics_in S (snd (we_register (cx_wallet env) x n))" "panics_in S (we_account_json (cx_wallet env) s)"
    "panics_in S (we_token_json (cx_wallet env) s)" "panics_in S (we_payload_json (cx_wallet env) s)"
    "panics_in S (cx_print_wallet env wi)" "panics_in S (cx_print_wallets env ws)" "panics_in S (cx_parse_outputs env s)"
    "panics_in S (cx_parse_transaction env s)" "panics_in S (cx_transaction_json env x)" "panics_in S (cx_hex_or_bytes_json env hb)"
    "panics_in S (cx_instruction_json env ins)" "panics_in S (ko_mnemonic (we_keys (cx_wallet env)) b)"
  by (rule calm_mono, use assms in \<open>simp add: calm_env_def Let_def\<close>)+

lemma calm_sign:
  assumes "calm_env env" and "ko_sign (we_keys (cx_wallet env)) sk b = (v, rs)"
  shows "length rs = 64"
proof -
  have "\<forall>sk b. length (snd (ko_sign (we_keys (cx_wallet env)) sk b)) = 64" using assms(1) by (simp add: calm_env_def Let_def)
  then show ?thesis using assms(2) by (metis snd_conv)
qed

lemma sign_object_calm:
  assumes "calm_env env" and "panics_in S (bincode x)"
  shows "panics_in S (sign_object (we_crypto (cx_wallet env)) (we_keys (cx_wallet env)) f bincode sk x)"
  unfolding sign_object_def signable_hash_def
  by (intro panics_in_obind)
    (use assms calm_envD(14) [OF assms(1)] in \<open>auto simp: sig_from_compact_def dest: calm_sign [OF assms(1)] split: prod.split\<close>)

lemma sign_with_calm:
  assumes "calm_env env"
  shows "panics_in S (sign_with (we_crypto (cx_wallet env)) (we_keys (cx_wallet env)) sk p)"
  unfolding sign_with_def
  using calm_envD(14) [OF assms, of S]
  by (intro panics_in_obind) (auto simp: sig_from_compact_def dest: calm_sign [OF assms] split: prod.split)

lemma client_call_calm: "(\<And>n. panics_in S (snd (f n))) \<Longrightarrow> panics_in S (snd (client_call f s))"
  by (auto simp: client_call_def split: prod.split) (metis snd_conv)

lemma wallet_get_account_calm:
  assumes "calm_env env"
  shows "panics_in S (snd (wallet_get_account (cx_wallet env) a s))"
  unfolding wallet_get_account_def
  by (intro panics_in_and_then client_call_calm) (simp_all add: calm_envD [OF assms])

lemma wallet_transaction_calm:
  assumes "calm_env env" and "overflow \<in> S"
  shows "panics_in S (snd (wallet_transaction (cx_wallet env) ty t pid i op v s))"
  unfolding wallet_transaction_def Let_def
  by (intro panics_in_and_then) (auto simp: payload_build_def sign_with_calm [OF assms(1)] panics_in_or_panic [OF assms(2)])

lemma wallet_methods_calm:
  assumes "calm_env env" and "overflow \<in> S"
  shows "panics_in S (snd (wallet_send (cx_wallet env) t pid v s))"
    and "panics_in S (snd (wallet_call (cx_wallet env) pid t v op i s))"
    and "panics_in S (snd (wallet_register_program (cx_wallet env) i s))"
proof -
  have vb: "panics_in S (validate_balance pid v a)" for pid v a by (simp add: validate_balance_def split: option.split)
  note calm = wallet_transaction_calm [OF assms] wallet_get_account_calm [OF assms(1)] calm_envD [OF assms(1)]
  show "panics_in S (snd (wallet_send (cx_wallet env) t pid v s))"
    unfolding wallet_send_def by (intro panics_in_and_then client_call_calm) (simp_all add: calm vb)
  show "panics_in S (snd (wallet_call (cx_wallet env) pid t v op i s))"
    unfolding wallet_call_def by (intro panics_in_and_then client_call_calm) (simp_all add: calm vb)
  show "panics_in S (snd (wallet_register_program (cx_wallet env) i s))"
    unfolding wallet_register_program_def
  proof (intro panics_in_and_then client_call_calm)
    fix s a s' b
    have "panics_in S (snd (wallet_get_account (cx_wallet env) (wl_address (snd s')) s'))" by (rule calm)
    then show "panics_in S (snd (case wallet_get_account (cx_wallet env) (wl_address (snd s')) s' of
        (s, Ok x) \<Rightarrow> (s, Ok b) | (s, Err e) \<Rightarrow> (s, Ok b) | (s, Panic p) \<Rightarrow> (s, Panic p)))"
      by (auto split: prod.split outcome.split)
  qed (simp_all add: calm)
qed

text \<open>
  The panics of a command that has conforming matches: an index past the wallets of the file, an
  amount or a nonce that is too large, a payload or a result that has no text, and a command line
  that names no source of a key.
\<close>

definition run_panics :: "arg_matches \<Rightarrow> string set" where
  "run_panics m = {''index out of bounds'', overflow, ''unable to sign payload'', ''unwrap''} \<union>
     (if am_given m ''from-file'' \<or> am_given m ''from-mnemonic'' \<or> am_given m ''secret-key'' then {}
      else {''required if from-secret-key flag''})"

lemma open_read_calm [simp]: "panics_in S (open_read os p fs)"
  by (simp add: open_read_def)

lemma read_file_calm [simp]: "panics_in S (read_file os p fs)"
  by (simp add: read_file_def split: option.split node.split)

lemma get_keypair_panics:
  assumes "calm_env env" and "cmd \<in> set key_commands" and "conforms hx uc cmd m"
  shows "panics_in (run_panics m) (snd (get_keypair env m c))"
proof -
  note key = key_flags [OF assms(2,3)] key_values [OF assms(2,3)]
  obtain path i where p: "try_get_one as_string ''path'' m = Ok (Some path)" "try_get_one as_usize ''wallet-index'' m = Ok (Some i)"
    using key(4,5) by blast
  have f: "get_flag ''from-file'' m = Ok (am_given m ''from-file'')" "get_flag ''from-mnemonic'' m = Ok (am_given m ''from-mnemonic'')"
      "get_flag ''from-secret-key'' m = Ok (am_given m ''from-secret-key'')"
    by (rule get_flag_Ok [OF key(1)], simp)+
  have in_file: "panics_in (run_panics m) (keypair_from_file env m fs)" for fs
    unfolding keypair_from_file_def Let_def get_expect_Ok [OF p(1)] get_expect_Ok [OF p(2)]
    by (intro panics_in_obind) (simp_all add: calm_envD [OF assms(1)] run_panics_def)
  have words: "panics_in (run_panics m) (keypair_from_mnemonic env m)" if g: "am_given m ''from-mnemonic''"
  proof -
    obtain w where w: "try_get_one as_string ''mnemonic'' m = Ok (Some w)" using key(3) [OF g] key(7) by blast
    show ?thesis unfolding keypair_from_mnemonic_def Let_def get_expect_Ok [OF w]
      by (intro panics_in_obind) (simp_all add: calm_envD [OF assms(1)])
  qed
  have "panics_in (run_panics m) (snd (keypair_from_secret_key env m c))"
    if g: "\<not> am_given m ''from-file''" "\<not> am_given m ''from-mnemonic''" for c :: "'a cli"
  proof -
    obtain x where x: "try_get_one as_string ''secret-key'' m = Ok x" "am_given m ''secret-key'' \<Longrightarrow> x \<noteq> None"
      using key(6,8) by fastforce
    have "panics_in (run_panics m) (get_expect as_string ''secret-key'' ''required if from-secret-key flag'' m)"
      using x g by (cases x) (auto simp: get_expect_def get_one_Ok run_panics_def)
    moreover have "try_get_one as_bool ''verbose'' m = Ok (Some (am_given m ''verbose''))" by (rule key(1)) simp
    ultimately show ?thesis unfolding keypair_from_secret_key_def Let_def
      by (intro panics_in_and_then) (simp_all add: calm_envD [OF assms(1)] get_expect_Ok)
  qed
  then show ?thesis using in_file words by (simp add: get_keypair_def f)
qed

lemma get_wallet_panics:
  assumes "calm_env env" and "cmd \<in> set key_commands" and "conforms hx uc cmd m"
  shows "panics_in (run_panics m) (snd (get_wallet env m c))"
proof -
  have "panics_in (run_panics m) (snd (and_then (c, get_client env) f))" if "\<And>s a. panics_in (run_panics m) (snd (f s a))"
    for f :: "'a cli \<Rightarrow> unit \<Rightarrow> ('a, wallet) cli_result" and c
    by (intro panics_in_and_then) (simp_all add: get_client_def calm_envD [OF assms(1)] that)
  note client = this
  have acc: "panics_in (run_panics m) (snd (case we_get_account (cx_wallet env) x n of
      (n, Ok s) \<Rightarrow> f n s | (n, Err e) \<Rightarrow> (g n, Ok y) | (n, Panic p) \<Rightarrow> (g n, Panic p)))"
    if "\<And>n s. panics_in (run_panics m) (snd (f n s))" for x n y and f :: "'a \<Rightarrow> string \<Rightarrow> ('a, wallet) cli_result" and g
    using calm_envD(15) [OF assms(1), of "run_panics m" x n] that by (auto split: prod.split outcome.split)
  show ?thesis
    unfolding get_wallet_def Let_def
    by (intro panics_in_and_then get_keypair_panics [OF assms])
      (auto intro!: client acc panics_in_and_then simp: calm_envD [OF assms(1)] split: prod.split)
qed

lemma on_wallet_calm: "panics_in S (snd (f (cl_node c, w))) \<Longrightarrow> panics_in S (snd (on_wallet f w c))"
  by (auto simp: on_wallet_def split: prod.split intro!: panics_in_obind)

lemma on_wallet_ignore_calm: "panics_in S (snd (f (cl_node c, w))) \<Longrightarrow> panics_in S (snd (on_wallet_ignore f w c))"
  by (auto simp: on_wallet_ignore_def split: prod.split outcome.split)

lemma mul_unit_calm: "overflow \<in> S \<Longrightarrow> panics_in S (mul_unit v u)"
  by (simp add: mul_unit_exact)

lemma split_calm: "(\<And>a b. x = (a, b) \<Longrightarrow> panics_in S (snd (f a b))) \<Longrightarrow> panics_in S (snd (case x of (a, b) \<Rightarrow> f a b))"
  by (cases x) simp

lemmas calm_steps = panics_in_and_then on_wallet_calm on_wallet_ignore_calm mul_unit_calm split_calm panics_in_expect

text \<open>An argument that a command declares and always has is found at its type.\<close>

lemma declared:
  assumes "conforms hx uc cmd m" and "\<And>t v. value_parser hx uc ty t = Ok v \<Longrightarrow> \<exists>x. as v = Some x"
    and "a \<in> set (cmd_args cmd)" and "i = arg_id a" and "ty = arg_type a"
  shows "panics_in S (get_one as i m)" and "always_there a \<Longrightarrow> panics_in S (get_expect as i msg m)"
proof -
  obtain x where x: "try_get_one as i m = Ok x" "always_there a \<Longrightarrow> x \<noteq> None"
    by (rule get_one_conforms [OF conforms_arg [OF assms(1,3)] _ assms(4), of as]) (use assms(2,5) in blast)+
  then show "panics_in S (get_one as i m)" by (simp add: get_one_Ok)
  show "always_there a \<Longrightarrow> panics_in S (get_expect as i msg m)" using x by (cases x) (simp_all add: get_expect_Ok)
qed

lemma always_there_args:
  "always_there verbose_arg" "always_there receiver_arg" "always_there program_id_arg" "always_there value_arg"
  "always_there unit_arg" "always_there function_arg" "always_there inputs_arg" "always_there cid_arg" "always_there payload_arg"
  "always_there (set_required b value_arg)" "always_there (set_required b unit_arg)" "always_there wizard_arg"
  "always_there package_path_arg" "always_there recursive_packer_arg" "always_there file_count_arg" "always_there content_type_arg"
  "always_there api_version_arg" "always_there package_name_arg" "always_there package_version_arg" "always_there local_node_arg"
  "always_there runtime_arg"
  by (simp_all add: always_there_def default_texts_def arg_defs set_required_def)

lemma arg_sel:
  "arg_id verbose_arg = ''verbose''" "arg_id receiver_arg = ''to''" "arg_id program_id_arg = ''content-namespace''"
  "arg_id (set_required b value_arg) = ''value''" "arg_id (set_required b unit_arg) = ''unit''" "arg_id function_arg = ''op''" "arg_id inputs_arg = ''inputs''"
  "arg_id cid_arg = ''content-id''" "arg_id payload_arg = ''payload''" "arg_id wizard_arg = ''wizard''"
  "arg_id package_path_arg = ''package-path''" "arg_id ignore_file_arg = ''ignore-file''" "arg_id recursive_packer_arg = ''recursive''"
  "arg_id file_count_arg = ''file-count''" "arg_id content_type_arg = ''content-type''" "arg_id api_version_arg = ''api-version''"
  "arg_id annotations_file_arg = ''annotations-file''" "arg_id author_arg = ''author''" "arg_id package_name_arg = ''name''"
  "arg_id package_version_arg = ''package-version''" "arg_id local_node_arg = ''local''" "arg_id remote_node_arg = ''remote''"
  "arg_id runtime_arg = ''runtime''" "arg_id replaces_arg = ''replaces''" "arg_id entrypoint_arg = ''entrypoint''"
  "arg_id cids_arg = ''cids''" "arg_id program_args = ''program-args''" "arg_id address_arg = ''address''" "arg_id json_arg = ''json''"
  "arg_type verbose_arg = T_Bool" "arg_type receiver_arg = T_Address" "arg_type program_id_arg = T_Address"
  "arg_type (set_required b value_arg) = T_U256" "arg_type (set_required b unit_arg) = T_Unit" "arg_type function_arg = T_String" "arg_type inputs_arg = T_String"
  "arg_type cid_arg = T_String" "arg_type payload_arg = T_String" "arg_type wizard_arg = T_Bool"
  "arg_type package_path_arg = T_String" "arg_type ignore_file_arg = T_String" "arg_type recursive_packer_arg = T_Bool"
  "arg_type file_count_arg = T_U32" "arg_type content_type_arg = T_String" "arg_type api_version_arg = T_U32"
  "arg_type annotations_file_arg = T_String" "arg_type author_arg = T_String" "arg_type package_name_arg = T_String"
  "arg_type package_version_arg = T_U32" "arg_type local_node_arg = T_Bool" "arg_type remote_node_arg = T_String"
  "arg_type runtime_arg = T_String" "arg_type replaces_arg = T_String" "arg_type entrypoint_arg = T_String"
  "arg_type cids_arg = T_String" "arg_type program_args = T_String"
  by (simp_all add: arg_defs set_required_def)

lemma required_same: "set_required True value_arg = value_arg" "set_required False unit_arg = unit_arg"
  by (simp_all add: set_required_def arg_defs)

lemma send_args_declared:
  assumes "conforms hx uc cmd m" and "cmd = send_command \<or> cmd = call_command"
  shows "panics_in S (get_expect as_address ''to'' msg m)" "panics_in S (get_expect as_address ''content-namespace'' msg m)"
    "panics_in S (get_expect as_u256 ''value'' msg m)" "panics_in S (get_expect as_unit ''unit'' msg m)"
    "panics_in S (get_expect as_bool ''verbose'' msg m)"
proof -
  have mem: "receiver_arg \<in> set (cmd_args cmd)" "program_id_arg \<in> set (cmd_args cmd)" "verbose_arg \<in> set (cmd_args cmd)"
      "set_required False unit_arg \<in> set (cmd_args cmd)"
    using assms(2) by (auto simp: send_command_def call_command_def required_same)
  have "set_required True value_arg \<in> set (cmd_args send_command)" by (simp add: send_command_def required_same)
  moreover have "set_required False value_arg \<in> set (cmd_args call_command)" by (simp add: call_command_def)
  ultimately obtain b where b: "set_required b value_arg \<in> set (cmd_args cmd)" using assms(2) by blast
  note d = declared(2) [OF assms(1)]
  show "panics_in S (get_expect as_address ''to'' msg m)"
    by (rule d [OF value_parser_types(6) mem(1)]) (simp_all only: arg_sel always_there_args)
  show "panics_in S (get_expect as_address ''content-namespace'' msg m)"
    by (rule d [OF value_parser_types(6) mem(2)]) (simp_all only: arg_sel always_there_args)
  show "panics_in S (get_expect as_bool ''verbose'' msg m)"
    by (rule d [OF value_parser_types(2) mem(3)]) (simp_all only: arg_sel always_there_args)
  show "panics_in S (get_expect as_unit ''unit'' msg m)"
    by (rule d [OF value_parser_types(8) mem(4)]) (simp_all only: arg_sel always_there_args)
  show "panics_in S (get_expect as_u256 ''value'' msg m)"
    by (rule d [OF value_parser_types(7) b]) (simp_all only: arg_sel always_there_args)
qed

lemma overflow_runs: "overflow \<in> run_panics m"
  by (simp add: run_panics_def)

lemma send_panics:
  assumes "calm_env env" and "conforms hx uc send_command m"
  shows "panics_in (run_panics m) (snd (handle_send_command env m c))"
proof -
  have k: "send_command \<in> set key_commands" by (simp add: key_commands_def)
  note args = send_args_declared [OF assms(2) disjI1 [OF refl]]
  show ?thesis unfolding handle_send_command_def Let_def
    by (intro calm_steps get_wallet_panics [OF assms(1) k assms(2)])
      (simp_all add: args wallet_get_account_calm [OF assms(1)] wallet_methods_calm [OF assms(1) overflow_runs] overflow_runs
        mul_unit_calm calm_envD [OF assms(1)])
qed

lemma call_panics:
  assumes "calm_env env" and "conforms hx uc call_command m"
  shows "panics_in (run_panics m) (snd (handle_call_command env m c))"
proof -
  have k: "call_command \<in> set key_commands" by (simp add: key_commands_def)
  note args = send_args_declared [OF assms(2) disjI2 [OF refl]]
  note d = declared(2) [OF assms(2)]
  have op: "panics_in S (get_expect as_string ''op'' msg m)" for S msg
    by (rule d [OF value_parser_types(1), where a = function_arg]) (simp_all only: arg_sel always_there_args, simp add: call_command_def)
  have inp: "panics_in S (get_expect as_string ''inputs'' msg m)" for S msg
    by (rule d [OF value_parser_types(1), where a = inputs_arg]) (simp_all only: arg_sel always_there_args, simp add: call_command_def)
  show ?thesis unfolding handle_call_command_def Let_def
    by (intro calm_steps get_wallet_panics [OF assms(1) k assms(2)])
      (simp_all add: args op inp wallet_get_account_calm [OF assms(1)] wallet_methods_calm [OF assms(1) overflow_runs]
        overflow_runs mul_unit_calm calm_envD [OF assms(1)])
qed

lemma register_panics:
  assumes "calm_env env" and "conforms hx uc register_program_command m"
  shows "panics_in (run_panics m) (snd (cli_handle_register_program env m c))"
proof -
  have k: "register_program_command \<in> set key_commands" by (simp add: key_commands_def)
  note d = declared(2) [OF assms(2)]
  have v: "panics_in S (get_expect as_bool ''verbose'' msg m)" for S msg
    by (rule d [OF value_parser_types(2), where a = verbose_arg]) (simp_all only: arg_sel always_there_args, simp add: register_program_command_def)
  have cid: "panics_in S (get_expect as_string ''content-id'' msg m)" for S msg
    by (rule d [OF value_parser_types(1), where a = cid_arg]) (simp_all only: arg_sel always_there_args, simp add: register_program_command_def)
  show ?thesis unfolding cli_handle_register_program_def Let_def
    by (intro calm_steps get_wallet_panics [OF assms(1) k assms(2)])
      (simp_all add: v cid wallet_get_account_calm [OF assms(1)] wallet_methods_calm [OF assms(1) overflow_runs])
qed

lemma sign_panics:
  assumes "calm_env env" and "conforms hx uc sign_command m"
  shows "panics_in (run_panics m) (snd (handle_sign_command env m c))"
proof -
  have k: "sign_command \<in> set key_commands" by (simp add: key_commands_def)
  have pl: "panics_in S (get_expect as_string ''payload'' msg m)" for S msg
    by (rule declared(2) [OF assms(2) value_parser_types(1), where a = payload_arg]) (simp_all only: arg_sel always_there_args, simp add: sign_command_def)
  have sg: "panics_in S (sign_payload (cx_wallet env) t w)" for S t w
    unfolding sign_payload_def by (intro panics_in_obind) (simp_all add: calm_envD [OF assms(1)] sign_with_calm [OF assms(1)])
  have e1: "panics_in (run_panics m) (expect ''unable to sign payload'' (sign_payload (cx_wallet env) t w))" for t w
    by (rule panics_in_expect [OF sg]) (simp add: run_panics_def)
  have e2: "panics_in (run_panics m) (expect ''unwrap'' (cx_print_transaction env t))" for t
    by (rule panics_in_expect [OF calm_envD(4) [OF assms(1)]]) (simp add: run_panics_def)
  show ?thesis unfolding handle_sign_command_def
    by (intro panics_in_and_then get_wallet_panics [OF assms(1) k assms(2)]) (simp_all add: pl e1 e2)
qed

text \<open>Publishing knows three more: an access of \<open>cids\<close> at a wrong type, a missing author, and a missing store.\<close>

definition publish_panics :: "arg_matches \<Rightarrow> string set" where
  "publish_panics m = run_panics m \<union> (if am_given m ''cids'' then {mismatch} else {}) \<union>
     (if am_given m ''author'' then {} else {''required or default''}) \<union>
     (if am_given m ''remote'' then {} else {''remote node is required if not using --local flag''})"

lemma panics_in_mono: "panics_in S r \<Longrightarrow> S \<subseteq> T \<Longrightarrow> panics_in T r"
  by (auto simp: panics_in_def)

lemma run_publish: "run_panics m \<subseteq> publish_panics m"
  by (auto simp: publish_panics_def)

text \<open>An argument without a default is there exactly when it was given.\<close>

lemma given_values:
  assumes "arg_conforms hx uc m a" and "default_texts a = None" and "i = arg_id a" and "arg_type a = T_String"
    and "\<not> arg_may_be_empty a" and "arg_action a \<noteq> A_SetTrue"
  shows "if am_given m i then \<exists>x. try_get_one as_string i m = Ok (Some x) else am_values m i = None"
proof (cases "am_values m i")
  case None
  then show ?thesis using assms(1-3) by (simp add: arg_conforms_def Let_def)
next
  case (Some tvs)
  have g: "am_given m i" using assms(1-3) Some by (auto simp: arg_conforms_def Let_def split: if_splits)
  then obtain t v r where "tvs = (t, v) # r" "value_parser hx uc T_String t = Ok v"
    using assms Some by (cases tvs) (auto simp: arg_conforms_def Let_def parsed_def)
  then have "\<exists>x. try_get_one as_string i m = Ok (Some x)" using Some by (auto simp: try_get_one_def)
  then show ?thesis using g by simp
qed

lemma gather_panics:
  assumes "conforms hx uc publish_command m"
  shows "panics_in (publish_panics m) (gather_publish_args m)"
    and "gather_publish_args m = Ok args \<Longrightarrow> am_given m ''remote'' \<Longrightarrow> pg_remote args \<noteq> None"
proof -
  have mem: "cids_arg \<in> set (cmd_args publish_command)" "author_arg \<in> set (cmd_args publish_command)"
      "program_args \<in> set (cmd_args publish_command)" "remote_node_arg \<in> set (cmd_args publish_command)"
    by (simp_all add: publish_command_def)
  note arg = conforms_arg [OF assms]
  have given: "if am_given m i then \<exists>x. try_get_one as_string i m = Ok (Some x) else am_values m i = None"
    if "i = ''cids'' \<and> a = cids_arg \<or> i = ''author'' \<and> a = author_arg \<or> i = ''remote'' \<and> a = remote_node_arg" for i a
    by (rule given_values [OF arg [of a]]) (use that mem in \<open>auto simp: default_texts_def arg_defs\<close>)
  have cids: "panics_in (publish_panics m) (get_one as_strings ''cids'' m)"
    using given [of "''cids''" cids_arg]
    by (auto simp: get_one_def try_get_one_def publish_panics_def split: if_splits outcome.split option.split list.split)
  have author: "panics_in (publish_panics m) (get_expect as_string ''author'' ''required or default'' m)"
    using given [of "''author''" author_arg]
    by (auto simp: get_expect_Ok publish_panics_def get_expect_def get_one_def try_get_one_def split: if_splits)
  have many: "panics_in S (get_strings ''program-args'' m)" for S
  proof (cases "am_values m ''program-args''")
    case (Some tvs)
    then have "list_all (parsed hx uc T_String) tvs"
      using arg [OF mem(3)] by (auto simp: arg_conforms_def Let_def arg_sel)
    then have "list_all (\<lambda>(_, v). as_string v \<noteq> None) tvs" by (fastforce simp: list_all_iff parsed_def)
    then show ?thesis using Some by (simp add: get_strings_def)
  qed (simp add: get_strings_def)
  note d = declared [OF assms]
  have e: "panics_in S (get_expect as_string ''package-path'' msg m)" "panics_in S (get_expect as_bool ''recursive'' msg m)"
      "panics_in S (get_expect as_u32 ''file-count'' msg m)" "panics_in S (get_expect as_string ''content-type'' msg m)"
      "panics_in S (get_expect as_u32 ''api-version'' msg m)" "panics_in S (get_expect as_string ''name'' msg m)"
      "panics_in S (get_expect as_u32 ''package-version'' msg m)" "panics_in S (get_expect as_bool ''local'' msg m)"
      "panics_in S (get_expect as_string ''runtime'' msg m)" "panics_in S (get_expect as_bool ''verbose'' msg m)" for S msg
    by (rule d(2) [OF value_parser_types(1), where a = package_path_arg] d(2) [OF value_parser_types(2), where a = recursive_packer_arg]
        d(2) [OF value_parser_types(4), where a = file_count_arg] d(2) [OF value_parser_types(1), where a = content_type_arg]
        d(2) [OF value_parser_types(4), where a = api_version_arg] d(2) [OF value_parser_types(1), where a = package_name_arg]
        d(2) [OF value_parser_types(4), where a = package_version_arg] d(2) [OF value_parser_types(2), where a = local_node_arg]
        d(2) [OF value_parser_types(1), where a = runtime_arg] d(2) [OF value_parser_types(2), where a = verbose_arg],
        simp_all only: arg_sel always_there_args, simp add: publish_command_def)+
  have o: "panics_in S (get_one as_string ''ignore-file'' m)" "panics_in S (get_one as_string ''annotations-file'' m)"
      "panics_in S (get_one as_string ''remote'' m)" "panics_in S (get_one as_string ''replaces'' m)"
      "panics_in S (get_one as_string ''entrypoint'' m)" for S
    by (rule d(1) [OF value_parser_types(1), where a = ignore_file_arg] d(1) [OF value_parser_types(1), where a = annotations_file_arg]
        d(1) [OF value_parser_types(1), where a = remote_node_arg] d(1) [OF value_parser_types(1), where a = replaces_arg]
        d(1) [OF value_parser_types(1), where a = entrypoint_arg],
        simp_all only: arg_sel, simp add: publish_command_def)+
  show "panics_in (publish_panics m) (gather_publish_args m)"
    unfolding gather_publish_args_def by (intro panics_in_obind cids author many e o panics_in_simps(1))
  assume g: "gather_publish_args m = Ok args" "am_given m ''remote''"
  then obtain x where x: "get_one as_string ''remote'' m = (Ok x :: (cli_error, string option) outcome)" "pg_remote args = x"
    unfolding gather_publish_args_def by (auto simp: obind_Ok_iff)
  obtain y where y: "try_get_one as_string ''remote'' m = Ok (Some y)"
    using given [of "''remote''" remote_node_arg] g(2) by auto
  have "Some y = x" using x(1) unfolding get_one_Ok [OF y] by simp
  then show "pg_remote args \<noteq> None" unfolding x(2) by auto
qed

lemma publish_object_calm:
  assumes "calm_env env"
  shows "panics_in S (snd (publish_object env store annots sk p s))"
  unfolding publish_object_def Let_def
  using calm_envD(6) [OF assms] calm_envD(8) [OF assms]
  by (auto intro!: panics_in_and_then sign_object_calm [OF assms] split: prod.split) (metis snd_conv)

lemma for_each_calm:
  assumes "\<And>x s. panics_in S (snd (f x s))"
  shows "panics_in S (snd (for_each f xs s))"
  using assms by (induction xs arbitrary: s) (auto intro!: panics_in_and_then)

lemma publish_command_panics:
  assumes "calm_env env" and "conforms hx uc publish_command m"
  shows "panics_in (publish_panics m) (snd (handle_publish_command env m c))"
proof -
  have k: "publish_command \<in> set key_commands" by (simp add: key_commands_def)
  have wiz: "panics_in S (get_expect as_bool ''wizard'' msg m)" for S msg
    by (rule declared(2) [OF assms(2) value_parser_types(2), where a = wizard_arg])
      (simp_all only: arg_sel always_there_args, simp add: publish_command_def)
  have kp: "panics_in (publish_panics m) (snd (get_keypair env m s))" "panics_in (publish_panics m) (snd (get_wallet env m s))" for s
    using panics_in_mono [OF get_keypair_panics [OF assms(1) k assms(2)] run_publish]
      panics_in_mono [OF get_wallet_panics [OF assms(1) k assms(2)] run_publish] by blast+
  have st: "panics_in (publish_panics m) (publish_store env args)" if "gather_publish_args m = Ok args" for args
  proof -
    have "panics_in (publish_panics m) (or_panic ''remote node is required if not using --local flag'' (pg_remote args))"
      using gather_panics(2) [OF assms(2) that] by (cases "pg_remote args") (auto simp: publish_panics_def)
    then show ?thesis unfolding publish_store_def
      by (intro panics_in_obind) (auto intro!: panics_in_obind simp: calm_envD [OF assms(1)])
  qed
  have an: "panics_in S (publish_annotations env args fs)" for S args fs
    by (auto simp: publish_annotations_def split: option.split outcome.split intro!: panics_in_obind)
  have objs: "panics_in S (snd (recursively_publish_objects env path store annots sk s))" for S path store annots sk s
  proof -
    have "panics_in S (snd (for_each (publish_object env store annots sk) (cx_walk env path (cl_fs s)) (s, [], [])))"
      by (rule for_each_calm [OF publish_object_calm [OF assms(1)]])
    then show ?thesis by (auto simp: recursively_publish_objects_def split: prod.split intro!: panics_in_obind)
  qed
  have js: "panics_in (publish_panics m) (expect ''unwrap'' (cx_package_json env x))" for x
    by (rule panics_in_expect [OF calm_envD(10) [OF assms(1)]]) (simp add: publish_panics_def run_panics_def)
  have pk: "panics_in (publish_panics m) (snd (publish_package env sk store x s))" for sk store x s
    unfolding publish_package_def
    using calm_envD(7) [OF assms(1)]
    by (auto intro!: panics_in_and_then sign_object_calm [OF assms(1)] js simp: calm_envD(9) [OF assms(1)] split: prod.split)
      (metis snd_conv)
  show ?thesis unfolding handle_publish_command_def
    by (rule panics_in_and_then, simp add: wiz)
      (auto intro!: panics_in_and_then kp gather_panics(1) [OF assms(2)] st an objs pk split: option.split)
qed

lemma publish_misses:
  assumes "conforms hx uc publish_command m" and "\<not> am_given m ''wizard''" and "am_given m ''cids'' \<or> \<not> am_given m ''author''"
  shows "\<not> is_Ok (snd (handle_publish_command env m c))"
proof
  assume "is_Ok (snd (handle_publish_command env m c))"
  then obtain c' where ok: "handle_publish_command env m c = (c', Ok ())"
    by (cases "handle_publish_command env m c") (auto simp: is_Ok_iff)
  have mem: "wizard_arg \<in> set (cmd_args publish_command)" "cids_arg \<in> set (cmd_args publish_command)"
      "author_arg \<in> set (cmd_args publish_command)" by (simp_all add: publish_command_def)
  have "try_get_one as_bool ''wizard'' m = Ok (Some (am_given m ''wizard''))"
    by (rule flag_conforms [OF conforms_arg [OF assms(1) mem(1)]]) (simp_all add: arg_defs)
  then have wiz: "try_get_one as_bool ''wizard'' m = Ok (Some False)" using assms(2) by simp
  obtain args where args: "gather_publish_args m = Ok args"
    using ok by (auto simp: handle_publish_command_def get_expect_Ok [OF wiz] and_then_Ok_iff)
  then obtain x y where x: "get_one as_strings ''cids'' m = (Ok x :: (cli_error, string list option) outcome)"
      and y: "get_expect as_string ''author'' ''required or default'' m = (Ok y :: (cli_error, string) outcome)"
    unfolding gather_publish_args_def by (auto simp: obind_Ok_iff)
  have given: "if am_given m i then \<exists>x. try_get_one as_string i m = Ok (Some x) else am_values m i = None"
    if "i = ''cids'' \<and> a = cids_arg \<or> i = ''author'' \<and> a = author_arg" for i a
    by (rule given_values [OF conforms_arg [OF assms(1), of a]]) (use that mem in \<open>auto simp: default_texts_def arg_defs\<close>)
  show False using assms(3)
  proof
    assume "am_given m ''cids''"
    then show False using x given [of "''cids''" cids_arg]
      by (auto simp: get_one_def try_get_one_def as_strings_def split: option.splits list.splits)
  next
    assume "\<not> am_given m ''author''"
    then show False using y given [of "''author''" author_arg] by (simp add: get_expect_def get_one_def try_get_one_def)
  qed
qed

section \<open>Commands without a key\<close>

lemma get_one_calm: "try_get_one as i m = Ok x \<Longrightarrow> panics_in S (get_one as i m)"
  by (simp add: get_one_Ok)

lemma on_fs_calm: "panics_in S (snd (f (cl_fs c))) \<Longrightarrow> msg \<in> S \<Longrightarrow> panics_in S (snd (on_fs f msg c))"
  by (auto simp: on_fs_def split: prod.split intro!: panics_in_expect)

lemma fs_calm [simp]:
  "panics_in S (snd (create_dir_all os p fs))" "panics_in S (snd (open_truncate os p fs))" "panics_in S (snd (write_all os p b fs))"
  by (auto simp: create_dir_all_def open_truncate_def write_all_def split: prod.split option.split node.split)

text \<open>Making a wallet reports everything that goes wrong by a panic, and nothing about its arguments.\<close>

definition new_wallet_panics :: "arg_matches \<Rightarrow> string set" where
  "new_wallet_panics m = {''Unable to acquire WalletInfo'', ''unwrap''} \<union>
     (if am_given m ''save'' then
        {''dir has no parent'', ''unable to create directory for keyfile'', ''file cant be opened'', ''file should exist'',
         ''keypair file has been corrupted'', ''unable to open file to write WalletInfo'', ''unable to serialize wallet info'',
         ''unable to write wallet info to file''}
      else {})"

lemma new_wallet_texts:
  "''Unable to acquire WalletInfo'' \<in> new_wallet_panics m" "''unwrap'' \<in> new_wallet_panics m"
  "am_given m ''save'' \<Longrightarrow>
     {''dir has no parent'', ''unable to create directory for keyfile'', ''file cant be opened'', ''file should exist'',
      ''keypair file has been corrupted'', ''unable to open file to write WalletInfo'', ''unable to serialize wallet info'',
      ''unable to write wallet info to file''} \<subseteq> new_wallet_panics m"
  by (simp_all add: new_wallet_panics_def)

lemma new_wallet_declared:
  assumes "conforms hx uc new_wallet_command m"
  shows "panics_in S (get_one as_u128 ''seed'' m)" "panics_in S (get_one as_string ''passphrase'' m)"
    "panics_in S (get_one as_usize ''mnemonic-size'' m)" "panics_in S (get_one as_bool ''keypair-json'' m)"
    "panics_in S (get_expect as_string ''path'' msg m)" "panics_in S (get_expect as_bool ''overwrite'' msg m)"
    "get_one as_bool ''save'' m = Ok (Some (am_given m ''save''))"
proof -
  note d = declared [OF assms]
  show "panics_in S (get_one as_u128 ''seed'' m)"
    by (rule d(1) [OF value_parser_types(5), where a = "set_required False seed_arg"])
      (simp_all add: new_wallet_command_def set_required_def arg_defs)
  show "panics_in S (get_one as_string ''passphrase'' m)"
    by (rule d(1) [OF value_parser_types(1), where a = "set_required False passphrase_arg"])
      (simp_all add: new_wallet_command_def set_required_def arg_defs)
  show "panics_in S (get_one as_usize ''mnemonic-size'' m)"
    by (rule d(1) [OF value_parser_types(3), where a = "set_required False mnemonic_size_arg"])
      (simp_all add: new_wallet_command_def set_required_def arg_defs)
  show "panics_in S (get_one as_bool ''keypair-json'' m)"
    by (rule d(1) [OF value_parser_types(2), where a = "set_required False keypair_json_arg"])
      (simp_all add: new_wallet_command_def set_required_def arg_defs)
  show "panics_in S (get_expect as_string ''path'' msg m)"
    by (rule d(2) [OF value_parser_types(1), where a = "set_required False keyfile_path_arg"])
      (simp_all add: new_wallet_command_def set_required_def arg_defs always_there_def default_texts_def)
  show "panics_in S (get_expect as_bool ''overwrite'' msg m)"
    by (rule d(2) [OF value_parser_types(2), where a = "set_required False overwrite_path_arg"])
      (simp_all add: new_wallet_command_def set_required_def arg_defs always_there_def default_texts_def)
  show "get_one as_bool ''save'' m = Ok (Some (am_given m ''save''))"
    by (rule get_one_Ok, rule flag_conforms [OF conforms_arg [OF assms, of "set_required False save_to_file_arg"]])
      (simp_all add: new_wallet_command_def set_required_def arg_defs)
qed

lemma existing_wallets_panics:
  assumes "calm_env env" and "am_given m ''save''"
  shows "panics_in (new_wallet_panics m) (existing_wallets env path fs)"
  using assms(2)
  by (auto simp: existing_wallets_def new_wallet_panics_def calm_envD [OF assms(1)] intro!: panics_in_obind panics_in_expect)

lemma save_wallet_panics:
  assumes "calm_env env" and "conforms hx uc new_wallet_command m" and "am_given m ''save''"
  shows "panics_in (new_wallet_panics m) (snd (save_wallet env m wi c))"
  unfolding save_wallet_def Let_def
  by (intro panics_in_and_then)
    (use new_wallet_texts(3) [OF assms(3)] in \<open>auto simp: new_wallet_declared [OF assms(2)] existing_wallets_panics [OF assms(1,3)]
       calm_envD [OF assms(1)] intro!: on_fs_calm panics_in_expect panics_in_or_panic\<close>)

lemma get_info_calm: "calm_env env \<Longrightarrow> panics_in S (get_info cr (we_keys (cx_wallet env)) r e seed pp n)"
  by (auto simp: get_info_def Let_def calm_envD intro!: panics_in_obind)

lemma new_wallet_command_panics:
  assumes "calm_env env" and "conforms hx uc new_wallet_command m"
  shows "panics_in (new_wallet_panics m) (snd (handle_new_wallet_command env m c))"
proof -
  have pk: "panics_in (new_wallet_panics m) (snd (pretty_print_keypair_info env wi c))" for wi c
    unfolding pretty_print_keypair_info_def
    by (intro panics_in_and_then) (auto simp: calm_envD [OF assms(1)] new_wallet_panics_def intro!: panics_in_expect)
  have gi: "panics_in (new_wallet_panics m) (expect ''Unable to acquire WalletInfo'' (get_info cr (we_keys (cx_wallet env)) r e seed pp n))"
    for cr r e seed pp n
    by (rule panics_in_expect [OF get_info_calm [OF assms(1)]]) (simp add: new_wallet_panics_def)
  show ?thesis unfolding handle_new_wallet_command_def
    by (intro panics_in_and_then)
      (use assms in \<open>auto simp: new_wallet_declared [OF assms(2)] gi pk pretty_print_wallet_info_def intro!: save_wallet_panics
         split: option.split\<close>)
qed

text \<open>The commands that look up an account or show parsed text: the text they need is declared as optional.\<close>

lemma optional_text:
  assumes "conforms hx uc cmd m" and "a \<in> set (cmd_args cmd)" and "i = ''address'' \<and> a = address_arg \<or> i = ''json'' \<and> a = json_arg"
  shows "if am_given m i then \<exists>x. \<forall>msg. get_expect as_string i msg m = (Ok x :: (cli_error, string) outcome)
    else \<forall>msg. get_expect as_string i msg m = (Panic msg :: (cli_error, string) outcome)"
proof -
  have "if am_given m i then \<exists>x. try_get_one as_string i m = Ok (Some x) else am_values m i = None"
    by (rule given_values [OF conforms_arg [OF assms(1,2)]]) (use assms(3) in \<open>auto simp: default_texts_def arg_defs\<close>)
  then show ?thesis by (auto simp: get_expect_Ok get_expect_def get_one_def try_get_one_def split: if_splits)
qed

definition outputs_panics :: "arg_matches \<Rightarrow> string set" where
  "outputs_panics m =
     (if am_given m ''from-file'' then
        {''unable to open json file'', ''unable to read json file contents to string''} \<union>
        (if am_given m ''json'' then {} else {''unable to acquire json filepath''})
      else if am_given m ''json'' then {} else {''unable to acquire json from command line''})"

lemma read_to_string_calm [simp]: "panics_in S (read_to_string os p fs)"
  by (simp add: read_to_string_def panics_in_obind)

lemma get_account_panics:
  assumes "calm_env env" and "conforms hx uc get_account_command m"
  shows "panics_in (if am_given m ''address'' then {} else {''address is required''}) (snd (handle_get_account_command env m c))"
    and "\<not> am_given m ''address'' \<Longrightarrow> handle_get_account_command env m c = (c, Panic ''address is required'')"
proof -
  note a = optional_text [OF assms(2), of address_arg "''address''"]
  have acc: "panics_in {} (snd (case we_get_account (cx_wallet env) x n of (n, r) \<Rightarrow> and_then (g n, map_err CE_Client r) f))"
    if "\<And>c a. panics_in {} (snd (f c a))" for x n g and f :: "'a cli \<Rightarrow> string \<Rightarrow> ('a, unit) cli_result"
    using calm_envD(15) [OF assms(1), of "{}" x n] that by (auto split: prod.split intro!: panics_in_and_then)
  show "panics_in (if am_given m ''address'' then {} else {''address is required''}) (snd (handle_get_account_command env m c))"
    using a
    by (auto simp: get_account_command_def handle_get_account_command_def get_client_def calm_envD [OF assms(1)] intro!: panics_in_and_then acc)
  show "\<not> am_given m ''address'' \<Longrightarrow> handle_get_account_command env m c = (c, Panic ''address is required'')"
    using a by (simp add: get_account_command_def handle_get_account_command_def)
qed

lemma parse_outputs_panics:
  assumes "calm_env env" and "conforms hx uc parse_outputs m"
  shows "panics_in (outputs_panics m) (snd (handle_parse_outputs_command env m c))"
    and "\<not> am_given m ''json'' \<Longrightarrow> handle_parse_outputs_command env m c =
      (c, Panic (if am_given m ''from-file'' then ''unable to acquire json filepath'' else ''unable to acquire json from command line''))"
proof -
  have mem: "from_json_file_arg \<in> set (cmd_args parse_outputs)" "json_arg \<in> set (cmd_args parse_outputs)"
    by (simp_all add: parse_outputs_def)
  note j = optional_text [OF assms(2) mem(2), of "''json''"]
  have "try_get_one as_bool ''from-file'' m = Ok (Some (am_given m ''from-file''))"
    by (rule flag_conforms [OF conforms_arg [OF assms(2) mem(1)]]) (simp_all add: arg_defs)
  note f = get_one_Ok [OF this]
  show "panics_in (outputs_panics m) (snd (handle_parse_outputs_command env m c))" using j
    by (auto simp: handle_parse_outputs_command_def f outputs_panics_def calm_envD [OF assms(1)]
        intro!: panics_in_and_then panics_in_expect)
  assume "\<not> am_given m ''json''"
  then show "handle_parse_outputs_command env m c =
      (c, Panic (if am_given m ''from-file'' then ''unable to acquire json filepath'' else ''unable to acquire json from command line''))"
    using j by (simp add: handle_parse_outputs_command_def f)
qed

lemma parse_transaction_panics:
  assumes "calm_env env" and "conforms hx uc parse_transaction m"
  shows "panics_in (if am_given m ''json'' then {} else {''unable to acquire json from command line''})
      (snd (handle_parse_transaction_command env m c))"
    and "\<not> am_given m ''json'' \<Longrightarrow>
      handle_parse_transaction_command env m c = (c, Panic ''unable to acquire json from command line'')"
proof -
  note a = optional_text [OF assms(2), of json_arg "''json''"]
  show "panics_in (if am_given m ''json'' then {} else {''unable to acquire json from command line''})
      (snd (handle_parse_transaction_command env m c))" using a
    by (auto simp: parse_transaction_def handle_parse_transaction_command_def calm_envD [OF assms(1)] intro!: panics_in_and_then)
  show "\<not> am_given m ''json'' \<Longrightarrow>
      handle_parse_transaction_command env m c = (c, Panic ''unable to acquire json from command line'')"
    using a by (simp add: parse_transaction_def handle_parse_transaction_command_def)
qed

lemma collect_results_calm: "(\<And>x. panics_in S (f x)) \<Longrightarrow> panics_in S (collect_results f xs)"
  by (induction xs) (simp_all add: panics_in_obind)

lemma printing_calm:
  assumes "calm_env env"
  shows "panics_in S (snd (handle_default_transaction env c))" "panics_in S (snd (handle_hex_or_bytes_command env hx c))"
    "panics_in S (snd (handle_instruction_command env c))"
proof -
  have p: "panics_in S (snd (print_debug r c))" if "panics_in S r" for r and c :: "'a cli"
    unfolding print_debug_def using that by (auto intro!: panics_in_and_then)
  show "panics_in S (snd (handle_default_transaction env c))" "panics_in S (snd (handle_hex_or_bytes_command env hx c))"
    by (auto simp: handle_default_transaction_def handle_hex_or_bytes_command_def calm_envD [OF assms] intro!: p panics_in_and_then)
  have "panics_in S (collect_results (cx_instruction_json env) is)" for "is"
    by (rule collect_results_calm) (rule calm_envD [OF assms])
  then show "panics_in S (snd (handle_instruction_command env c))"
    unfolding handle_instruction_command_def by (intro panics_in_and_then) (simp_all del: collect_results.simps)
qed

text \<open>Without any source of a key the commands that sign do not get past the key.\<close>

definition names_key :: "arg_matches \<Rightarrow> bool" where
  "names_key m \<longleftrightarrow> am_given m ''from-file'' \<or> am_given m ''from-mnemonic'' \<or> am_given m ''secret-key''"

lemma no_key_panics:
  assumes "cmd \<in> set key_commands" and "conforms hx uc cmd m" and "\<not> names_key m"
  shows "get_keypair env m c = (c, Panic ''required if from-secret-key flag'')"
    and "get_wallet env m c = (c, Panic ''required if from-secret-key flag'')"
proof -
  note key = key_flags [OF assms(1,2)] key_values [OF assms(1,2)]
  have f: "get_flag ''from-file'' m = Ok False" "get_flag ''from-mnemonic'' m = Ok False"
      "get_flag ''from-secret-key'' m = Ok (am_given m ''from-secret-key'')"
    using assms(3) by (auto simp: names_key_def intro!: get_flag_Ok key(1) [THEN trans])
  have a: "secret_key_arg \<in> set (cmd_args cmd)"
    using assms(1) by (auto simp: key_commands_def send_command_def call_command_def register_program_command_def sign_command_def
        publish_command_def)
  have "if am_given m ''secret-key'' then \<exists>x. try_get_one as_string ''secret-key'' m = Ok (Some x) else am_values m ''secret-key'' = None"
    by (rule given_values [OF conforms_arg [OF assms(2) a]]) (simp_all add: default_texts_def arg_defs)
  then have "am_values m ''secret-key'' = None" using assms(3) by (simp add: names_key_def)
  then show "get_keypair env m c = (c, Panic ''required if from-secret-key flag'')"
    by (simp add: get_keypair_def f keypair_from_secret_key_def Let_def get_expect_def get_one_def try_get_one_def)
  then show "get_wallet env m c = (c, Panic ''required if from-secret-key flag'')" by (simp add: get_wallet_def)
qed

section \<open>All commands\<close>

text \<open>The declaration that clap checks a command line against.\<close>

definition declared_command :: "string \<Rightarrow> string option \<Rightarrow> command option" where
  "declared_command cmd subcmd =
     (case find (\<lambda>d. cmd_name d = cmd) main_commands of
        Some d \<Rightarrow>
          (case subcmd of
             Some s \<Rightarrow> find (\<lambda>d. cmd_name d = s) (cmd_subcommands d)
           | None \<Rightarrow> if cmd_subcommands d = [] then Some d else None)
      | None \<Rightarrow> None)"

text \<open>The panics a command can end with, and the one it does end with when an argument it reads is not given.\<close>

definition command_panics :: "string \<Rightarrow> arg_matches \<Rightarrow> string set" where
  "command_panics n m =
     (if n = ''publish'' then publish_panics m
      else if n \<in> {''send'', ''call'', ''register-program'', ''sign''} then run_panics m
      else if n = ''new'' then new_wallet_panics m
      else if n = ''get-account'' then (if am_given m ''address'' then {} else {''address is required''})
      else if n = ''parse-outputs'' then outputs_panics m
      else if n = ''parse-transaction'' then (if am_given m ''json'' then {} else {''unable to acquire json from command line''})
      else {})"

definition missing_argument :: "string \<Rightarrow> arg_matches \<Rightarrow> string option" where
  "missing_argument n m =
     (if n \<in> {''send'', ''call'', ''register-program'', ''sign''} \<or> n = ''publish'' \<and> \<not> am_given m ''wizard'' then
        (if names_key m then None else Some ''required if from-secret-key flag'')
      else if n = ''get-account'' \<and> \<not> am_given m ''address'' then Some ''address is required''
      else if n = ''parse-outputs'' \<and> \<not> am_given m ''json'' then
        Some (if am_given m ''from-file'' then ''unable to acquire json filepath'' else ''unable to acquire json from command line'')
      else if n = ''parse-transaction'' \<and> \<not> am_given m ''json'' then Some ''unable to acquire json from command line''
      else None)"

lemma cmd_names [simp]:
  "cmd_name new_wallet_command = ''new''" "cmd_name from_mnemonic_command = ''mnemonic''" "cmd_name from_secret_key_command = ''secret-key''"
  "cmd_name send_command = ''send''" "cmd_name call_command = ''call''" "cmd_name register_program_command = ''register-program''"
  "cmd_name get_account_command = ''get-account''" "cmd_name sign_command = ''sign''" "cmd_name parse_outputs = ''parse-outputs''"
  "cmd_name parse_transaction = ''parse-transaction''" "cmd_name get_default_transaction = ''default-transaction''"
  "cmd_name hex_or_bytes_command = ''hex-or-bytes''" "cmd_name instruction_command = ''instruction''" "cmd_name publish_command = ''publish''"
  by (simp_all add: new_wallet_command_def from_mnemonic_command_def from_secret_key_command_def send_command_def call_command_def
      register_program_command_def get_account_command_def sign_command_def parse_outputs_def parse_transaction_def
      get_default_transaction_def hex_or_bytes_command_def instruction_command_def publish_command_def)

lemma declared_command_cases:
  assumes "declared_command cmd subcmd = Some d"
  shows "(cmd, subcmd, d) \<in>
    {(''wallet'', Some ''new'', new_wallet_command), (''wallet'', Some ''mnemonic'', from_mnemonic_command),
     (''wallet'', Some ''secret-key'', from_secret_key_command), (''wallet'', Some ''send'', send_command),
     (''wallet'', Some ''call'', call_command), (''wallet'', Some ''register-program'', register_program_command),
     (''wallet'', Some ''get-account'', get_account_command), (''wallet'', Some ''sign'', sign_command),
     (''parse-outputs'', None, parse_outputs), (''parse-transaction'', None, parse_transaction),
     (''default-transaction'', None, get_default_transaction), (''hex-or-bytes'', None, hex_or_bytes_command),
     (''instruction'', None, instruction_command), (''publish'', None, publish_command)}"
proof -
  have w: "cmd_name wallet_command = ''wallet''" "cmd_subcommands wallet_command =
      [new_wallet_command, from_mnemonic_command, from_secret_key_command, send_command, call_command,
       register_program_command, get_account_command, sign_command]" by (simp_all add: wallet_command_def)
  have n: "cmd_subcommands parse_outputs = []" "cmd_subcommands parse_transaction = []" "cmd_subcommands get_default_transaction = []"
      "cmd_subcommands hex_or_bytes_command = []" "cmd_subcommands instruction_command = []" "cmd_subcommands publish_command = []"
    by (simp_all add: parse_outputs_def parse_transaction_def get_default_transaction_def hex_or_bytes_command_def
        instruction_command_def publish_command_def)
  show ?thesis using assms
    by (auto simp: declared_command_def main_commands_def w n split: option.splits if_splits)
qed

lemma missing_argument_panics:
  assumes "calm_env env" and "declared_command cmd subcmd = Some d" and "conforms hx uc d m" and "missing_argument (cmd_name d) m = Some t"
  shows "snd (cli_main env hx cmd subcmd m c) = Panic t"
proof -
  have wiz: "get_expect as_bool ''wizard'' msg m = Ok False" if "conforms hx uc publish_command m" "\<not> am_given m ''wizard''" for msg
  proof -
    have "try_get_one as_bool ''wizard'' m = Ok (Some (am_given m ''wizard''))"
      by (rule flag_conforms [OF conforms_arg [OF that(1), of wizard_arg]]) (simp_all add: arg_defs publish_command_def)
    then show ?thesis using that(2) by (simp add: get_expect_Ok)
  qed
  have ver: "get_expect as_bool ''verbose'' msg m = Ok (am_given m ''verbose'')" if "conforms hx uc register_program_command m" for msg
    by (rule get_expect_Ok, rule key_flags(1) [OF _ that]) (simp_all add: key_commands_def)
  have key: "get_keypair env m c = (c, Panic ''required if from-secret-key flag'')"
      "get_wallet env m c = (c, Panic ''required if from-secret-key flag'')"
    if "d \<in> set key_commands" "\<not> names_key m" for c :: "'a cli"
    by (rule no_key_panics [OF that(1) assms(3) that(2)])+
  note gone = get_account_panics(2) [OF assms(1), of hx uc m] parse_outputs_panics(2) [OF assms(1), of hx uc m]
    parse_transaction_panics(2) [OF assms(1), of hx uc m]
  show ?thesis using declared_command_cases [OF assms(2)] assms(3,4) key
    by (elim insertE emptyE)
      (simp_all add: missing_argument_def cli_main_def key_commands_def handle_send_command_def handle_call_command_def
        cli_handle_register_program_def handle_sign_command_def handle_publish_command_def wiz ver gone Let_def split: if_splits)
qed


section \<open>Witness\<close>

text \<open>A package without an author, and a text that is to be parsed but is not given.\<close>

definition sample_no_author :: arg_matches where
  "sample_no_author =
     \<lparr>am_values = (am_values sample_publish)(''author'' := None),
      am_given = (\<lambda>i. i \<in> {''from-secret-key'', ''secret-key'', ''package-path'', ''name'', ''local''})\<rparr>"


end
