(* ===== verification/Spec2Isabelle.thy ===== *)
theory Spec2Isabelle
  imports Deposit_Theorems Settlement_Model Supervision_Model Cli_Panics
begin

text \<open>
  A verification development of LASR, a layer-two node that keeps accounts and tokens, runs
  programs in containers, and stores its state in batches on a data-availability layer that are
  settled on a chain.

  \<^bold>\<open>The program and its parts.\<close> The node is a set of actors that exchange messages. A client's
  request enters through the RPC server and goes to the scheduler, which keeps the client's reply
  port under the hash of the transaction and hands the request to the engine. The engine passes a
  send, and one transaction per bridge event of the chain, to the pending transactions, a call to
  the executor, and a registration to the executor. The executor records a call as pending, runs
  the program's container when the pending transactions say so, and sends the output back through
  the engine. The pending transactions pass every transaction to the validator, the validator
  passes what it accepts to the batcher, and the batcher applies it to the accounts in the account
  cache, files the changed accounts and the transaction in a batch, and reports to the scheduler,
  which answers the client, and to the pending transactions. On a timer the batcher writes the
  oldest batch to the store, hands it to the data-availability client, and settles it when its proof
  arrives. A listener reads the blocks of the chain and gives the engine the bridge events and the
  batcher the blobs that were settled. A manager keeps the actors' handles and restarts an actor that
  panicked when its supervisor says so; the futures an actor leaves in its pool are run by a loop of
  the node. Outside the node, a command line keeps keys in a file, publishes packages to a content
  store, and drives a wallet that builds and signs requests and sends them to the RPC server. The
  bundler of the node lays out the directories of a program's container and unpacks published packages
  there.

  \<^bold>\<open>Theories and sources\<close> (paths under src/crates).

  \<^item> \<open>Lasr_Prelude\<close>: machine integers, outcomes (a value, an error or a panic), mutators that return
    the new object beside their outcome, hash maps with an iteration order as a parameter, lists.
  \<^item> \<open>Address_Model\<close> (types/src/account.rs): addresses, their text forms and parsers.
  \<^item> \<open>Token_Model\<close> (types/src/token.rs): 256-bit integers as text, tokens and their updates.
  \<^item> \<open>Transaction_Model\<close> (types/src/transaction.rs, signing.rs): transactions, hashing, signatures, and
    the application of a transaction to a token.
  \<^item> \<open>Program_Model\<close> (types/src/programming_model.rs): instructions, their builders, the accounts they
    involve, schemas.
  \<^item> \<open>Account_Model\<close> (types/src/account.rs): accounts, the application of sends and instructions, and
    the checks the validator uses.
  \<^item> \<open>Account_Cache\<close> (actors/src/account_cache.rs, helpers.rs): the cache in front of the store, with the
    locale \<open>account_store\<close> that its clients rely on.
  \<^item> \<open>Messages_Model\<close> (messages/src, contract/src/helpers.rs): actor names, messages, error texts,
    program ids.
  \<^item> \<open>Validator_Model\<close> (actors/src/validator.rs), \<open>Pending_Model\<close> (actors/src/pending_transactions.rs),
    \<open>Scheduler_Model\<close> (actors/src/scheduler.rs), \<open>Engine_Model\<close> (actors/src/engine.rs),
    \<open>Executor_Model\<close> (actors/src/executor.rs and \<open>run_container\<close> of compute/src/compute.rs),
    \<open>Rpc_Model\<close> (actors/src/rpc_server.rs and the response handlers of actors/src/helpers.rs): one
    actor each, with one function per message and the whole handler as \<open>.._handle\<close>.
  \<^item> \<open>Batch_Model\<close>, \<open>Batcher_Model\<close>, \<open>Batcher_Theorems\<close> (actors/src/batcher.rs): batches with their
    encoding and capacity (locale \<open>batch_insertion\<close>, interpreted for transactions and for accounts),
    the batcher's operations on a world of cache, store, batches and sent messages, and what they
    achieve.
  \<^item> \<open>System_Model\<close>, \<open>System_Theorems\<close>: the node as a transition system over the handlers above, with
    messages in flight delivered in any order or lost, and what holds of it as a whole. The futures of
    four of the actors run in one loop: after a panic of one of them (\<open>sy_futures\<close> is False) the messages
    that leave their work to a future are taken and nothing is done. \<open>at_rest\<close> says that nothing is
    in flight and the loop runs.
  \<^item> \<open>Listener_Model\<close>, \<open>Listener_Theorems\<close> (eo_listener/src/lib.rs, eo_contract_abi.rs, actors/src/eo_server.rs):
    the listener's cursors and loop, the contract's interface, and the server that decodes logs into
    events; \<open>Deposit_Theorems\<close> joins them to the node.
  \<^item> \<open>Settlement_Model\<close> (actors/src/eo_client.rs, da_client.rs, blob_cache.rs): the clients of the chain and
    of the data-availability layer, with their waits and retries.
  \<^item> \<open>Supervision_Model\<close> (actors/src/manager.rs, the supervisors of the actors, the loops of
    node/src/main.rs): restarts, recovered futures, pools.
  \<^item> \<open>Wallet_Model\<close>, \<open>Wallet_Theorems\<close> (wallet/src/wallet.rs): the wallet's requests, and a send from
    the wallet to the answer of the node.
  \<^item> \<open>File_Model\<close>: directories, files and symbolic links as the standard library uses them.
  \<^item> \<open>Package_Model\<close> (compute/src/package.rs), \<open>Bundle_Model\<close>, \<open>Bundle_Theorems\<close>
    (compute/src/compute.rs): packages and their builders, the layout of container bundles, and the
    unpacking of a package into one.
  \<^item> \<open>Cli_Args\<close>, \<open>Cli_Model\<close>, \<open>Cli_Theorems\<close>, \<open>Cli_Panics\<close> (cli/src/cli.rs): the arguments and commands
    of the command line as data, the matches clap makes of them, the handlers of the commands on the
    file system, the output and the node, what they achieve, and which panics they have.

  \<^bold>\<open>State and effects.\<close> A struct is a record, an enum a datatype, U256 a 256-bit word whose checked
  operators panic where the result does not fit. A handler takes the actor's state and returns the
  new state and the list of messages it sends, in order. A message is sent when the receiver's
  name is registered and the cast succeeds; both are parameters (record \<open>registry\<close>), so the branches
  for missing actors are in the model. A batcher operation returns None when it does not return,
  which only the search for a batch can do: its loop is a \<open>partial_function (option)\<close>, and
  \<open>add_transaction_to_batch_first_fit\<close> says exactly when it returns. \<open>drain\<close> of the node takes a number of
  deliveries; the theorems about it state that some number suffices.

  \<^bold>\<open>Parameters.\<close> Code that is not part of the repository is an argument: keccak, secp256k1 and ethers
  (record \<open>crypto\<close>), the hex crate (\<open>hex_crate\<close> with \<open>hex_laws\<close>), JSON, zlib, padding and base64
  (\<open>batch_codec\<close>), the store's serialisation (\<open>cache_env\<close>), the file system, the container runtime and the
  content store (\<open>container_io\<close>, \<open>executor_env\<close>), clocks, and the iteration orders of hash maps. What
  is used of them is a hypothesis of the theorem that uses it, and its witness instantiates it. The
  listener's and the clients' connections, the wallet's keys and its RPC client (\<open>key_ops\<close>,
  \<open>wallet_env\<close>), the content store and the processes the bundler starts (\<open>compute_env\<close>) and the operating
  system's refusals (\<open>os\<close>) are such arguments too, and so are the crates of the command line
  (\<open>cli_env\<close>, \<open>uint_crate\<close>); of clap's parser only its promise is used (\<open>conforms\<close>). The files of a directory
  are those that \<open>WalkDir\<close> returns (\<open>cx_walk\<close>), and that the content store gives back what was stored under an
  id is a hypothesis. Where a wait polls until an outside party answers
  (\<open>poll_blob_status\<close>, \<open>wait_receipt\<close>) the loop is a \<open>partial_function (option)\<close> over the sequence of
  answers. The futures' pools are sets that are polled in the order of wake-ups; what a poll does and
  the wake-ups are parameters (\<open>next_future\<close>), and a wait whose wake-ups run out is stuck.

  \<^bold>\<open>What the theorems show.\<close>

  \<^item> The node: a valid send is carried from the client's request to its answer with exactly its value
    moved; a deposit is applied at most once over all interleavings, registrations apart; a client can
    forge a deposit.
  \<^item> The batcher: sends and transfers conserve value, failed calls change only a nonce, batches leave in
    order, reach the store durably and are settled as they were stored; placing ends exactly when a
    batch accepts. Theorems on self-transfers, foreign holdings, nonces and capacity state where the
    code does otherwise than it means to.
  \<^item> The validator: exactly which sends, calls, transfers and updates pass, and that a validated
    transfer can be debited.
  \<^item> The pending transactions refine an actor that queues nothing; the account cache refines
    a map over the store, with the two deviations written into the abstract store.
  \<^item> The executor reports a call at most once, and a failed container not at all; the scheduler and the RPC
    server answer a request at most once and only with an answer of its kind.
  \<^item> The chain: a deposit on the chain is credited once when the listener, the server and the node run
    without a restart; which blocks a restarted listener reads again or misses, and that logs the server's
    actor does not take are lost; what the settlement
    client sends again after a failure, and what the wait for a blob's proof returns.
  \<^item> Supervision: a restarted actor is registered under its name with a fresh state, the cache loses
    what it had not written. The loop over the pools runs a future of every pool in each round, in
    whatever order they become ready, as long as they end and are woken; one that panics ends it for all.
  \<^item> The command line, the wallet and the bundler: a send from the command line is carried to its answer with
    value times unit moved, or leaves the node alone when that does not fit or is not held; saved wallets
    are found again, the files walked of a published directory are unpacked as they were,
    all commands agree with the arguments they declare up to listed exceptions, and the paths of a
    package's objects are not confined to its directory.
  \<^item> The data: which texts and encodings are read back, the exact effect of debit and credit, well-formedness of every account operation, arithmetic
    without wrap-around, atomicity of failed sends, signatures and recovery.

  \<^bold>\<open>Abstractions.\<close> In the transition system of the node a future runs to its end when its message is
  delivered; how the pools interleave the polls of futures is in \<open>Supervision_Model\<close>. A handler's reads of
  the account cache see the writes sent before them. Logging is left out. Text that a third-party
  crate adds to an error message is left out or a parameter. Strings are ASCII.

  \<^bold>\<open>Not modelled.\<close> The build of the executor for remote compute, the node's reading of its environment and
  its sockets, logging, and the TiKV store behind the persistence trait.
\<close>

end
